(* ===== verification/Prelude.thy ===== *)
theory Prelude
  imports Main
begin

text \<open>
  Shared vocabulary of the development: relational tables as lists of rows addressed by a key,
  and the lemma collections the component theories fill.

  The backend keeps its state in SQL tables (\<^verbatim>\<open>backend/internal/database\<close>).  A table is the list of
  its rows in insertion order; a \<^verbatim>\<open>SELECT ... WHERE\<close> is \<^const>\<open>filter\<close> or \<^const>\<open>find\<close>, an
  \<^verbatim>\<open>UPDATE\<close> of one row is \<open>tbl_put\<close>, a \<^verbatim>\<open>DELETE\<close> is \<^const>\<open>filter\<close>.
\<close>

named_theorems wp_rules \<open>weakest preconditions of store operations\<close>
named_theorems float_le \<open>order facts of rounded arithmetic\<close>

section \<open>Tables\<close>

text \<open>Replace the row with the same key; rows with other keys and the order of rows stay.\<close>

definition tbl_put :: "('r \<Rightarrow> 'k) \<Rightarrow> 'r \<Rightarrow> 'r list \<Rightarrow> 'r list" where
  "tbl_put key r xs = map (\<lambda>x. if key x = key r then r else x) xs"

text \<open>An upsert: update the row with the same key, or append a new one.\<close>

definition tbl_save :: "('r \<Rightarrow> 'k) \<Rightarrow> 'r \<Rightarrow> 'r list \<Rightarrow> 'r list" where
  "tbl_save key r xs = (if key r \<in> set (map key xs) then tbl_put key r xs else xs @ [r])"

lemma map_key_tbl_put [simp]: "map key (tbl_put key r xs) = map key xs"
  by (simp add: tbl_put_def)

lemma length_tbl_put [simp]: "length (tbl_put key r xs) = length xs"
  by (simp add: tbl_put_def)

lemma tbl_put_notin: "key r \<notin> key ` set xs \<Longrightarrow> tbl_put key r xs = xs"
  by (induction xs) (auto simp: tbl_put_def)

lemma in_tbl_put: "x \<in> set (tbl_put key r xs) \<Longrightarrow> x = r \<or> (x \<in> set xs \<and> key x \<noteq> key r)"
  by (auto simp: tbl_put_def split: if_splits)

lemma set_tbl_put:
  "set (tbl_put key r xs) =
     (if key r \<in> key ` set xs then insert r {x \<in> set xs. key x \<noteq> key r} else set xs)"
  by (auto simp: tbl_put_def image_iff split: if_splits)

lemma filter_tbl_put_other:
  assumes "\<And>x. x \<in> set xs \<Longrightarrow> key x = key r \<Longrightarrow> \<not> P x" and "\<not> P r"
  shows "filter P (tbl_put key r xs) = filter P xs"
  using assms(1) by (induction xs) (auto simp: tbl_put_def assms(2))

lemma set_tbl_save: "set (tbl_save key r xs) \<subseteq> insert r (set xs)"
  by (auto simp: tbl_save_def tbl_put_def)

lemma map_tbl_put_same:
  "(\<And>x. x \<in> set xs \<Longrightarrow> key x = key r \<Longrightarrow> f x = f r) \<Longrightarrow> map f (tbl_put key r xs) = map f xs"
  by (auto simp: tbl_put_def)

lemma distinct_map_put:
  assumes "distinct (map key xs)" "distinct (map f xs)"
    and "\<And>x. x \<in> set xs \<Longrightarrow> key x \<noteq> key r \<Longrightarrow> f x \<noteq> f r"
  shows "distinct (map f (tbl_put key r xs))"
  using assms
proof (induction xs)
  case Nil
  then show ?case by (simp add: tbl_put_def)
next
  case (Cons x xs)
  show ?case
  proof (cases "key x = key r")
    case True
    then have "tbl_put key r xs = xs" using Cons.prems(1) by (intro tbl_put_notin) auto
    then have "tbl_put key r (x # xs) = r # xs" using True by (simp add: tbl_put_def)
    moreover have "f y \<noteq> f r" if "y \<in> set xs" for y
    proof (rule Cons.prems(3))
      show "key y \<noteq> key r" using Cons.prems(1) True that by (auto simp: image_iff)
    qed (simp add: that)
    ultimately have "f r \<notin> f ` set xs" "tbl_put key r (x # xs) = r # xs" by (metis imageE)+
    then show ?thesis using Cons.prems(2) by simp
  next
    case False
    then have "tbl_put key r (x # xs) = x # tbl_put key r xs" by (simp add: tbl_put_def)
    moreover have "f x \<noteq> f r" using Cons.prems(3) False by simp
    ultimately show ?thesis using Cons by (auto dest!: in_tbl_put)
  qed
qed

lemma in_tbl_save:
  "x \<in> set (tbl_save key r xs) \<longleftrightarrow> x = r \<or> (x \<in> set xs \<and> key x \<noteq> key r)"
  by (auto simp: tbl_save_def set_tbl_put image_iff)

lemma distinct_tbl_save:
  "distinct (map key xs) \<Longrightarrow> distinct (map key (tbl_save key r xs))"
  by (auto simp: tbl_save_def)

lemma tbl_save_present [simp]:
  "r' \<in> set xs \<Longrightarrow> key r' = key r \<Longrightarrow> tbl_save key r xs = tbl_put key r xs"
  by (auto simp: tbl_save_def image_iff)

section \<open>Searching\<close>

lemma find_SomeD: "find P xs = Some x \<Longrightarrow> x \<in> set xs \<and> P x"
  by (induction xs) (auto split: if_splits)

lemma find_None_iff_all: "find P xs = None \<longleftrightarrow> (\<forall>x \<in> set xs. \<not> P x)"
  by (induction xs) auto

lemma find_key:
  assumes "distinct (map key xs)" and "x \<in> set xs"
  shows "find (\<lambda>y. key y = key x) xs = Some x"
  using assms by (induction xs) (auto simp: image_iff)

lemma find_unique:
  assumes "x \<in> set xs" "P x" "\<And>y. y \<in> set xs \<Longrightarrow> P y \<Longrightarrow> y = x"
  shows "find P xs = Some x"
proof (cases "find P xs")
  case None
  with assms(1,2) show ?thesis by (simp add: find_None_iff_all)
next
  case (Some y)
  with assms(3) find_SomeD [OF Some] show ?thesis by auto
qed

lemma find_tbl_put:
  "key r \<in> key ` set xs \<Longrightarrow> find (\<lambda>x. key x = key r) (tbl_put key r xs) = Some r"
  by (induction xs) (auto simp: tbl_put_def)

lemma find_tbl_put_other:
  "k \<noteq> key r \<Longrightarrow> find (\<lambda>x. key x = k) (tbl_put key r xs) = find (\<lambda>x. key x = k) xs"
  by (induction xs) (auto simp: tbl_put_def)

lemma distinct_map_filterI [intro]: "distinct (map f xs) \<Longrightarrow> distinct (map f (filter P xs))"
  by (induction xs) auto

lemma distinct_key_eq:
  "distinct (map key xs) \<Longrightarrow> x \<in> set xs \<Longrightarrow> y \<in> set xs \<Longrightarrow> key x = key y \<Longrightarrow> x = y"
  by (auto simp: distinct_map dest: inj_onD)

end
