(* ===== verification/Float64.thy ===== *)
theory Float64
  imports Prelude Complex_Main
begin

text \<open>
  Go's \<^verbatim>\<open>float64\<close>: IEEE 754 binary64 with round-to-nearest, ties-to-even, written over the
  rationals so that every operation is exact arithmetic followed by one rounding and evaluates
  in the simplifier.  A value is NaN, a signed infinity, or a finite rational; \<open>f64\<close> says that the
  finite value is one of the representable ones, and every operation returns such a value.

  Two deliberate limits.  The two zeros are one value: no operation of the modelled code tells
  \<open>-0\<close> from \<open>0\<close> (it would take a division by a zero or \<^verbatim>\<open>math.Signbit\<close>).  Each Go operation
  rounds on its own, as on amd64; the fused multiply-add that Go allows on other targets is not
  modelled.
\<close>

section \<open>Powers of two and rounding\<close>

definition p2 :: "int \<Rightarrow> rat" where
  "p2 k = (if 0 \<le> k then of_int (2 ^ nat k) else 1 / of_int (2 ^ nat (- k)))"

function blen :: "int \<Rightarrow> int" where
  "blen n = (if n \<le> 0 then 0 else 1 + blen (n div 2))"
  by pat_completeness auto
termination
  by (relation "measure nat") auto

declare blen.simps [simp del]

definition log2_floor :: "rat \<Rightarrow> int" where
  "log2_floor x = (case quotient_of x of (n, d) \<Rightarrow>
     let k = blen n - blen d
     in if p2 k \<le> x then k else k - 1)"

definition round_half_even :: "rat \<Rightarrow> int" where
  "round_half_even x =
     (let f = \<lfloor>x\<rfloor>; r = x - of_int f
      in if r < 1 / 2 then f else if 1 / 2 < r then f + 1 else if even f then f else f + 1)"

definition ulp_exp :: "rat \<Rightarrow> int" where
  "ulp_exp x = max (- 1074) (log2_floor \<bar>x\<bar> - 52)"

definition round_mag :: "rat \<Rightarrow> rat" where
  "round_mag x = (if x = 0 then 0
     else of_int (round_half_even (x / p2 (ulp_exp x))) * p2 (ulp_exp x))"

lemma p2_powi: "p2 k = 2 powi k"
  by (simp add: p2_def power_int_def power_one_over)

lemma p2_pos [simp]: "0 < p2 k"
  by (simp add: p2_def)

lemma p2_nonzero [simp]: "p2 k \<noteq> 0"
  using p2_pos [of k] by linarith

lemma p2_add: "p2 (a + b) = p2 a * p2 b"
  by (simp add: p2_powi power_int_add)

lemma p2_mono: "a \<le> b \<Longrightarrow> p2 a \<le> p2 b"
  by (simp add: p2_powi power_int_increasing)

lemma p2_strict_mono: "a < b \<Longrightarrow> p2 a < p2 b"
  by (simp add: p2_powi power_int_strict_increasing)

lemma p2_less_cancel: "p2 a < p2 b \<longleftrightarrow> a < b"
  by (meson p2_mono p2_strict_mono linorder_not_less)

lemma p2_nat: "p2 (int n) = 2 ^ n"
  by (simp add: p2_def)

lemma p2_52: "p2 (e + 52) = p2 e * 2 ^ 52"
  unfolding p2_add by (simp add: p2_def [of 52])

lemma p2_53: "p2 (e + 53) = p2 e * 2 ^ 53"
  unfolding p2_add by (simp add: p2_def [of 53])

lemma blen_bounds: "0 < n \<Longrightarrow> p2 (blen n - 1) \<le> of_int n \<and> of_int n < p2 (blen n)"
proof (induction n rule: blen.induct)
  case (1 n)
  have b: "blen n = 1 + blen (n div 2)"
    using 1(2) by (simp add: blen.simps [of n])
  show ?case
  proof (cases "n = 1")
    case True
    then show ?thesis by (simp add: blen.simps [of 1] blen.simps [of 0] p2_def)
  next
    case False
    with 1 have IH: "p2 (blen (n div 2) - 1) \<le> of_int (n div 2)"
      "of_int (n div 2) < p2 (blen (n div 2))" by auto
    have "p2 (blen n - 1) = 2 * p2 (blen (n div 2) - 1)"
      using p2_add [of 1 "blen (n div 2) - 1"] by (simp add: b p2_def [of 1])
    also have "\<dots> \<le> of_int (2 * (n div 2))" using IH by simp
    also have "\<dots> \<le> of_int n" by (subst of_int_le_iff) simp
    finally have lo: "p2 (blen n - 1) \<le> of_int n" .
    have "of_int (n div 2 + 1) \<le> p2 (blen (n div 2))"
    proof (cases "0 \<le> blen (n div 2)")
      case True
      then have p: "p2 (blen (n div 2)) = of_int (2 ^ nat (blen (n div 2)))" by (simp add: p2_def)
      from IH(2) have "n div 2 < 2 ^ nat (blen (n div 2))" unfolding p of_int_less_iff .
      then show ?thesis unfolding p of_int_le_iff by simp
    next
      case False
      then have "p2 (blen (n div 2)) \<le> p2 0" by (intro p2_mono) simp
      with IH(2) have "of_int (n div 2) < (1 :: rat)" by (simp add: p2_def [of 0])
      then have "n div 2 < 1" by (metis of_int_1 of_int_less_iff)
      with 1(2) False \<open>n \<noteq> 1\<close> show ?thesis by linarith
    qed
    then have "of_int (2 * (n div 2 + 1)) \<le> p2 (blen n)"
      using p2_add [of 1 "blen (n div 2)"] by (simp add: b p2_def [of 1])
    moreover have "of_int n < (of_int (2 * (n div 2 + 1)) :: rat)"
      by (subst of_int_less_iff) simp
    ultimately show ?thesis using lo by linarith
  qed
qed

lemma log2_floor_bounds:
  assumes "0 < x"
  shows "p2 (log2_floor x) \<le> x \<and> x < p2 (log2_floor x + 1)"
proof -
  obtain n d where q: "quotient_of x = (n, d)" by fastforce
  have d: "0 < d" using quotient_of_denom_pos [OF q] .
  have x: "x = of_int n / of_int d" using quotient_of_div [OF q] .
  with assms d have n: "0 < n"
    by (simp add: zero_less_divide_iff)
  define a where "a = blen n"
  define b where "b = blen d"
  have N: "p2 (a - 1) \<le> of_int n \<and> of_int n < p2 a"
    using blen_bounds [OF n] by (simp add: a_def)
  have D: "p2 (b - 1) \<le> of_int d \<and> of_int d < p2 b"
    using blen_bounds [OF d] by (simp add: b_def)
  have dpos: "(0::rat) < of_int d" using d by simp
  have e1: "p2 a = p2 (a - b + 1) * p2 (b - 1)" by (simp flip: p2_add)
  have "of_int n < p2 (a - b + 1) * of_int d"
    using N D e1 mult_left_mono [of "p2 (b - 1)" "of_int d" "p2 (a - b + 1)"]
      less_imp_le [OF p2_pos [of "a - b + 1"]] by linarith
  then have up: "x < p2 (a - b + 1)"
    using x dpos by (simp add: divide_less_eq)
  have e2: "p2 (a - 1) = p2 (a - b - 1) * p2 b" by (simp flip: p2_add)
  have "p2 (a - b - 1) * of_int d \<le> of_int n"
    using N D e2 mult_left_mono [of "of_int d" "p2 b" "p2 (a - b - 1)"]
      less_imp_le [OF p2_pos [of "a - b - 1"]] by linarith
  then have lo: "p2 (a - b - 1) \<le> x"
    using x dpos by (simp add: le_divide_eq)
  show ?thesis
    using up lo by (auto simp: log2_floor_def q a_def [symmetric] b_def [symmetric] Let_def)
qed

lemma log2_floor_unique:
  assumes "0 < x" "p2 e \<le> x" "x < p2 (e + 1)"
  shows "log2_floor x = e"
proof -
  note b = log2_floor_bounds [OF assms(1)]
  have "p2 e < p2 (log2_floor x + 1)" "p2 (log2_floor x) < p2 (e + 1)"
    using b assms by linarith+
  then show ?thesis by (simp add: p2_less_cancel)
qed

lemma log2_floor_mono: "0 < x \<Longrightarrow> x \<le> y \<Longrightarrow> log2_floor x \<le> log2_floor y"
proof -
  assume a: "0 < x" "x \<le> y"
  have "p2 (log2_floor x) < p2 (log2_floor y + 1)"
    using log2_floor_bounds [of x] log2_floor_bounds [of y] a by linarith
  then show ?thesis by (simp add: p2_less_cancel)
qed


subsection \<open>Rounding to the nearest integer, ties to even\<close>

lemma round_half_even_of_int [simp]: "round_half_even (of_int k) = k"
  by (simp add: round_half_even_def)

lemma round_half_even_mono: "x \<le> y \<Longrightarrow> round_half_even x \<le> round_half_even y"
proof -
  assume le: "x \<le> y"
  then have f: "\<lfloor>x\<rfloor> \<le> \<lfloor>y\<rfloor>" by (rule floor_mono)
  show ?thesis
  proof (cases "\<lfloor>x\<rfloor> = \<lfloor>y\<rfloor>")
    case True
    with le show ?thesis by (auto simp: round_half_even_def Let_def)
  next
    case False
    with f have "\<lfloor>x\<rfloor> + 1 \<le> \<lfloor>y\<rfloor>" by simp
    then show ?thesis by (auto simp: round_half_even_def Let_def)
  qed
qed

lemma round_half_even_near: "\<bar>of_int (round_half_even x) - x\<bar> \<le> 1 / 2"
proof -
  have "of_int \<lfloor>x\<rfloor> \<le> x" "x < of_int \<lfloor>x\<rfloor> + 1" by linarith+
  then show ?thesis by (auto simp: round_half_even_def Let_def abs_le_iff)
qed

subsection \<open>Rounding a magnitude to 53 significant bits\<close>

lemma ulp_exp_mono: "0 < x \<Longrightarrow> x \<le> y \<Longrightarrow> ulp_exp x \<le> ulp_exp y"
  using log2_floor_mono [of x y] by (auto simp: ulp_exp_def)

lemma round_mag_zero [simp]: "round_mag 0 = 0"
  by (simp add: round_mag_def)

lemma scaled_upper: "0 < x \<Longrightarrow> x / p2 (ulp_exp x) < 2 ^ 53"
proof -
  assume x: "0 < x"
  have "x < p2 (log2_floor x + 1)" using log2_floor_bounds [OF x] by simp
  also have "\<dots> \<le> p2 (ulp_exp x + 53)"
    using x by (intro p2_mono) (simp add: ulp_exp_def)
  also have "\<dots> = p2 (ulp_exp x) * 2 ^ 53" by (rule p2_53)
  finally show ?thesis by (simp add: divide_less_eq mult.commute)
qed

lemma scaled_lower: "0 < x \<Longrightarrow> - 1074 < ulp_exp x \<Longrightarrow> 2 ^ 52 \<le> x / p2 (ulp_exp x)"
proof -
  assume x: "0 < x" and n: "- 1074 < ulp_exp x"
  then have e: "ulp_exp x + 52 = log2_floor x" by (auto simp: ulp_exp_def max_def split: if_splits)
  have "p2 (ulp_exp x) * 2 ^ 52 = p2 (ulp_exp x + 52)" by (simp add: p2_52)
  also have "\<dots> \<le> x" using log2_floor_bounds [OF x] by (simp add: e)
  finally show ?thesis by (simp add: le_divide_eq mult.commute)
qed

lemma round_mag_mono:
  assumes "0 \<le> x" "x \<le> y"
  shows "round_mag x \<le> round_mag y"
proof -
  consider "x = 0" | "0 < x" "ulp_exp x = ulp_exp y" | "0 < x" "ulp_exp x < ulp_exp y"
    using assms ulp_exp_mono [of x y] by fastforce
  then show ?thesis
  proof cases
    case 1
    have "0 \<le> y" using assms by simp
    then have "round_half_even 0 \<le> round_half_even (y / p2 (ulp_exp y))"
      by (intro round_half_even_mono) (simp add: less_imp_le)
    then have "0 \<le> round_mag y"
      using round_half_even_of_int [of 0] by (simp add: round_mag_def less_imp_le)
    with 1 show ?thesis by simp
  next
    case 2
    have "x / p2 (ulp_exp y) \<le> y / p2 (ulp_exp y)"
      using assms by (simp add: divide_right_mono less_imp_le)
    from round_half_even_mono [OF this] have
      "of_int (round_half_even (x / p2 (ulp_exp y))) * p2 (ulp_exp y)
        \<le> of_int (round_half_even (y / p2 (ulp_exp y))) * p2 (ulp_exp y)"
      by (intro mult_right_mono) (simp_all add: less_imp_le)
    with 2 assms show ?thesis by (simp add: round_mag_def)
  next
    case 3
    have y: "0 < y" using 3 assms by linarith
    have "round_half_even (x / p2 (ulp_exp x)) \<le> round_half_even (of_int (2 ^ 53))"
      by (rule round_half_even_mono) (use scaled_upper [OF 3(1)] in simp)
    then have "round_half_even (x / p2 (ulp_exp x)) \<le> 2 ^ 53"
      by (simp only: round_half_even_of_int)
    then have "of_int (round_half_even (x / p2 (ulp_exp x))) \<le> (2 ^ 53 :: rat)"
      by (metis of_int_le_iff of_int_numeral of_int_power)
    then have "round_mag x \<le> 2 ^ 53 * p2 (ulp_exp x)"
      using 3 by (simp add: round_mag_def mult_right_mono less_imp_le)
    also have "\<dots> = p2 (ulp_exp x + 53)" by (simp add: p2_53)
    also have "\<dots> \<le> p2 (ulp_exp y + 52)" using 3 by (intro p2_mono) simp
    also have "\<dots> = of_int (2 ^ 52) * p2 (ulp_exp y)" by (simp add: p2_52)
    also have "\<dots> \<le> round_mag y"
    proof -
      have "- 1074 \<le> ulp_exp x" by (simp add: ulp_exp_def)
      with 3 have "2 ^ 52 \<le> y / p2 (ulp_exp y)" by (intro scaled_lower [OF y]) simp
      then have "round_half_even (of_int (2 ^ 52)) \<le> round_half_even (y / p2 (ulp_exp y))"
        by (intro round_half_even_mono) simp
      then have "2 ^ 52 \<le> round_half_even (y / p2 (ulp_exp y))"
        by (simp only: round_half_even_of_int)
      then show ?thesis using y
        by (simp add: round_mag_def mult_right_mono less_imp_le del: of_int_power of_int_numeral)
    qed
    finally show ?thesis .
  qed
qed


text \<open>Rounding an already rounded magnitude changes nothing.\<close>

lemma ulp_exp_grid:
  assumes "0 < m" "m < 2 ^ 53" "2 ^ 52 \<le> m \<or> e = - 1074" "- 1074 \<le> e"
  shows "ulp_exp (of_int m * p2 e) = e"
proof -
  let ?x = "of_int m * p2 e :: rat"
  have x: "0 < ?x" using assms by simp
  have "of_int m < (2 ^ 53 :: rat)"
    using assms(2) by (metis of_int_less_iff of_int_numeral of_int_power)
  then have up: "?x < p2 (e + 53)" by (simp add: p2_53 mult.commute)
  have "log2_floor ?x \<le> e + 52"
    using log2_floor_bounds [OF x] up p2_less_cancel [of "log2_floor ?x" "e + 53"] by linarith
  moreover have "e + 52 \<le> log2_floor ?x" if "2 ^ 52 \<le> m"
  proof -
    have "(2 ^ 52 :: rat) \<le> of_int m"
      using that by (metis of_int_le_iff of_int_numeral of_int_power)
    then have "p2 (e + 52) \<le> ?x" by (simp add: p2_52 mult.commute)
    then have "p2 (e + 52) < p2 (log2_floor ?x + 1)" using log2_floor_bounds [OF x] by linarith
    then show ?thesis by (simp add: p2_less_cancel)
  qed
  ultimately show ?thesis using x assms(3,4) by (auto simp: ulp_exp_def)
qed

lemma round_mag_grid:
  assumes "0 \<le> m" "m \<le> 2 ^ 53" "2 ^ 52 \<le> m \<or> e = - 1074" "- 1074 \<le> e"
  shows "round_mag (of_int m * p2 e) = of_int m * p2 e"
proof -
  consider "m = 0" | "0 < m" "m < 2 ^ 53" | "m = 2 ^ 53" using assms(1,2) by linarith
  then show ?thesis
  proof cases
    case 2
    then show ?thesis using ulp_exp_grid [OF 2 assms(3,4)] by (simp add: round_mag_def)
  next
    case 3
    have eq: "of_int m * p2 e = of_int (2 ^ 52) * p2 (e + 1)"
      using 3 by (simp add: p2_add p2_def [of 1])
    have "ulp_exp (of_int (2 ^ 52) * p2 (e + 1)) = e + 1"
      using assms(4) by (intro ulp_exp_grid) simp_all
    then have "round_mag (of_int (2 ^ 52) * p2 (e + 1)) = of_int (2 ^ 52) * p2 (e + 1)"
      by (simp only: round_mag_def) (simp del: of_int_power of_int_numeral)
    then show ?thesis by (simp only: eq)
  qed simp
qed

lemma round_mag_form:
  assumes "0 < x"
  obtains m where "round_mag x = of_int m * p2 (ulp_exp x)" "0 \<le> m" "m \<le> 2 ^ 53"
    "2 ^ 52 \<le> m \<or> ulp_exp x = - 1074"
proof
  let ?m = "round_half_even (x / p2 (ulp_exp x))"
  show "round_mag x = of_int ?m * p2 (ulp_exp x)" using assms by (simp add: round_mag_def)
  have "round_half_even (of_int 0) \<le> ?m"
    using assms by (intro round_half_even_mono) (simp add: less_imp_le)
  then show "0 \<le> ?m" by (simp only: round_half_even_of_int)
  have "?m \<le> round_half_even (of_int (2 ^ 53))"
    using scaled_upper [OF assms] by (intro round_half_even_mono) simp
  then show "?m \<le> 2 ^ 53" by (simp only: round_half_even_of_int)
  show "2 ^ 52 \<le> ?m \<or> ulp_exp x = - 1074"
  proof (cases "ulp_exp x = - 1074")
    case False
    then have "2 ^ 52 \<le> x / p2 (ulp_exp x)"
      by (intro scaled_lower assms) (simp add: ulp_exp_def)
    then have "round_half_even (of_int (2 ^ 52)) \<le> ?m"
      by (intro round_half_even_mono) simp
    then show ?thesis by (simp only: round_half_even_of_int simp_thms)
  qed simp
qed

lemma round_mag_idem: "0 \<le> x \<Longrightarrow> round_mag (round_mag x) = round_mag x"
proof (cases "x = 0")
  case False
  assume "0 \<le> x"
  with False have x: "0 < x" by simp
  obtain m where m: "round_mag x = of_int m * p2 (ulp_exp x)" "0 \<le> m" "m \<le> 2 ^ 53"
    "2 ^ 52 \<le> m \<or> ulp_exp x = - 1074" by (rule round_mag_form [OF x])
  have "- 1074 \<le> ulp_exp x" by (simp add: ulp_exp_def)
  from round_mag_grid [OF m(2-4) this] show ?thesis by (simp add: m(1))
qed simp

lemma round_mag_nonneg: "0 \<le> x \<Longrightarrow> 0 \<le> round_mag x"
  using round_mag_mono [of 0 x] by simp

section \<open>The type of double-precision values\<close>

datatype float64 = NaN | Inf bool | Fin rat

definition overflows :: "rat \<Rightarrow> bool" where
  "overflows r = (0 < r \<and> 1024 \<le> log2_floor r)"

lemma overflows_iff: "overflows r = (p2 1024 \<le> r)"
proof (cases "0 < r")
  case True
  from log2_floor_bounds [OF True] have "(1024 \<le> log2_floor r) = (p2 1024 \<le> r)"
    using p2_mono [of 1024 "log2_floor r"] p2_less_cancel [of 1024 "log2_floor r + 1"] by linarith
  with True show ?thesis by (simp add: overflows_def)
next
  case False
  moreover have "0 < p2 1024" by (rule p2_pos)
  ultimately show ?thesis unfolding overflows_def by linarith
qed

definition fround :: "rat \<Rightarrow> float64" where
  "fround x =
     (let r = round_mag \<bar>x\<bar>
      in if overflows r then Inf (x < 0) else Fin (if x < 0 then - r else r))"

definition f64 :: "float64 \<Rightarrow> bool" where
  "f64 a = (case a of Fin x \<Rightarrow> fround x = Fin x | _ \<Rightarrow> True)"

lemma fround_0 [simp]: "fround 0 = Fin 0"
  by (simp add: fround_def overflows_def)

lemma f64_fround [simp]: "f64 (fround x)"
proof -
  define r where "r = round_mag \<bar>x\<bar>"
  have r: "0 \<le> r" "round_mag r = r" by (simp_all add: r_def round_mag_nonneg round_mag_idem)
  then have "f64 (if overflows r then Inf b else Fin (if c then - r else r))" for b c
    by (auto simp: f64_def fround_def Let_def)
  then show ?thesis by (simp add: fround_def r_def [symmetric] Let_def)
qed

instantiation float64 :: "{zero, one, plus, minus, uminus, times, divide, inverse, ord, abs}"
begin

definition zero_float64 :: float64 where "0 = Fin 0"
definition one_float64 :: float64 where "1 = Fin 1"

fun uminus_float64 :: "float64 \<Rightarrow> float64" where
  "- NaN = NaN"
| "- Inf s = Inf (\<not> s)"
| "- Fin x = Fin (- x)"

fun plus_float64 :: "float64 \<Rightarrow> float64 \<Rightarrow> float64" where
  "NaN + _ = NaN"
| "_ + NaN = NaN"
| "Inf s + Inf t = (if s = t then Inf s else NaN)"
| "Inf s + Fin _ = Inf s"
| "Fin _ + Inf t = Inf t"
| "Fin x + Fin y = fround (x + y)"

definition minus_float64 :: "float64 \<Rightarrow> float64 \<Rightarrow> float64" where
  "a - b = a + (- b :: float64)"

fun times_float64 :: "float64 \<Rightarrow> float64 \<Rightarrow> float64" where
  "NaN * _ = NaN"
| "_ * NaN = NaN"
| "Inf s * Inf t = Inf (s \<noteq> t)"
| "Inf s * Fin y = (if y = 0 then NaN else Inf (s \<noteq> (y < 0)))"
| "Fin x * Inf t = (if x = 0 then NaN else Inf (t \<noteq> (x < 0)))"
| "Fin x * Fin y = fround (x * y)"

fun divide_float64 :: "float64 \<Rightarrow> float64 \<Rightarrow> float64" where
  "divide NaN _ = NaN"
| "divide _ NaN = NaN"
| "divide (Inf _) (Inf _) = NaN"
| "divide (Inf s) (Fin y) = Inf (s \<noteq> (y < 0))"
| "divide (Fin _) (Inf _) = Fin 0"
| "divide (Fin x) (Fin y) =
     (if y = 0 then (if x = 0 then NaN else Inf (x < 0)) else fround (x / y))"

definition inverse_float64 :: "float64 \<Rightarrow> float64" where
  "inverse a = divide 1 (a :: float64)"

fun abs_float64 :: "float64 \<Rightarrow> float64" where
  "abs NaN = NaN"
| "abs (Inf _) = Inf False"
| "abs (Fin x) = Fin \<bar>x\<bar>"

fun less_float64 :: "float64 \<Rightarrow> float64 \<Rightarrow> bool" where
  "NaN < _ = False"
| "_ < NaN = False"
| "(Inf s) < (Inf t) = (s \<and> \<not> t)"
| "(Inf s) < (Fin _) = s"
| "(Fin _) < (Inf t) = (\<not> t)"
| "(Fin x) < (Fin y) = (x < y)"

definition less_eq_float64 :: "float64 \<Rightarrow> float64 \<Rightarrow> bool" where
  "a \<le> b = (a < b \<or> (a = b \<and> a \<noteq> NaN))"

instance ..

end


subsection \<open>Order\<close>

lemma fround_mono: "x \<le> y \<Longrightarrow> fround x \<le> fround y"
proof -
  assume le: "x \<le> y"
  consider "0 \<le> x" | "x < 0" "0 \<le> y" | "x < 0" "y < 0" using le by linarith
  then show ?thesis
  proof cases
    case 1
    then have "round_mag \<bar>x\<bar> \<le> round_mag \<bar>y\<bar>" using le by (intro round_mag_mono) auto
    with 1 le show ?thesis by (auto simp: fround_def Let_def less_eq_float64_def overflows_iff)
  next
    case 2
    have "0 \<le> round_mag \<bar>x\<bar>" "0 \<le> round_mag \<bar>y\<bar>" by (auto intro: round_mag_nonneg)
    with 2 show ?thesis by (auto simp: fround_def Let_def less_eq_float64_def overflows_iff)
  next
    case 3
    then have "round_mag \<bar>y\<bar> \<le> round_mag \<bar>x\<bar>" using le by (intro round_mag_mono) auto
    with 3 show ?thesis by (auto simp: fround_def Let_def less_eq_float64_def overflows_iff)
  qed
qed

lemma fround_uminus: "fround (- x) = - fround x"
proof (cases "x = 0")
  case False
  then show ?thesis by (auto simp: fround_def Let_def)
qed simp

lemma fle_trans: "a \<le> b \<Longrightarrow> b \<le> c \<Longrightarrow> a \<le> (c :: float64)"
  by (cases a; cases b; cases c) (auto simp: less_eq_float64_def)

lemma fle_refl: "a \<noteq> NaN \<Longrightarrow> a \<le> (a :: float64)"
  by (simp add: less_eq_float64_def)

lemma fle_antisym: "a \<le> b \<Longrightarrow> b \<le> a \<Longrightarrow> a = (b :: float64)"
  by (cases a; cases b) (auto simp: less_eq_float64_def)

lemma fless_not_le: "a \<noteq> NaN \<Longrightarrow> b \<noteq> NaN \<Longrightarrow> (a < b) = (\<not> b \<le> (a :: float64))"
  by (cases a; cases b) (auto simp: less_eq_float64_def)

lemma fle_less_trans: "a \<le> b \<Longrightarrow> b < c \<Longrightarrow> a < (c :: float64)"
  by (cases a; cases b; cases c) (auto simp: less_eq_float64_def)

lemma fless_le_trans: "a < b \<Longrightarrow> b \<le> c \<Longrightarrow> a < (c :: float64)"
  by (cases a; cases b; cases c) (auto simp: less_eq_float64_def)

lemma fless_imp_le: "a < b \<Longrightarrow> a \<le> (b :: float64)"
  by (simp add: less_eq_float64_def)

lemma fless_irrefl [simp]: "\<not> a < (a :: float64)"
  by (cases a) auto

lemma fless_asym: "a < b \<Longrightarrow> \<not> b < (a :: float64)"
  by (cases a; cases b) auto

lemma Fin_le [simp]: "(Fin x \<le> Fin y) = (x \<le> y)"
  by (auto simp: less_eq_float64_def)

lemma not_NaN_le: "a \<le> b \<Longrightarrow> a \<noteq> NaN \<and> b \<noteq> (NaN :: float64)"
  by (cases a; cases b) (auto simp: less_eq_float64_def)

lemma not_NaN_less: "a < b \<Longrightarrow> a \<noteq> NaN \<and> b \<noteq> (NaN :: float64)"
  by (cases a; cases b) auto

section \<open>The operations of Go's language and \<^verbatim>\<open>math\<close> package\<close>

text \<open>The operator \<^verbatim>\<open>==\<close>: NaN is not equal to itself.\<close>

definition feq :: "float64 \<Rightarrow> float64 \<Rightarrow> bool" where
  "feq a b = (a = b \<and> a \<noteq> NaN)"

definition IsNaN :: "float64 \<Rightarrow> bool" where
  "IsNaN a = (a = NaN)"

text \<open>\<^verbatim>\<open>math.IsInf(a, 0)\<close>: either infinity.\<close>

definition IsInf :: "float64 \<Rightarrow> bool" where
  "IsInf a = (case a of Inf _ \<Rightarrow> True | _ \<Rightarrow> False)"

definition finite64 :: "float64 \<Rightarrow> bool" where
  "finite64 a = (case a of Fin _ \<Rightarrow> True | _ \<Rightarrow> False)"

text \<open>\<^verbatim>\<open>math.Min\<close>: minus infinity first, then NaN, then the smaller value.\<close>

definition fmin :: "float64 \<Rightarrow> float64 \<Rightarrow> float64" where
  "fmin a b =
     (if a = Inf True \<or> b = Inf True then Inf True
      else if a = NaN \<or> b = NaN then NaN
      else if a < b then a else b)"

text \<open>A numeric literal of the source, rounded once as the compiler does.\<close>

definition lit :: "rat \<Rightarrow> float64" where
  "lit x = fround x"

text \<open>The rational a finite value stands for.\<close>

definition val :: "float64 \<Rightarrow> rat" where
  "val a = (case a of Fin x \<Rightarrow> x | _ \<Rightarrow> 0)"

subsection \<open>Every result is representable\<close>

lemma f64_simps [simp]: "f64 NaN" "f64 (Inf s)" "f64 (0 :: float64)" "f64 (lit x)"
  by (simp_all add: f64_def zero_float64_def lit_def)
    (metis f64_def f64_fround)

lemma f64_Fin: "f64 (Fin x) \<longleftrightarrow> fround x = Fin x"
  by (simp add: f64_def)

lemma f64_uminus [simp]: "f64 (- a) = f64 a"
  by (cases a) (auto simp: f64_Fin fround_uminus, metis fround_uminus minus_minus uminus_float64.simps(3))

lemma f64_add [simp]: "f64 (a + b)" and f64_sub [simp]: "f64 (a - b)"
  and f64_mul [simp]: "f64 (a * b)" and f64_div [simp]: "f64 (a / b)"
proof -
  show add: "f64 (a + b)" for a b by (cases a; cases b) auto
  show "f64 (a - b)" by (simp add: minus_float64_def add)
  show "f64 (a * b)" by (cases a; cases b) auto
  show "f64 (a / b)" by (cases a; cases b) (auto simp: f64_Fin)
qed

lemma f64_abs [simp]: "f64 a \<Longrightarrow> f64 \<bar>a\<bar>"
proof (cases a)
  case (Fin x)
  assume "f64 a"
  with Fin show ?thesis using f64_uminus [of a] by (cases "x < 0") (auto simp: abs_if)
qed auto

lemma finite64_cases: "finite64 a \<longleftrightarrow> (\<exists>x. a = Fin x)"
  by (cases a) (auto simp: finite64_def)

lemma finite64_iff: "finite64 a \<longleftrightarrow> \<not> IsNaN a \<and> \<not> IsInf a"
  by (cases a) (auto simp: finite64_def IsNaN_def IsInf_def)

subsection \<open>Order facts of rounded arithmetic\<close>

lemma fsub_self [simp]: "finite64 a \<Longrightarrow> a - a = (0 :: float64)"
  by (auto simp: finite64_cases minus_float64_def zero_float64_def)

lemma fsub_nonneg [float_le]: "b \<le> a \<Longrightarrow> finite64 b \<Longrightarrow> (0 :: float64) \<le> a - b"
proof -
  assume le: "b \<le> a" and f: "finite64 b"
  then obtain y where b: "b = Fin y" by (auto simp: finite64_cases)
  show ?thesis
  proof (cases a)
    case (Fin x)
    with le b have "0 \<le> x - y" by simp
    from fround_mono [OF this] Fin b show ?thesis by (simp add: minus_float64_def zero_float64_def)
  qed (use le b in \<open>auto simp: less_eq_float64_def minus_float64_def zero_float64_def\<close>)
qed

lemma fsub_le [float_le]: "0 \<le> b \<Longrightarrow> f64 a \<Longrightarrow> finite64 a \<Longrightarrow> a - b \<le> (a :: float64)"
proof -
  assume b: "0 \<le> b" and a: "f64 a" "finite64 a"
  then obtain x where x: "a = Fin x" "fround x = Fin x" by (auto simp: finite64_cases f64_Fin)
  show ?thesis
  proof (cases b)
    case (Fin y)
    with b have "x - y \<le> x" by (simp add: zero_float64_def)
    from fround_mono [OF this] x Fin show ?thesis by (simp add: minus_float64_def)
  qed (use b x in \<open>auto simp: less_eq_float64_def minus_float64_def zero_float64_def\<close>)
qed

lemma fadd_ge [float_le]: "0 \<le> b \<Longrightarrow> f64 a \<Longrightarrow> finite64 a \<Longrightarrow> (a :: float64) \<le> a + b"
proof -
  assume b: "0 \<le> b" and a: "f64 a" "finite64 a"
  then obtain x where x: "a = Fin x" "fround x = Fin x" by (auto simp: finite64_cases f64_Fin)
  show ?thesis
  proof (cases b)
    case (Fin y)
    with b have "x \<le> x + y" by (simp add: zero_float64_def)
    from fround_mono [OF this] x Fin show ?thesis by simp
  qed (use b x in \<open>auto simp: less_eq_float64_def zero_float64_def\<close>)
qed

lemma fmul_le [float_le]:
  "0 \<le> a \<Longrightarrow> 0 \<le> c \<Longrightarrow> c \<le> 1 \<Longrightarrow> f64 a \<Longrightarrow> finite64 a \<Longrightarrow> a * c \<le> (a :: float64)"
proof -
  assume a: "0 \<le> a" "f64 a" "finite64 a" and c: "0 \<le> c" "c \<le> 1"
  then obtain x where x: "a = Fin x" "fround x = Fin x" by (auto simp: finite64_cases f64_Fin)
  from c obtain y where y: "c = Fin y" "0 \<le> y" "y \<le> 1"
    by (cases c) (auto simp: zero_float64_def one_float64_def less_eq_float64_def)
  have "0 \<le> x" using a(1) x by (simp add: zero_float64_def)
  with y have "x * y \<le> x" by (simp add: mult_left_le)
  from fround_mono [OF this] x y show ?thesis by simp
qed

lemma fmul_nonneg [float_le]:
  "0 \<le> a \<Longrightarrow> 0 \<le> c \<Longrightarrow> finite64 a \<Longrightarrow> finite64 c \<Longrightarrow> (0 :: float64) \<le> a * c"
  using fround_mono [of 0 "val a * val c"]
  by (auto simp: finite64_cases zero_float64_def val_def)

lemma fdiv_le_1 [float_le]:
  "0 \<le> a \<Longrightarrow> a \<le> b \<Longrightarrow> 0 < b \<Longrightarrow> finite64 b \<Longrightarrow> a / b \<le> (1 :: float64) \<and> 0 \<le> a / b"
proof -
  assume h: "0 \<le> a" "a \<le> b" "0 < b" "finite64 b"
  then obtain y where y: "b = Fin y" "0 < y" by (auto simp: finite64_cases zero_float64_def)
  with h obtain x where x: "a = Fin x" "0 \<le> x" "x \<le> y"
    by (cases a) (auto simp: zero_float64_def less_eq_float64_def)
  have "x / y \<le> 1" "0 \<le> x / y" using x y by (auto simp: divide_le_eq)
  moreover have "fround 1 = Fin 1" by code_simp
  ultimately show ?thesis
    using fround_mono [of "x / y" 1] fround_mono [of 0 "x / y"] x y
    by (auto simp: zero_float64_def one_float64_def)
qed

lemma not_less_flip: "finite64 a \<Longrightarrow> finite64 b \<Longrightarrow> (\<not> a < b) = (b \<le> (a :: float64))"
  by (auto simp: finite64_cases)

end
