(* ===== verification/GoText.thy ===== *)
theory GoText
  imports Prelude "HOL-Library.Word"
begin

text \<open>
  The parts of Go's \<^verbatim>\<open>strings\<close>, \<^verbatim>\<open>strconv\<close> and \<^verbatim>\<open>encoding/hex\<close> packages the services use, on byte strings
  (\<^typ>\<open>string\<close> is a list of 8-bit characters, as a Go string is a sequence of bytes), and
  \<^verbatim>\<open>backend/internal/id\<close>.

  \<open>TrimSpace\<close> is exact for every byte string: the white-space code points of Unicode are listed
  by their UTF-8 bytes.  \<open>ToLower\<close> and \<open>ToUpper\<close> are exact on ASCII strings; on a string with a
  byte outside ASCII the Unicode case table decides, which is the parameter \<open>uni\<close>.
\<close>

section \<open>White space\<close>

text \<open>The UTF-8 encodings of the code points with Unicode's White\_Space property.\<close>

definition space_runes :: "string list" where
  "space_runes =
     [[CHR 0x09], [CHR 0x0A], [CHR 0x0B], [CHR 0x0C], [CHR 0x0D], [CHR 0x20],
      [CHR 0xC2, CHR 0x85], [CHR 0xC2, CHR 0xA0], [CHR 0xE1, CHR 0x9A, CHR 0x80],
      [CHR 0xE2, CHR 0x80, CHR 0x80], [CHR 0xE2, CHR 0x80, CHR 0x81],
      [CHR 0xE2, CHR 0x80, CHR 0x82], [CHR 0xE2, CHR 0x80, CHR 0x83],
      [CHR 0xE2, CHR 0x80, CHR 0x84], [CHR 0xE2, CHR 0x80, CHR 0x85],
      [CHR 0xE2, CHR 0x80, CHR 0x86], [CHR 0xE2, CHR 0x80, CHR 0x87],
      [CHR 0xE2, CHR 0x80, CHR 0x88], [CHR 0xE2, CHR 0x80, CHR 0x89],
      [CHR 0xE2, CHR 0x80, CHR 0x8A], [CHR 0xE2, CHR 0x80, CHR 0xA8],
      [CHR 0xE2, CHR 0x80, CHR 0xA9], [CHR 0xE2, CHR 0x80, CHR 0xAF],
      [CHR 0xE2, CHR 0x81, CHR 0x9F], [CHR 0xE3, CHR 0x80, CHR 0x80]]"

definition starts_with :: "string \<Rightarrow> string \<Rightarrow> bool" where
  "starts_with p s = (take (length p) s = p)"

text \<open>Drop code points of \<open>rs\<close> from the front for as long as there is one.\<close>

function trim_front :: "string list \<Rightarrow> string \<Rightarrow> string" where
  "trim_front rs s =
     (case find (\<lambda>r. r \<noteq> [] \<and> starts_with r s) rs of
        None \<Rightarrow> s
      | Some r \<Rightarrow> trim_front rs (drop (length r) s))"
  by pat_completeness auto
termination
proof (relation "measure (\<lambda>(rs, s). length s)", goal_cases)
  case (2 rs s r)
  from find_SomeD [OF 2] have "r \<noteq> []" "starts_with r s" by auto
  then have "0 < length r" "0 < length s" by (auto simp: starts_with_def)
  then show ?case by simp
qed simp

declare trim_front.simps [simp del]

definition TrimSpace :: "string \<Rightarrow> string" where
  "TrimSpace s = rev (trim_front (map rev space_runes) (rev (trim_front space_runes s)))"

lemma trim_front_idem [simp]: "trim_front rs (trim_front rs s) = trim_front rs s"
proof (induction rs s rule: trim_front.induct)
  case (1 rs s)
  show ?case
  proof (cases "find (\<lambda>r. r \<noteq> [] \<and> starts_with r s) rs")
    case None
    then have "trim_front rs s = s" by (simp add: trim_front.simps [of rs s])
    then show ?thesis by simp
  next
    case (Some r)
    then have "trim_front rs s = trim_front rs (drop (length r) s)"
      by (simp add: trim_front.simps [of rs s])
    with 1 [OF Some] show ?thesis by simp
  qed
qed

lemma trim_front_Nil [simp]: "trim_front rs [] = []"
proof -
  have "find (\<lambda>r. r \<noteq> [] \<and> starts_with r []) rs = None"
    by (auto simp: find_None_iff_all starts_with_def)
  then show ?thesis by (simp add: trim_front.simps [of rs "[]"])
qed

lemma TrimSpace_Nil [simp]: "TrimSpace [] = []"
  by (simp add: TrimSpace_def)

lemma trim_front_suffix: "\<exists>p. s = p @ trim_front rs s"
proof (induction rs s rule: trim_front.induct)
  case (1 rs s)
  show ?case
  proof (cases "find (\<lambda>r. r \<noteq> [] \<and> starts_with r s) rs")
    case None
    then show ?thesis by (simp add: trim_front.simps [of rs s])
  next
    case (Some r)
    from 1 [OF this] obtain p where "drop (length r) s = p @ trim_front rs (drop (length r) s)" ..
    then have "s = (take (length r) s @ p) @ trim_front rs (drop (length r) s)"
      by (metis append.assoc append_take_drop_id)
    then have "s = (take (length r) s @ p) @ trim_front rs s"
      using Some by (simp add: trim_front.simps [of rs s])
    then show ?thesis ..
  qed
qed

lemma trim_front_ascii:
  "list_all P s \<Longrightarrow> list_all P (trim_front rs s)"
  using trim_front_suffix [of s rs] by (metis list_all_append)

lemma TrimSpace_all: "list_all P s \<Longrightarrow> list_all P (TrimSpace s)"
  by (simp add: TrimSpace_def list_all_rev trim_front_ascii)

lemma length_trim_front: "length (trim_front rs s) \<le> length s"
  using trim_front_suffix [of s rs] by (metis le_add2 length_append)

lemma length_TrimSpace: "length (TrimSpace s) \<le> length s"
  using length_trim_front [of space_runes s]
    length_trim_front [of "map rev space_runes" "rev (trim_front space_runes s)"]
  by (simp add: TrimSpace_def)

text \<open>A trimmed string stays trimmed when its end is cut off, so trimming is idempotent.\<close>

lemma trim_front_id_iff:
  "trim_front rs s = s \<longleftrightarrow> (\<forall>r \<in> set rs. r \<noteq> [] \<longrightarrow> \<not> starts_with r s)"
proof (cases "find (\<lambda>r. r \<noteq> [] \<and> starts_with r s) rs")
  case None
  then have "trim_front rs s = s" by (simp add: trim_front.simps [of rs s])
  with None show ?thesis by (auto simp: find_None_iff_all)
next
  case (Some r)
  from find_SomeD [OF this] have r: "r \<in> set rs" "r \<noteq> []" "starts_with r s" by auto
  then have "0 < length r" "0 < length s" by (auto simp: starts_with_def)
  then have "length (drop (length r) s) < length s" by simp
  then have "length (trim_front rs s) < length s"
    using Some length_trim_front [of rs "drop (length r) s"] by (simp add: trim_front.simps [of rs s])
  with r show ?thesis by auto
qed

lemma starts_with_append: "starts_with r s \<Longrightarrow> starts_with r (s @ t)"
  by (metis append_eq_conv_conj append_assoc append_take_drop_id starts_with_def)

lemma TrimSpace_idem [simp]: "TrimSpace (TrimSpace s) = TrimSpace s"
proof -
  let ?tailed = "\<lambda>t. rev (trim_front (map rev space_runes) (rev t))"
  define t where "t = trim_front space_runes s"
  obtain p where p: "rev t = p @ trim_front (map rev space_runes) (rev t)"
    using trim_front_suffix by blast
  then have t: "t = ?tailed t @ rev p" by (metis rev_append rev_rev_ident)
  have "trim_front space_runes t = t" by (simp add: t_def)
  then have "\<forall>r \<in> set space_runes. r \<noteq> [] \<longrightarrow> \<not> starts_with r (?tailed t)"
    using t starts_with_append trim_front_id_iff by metis
  then have "trim_front space_runes (?tailed t) = ?tailed t" by (simp only: trim_front_id_iff)
  then show ?thesis by (simp add: TrimSpace_def t_def)
qed

section \<open>Case mapping\<close>

definition lower_ascii :: "char \<Rightarrow> char" where
  "lower_ascii c =
     (let n = (of_char c :: nat) in if 65 \<le> n \<and> n \<le> 90 then char_of (n + 32) else c)"

definition upper_ascii :: "char \<Rightarrow> char" where
  "upper_ascii c =
     (let n = (of_char c :: nat) in if 97 \<le> n \<and> n \<le> 122 then char_of (n - 32) else c)"

definition is_ascii :: "string \<Rightarrow> bool" where
  "is_ascii s = list_all (\<lambda>c. (of_char c :: nat) < 128) s"

definition ToLower :: "(string \<Rightarrow> string) \<Rightarrow> string \<Rightarrow> string" where
  "ToLower uni s = (if is_ascii s then map lower_ascii s else uni s)"

definition ToUpper :: "(string \<Rightarrow> string) \<Rightarrow> string \<Rightarrow> string" where
  "ToUpper uni s = (if is_ascii s then map upper_ascii s else uni s)"

lemma of_char_char_of_small: "n < 256 \<Longrightarrow> (of_char (char_of n :: char) :: nat) = n"
  by simp

lemma lower_ascii_idem [simp]: "lower_ascii (lower_ascii c) = lower_ascii c"
  by (auto simp: lower_ascii_def Let_def)

lemma upper_ascii_idem [simp]: "upper_ascii (upper_ascii c) = upper_ascii c"
  by (auto simp: upper_ascii_def Let_def)

lemma is_ascii_map_lower [simp]: "is_ascii s \<Longrightarrow> is_ascii (map lower_ascii s)"
  by (auto simp: is_ascii_def list_all_iff lower_ascii_def Let_def)

lemma is_ascii_map_upper [simp]: "is_ascii s \<Longrightarrow> is_ascii (map upper_ascii s)"
  by (auto simp: is_ascii_def list_all_iff upper_ascii_def Let_def)

lemma ToLower_idem: "is_ascii s \<Longrightarrow> ToLower uni (ToLower uni s) = ToLower uni s"
  by (simp add: ToLower_def comp_def)

lemma ToUpper_idem: "is_ascii s \<Longrightarrow> ToUpper uni (ToUpper uni s) = ToUpper uni s"
  by (simp add: ToUpper_def comp_def)

section \<open>Runes\<close>

text \<open>
  \<^verbatim>\<open>utf8.RuneCountInString\<close>: the number of code points, an invalid byte counting as one.  The width
  of the first code point follows the table of well-formed byte sequences of \<^verbatim>\<open>unicode/utf8\<close>.
\<close>

definition between :: "nat \<Rightarrow> nat \<Rightarrow> string \<Rightarrow> nat \<Rightarrow> bool" where
  "between lo hi s i = (i < length s \<and> lo \<le> (of_char (s ! i) :: nat) \<and> (of_char (s ! i) :: nat) \<le> hi)"

definition runeWidth :: "string \<Rightarrow> nat" where
  "runeWidth s =
     (let cont = between 128 191 s
      in if between 194 223 s 0 \<and> cont 1 then 2
         else if between 224 224 s 0 \<and> between 160 191 s 1 \<and> cont 2 then 3
         else if (between 225 236 s 0 \<or> between 238 239 s 0) \<and> cont 1 \<and> cont 2 then 3
         else if between 237 237 s 0 \<and> between 128 159 s 1 \<and> cont 2 then 3
         else if between 240 240 s 0 \<and> between 144 191 s 1 \<and> cont 2 \<and> cont 3 then 4
         else if between 241 243 s 0 \<and> cont 1 \<and> cont 2 \<and> cont 3 then 4
         else if between 244 244 s 0 \<and> between 128 143 s 1 \<and> cont 2 \<and> cont 3 then 4
         else 1)"

lemma runeWidth_pos: "0 < runeWidth s"
  by (simp add: runeWidth_def Let_def)

function RuneCount :: "string \<Rightarrow> nat" where
  "RuneCount s = (if s = [] then 0 else Suc (RuneCount (drop (runeWidth s) s)))"
  by pat_completeness auto
termination
  by (relation "measure length") (auto simp: runeWidth_pos)

declare RuneCount.simps [simp del]

lemma RuneCount_le: "RuneCount s \<le> length s"
proof (induction s rule: RuneCount.induct)
  case (1 s)
  show ?case
  proof (cases "s = []")
    case True
    then show ?thesis by (simp add: RuneCount.simps [of "[]"])
  next
    case False
    then have "RuneCount (drop (runeWidth s) s) \<le> length s - runeWidth s" "0 < length s"
      using 1 by simp_all
    then have "RuneCount (drop (runeWidth s) s) < length s"
      using runeWidth_pos [of s] by linarith
    then show ?thesis using False by (simp add: RuneCount.simps [of s])
  qed
qed

lemma RuneCount_ascii: "is_ascii s \<Longrightarrow> RuneCount s = length s"
proof (induction s)
  case Nil
  show ?case by (simp add: RuneCount.simps [of "[]"])
next
  case (Cons c s)
  then have "runeWidth (c # s) = 1" by (simp add: runeWidth_def between_def is_ascii_def Let_def)
  with Cons show ?case by (simp add: RuneCount.simps [of "c # s"] is_ascii_def)
qed

section \<open>Integers in text\<close>

text \<open>\<^verbatim>\<open>strconv.ParseInt(s, 10, 64)\<close> and \<^verbatim>\<open>strconv.Atoi\<close>.\<close>

fun parseDigits :: "string \<Rightarrow> int \<Rightarrow> int option" where
  "parseDigits [] n = Some n"
| "parseDigits (c # cs) n =
     (let k = of_char c :: nat
      in if 48 \<le> k \<and> k \<le> 57 then parseDigits cs (10 * n + int (k - 48)) else None)"

definition inInt64 :: "int \<Rightarrow> int option" where
  "inInt64 n = (if - (2 ^ 63) \<le> n \<and> n < 2 ^ 63 then Some n else None)"

definition ParseInt :: "string \<Rightarrow> int option" where
  "ParseInt s =
     (let neg = (s \<noteq> [] \<and> hd s = CHR ''-''); signed = (s \<noteq> [] \<and> (hd s = CHR ''-'' \<or> hd s = CHR ''+''));
          ds = (if signed then tl s else s)
      in if ds = [] then None
         else case parseDigits ds 0 of None \<Rightarrow> None | Some n \<Rightarrow> inInt64 (if neg then - n else n))"

section \<open>Identifiers\<close>

text \<open>\<^verbatim>\<open>encoding/hex.EncodeToString\<close>: two lower-case digits a byte, high nibble first.\<close>

definition hex_digit :: "nat \<Rightarrow> char" where
  "hex_digit n = (if n < 10 then char_of (48 + n) else char_of (87 + n))"

definition hex_byte :: "8 word \<Rightarrow> string" where
  "hex_byte b = [hex_digit (unat b div 16), hex_digit (unat b mod 16)]"

definition EncodeToString :: "8 word list \<Rightarrow> string" where
  "EncodeToString bs = concat (map hex_byte bs)"

lemma length_EncodeToString: "length (EncodeToString bs) = 2 * length bs"
  by (induction bs) (simp_all add: EncodeToString_def hex_byte_def)

lemma hex_digit_inj: "a < 16 \<Longrightarrow> b < 16 \<Longrightarrow> hex_digit a = hex_digit b \<Longrightarrow> a = b"
  using of_char_char_of_small [of "48 + a"] of_char_char_of_small [of "87 + a"]
    of_char_char_of_small [of "48 + b"] of_char_char_of_small [of "87 + b"]
  by (auto simp: hex_digit_def split: if_splits)

lemma hex_byte_inj: "hex_byte a = hex_byte b \<Longrightarrow> a = b"
proof -
  assume h: "hex_byte a = hex_byte b"
  have "unat c < 256" for c :: "8 word"
    using unsigned_less [of c, where 'a = nat] by simp
  then have bnd: "unat c div 16 < 16" for c :: "8 word"
    by (simp add: less_mult_imp_div_less)
  have dig: "hex_digit (unat a div 16) = hex_digit (unat b div 16)"
    "hex_digit (unat a mod 16) = hex_digit (unat b mod 16)"
    using h by (simp_all add: hex_byte_def)
  have "unat a div 16 = unat b div 16" "unat a mod 16 = unat b mod 16"
    using hex_digit_inj [OF bnd bnd dig(1)] hex_digit_inj [OF _ _ dig(2)] by simp_all
  then have "unat a = unat b" by (metis div_mod_decomp)
  then show ?thesis by (simp add: word_unat_eq_iff)
qed

lemma EncodeToString_inj: "EncodeToString as = EncodeToString bs \<Longrightarrow> as = bs"
proof (induction as arbitrary: bs)
  case Nil
  then show ?case by (cases bs) (auto simp: EncodeToString_def hex_byte_def)
next
  case (Cons a as)
  from Cons.prems obtain b bs' where bs: "bs = b # bs'"
    by (cases bs) (auto simp: EncodeToString_def hex_byte_def)
  with Cons.prems have "hex_byte a = hex_byte b" "EncodeToString as = EncodeToString bs'"
    by (auto simp: EncodeToString_def hex_byte_def)
  with Cons.IH hex_byte_inj bs show ?case by blast
qed

end
