(* ===== verification/Models.thy ===== *)
theory Models
  imports Float64 GoText
begin

text \<open>
  The data model of \<^verbatim>\<open>backend/internal/database/models.go\<close>: the string constants of the columns,
  one \<^theory_text>\<open>record\<close> per table row with the struct's fields, and the error values of the backend.
  Money, prices and quantities are \<^typ>\<open>float64\<close>, a nullable column is an \<^typ>\<open>'a option\<close>, a time is
  the number of nanoseconds since the Unix epoch.  The \<^verbatim>\<open>UpdatedAt\<close> columns, which gorm maintains
  and no code reads, are left out.
\<close>

type_synonym time = int

text \<open>Go's zero \<^verbatim>\<open>time.Time\<close>, the first instant of year 1.\<close>

definition zeroTime :: time where
  "zeroTime = - 62135596800000000000"

section \<open>Constants\<close>

abbreviation AccountActive :: string where "AccountActive \<equiv> ''active''"
abbreviation AccountDisabled :: string where "AccountDisabled \<equiv> ''disabled''"
abbreviation ProductSpot :: string where "ProductSpot \<equiv> ''spot''"
abbreviation ProductFutures :: string where "ProductFutures \<equiv> ''futures''"
abbreviation SideBuy :: string where "SideBuy \<equiv> ''buy''"
abbreviation SideSell :: string where "SideSell \<equiv> ''sell''"
abbreviation Long :: string where "Long \<equiv> ''long''"
abbreviation Short :: string where "Short \<equiv> ''short''"
abbreviation OrderMarket :: string where "OrderMarket \<equiv> ''market''"
abbreviation OrderLimit :: string where "OrderLimit \<equiv> ''limit''"
abbreviation OrderOpen :: string where "OrderOpen \<equiv> ''open''"
abbreviation OrderFilled :: string where "OrderFilled \<equiv> ''filled''"
abbreviation OrderCanceled :: string where "OrderCanceled \<equiv> ''canceled''"
abbreviation OrderRejected :: string where "OrderRejected \<equiv> ''rejected''"
abbreviation RoleMaker :: string where "RoleMaker \<equiv> ''maker''"
abbreviation RoleTaker :: string where "RoleTaker \<equiv> ''taker''"
abbreviation AuthorUser :: string where "AuthorUser \<equiv> ''user''"
abbreviation AuthorAccount :: string where "AuthorAccount \<equiv> ''account''"
abbreviation LedgerOrderPlaced :: string where "LedgerOrderPlaced \<equiv> ''order_placed''"
abbreviation LedgerFill :: string where "LedgerFill \<equiv> ''fill''"
abbreviation LedgerOrderRejected :: string where "LedgerOrderRejected \<equiv> ''order_rejected''"
abbreviation LedgerOrderCanceled :: string where "LedgerOrderCanceled \<equiv> ''order_canceled''"
abbreviation LedgerStopsUpdated :: string where "LedgerStopsUpdated \<equiv> ''stops_updated''"
abbreviation LedgerMaxDDTriggered :: string where "LedgerMaxDDTriggered \<equiv> ''max_dd_triggered''"
abbreviation LedgerMaxDDResumed :: string where "LedgerMaxDDResumed \<equiv> ''max_dd_resumed''"

text \<open>The two market names of \<^verbatim>\<open>backend/internal/market/market.go\<close>.\<close>

abbreviation Crypto :: string where "Crypto \<equiv> ''crypto''"
abbreviation Stock :: string where "Stock \<equiv> ''stock''"

section \<open>Errors\<close>

text \<open>
  The sentinel errors of the backend packages.  A wrapped error (\<^verbatim>\<open>fmt.Errorf("%w: ...")\<close>) is the
  sentinel it wraps, which is what \<^verbatim>\<open>errors.Is\<close> sees.  The errors of the market and the message
  package are types of their own.  \<open>ErrStore\<close> is any failure of the database
  driver or of the request context, \<open>ErrEntropy\<close> a failing \<^verbatim>\<open>crypto/rand\<close>, \<open>ErrTokenKey\<close> the unnamed
  errors of the token envelope, \<open>ErrSource\<close> the unnamed errors of a failing market source,
  \<open>ErrInvalidOHLCVLimit\<close> the \<^verbatim>\<open>ErrInvalidLimit\<close> of the market package, \<open>ErrCanceled\<close> and
  \<open>ErrDeadlineExceeded\<close> the errors of a \<^verbatim>\<open>context.Context\<close>, \<open>ErrPanic\<close> a run-time panic that the
  server recovers from.
\<close>

datatype marketErr =
    m_UnknownMarket | m_EmptySymbol | m_Timeout | m_Closed | m_Source
  | m_NotImplemented | m_ReadUnsupported | m_UnknownSymbol | m_UnsupportedInterval | m_InvalidTimeRange
  | m_InvalidOHLCVLimit | m_InvalidSourceData | m_Canceled | m_DeadlineExceeded

datatype chatErr =
    c_EmptyContent | c_ContentLong | c_InvalidSort | c_InvalidPage | c_InvalidTag
  | c_InvalidTags | c_UnknownTag | c_InvalidAfter | c_SelfTag | c_Forbidden
  | c_InvalidLimit | c_InvalidBefore | c_ChatPostDisabled | c_ChatReadDisabled | c_ChatMuted
  | c_ChatRateLimited

datatype err =
    ErrNotFound | ErrDuplicate | ErrStore | ErrEntropy | ErrTokenKey | ErrPanic
  | ErrInvalidProduct | ErrInvalidSide | ErrInvalidType | ErrInvalidQuantity | ErrInvalidPrice
  | ErrInvalidLeverage | ErrSpotLeverage | ErrSpotShort | ErrInvalidStopLoss | ErrAccountDisabled
  | ErrInsufficient | ErrPositionClosed | ErrCloseTooMuch | ErrLeverageLocked | ErrNoStopChange
  | ErrOrderNotOpen | ErrStopInactive
  | ErrMaxDDStopped | ErrMaxDDInconsistent | ErrRiskPriceUnavailable
  | ErrInvalidName | ErrInvalidBalance | ErrInvalidStatus | ErrInvalidMaxDD | ErrNameTaken
  | ErrInvalidChatMute | ErrInvalidChatRate | ErrTradingNotStopped | ErrLiquidationPending
  | ErrNoToken | ErrInvalidToken
  | MarketErr marketErr | ChatErr chatErr

abbreviation ErrUnknownMarket :: err where "ErrUnknownMarket \<equiv> MarketErr m_UnknownMarket"
abbreviation ErrEmptySymbol :: err where "ErrEmptySymbol \<equiv> MarketErr m_EmptySymbol"
abbreviation ErrTimeout :: err where "ErrTimeout \<equiv> MarketErr m_Timeout"
abbreviation ErrClosed :: err where "ErrClosed \<equiv> MarketErr m_Closed"
abbreviation ErrSource :: err where "ErrSource \<equiv> MarketErr m_Source"
abbreviation ErrNotImplemented :: err where "ErrNotImplemented \<equiv> MarketErr m_NotImplemented"
abbreviation ErrReadUnsupported :: err where "ErrReadUnsupported \<equiv> MarketErr m_ReadUnsupported"
abbreviation ErrUnknownSymbol :: err where "ErrUnknownSymbol \<equiv> MarketErr m_UnknownSymbol"
abbreviation ErrUnsupportedInterval :: err where "ErrUnsupportedInterval \<equiv> MarketErr m_UnsupportedInterval"
abbreviation ErrInvalidTimeRange :: err where "ErrInvalidTimeRange \<equiv> MarketErr m_InvalidTimeRange"
abbreviation ErrInvalidOHLCVLimit :: err where "ErrInvalidOHLCVLimit \<equiv> MarketErr m_InvalidOHLCVLimit"
abbreviation ErrInvalidSourceData :: err where "ErrInvalidSourceData \<equiv> MarketErr m_InvalidSourceData"
abbreviation ErrCanceled :: err where "ErrCanceled \<equiv> MarketErr m_Canceled"
abbreviation ErrDeadlineExceeded :: err where "ErrDeadlineExceeded \<equiv> MarketErr m_DeadlineExceeded"
abbreviation ErrEmptyContent :: err where "ErrEmptyContent \<equiv> ChatErr c_EmptyContent"
abbreviation ErrContentLong :: err where "ErrContentLong \<equiv> ChatErr c_ContentLong"
abbreviation ErrInvalidSort :: err where "ErrInvalidSort \<equiv> ChatErr c_InvalidSort"
abbreviation ErrInvalidPage :: err where "ErrInvalidPage \<equiv> ChatErr c_InvalidPage"
abbreviation ErrInvalidTag :: err where "ErrInvalidTag \<equiv> ChatErr c_InvalidTag"
abbreviation ErrInvalidTags :: err where "ErrInvalidTags \<equiv> ChatErr c_InvalidTags"
abbreviation ErrUnknownTag :: err where "ErrUnknownTag \<equiv> ChatErr c_UnknownTag"
abbreviation ErrInvalidAfter :: err where "ErrInvalidAfter \<equiv> ChatErr c_InvalidAfter"
abbreviation ErrSelfTag :: err where "ErrSelfTag \<equiv> ChatErr c_SelfTag"
abbreviation ErrForbidden :: err where "ErrForbidden \<equiv> ChatErr c_Forbidden"
abbreviation ErrInvalidLimit :: err where "ErrInvalidLimit \<equiv> ChatErr c_InvalidLimit"
abbreviation ErrInvalidBefore :: err where "ErrInvalidBefore \<equiv> ChatErr c_InvalidBefore"
abbreviation ErrChatPostDisabled :: err where "ErrChatPostDisabled \<equiv> ChatErr c_ChatPostDisabled"
abbreviation ErrChatReadDisabled :: err where "ErrChatReadDisabled \<equiv> ChatErr c_ChatReadDisabled"
abbreviation ErrChatMuted :: err where "ErrChatMuted \<equiv> ChatErr c_ChatMuted"
abbreviation ErrChatRateLimited :: err where "ErrChatRateLimited \<equiv> ChatErr c_ChatRateLimited"

section \<open>Rows\<close>

record source =
  SessionID :: string
  RunID :: int

definition noSource :: source where
  "noSource = \<lparr>SessionID = [], RunID = 0\<rparr>"

definition Known :: "source \<Rightarrow> bool" where
  "Known s = (SessionID s \<noteq> [] \<and> RunID s > 0)"

record account =
  accID :: string
  accUserName :: string
  accToken :: string
  accTokenHash :: "string option"
  accInitialBalance :: float64
  accBalance :: float64
  accStatus :: string
  accCreatedAt :: time
  accMaxDD :: "float64 option"
  accMaxDDBaselineEquity :: "float64 option"
  accMaxDDStoppedAt :: "time option"
  accChatRead :: bool
  accChatPost :: bool
  accChatReadSince :: "time option"
  accChatMutedUntil :: "time option"
  accChatMuteReason :: string
  accChatRateMinutes :: int
  accChatRateCount :: int

definition Active :: "account \<Rightarrow> bool" where
  "Active a = (accStatus a = AccountActive)"

record order =
  ordID :: string
  ordAccountID :: string
  ordMarket :: string
  ordSymbol :: string
  ordProduct :: string
  ordSide :: string
  ordType :: string
  ordQuantity :: float64
  ordPrice :: float64
  ordLeverage :: float64
  ordStopLoss :: float64
  ordTakeProfit :: float64
  ordReduceOnly :: bool
  ordStatus :: string
  ordFilledQuantity :: float64
  ordAvgFillPrice :: float64
  ordFee :: float64
  ordRealizedPnL :: float64
  ordRejectReason :: string
  ordPositionID :: string
  ordSource :: source
  ordTrigger :: string
  ordCreatedAt :: time

record position =
  posID :: string
  posAccountID :: string
  posMarket :: string
  posSymbol :: string
  posProduct :: string
  posSide :: string
  posQuantity :: float64
  posEntryPrice :: float64
  posLeverage :: float64
  posMargin :: float64
  posStopLoss :: float64
  posTakeProfit :: float64
  posStopLossSource :: source
  posTakeProfitSource :: source
  posCreatedAt :: time

record trade =
  trdID :: string
  trdAccountID :: string
  trdOrderID :: string
  trdMarket :: string
  trdSymbol :: string
  trdProduct :: string
  trdSide :: string
  trdRole :: string
  trdQuantity :: float64
  trdPrice :: float64
  trdFee :: float64
  trdRealizedPnL :: float64
  trdSource :: source
  trdCreatedAt :: time

record ledgerEntry =
  ledSeq :: int
  ledAccountID :: string
  ledEvent :: string
  ledOrderID :: string
  ledTradeID :: string
  ledPositionID :: string
  ledTrigger :: string
  ledQuantity :: float64
  ledPrice :: float64
  ledFee :: float64
  ledRealizedPnL :: float64
  ledBalanceDelta :: float64
  ledBalanceAfter :: float64
  ledStopLoss :: float64
  ledTakeProfit :: float64
  ledSource :: source
  ledCreatedAt :: time

text \<open>The zero values of the structs, from which the composite literals of the source start.\<close>

definition order0 :: order where
  "order0 = \<lparr>ordID = [], ordAccountID = [], ordMarket = [], ordSymbol = [], ordProduct = [],
     ordSide = [], ordType = [], ordQuantity = 0, ordPrice = 0, ordLeverage = 0, ordStopLoss = 0,
     ordTakeProfit = 0, ordReduceOnly = False, ordStatus = [], ordFilledQuantity = 0,
     ordAvgFillPrice = 0, ordFee = 0, ordRealizedPnL = 0, ordRejectReason = [], ordPositionID = [],
     ordSource = noSource, ordTrigger = [], ordCreatedAt = zeroTime\<rparr>"

definition position0 :: position where
  "position0 = \<lparr>posID = [], posAccountID = [], posMarket = [], posSymbol = [], posProduct = [],
     posSide = [], posQuantity = 0, posEntryPrice = 0, posLeverage = 0, posMargin = 0,
     posStopLoss = 0, posTakeProfit = 0, posStopLossSource = noSource,
     posTakeProfitSource = noSource, posCreatedAt = zeroTime\<rparr>"

definition trade0 :: trade where
  "trade0 = \<lparr>trdID = [], trdAccountID = [], trdOrderID = [], trdMarket = [], trdSymbol = [],
     trdProduct = [], trdSide = [], trdRole = [], trdQuantity = 0, trdPrice = 0, trdFee = 0,
     trdRealizedPnL = 0, trdSource = noSource, trdCreatedAt = zeroTime\<rparr>"

definition ledgerEntry0 :: ledgerEntry where
  "ledgerEntry0 = \<lparr>ledSeq = 0, ledAccountID = [], ledEvent = [], ledOrderID = [], ledTradeID = [],
     ledPositionID = [], ledTrigger = [], ledQuantity = 0, ledPrice = 0, ledFee = 0,
     ledRealizedPnL = 0, ledBalanceDelta = 0, ledBalanceAfter = 0, ledStopLoss = 0,
     ledTakeProfit = 0, ledSource = noSource, ledCreatedAt = zeroTime\<rparr>"

definition account0 :: account where
  "account0 = \<lparr>accID = [], accUserName = [], accToken = [], accTokenHash = None,
     accInitialBalance = 0, accBalance = 0, accStatus = [], accCreatedAt = zeroTime,
     accMaxDD = None, accMaxDDBaselineEquity = None, accMaxDDStoppedAt = None,
     accChatRead = False, accChatPost = False, accChatReadSince = None, accChatMutedUntil = None,
     accChatMuteReason = [], accChatRateMinutes = 0, accChatRateCount = 0\<rparr>"

lemmas zero_defs = order0_def position0_def trade0_def ledgerEntry0_def account0_def noSource_def

text \<open>The unique index \<^verbatim>\<open>idx_position_key\<close>: one net position per account, market, symbol and product.\<close>

definition posKey :: "position \<Rightarrow> string \<times> string \<times> string \<times> string" where
  "posKey p = (posAccountID p, posMarket p, posSymbol p, posProduct p)"

record message =
  msgID :: string
  msgAuthorType :: string
  msgAuthorID :: string
  msgContent :: string
  msgTags :: "string list"
  msgCreatedAt :: time

record messageTag =
  tagMessageID :: string
  tagPosition :: nat
  tagTag :: string

text \<open>The database: one list of rows per table, and the ledger's AUTOINCREMENT counter.\<close>

record db =
  accounts :: "account list"
  orders :: "order list"
  positions :: "position list"
  trades :: "trade list"
  ledger :: "ledgerEntry list"
  ledgerSeq :: int
  messages :: "message list"
  messageTags :: "messageTag list"

definition emptyDB :: db where
  "emptyDB = \<lparr>accounts = [], orders = [], positions = [], trades = [], ledger = [],
     ledgerSeq = 0, messages = [], messageTags = []\<rparr>"

end
