(* ===== verification/Streams.thy ===== *)
theory Streams
  imports Models
begin

text \<open>
  \<^verbatim>\<open>backend/internal/message/stream.go\<close>: the push of chat changes to the browser.  A subscriber is a
  buffered Go channel; \<open>streams\<close> keeps the channels made so far and which of them are subscribed.
  Every operation runs under the mutex of \<^verbatim>\<open>streams\<close>, so it is one atomic function of the state.  Sending
  on a closed channel and closing one twice panic in Go; here the result is \<^const>\<open>None\<close>.
\<close>

abbreviation EventCreated :: string where "EventCreated \<equiv> ''created''"
abbreviation EventDeleted :: string where "EventDeleted \<equiv> ''deleted''"
abbreviation EventCleared :: string where "EventCleared \<equiv> ''cleared''"

definition streamBuffer :: nat where
  "streamBuffer = 32"

text \<open>\<^verbatim>\<open>View\<close> of \<^verbatim>\<open>message.go\<close>, a message as it is shown.\<close>

record view =
  vwID :: string
  vwUserName :: string
  vwContent :: string
  vwTags :: "string list"
  vwCreatedAt :: time

definition view0 :: view where
  "view0 = \<lparr>vwID = [], vwUserName = [], vwContent = [], vwTags = [], vwCreatedAt = zeroTime\<rparr>"

record event =
  evName :: string
  evMessage :: view
  evID :: string

section \<open>Channels\<close>

record channel =
  chBuf :: "event list"
  chClosed :: bool

record streams =
  chans :: "channel list"
  subscribers :: "nat list"
  hubClosed :: bool

definition newStreams :: streams where
  "newStreams = \<lparr>chans = [], subscribers = [], hubClosed = False\<rparr>"

definition closeChan :: "nat \<Rightarrow> streams \<Rightarrow> streams option" where
  "closeChan ch st =
     (if ch < length (chans st) \<and> \<not> chClosed (chans st ! ch)
      then Some (st\<lparr>chans := (chans st)[ch := (chans st ! ch)\<lparr>chClosed := True\<rparr>]\<rparr>) else None)"

text \<open>\<^verbatim>\<open>select { case ch <- event: default: }\<close>: \<^const>\<open>Some\<close> of whether the event was sent.\<close>

definition trySend :: "nat \<Rightarrow> event \<Rightarrow> streams \<Rightarrow> (bool \<times> streams) option" where
  "trySend ch ev st =
     (if ch < length (chans st) \<and> \<not> chClosed (chans st ! ch)
      then if length (chBuf (chans st ! ch)) < streamBuffer
           then Some (True, st\<lparr>chans := (chans st)[ch := (chans st ! ch)\<lparr>chBuf := chBuf (chans st ! ch) @ [ev]\<rparr>]\<rparr>)
           else Some (False, st)
      else None)"

section \<open>Operations\<close>

definition dropSub :: "nat \<Rightarrow> streams \<Rightarrow> streams option" where
  "dropSub ch st =
     (if ch \<notin> set (subscribers st) then Some st
      else closeChan ch (st\<lparr>subscribers := removeAll ch (subscribers st)\<rparr>))"

definition publishOne :: "event \<Rightarrow> nat \<Rightarrow> streams \<Rightarrow> streams option" where
  "publishOne ev ch st =
     (case trySend ch ev st of
        None \<Rightarrow> None
      | Some (sent, st') \<Rightarrow> if sent then Some st' else dropSub ch st')"

fun each :: "(nat \<Rightarrow> streams \<Rightarrow> streams option) \<Rightarrow> nat list \<Rightarrow> streams \<Rightarrow> streams option" where
  "each f [] st = Some st"
| "each f (ch # chs) st = (case f ch st of None \<Rightarrow> None | Some st' \<Rightarrow> each f chs st')"

definition publish :: "event \<Rightarrow> streams \<Rightarrow> streams option" where
  "publish ev st = each (publishOne ev) (subscribers st) st"

text \<open>The new channel; the returned function is \<^const>\<open>dropSub\<close> of it, which does nothing when the hub was closed.\<close>

definition Subscribe :: "streams \<Rightarrow> nat \<times> streams" where
  "Subscribe st =
     (let ch = length (chans st)
      in if hubClosed st then (ch, st\<lparr>chans := chans st @ [\<lparr>chBuf = [], chClosed = True\<rparr>]\<rparr>)
         else (ch, st\<lparr>chans := chans st @ [\<lparr>chBuf = [], chClosed = False\<rparr>], subscribers := subscribers st @ [ch]\<rparr>))"

definition CloseStreams :: "streams \<Rightarrow> streams option" where
  "CloseStreams st = each dropSub (subscribers st) (st\<lparr>hubClosed := True\<rparr>)"

text \<open>
  \<^verbatim>\<open>event, open := <-events\<close> of the subscriber: \<^const>\<open>None\<close> while nothing is there (the receiver blocks),
  otherwise the event, or none of them when the channel is closed and empty.
\<close>

definition receive :: "nat \<Rightarrow> streams \<Rightarrow> (event option \<times> streams) option" where
  "receive ch st =
     (if ch < length (chans st)
      then case chBuf (chans st ! ch) of
             ev # rest \<Rightarrow> Some (Some ev, st\<lparr>chans := (chans st)[ch := (chans st ! ch)\<lparr>chBuf := rest\<rparr>]\<rparr>)
           | [] \<Rightarrow> if chClosed (chans st ! ch) then Some (None, st) else None
      else None)"

section \<open>The subscriptions stay consistent\<close>

definition hubOK :: "streams \<Rightarrow> bool" where
  "hubOK st =
     (distinct (subscribers st) \<and>
      (\<forall>ch \<in> set (subscribers st). ch < length (chans st)) \<and>
      (\<forall>ch < length (chans st). chClosed (chans st ! ch) \<longleftrightarrow> ch \<notin> set (subscribers st)) \<and>
      (\<forall>ch < length (chans st). length (chBuf (chans st ! ch)) \<le> streamBuffer) \<and>
      (hubClosed st \<longrightarrow> subscribers st = []))"

lemma hubOK_new: "hubOK newStreams"
  by (simp add: hubOK_def newStreams_def)

text \<open>What a publication does to one channel: the event is queued, or a full channel is closed.\<close>

definition offered :: "event \<Rightarrow> channel \<Rightarrow> channel" where
  "offered ev c = (if length (chBuf c) < streamBuffer then c\<lparr>chBuf := chBuf c @ [ev]\<rparr> else c\<lparr>chClosed := True\<rparr>)"

text \<open>The state after each channel of a list has gone through \<open>f\<close> and those that do not \<open>stay\<close> are dropped.\<close>

definition passed :: "(channel \<Rightarrow> channel) \<Rightarrow> (channel \<Rightarrow> bool) \<Rightarrow> nat list \<Rightarrow> streams \<Rightarrow> streams \<Rightarrow> bool" where
  "passed f stay chs st st' =
     (length (chans st') = length (chans st) \<and> hubClosed st' = hubClosed st \<and>
      (\<forall>i < length (chans st). chans st' ! i = (if i \<in> set chs then f (chans st ! i) else chans st ! i)) \<and>
      subscribers st' = filter (\<lambda>i. i \<in> set chs \<longrightarrow> stay (chans st ! i)) (subscribers st))"

text \<open>A loop over subscribed, open channels that handles one of them at a time never panics.\<close>

lemma each_passed:
  assumes step: "\<And>ch st. ch < length (chans st) \<Longrightarrow> \<not> chClosed (chans st ! ch) \<Longrightarrow> ch \<in> set (subscribers st) \<Longrightarrow>
      \<exists>st'. g ch st = Some st' \<and> passed f stay [ch] st st'"
    and "distinct chs" "\<forall>ch \<in> set chs. ch < length (chans st) \<and> \<not> chClosed (chans st ! ch) \<and> ch \<in> set (subscribers st)"
  shows "\<exists>st'. each g chs st = Some st' \<and> passed f stay chs st st'"
  using assms(2,3)
proof (induction chs arbitrary: st)
  case Nil
  then show ?case by (simp add: passed_def)
next
  case (Cons ch chs)
  then obtain st1 where st1: "g ch st = Some st1" "passed f stay [ch] st st1"
    using step [of ch st] by (metis list.set_intros(1))
  have "\<forall>c \<in> set chs. c < length (chans st1) \<and> \<not> chClosed (chans st1 ! c) \<and> c \<in> set (subscribers st1)"
    using Cons.prems st1(2) by (auto simp: passed_def)
  then obtain st2 where st2: "each g chs st1 = Some st2" "passed f stay chs st1 st2"
    using Cons.IH [of st1] Cons.prems by auto
  have "passed f stay (ch # chs) st st2"
    using st1(2) st2(2) Cons.prems unfolding passed_def
    by (auto simp: conj_commute intro!: filter_cong)
  with st1(1) st2(1) show ?case by auto
qed

lemma publishOne_passed:
  assumes "ch < length (chans st)" "\<not> chClosed (chans st ! ch)" "ch \<in> set (subscribers st)"
  shows "\<exists>st'. publishOne ev ch st = Some st' \<and>
    passed (offered ev) (\<lambda>c. length (chBuf c) < streamBuffer) [ch] st st'"
  using assms
  by (auto simp: publishOne_def trySend_def dropSub_def closeChan_def passed_def offered_def nth_list_update
      removeAll_filter_not_eq intro!: filter_cong filter_True [symmetric])

lemma dropSub_passed:
  assumes "ch < length (chans st)" "\<not> chClosed (chans st ! ch)" "ch \<in> set (subscribers st)"
  shows "\<exists>st'. dropSub ch st = Some st' \<and> passed (\<lambda>c. c\<lparr>chClosed := True\<rparr>) (\<lambda>_. False) [ch] st st'"
  using assms
  by (auto simp: dropSub_def closeChan_def passed_def nth_list_update removeAll_filter_not_eq intro!: filter_cong)

lemma hubOK_open:
  "hubOK st \<Longrightarrow> \<forall>ch \<in> set (subscribers st). ch < length (chans st) \<and> \<not> chClosed (chans st ! ch) \<and> ch \<in> set (subscribers st)"
  by (auto simp: hubOK_def)

lemma publish_passed:
  assumes "hubOK st"
  obtains st' where "publish ev st = Some st'"
    "passed (offered ev) (\<lambda>c. length (chBuf c) < streamBuffer) (subscribers st) st st'"
proof -
  have "distinct (subscribers st)" using assms by (simp add: hubOK_def)
  from each_passed [OF publishOne_passed this hubOK_open [OF assms]] that show ?thesis
    by (auto simp: publish_def)
qed

lemma CloseStreams_passed:
  assumes "hubOK st"
  obtains st' where "CloseStreams st = Some st'"
    "passed (\<lambda>c. c\<lparr>chClosed := True\<rparr>) (\<lambda>_. False) (subscribers st) (st\<lparr>hubClosed := True\<rparr>) st'"
proof -
  let ?st = "st\<lparr>hubClosed := True\<rparr>"
  have "distinct (subscribers st)" using assms by (simp add: hubOK_def)
  moreover have "\<forall>ch \<in> set (subscribers st). ch < length (chans ?st) \<and> \<not> chClosed (chans ?st ! ch) \<and>
      ch \<in> set (subscribers ?st)" using hubOK_open [OF assms] by simp
  ultimately have "\<exists>st'. each dropSub (subscribers st) ?st = Some st' \<and>
      passed (\<lambda>c. c\<lparr>chClosed := True\<rparr>) (\<lambda>_. False) (subscribers st) ?st st'"
    by (intro each_passed dropSub_passed)
  with that show ?thesis by (auto simp: CloseStreams_def)
qed

section \<open>Runs of the hub\<close>

text \<open>
  The calls that reach the hub, in the order in which they take its mutex; a receive takes the head of
  the channel.  A run yields the events received, with the channel they came from.
\<close>

datatype hubOp = HSubscribe | HPublish event | HUnsubscribe nat | HClose | HReceive nat

definition quietly :: "streams option \<Rightarrow> ((nat \<times> event) list \<times> streams) option" where
  "quietly r = map_option (\<lambda>st. ([], st)) r"

fun hubStep :: "hubOp \<Rightarrow> streams \<Rightarrow> ((nat \<times> event) list \<times> streams) option" where
  "hubStep HSubscribe st = Some ([], snd (Subscribe st))"
| "hubStep (HPublish ev) st = quietly (publish ev st)"
| "hubStep (HUnsubscribe ch) st = quietly (dropSub ch st)"
| "hubStep HClose st = quietly (CloseStreams st)"
| "hubStep (HReceive ch) st =
     Some (case receive ch st of Some (Some ev, st') \<Rightarrow> ([(ch, ev)], st') | _ \<Rightarrow> ([], st))"

fun hubRun :: "hubOp list \<Rightarrow> streams \<Rightarrow> ((nat \<times> event) list \<times> streams) option" where
  "hubRun [] st = Some ([], st)"
| "hubRun (op # ops) st =
     (case hubStep op st of
        None \<Rightarrow> None
      | Some (out, st1) \<Rightarrow> map_option (\<lambda>(got, st2). (out @ got, st2)) (hubRun ops st1))"

fun publishedIn :: "hubOp list \<Rightarrow> event list" where
  "publishedIn [] = []"
| "publishedIn (HPublish ev # ops) = ev # publishedIn ops"
| "publishedIn (_ # ops) = publishedIn ops"

definition receivedBy :: "nat \<Rightarrow> (nat \<times> event) list \<Rightarrow> event list" where
  "receivedBy ch got = map snd (filter (\<lambda>(c, _). c = ch) got)"

lemma passed_hubOK:
  assumes "hubOK st" "passed f stay (subscribers st) st1 st'"
    and "chans st1 = chans st" "subscribers st1 = subscribers st"
    and "\<And>c. length (chBuf c) \<le> streamBuffer \<Longrightarrow> \<not> chClosed c \<Longrightarrow>
      length (chBuf (f c)) \<le> streamBuffer \<and> chClosed (f c) = (\<not> stay c)"
    and "hubClosed st1 \<Longrightarrow> (\<forall>c. \<not> stay c)"
  shows "hubOK st'"
proof -
  have st': "length (chans st') = length (chans st)" "hubClosed st' = hubClosed st1"
    "\<And>i. i < length (chans st) \<Longrightarrow> chans st' ! i = (if i \<in> set (subscribers st) then f (chans st ! i) else chans st ! i)"
    "subscribers st' = filter (\<lambda>i. stay (chans st ! i)) (subscribers st)"
    using assms(2-4) by (auto simp: passed_def intro: filter_cong)
  have st: "distinct (subscribers st)" "\<And>ch. ch \<in> set (subscribers st) \<Longrightarrow> ch < length (chans st)"
    "\<And>ch. ch < length (chans st) \<Longrightarrow> chClosed (chans st ! ch) = (ch \<notin> set (subscribers st))"
    "\<And>ch. ch < length (chans st) \<Longrightarrow> length (chBuf (chans st ! ch)) \<le> streamBuffer"
    using assms(1) by (auto simp: hubOK_def)
  have "(chClosed (chans st' ! i) \<longleftrightarrow> i \<notin> set (subscribers st')) \<and> length (chBuf (chans st' ! i)) \<le> streamBuffer"
    if "i < length (chans st)" for i
    using st'(3) [OF that] st(3,4) [OF that] assms(5) [of "chans st ! i"] by (simp add: st'(4))
  then show ?thesis
    unfolding hubOK_def using st(1,2) st'(1,2,4) assms(6) by simp
qed

lemma hubStep_ok:
  assumes "hubOK st"
  shows "\<exists>out st'. hubStep op st = Some (out, st') \<and> hubOK st'"
proof (cases op)
  case HSubscribe
  then show ?thesis using assms by (auto simp: Subscribe_def Let_def hubOK_def nth_append)
next
  case (HPublish ev)
  from publish_passed [OF assms] obtain st' where st': "publish ev st = Some st'"
    "passed (offered ev) (\<lambda>c. length (chBuf c) < streamBuffer) (subscribers st) st st'" .
  have "hubOK st'"
  proof (cases "hubClosed st")
    case True
    then have "publish ev st = Some st" using assms by (simp add: publish_def hubOK_def)
    with st'(1) assms show ?thesis by simp
  next
    case False
    then show ?thesis by (intro passed_hubOK [OF assms st'(2)]) (auto simp: offered_def)
  qed
  with HPublish st'(1) show ?thesis by (simp add: quietly_def)
next
  case (HUnsubscribe ch)
  have "\<exists>st'. dropSub ch st = Some st' \<and> hubOK st'"
  proof (cases "ch \<in> set (subscribers st)")
    case True
    have pre: "ch < length (chans st)" "\<not> chClosed (chans st ! ch)" using assms True by (auto simp: hubOK_def)
    from dropSub_passed [OF this True] obtain st' where st': "dropSub ch st = Some st'"
      "passed (\<lambda>c. c\<lparr>chClosed := True\<rparr>) (\<lambda>_. False) [ch] st st'" by blast
    have "\<And>i. i < length (chans st) \<Longrightarrow> (chClosed (chans st' ! i) \<longleftrightarrow> i \<notin> set (subscribers st')) \<and>
        length (chBuf (chans st' ! i)) \<le> streamBuffer"
      using st'(2) assms by (simp add: passed_def hubOK_def)
    then have "hubOK st'" using st'(2) assms unfolding hubOK_def passed_def by auto
    with st'(1) show ?thesis by blast
  qed (use assms in \<open>simp add: dropSub_def\<close>)
  then show ?thesis using HUnsubscribe by (auto simp: quietly_def)
next
  case HClose
  from CloseStreams_passed [OF assms] obtain st' where st': "CloseStreams st = Some st'"
    "passed (\<lambda>c. c\<lparr>chClosed := True\<rparr>) (\<lambda>_. False) (subscribers st) (st\<lparr>hubClosed := True\<rparr>) st'" .
  have "hubOK st'" by (rule passed_hubOK [OF assms st'(2)]) auto
  with HClose st'(1) show ?thesis by (simp add: quietly_def)
next
  case (HReceive ch)
  have "hubOK (st\<lparr>chans := (chans st)[ch := (chans st ! ch)\<lparr>chBuf := rest\<rparr>]\<rparr>)"
    if "ch < length (chans st)" "chBuf (chans st ! ch) = ev # rest" for ev rest
  proof -
    have "length (chBuf (chans st ! ch)) \<le> streamBuffer" using that(1) assms by (simp add: hubOK_def)
    with that assms show ?thesis by (simp add: hubOK_def nth_list_update)
  qed
  then show ?thesis using HReceive assms
    by (auto simp: receive_def split: list.splits)
qed

lemma hubRun_ok:
  assumes "hubOK st" shows "\<exists>got st'. hubRun ops st = Some (got, st') \<and> hubOK st'"
  using assms
proof (induction ops arbitrary: st)
  case (Cons op ops)
  from hubStep_ok [OF Cons.prems] obtain out st1 where st1: "hubStep op st = Some (out, st1)" "hubOK st1" by blast
  from Cons.IH [OF st1(2)] st1(1) show ?case by auto
qed simp

text \<open>
  (C30) Whatever sequence of subscriptions, publications, receives, unsubscriptions and shutdowns reaches
  the hub, no send on a closed channel and no second close of a channel ever happens, and no channel
  holds more than its buffer.
\<close>

theorem hub_never_panics:
  "\<exists>got st. hubRun ops newStreams = Some (got, st) \<and> hubOK st"
  using hubRun_ok [OF hubOK_new] .

lemma receivedBy_append [simp]: "receivedBy ch (xs @ ys) = receivedBy ch xs @ receivedBy ch ys"
  by (simp add: receivedBy_def)

text \<open>One step, seen by a subscriber that is still subscribed after it.\<close>

lemma hubStep_delivery:
  assumes "hubOK st" "hubStep op st = Some (out, st')" "ch < length (chans st)" "ch \<in> set (subscribers st')"
  shows "ch \<in> set (subscribers st) \<and> ch < length (chans st') \<and>
    receivedBy ch out @ chBuf (chans st' ! ch) = chBuf (chans st ! ch) @ publishedIn [op]"
proof (cases op)
  case HSubscribe
  then show ?thesis using assms by (auto simp: Subscribe_def Let_def nth_append receivedBy_def split: if_splits)
next
  case (HPublish ev)
  from publish_passed [OF assms(1)] obtain st1 where st1: "publish ev st = Some st1"
    "passed (offered ev) (\<lambda>c. length (chBuf c) < streamBuffer) (subscribers st) st st1" .
  then have "st1 = st'" "out = []" using assms(2) HPublish by (auto simp: quietly_def)
  then show ?thesis using st1(2) assms(3,4) HPublish by (auto simp: passed_def offered_def receivedBy_def)
next
  case (HUnsubscribe i)
  then show ?thesis using assms
    by (auto simp: quietly_def dropSub_def closeChan_def receivedBy_def nth_list_update split: if_splits)
next
  case HClose
  from CloseStreams_passed [OF assms(1)] obtain st1 where st1: "CloseStreams st = Some st1"
    "passed (\<lambda>c. c\<lparr>chClosed := True\<rparr>) (\<lambda>_. False) (subscribers st) (st\<lparr>hubClosed := True\<rparr>) st1" .
  then show ?thesis using assms HClose by (auto simp: quietly_def passed_def)
next
  case (HReceive i)
  then show ?thesis using assms
    by (auto simp: receive_def receivedBy_def nth_list_update split: list.splits if_splits)
qed

lemma hubStep_chans:
  assumes "hubOK st" "hubStep op st = Some (out, st1)"
  shows "length (chans st) \<le> length (chans st1)"
proof (cases op)
  case HSubscribe
  then show ?thesis using assms(2) by (auto simp: Subscribe_def Let_def split: if_splits)
next
  case (HPublish ev)
  from publish_passed [OF assms(1)] obtain st2 where "publish ev st = Some st2"
    "passed (offered ev) (\<lambda>c. length (chBuf c) < streamBuffer) (subscribers st) st st2" .
  then show ?thesis using HPublish assms(2) by (simp add: quietly_def passed_def)
next
  case (HUnsubscribe i)
  then show ?thesis using assms(2) by (auto simp: quietly_def dropSub_def closeChan_def split: if_splits)
next
  case HClose
  from CloseStreams_passed [OF assms(1)] obtain st2 where "CloseStreams st = Some st2"
    "passed (\<lambda>c. c\<lparr>chClosed := True\<rparr>) (\<lambda>_. False) (subscribers st) (st\<lparr>hubClosed := True\<rparr>) st2" .
  then show ?thesis using HClose assms(2) by (simp add: quietly_def passed_def)
next
  case (HReceive i)
  then show ?thesis using assms(2) by (auto simp: receive_def split: list.splits if_splits)
qed

lemma publishedIn_Cons: "publishedIn (op # ops) = publishedIn [op] @ publishedIn ops"
  by (cases op) simp_all

text \<open>
  (C37) No event is lost silently: as long as a subscriber is not cut off, what it has received followed by
  what is still in its channel is exactly what it had plus everything published since, in order.  (A
  subscriber that falls behind by the buffer is cut off instead, and its channel closed.)
\<close>

theorem subscriber_sees_every_event:
  assumes "hubOK st" "ch \<in> set (subscribers st)" "hubRun ops st = Some (got, st')" "ch \<in> set (subscribers st')"
  shows "receivedBy ch got @ chBuf (chans st' ! ch) = chBuf (chans st ! ch) @ publishedIn ops"
proof -
  have "ch < length (chans st) \<Longrightarrow> ch \<in> set (subscribers st) \<and>
      receivedBy ch got @ chBuf (chans st' ! ch) = chBuf (chans st ! ch) @ publishedIn ops"
    using assms(1,3,4)
  proof (induction ops arbitrary: st got)
    case Nil
    then show ?case by (simp add: receivedBy_def)
  next
    case (Cons op ops)
    from Cons.prems(3) obtain out st1 got1 where run: "hubStep op st = Some (out, st1)"
      "hubRun ops st1 = Some (got1, st')" "got = out @ got1" by (auto split: option.splits)
    from hubStep_ok [OF Cons.prems(2), of op] run(1) have ok: "hubOK st1" by simp
    have "length (chans st) \<le> length (chans st1)" by (rule hubStep_chans [OF Cons.prems(2) run(1)])
    with Cons.prems(1) have "ch < length (chans st1)" by simp
    from Cons.IH [OF this ok run(2) Cons.prems(4)] hubStep_delivery [OF Cons.prems(2) run(1) Cons.prems(1)]
    show ?case by (simp add: run(3) publishedIn_Cons [of op ops])
  qed
  moreover have "ch < length (chans st)" using assms(1,2) by (auto simp: hubOK_def)
  ultimately show ?thesis by blast
qed

definition clearedEvent :: event where
  "clearedEvent = \<lparr>evName = EventCleared, evMessage = view0, evID = []\<rparr>"

definition oneSubscriber :: streams where
  "oneSubscriber = \<lparr>chans = [\<lparr>chBuf = [], chClosed = False\<rparr>], subscribers = [0], hubClosed = False\<rparr>"

theorem subscriber_sees_every_event_witness:
  "hubRun [HPublish clearedEvent, HPublish clearedEvent, HReceive 0] oneSubscriber =
     Some ([(0, clearedEvent)], oneSubscriber\<lparr>chans := [\<lparr>chBuf = [clearedEvent], chClosed = False\<rparr>]\<rparr>) \<and>
   receivedBy 0 [(0, clearedEvent)] @ [clearedEvent] =
     publishedIn [HPublish clearedEvent, HPublish clearedEvent, HReceive 0]"
proof -
  let ?ops = "[HPublish clearedEvent, HPublish clearedEvent, HReceive 0]"
  let ?st = "oneSubscriber\<lparr>chans := [\<lparr>chBuf = [clearedEvent], chClosed = False\<rparr>]\<rparr>"
  have run: "hubRun ?ops oneSubscriber = Some ([(0, clearedEvent)], ?st)"
    by (simp add: oneSubscriber_def quietly_def publish_def publishOne_def trySend_def streamBuffer_def receive_def)
  have "receivedBy 0 [(0, clearedEvent)] @ chBuf (chans ?st ! 0) = chBuf (chans oneSubscriber ! 0) @ publishedIn ?ops"
    by (rule subscriber_sees_every_event [OF _ _ run]) (simp_all add: oneSubscriber_def hubOK_def)
  with run show ?thesis by (simp add: oneSubscriber_def)
qed

end
