(* ===== verification/StoreMonad.thy ===== *)
theory StoreMonad
  imports Streams
begin

text \<open>
  How the backend's services run: a computation reads an environment, threads a world and ends
  with an error value or a result, as a Go function that takes a \<^verbatim>\<open>context.Context\<close> and returns
  \<^verbatim>\<open>(T, error)\<close>.

  The world holds the database, the number of interactions with the outside so far and the message
  service's subscriptions, which live in the memory of the process.  The
  environment answers the \<open>n\<close>-th interaction: whether the database call fails, what the clock says,
  what \<^verbatim>\<open>crypto/rand\<close> returns, what price the market runtime quotes.  All answers are arbitrary, so
  a theorem about every environment covers every failure of the driver at every call.

  \<open>Tx\<close> is gorm's \<^verbatim>\<open>Transaction\<close> as \<^verbatim>\<open>Store.Tx\<close> uses it: an error of the callback or of begin
  restores the database; an error of the commit leaves it open whether the transaction took effect
  (a connection can break after the server has committed), and the environment decides that too.
  A write outside \<^verbatim>\<open>Store.Tx\<close> runs in a transaction of gorm's own and is modelled in the same way.  \<open>wp\<close> is the weakest precondition of a computation, for a normal
  postcondition and one for errors; its equations are the collection \<open>wp_rules\<close>.
\<close>

section \<open>Environment and world\<close>

text \<open>
  \<open>unreported\<close> tells of a commit that returns an error whether it was carried out all the same.
\<close>

record env =
  fault :: "nat \<Rightarrow> bool"
  unreported :: "nat \<Rightarrow> bool"
  clock :: "nat \<Rightarrow> time"
  entropy :: "nat \<Rightarrow> nat \<Rightarrow> 8 word list option"
  quote :: "nat \<Rightarrow> string \<Rightarrow> string \<Rightarrow> err + float64"
  postgres :: bool
  sqlSum :: "float64 list \<Rightarrow> float64"
  errText :: "nat \<Rightarrow> err \<Rightarrow> string"
  uniLower :: "string \<Rightarrow> string"
  uniUpper :: "string \<Rightarrow> string"
  tokenKey :: string
  aeadSeal :: "string \<Rightarrow> string \<Rightarrow> string \<Rightarrow> string"
  aeadOpen :: "string \<Rightarrow> string \<Rightarrow> string \<Rightarrow> string option"
  rawStdEncode :: "string \<Rightarrow> string"
  rawStdDecode :: "string \<Rightarrow> string option"
  hmacURL :: "string \<Rightarrow> string \<Rightarrow> string"
  makerFee :: float64
  takerFee :: float64
  cfgUserName :: string
  cfgUserToken :: string
  cfgAgentToken :: string

record world =
  wdb :: db
  calls :: nat
  hub :: streams

definition bump :: "world \<Rightarrow> world" where
  "bump w = w\<lparr>calls := Suc (calls w)\<rparr>"

lemma bump_simps [simp]: "wdb (bump w) = wdb w" "calls (bump w) = Suc (calls w)" "hub (bump w) = hub w"
  "(bump w)\<lparr>wdb := d\<rparr> = bump (w\<lparr>wdb := d\<rparr>)"
  by (simp_all add: bump_def)

type_synonym 'a M = "env \<Rightarrow> world \<Rightarrow> (err + 'a) \<times> world"

section \<open>Computations\<close>

definition ret :: "'a \<Rightarrow> 'a M" where
  "ret a = (\<lambda>e w. (Inr a, w))"

definition raise :: "err \<Rightarrow> 'a M" where
  "raise x = (\<lambda>e w. (Inl x, w))"

text \<open>\<^verbatim>\<open>if err != nil { return err }\<close> between two calls.\<close>

definition bind :: "'a M \<Rightarrow> ('a \<Rightarrow> 'b M) \<Rightarrow> 'b M" where
  "bind m f = (\<lambda>e w. case m e w of (Inl x, w') \<Rightarrow> (Inl x, w') | (Inr a, w') \<Rightarrow> f a e w')"

definition andThen :: "'a M \<Rightarrow> 'b M \<Rightarrow> 'b M" where
  "andThen m n = bind m (\<lambda>_. n)"

text \<open>The error becomes a value, for callers that look at it and go on.\<close>

definition attempt :: "'a M \<Rightarrow> (err + 'a) M" where
  "attempt m = (\<lambda>e w. case m e w of (r, w') \<Rightarrow> (Inr r, w'))"

definition mapErr :: "(err \<Rightarrow> err) \<Rightarrow> 'a M \<Rightarrow> 'a M" where
  "mapErr f m = (\<lambda>e w. case m e w of (Inl x, w') \<Rightarrow> (Inl (f x), w') | (Inr a, w') \<Rightarrow> (Inr a, w'))"

definition liftE :: "err + 'a \<Rightarrow> 'a M" where
  "liftE r = (case r of Inl x \<Rightarrow> raise x | Inr a \<Rightarrow> ret a)"

definition asks :: "(env \<Rightarrow> 'a) \<Rightarrow> 'a M" where
  "asks f = (\<lambda>e w. (Inr (f e), w))"

text \<open>\<^verbatim>\<open>for i := range xs { if err := f(xs[i]); err != nil { return err } }\<close>\<close>

fun forM :: "'x list \<Rightarrow> ('x \<Rightarrow> unit M) \<Rightarrow> unit M" where
  "forM [] f = ret ()"
| "forM (x # xs) f = andThen (f x) (forM xs f)"

text \<open>A loop that carries local variables; its body decides about errors.\<close>

fun loopM :: "'x list \<Rightarrow> ('x \<Rightarrow> 's \<Rightarrow> 's M) \<Rightarrow> 's \<Rightarrow> 's M" where
  "loopM [] f s = ret s"
| "loopM (x # xs) f s = bind (f x s) (loopM xs f)"

text \<open>A database call: it may fail, and then changes nothing.\<close>

definition dbcall :: "(env \<Rightarrow> nat \<Rightarrow> db \<Rightarrow> (err + 'a) \<times> db) \<Rightarrow> 'a M" where
  "dbcall f = (\<lambda>e w.
     if fault e (calls w) then (Inl ErrStore, bump w)
     else case f e (calls w) (wdb w) of
            (Inl x, d) \<Rightarrow> (Inl x, bump w)
          | (Inr a, d) \<Rightarrow> (Inr a, bump (w\<lparr>wdb := d\<rparr>)))"

definition dbread :: "(env \<Rightarrow> db \<Rightarrow> err + 'a) \<Rightarrow> 'a M" where
  "dbread f = dbcall (\<lambda>e n d. (f e d, d))"

definition Now :: "time M" where
  "Now = (\<lambda>e w. (Inr (clock e (calls w)), bump w))"

definition readEntropy :: "nat \<Rightarrow> 8 word list M" where
  "readEntropy k = (\<lambda>e w. case entropy e (calls w) k of
     None \<Rightarrow> (Inl ErrEntropy, bump w) | Some b \<Rightarrow> (Inr (take k b), bump w))"

text \<open>\<^verbatim>\<open>market.Runtime.GetPrice\<close> as its clients see it; the runtime has its own theory.\<close>

definition GetPrice :: "string \<Rightarrow> string \<Rightarrow> float64 M" where
  "GetPrice m s = (\<lambda>e w. (quote e (calls w) m s, bump w))"

definition Tx :: "'a M \<Rightarrow> 'a M" where
  "Tx fn = (\<lambda>e w.
     if fault e (calls w) then (Inl ErrStore, bump w)
     else case fn e (bump w) of
            (Inl x, w') \<Rightarrow> (Inl x, w'\<lparr>wdb := wdb w\<rparr>)
          | (Inr a, w') \<Rightarrow>
              if fault e (calls w')
              then (Inl ErrStore, bump (if unreported e (calls w') then w' else w'\<lparr>wdb := wdb w\<rparr>))
              else (Inr a, bump w'))"

text \<open>\<^verbatim>\<open>err.Error()\<close>: the text of a wrapped error carries amounts that the sentinel does not determine.\<close>

definition errorText :: "err \<Rightarrow> string M" where
  "errorText x = (\<lambda>e w. (Inr (errText e (calls w) x), w))"

text \<open>
  \<^verbatim>\<open>if err != nil && !errors.Is(err, database.ErrNotFound) { return err }\<close>: a missing row is \<^const>\<open>None\<close>.
\<close>

definition orNone :: "'a M \<Rightarrow> 'a option M" where
  "orNone m = bind (attempt m) (\<lambda>r. case r of
     Inl x \<Rightarrow> if x = ErrNotFound then ret None else raise x | Inr a \<Rightarrow> ret (Some a))"

section \<open>\<^verbatim>\<open>backend/internal/id\<close>\<close>

definition generate :: "string \<Rightarrow> nat \<Rightarrow> string M" where
  "generate prefix k =
     bind (readEntropy k) (\<lambda>b. ret (prefix @ EncodeToString b))"

definition newID :: "string \<Rightarrow> string M" where
  "newID prefix = generate prefix 8"

definition Secret :: "string \<Rightarrow> string M" where
  "Secret prefix = generate prefix 32"

section \<open>Weakest preconditions\<close>

definition wp :: "env \<Rightarrow> 'a M \<Rightarrow> ('a \<Rightarrow> world \<Rightarrow> bool) \<Rightarrow> (err \<Rightarrow> world \<Rightarrow> bool) \<Rightarrow> world \<Rightarrow> bool" where
  "wp e m Q E w = (case m e w of (Inl x, w') \<Rightarrow> E x w' | (Inr a, w') \<Rightarrow> Q a w')"

lemma wp_ret [wp_rules]: "wp e (ret a) Q E w = Q a w"
  by (simp add: wp_def ret_def)

lemma wp_raise [wp_rules]: "wp e (raise x) Q E w = E x w"
  by (simp add: wp_def raise_def)

lemma wp_bind [wp_rules]: "wp e (bind m f) Q E w = wp e m (\<lambda>a. wp e (f a) Q E) E w"
  by (simp add: wp_def bind_def split: sum.splits prod.splits)

lemma wp_andThen [wp_rules]: "wp e (andThen m n) Q E w = wp e m (\<lambda>_. wp e n Q E) E w"
  by (simp add: andThen_def wp_bind)

lemma wp_attempt [wp_rules]:
  "wp e (attempt m) Q E w = wp e m (\<lambda>a. Q (Inr a)) (\<lambda>x. Q (Inl x)) w"
  by (cases "fst (m e w)") (auto simp: wp_def attempt_def split: prod.splits)

lemma wp_mapErr [wp_rules]: "wp e (mapErr f m) Q E w = wp e m Q (\<lambda>x. E (f x)) w"
  by (simp add: wp_def mapErr_def split: sum.splits prod.splits)

lemma wp_asks [wp_rules]: "wp e (asks f) Q E w = Q (f e) w"
  by (simp add: wp_def asks_def)

text \<open>
  Case distinctions become conjunctions of implications, so that one pass of the simplifier
  produces the verification condition of a whole handler.
\<close>

lemma wp_if [wp_rules]:
  "wp e (if b then m else n) Q E w = ((b \<longrightarrow> wp e m Q E w) \<and> (\<not> b \<longrightarrow> wp e n Q E w))"
  by simp

lemma wp_case_option [wp_rules]:
  "wp e (case z of None \<Rightarrow> m | Some x \<Rightarrow> f x) Q E w =
     ((z = None \<longrightarrow> wp e m Q E w) \<and> (\<forall>x. z = Some x \<longrightarrow> wp e (f x) Q E w))"
  by (simp split: option.splits)

lemma wp_case_sum [wp_rules]:
  "wp e (case z of Inl x \<Rightarrow> f x | Inr y \<Rightarrow> g y) Q E w =
     ((\<forall>x. z = Inl x \<longrightarrow> wp e (f x) Q E w) \<and> (\<forall>y. z = Inr y \<longrightarrow> wp e (g y) Q E w))"
  by (simp split: sum.splits)

lemma wp_case_prod [wp_rules]:
  "wp e (case z of (x, y) \<Rightarrow> f x y) Q E w = (\<forall>x y. z = (x, y) \<longrightarrow> wp e (f x y) Q E w)"
  by (simp split: prod.splits)

lemma wp_case_bool [wp_rules]:
  "wp e (case_bool m n b) Q E w = ((b \<longrightarrow> wp e m Q E w) \<and> (\<not> b \<longrightarrow> wp e n Q E w))"
  by (cases b) simp_all

lemma wp_liftE [wp_rules]:
  "wp e (liftE r) Q E w = ((\<forall>x. r = Inl x \<longrightarrow> E x w) \<and> (\<forall>a. r = Inr a \<longrightarrow> Q a w))"
  by (simp add: liftE_def wp_rules)

lemma wp_dbcall [wp_rules]:
  "wp e (dbcall f) Q E w =
     ((fault e (calls w) \<longrightarrow> E ErrStore (bump w)) \<and>
      (\<not> fault e (calls w) \<longrightarrow>
         (\<forall>x d. f e (calls w) (wdb w) = (Inl x, d) \<longrightarrow> E x (bump w)) \<and>
         (\<forall>a d. f e (calls w) (wdb w) = (Inr a, d) \<longrightarrow> Q a (bump (w\<lparr>wdb := d\<rparr>)))))"
  by (simp add: wp_def dbcall_def split: sum.splits prod.splits)

lemma wp_dbread [wp_rules]:
  "wp e (dbread f) Q E w =
     ((fault e (calls w) \<longrightarrow> E ErrStore (bump w)) \<and>
      (\<not> fault e (calls w) \<longrightarrow>
         (\<forall>x. f e (wdb w) = Inl x \<longrightarrow> E x (bump w)) \<and>
         (\<forall>a. f e (wdb w) = Inr a \<longrightarrow> Q a (bump w))))"
  by (simp add: dbread_def wp_dbcall)

lemma wp_Now [wp_rules]: "wp e Now Q E w = Q (clock e (calls w)) (bump w)"
  by (simp add: wp_def Now_def)

lemma wp_errorText [wp_rules]: "wp e (errorText x) Q E w = Q (errText e (calls w) x) w"
  by (simp add: wp_def errorText_def)

lemma wp_orNone [wp_rules]:
  "wp e (orNone m) Q E w =
     wp e m (\<lambda>a. Q (Some a))
       (\<lambda>x w. (x = ErrNotFound \<longrightarrow> Q None w) \<and> (x \<noteq> ErrNotFound \<longrightarrow> E x w)) w"
  by (simp add: wp_def orNone_def bind_def attempt_def ret_def raise_def split: sum.splits prod.splits)

lemma wp_readEntropy [wp_rules]:
  "wp e (readEntropy k) Q E w =
     ((entropy e (calls w) k = None \<longrightarrow> E ErrEntropy (bump w)) \<and>
      (\<forall>b. entropy e (calls w) k = Some b \<longrightarrow> Q (take k b) (bump w)))"
  by (simp add: wp_def readEntropy_def split: option.splits)

lemma wp_GetPrice [wp_rules]:
  "wp e (GetPrice m s) Q E w =
     ((\<forall>x. quote e (calls w) m s = Inl x \<longrightarrow> E x (bump w)) \<and>
      (\<forall>p. quote e (calls w) m s = Inr p \<longrightarrow> Q p (bump w)))"
  by (simp add: wp_def GetPrice_def split: sum.splits)

lemma wp_newID [wp_rules]:
  "wp e (newID p) Q E w =
     ((entropy e (calls w) 8 = None \<longrightarrow> E ErrEntropy (bump w)) \<and>
      (\<forall>b. entropy e (calls w) 8 = Some b \<longrightarrow> Q (p @ EncodeToString (take 8 b)) (bump w)))"
  by (simp add: newID_def generate_def wp_rules)

lemma wp_Secret [wp_rules]:
  "wp e (Secret p) Q E w =
     ((entropy e (calls w) 32 = None \<longrightarrow> E ErrEntropy (bump w)) \<and>
      (\<forall>b. entropy e (calls w) 32 = Some b \<longrightarrow> Q (p @ EncodeToString (take 32 b)) (bump w)))"
  by (simp add: Secret_def generate_def wp_rules)

lemma wp_Tx [wp_rules]:
  "wp e (Tx m) Q E w =
     ((fault e (calls w) \<longrightarrow> E ErrStore (bump w)) \<and>
      (\<not> fault e (calls w) \<longrightarrow> wp e m
        (\<lambda>a w'. (fault e (calls w') \<longrightarrow>
                   (unreported e (calls w') \<longrightarrow> E ErrStore (bump w')) \<and>
                   (\<not> unreported e (calls w') \<longrightarrow> E ErrStore (bump (w'\<lparr>wdb := wdb w\<rparr>)))) \<and>
                (\<not> fault e (calls w') \<longrightarrow> Q a (bump w')))
        (\<lambda>x w'. E x (w'\<lparr>wdb := wdb w\<rparr>)) (bump w)))"
  by (simp add: wp_def Tx_def split: sum.splits prod.splits)

lemma wp_mono:
  assumes "wp e m Q E w" and "\<And>a w'. Q a w' \<Longrightarrow> Q' a w'" and "\<And>x w'. E x w' \<Longrightarrow> E' x w'"
  shows "wp e m Q' E' w"
  using assms by (auto simp: wp_def split: sum.splits prod.splits)

lemma wp_conj:
  "wp e m Q E w \<Longrightarrow> wp e m Q' E' w \<Longrightarrow>
     wp e m (\<lambda>a w'. Q a w' \<and> Q' a w') (\<lambda>x w'. E x w' \<and> E' x w') w"
  by (auto simp: wp_def split: sum.splits prod.splits)

lemma wp_Inr: "wp e m Q E w \<Longrightarrow> m e w = (Inr a, w') \<Longrightarrow> Q a w'"
  by (simp add: wp_def)

lemma wp_Inl: "wp e m Q E w \<Longrightarrow> m e w = (Inl x, w') \<Longrightarrow> E x w'"
  by (simp add: wp_def)

lemma wp_forM:
  assumes "I xs w"
    and "\<And>y ys w. I (y # ys) w \<Longrightarrow> wp e (f y) (\<lambda>_. I ys) E w"
    and "\<And>w. I [] w \<Longrightarrow> Q () w"
  shows "wp e (forM xs f) Q E w"
  using assms(1)
proof (induction xs arbitrary: w)
  case Nil
  then show ?case by (simp add: wp_rules assms(3))
next
  case (Cons x xs)
  from assms(2) [OF Cons.prems] show ?case
    by (auto simp: wp_rules intro: wp_mono Cons.IH)
qed

section \<open>Invariants of the database\<close>

text \<open>A computation keeps a property of the database, whether it succeeds or fails.\<close>

definition keeps :: "(db \<Rightarrow> bool) \<Rightarrow> 'a M \<Rightarrow> bool" where
  "keeps I m = (\<forall>e w. I (wdb w) \<longrightarrow> I (wdb (snd (m e w))))"

lemma keeps_wp: "keeps I m \<longleftrightarrow>
    (\<forall>e w. I (wdb w) \<longrightarrow> wp e m (\<lambda>_ w'. I (wdb w')) (\<lambda>_ w'. I (wdb w')) w)"
proof -
  have "wp e m (\<lambda>_ w'. I (wdb w')) (\<lambda>_ w'. I (wdb w')) w = I (wdb (snd (m e w)))" for e w
    by (cases "fst (m e w)") (auto simp: wp_def split: prod.splits)
  then show ?thesis by (simp add: keeps_def)
qed

lemma keepsI:
  "(\<And>e w. I (wdb w) \<Longrightarrow> wp e m (\<lambda>_ w'. I (wdb w')) (\<lambda>_ w'. I (wdb w')) w) \<Longrightarrow> keeps I m"
  by (simp add: keeps_wp)

lemma keeps_Tx:
  assumes "\<And>e w :: world. I (wdb w) \<Longrightarrow> wp e m (\<lambda>_ w'. I (wdb w')) (\<lambda>_ _. True) w"
  shows "keeps I (Tx m)"
proof (rule keepsI)
  fix e and w :: world assume I: "I (wdb w)"
  have "wp e m (\<lambda>_ w'. I (wdb w')) (\<lambda>_ _. True) (bump w)" by (rule assms) (simp add: I)
  then show "wp e (Tx m) (\<lambda>_ w'. I (wdb w')) (\<lambda>_ w'. I (wdb w')) w"
    by (auto simp: wp_rules I intro: wp_mono)
qed

lemma keeps_bind: "keeps I m \<Longrightarrow> (\<And>a. keeps I (f a)) \<Longrightarrow> keeps I (bind m f)"
  unfolding keeps_wp wp_bind by (blast intro: wp_mono)

lemma keeps_andThen: "keeps I m \<Longrightarrow> keeps I n \<Longrightarrow> keeps I (andThen m n)"
  by (simp add: andThen_def keeps_bind)

lemma keeps_ret: "keeps I (ret a)"
  by (simp add: keeps_wp wp_rules)

lemma keeps_raise: "keeps I (raise x)"
  by (simp add: keeps_wp wp_rules)

lemma keeps_liftE: "keeps I (liftE r)"
  by (simp add: keeps_wp wp_rules split: sum.splits)

lemma keeps_asks: "keeps I (asks f)"
  by (simp add: keeps_wp wp_rules)

lemma keeps_dbread: "keeps I (dbread f)"
  by (simp add: keeps_wp wp_rules split: sum.splits)

lemma keeps_GetPrice: "keeps I (GetPrice m s)"
  by (simp add: keeps_wp wp_rules split: sum.splits)

lemma keeps_newID: "keeps I (newID p)" and keeps_Secret: "keeps I (Secret p)"
  by (simp_all add: keeps_wp wp_rules split: option.splits)

lemma keeps_Now: "keeps I Now"
  by (simp add: keeps_wp wp_rules)

lemma keeps_attempt: "keeps I m \<Longrightarrow> keeps I (attempt m)"
  by (simp add: keeps_wp wp_rules)

lemma keeps_mapErr: "keeps I m \<Longrightarrow> keeps I (mapErr f m)"
  by (simp add: keeps_wp wp_rules)

lemma keeps_forM: "(\<And>x. keeps I (f x)) \<Longrightarrow> keeps I (forM xs f)"
  by (induction xs) (auto intro: keeps_ret keeps_andThen)

lemma keeps_loopM: "(\<And>x s. keeps I (f x s)) \<Longrightarrow> keeps I (loopM xs f s)"
  by (induction xs arbitrary: s) (auto intro: keeps_ret keeps_bind)

lemmas keeps_intros = keeps_loopM keeps_ret keeps_raise keeps_liftE keeps_asks keeps_dbread keeps_GetPrice
  keeps_newID keeps_Secret keeps_Now keeps_bind keeps_andThen keeps_attempt keeps_mapErr keeps_forM

text \<open>Computations that only look at the database.\<close>

definition readOnly :: "'a M \<Rightarrow> bool" where
  "readOnly m = (\<forall>d0. keeps (\<lambda>d. d = d0) m)"

lemma wp_readOnly:
  assumes "readOnly m" "\<And>a w'. wdb w' = wdb w \<Longrightarrow> Q a w'" "\<And>x w'. wdb w' = wdb w \<Longrightarrow> E x w'"
  shows "wp e m Q E w"
proof -
  have "wp e m (\<lambda>_ w'. wdb w' = wdb w) (\<lambda>_ w'. wdb w' = wdb w) w"
    using assms(1) by (simp add: readOnly_def keeps_wp)
  then show ?thesis by (rule wp_mono) (auto intro: assms(2,3))
qed

text \<open>
  All or nothing: a transaction that returns an error leaves the database as it was, unless its last call
  was a commit that failed although it was carried out.
\<close>

definition unknownCommit :: "env \<Rightarrow> world \<Rightarrow> bool" where
  "unknownCommit e w = (0 < calls w \<and> fault e (calls w - 1) \<and> unreported e (calls w - 1))"

lemma unknownCommit_bump [simp]: "unknownCommit e (bump w) = (fault e (calls w) \<and> unreported e (calls w))"
  by (simp add: unknownCommit_def)

lemma Tx_atomic: "Tx m e w = (Inl x, w') \<Longrightarrow> wdb w' = wdb w \<or> (x = ErrStore \<and> unknownCommit e w')"
  by (auto simp: Tx_def split: if_splits sum.splits prod.splits)

section \<open>Computations that never return an error\<close>

definition errorFree :: "'a M \<Rightarrow> bool" where
  "errorFree m = (\<forall>e w. \<exists>a w'. m e w = (Inr a, w'))"

lemma errorFree_ret: "errorFree (ret a)"
  by (simp add: errorFree_def ret_def)

lemma errorFree_attempt: "errorFree (attempt m)"
  by (simp add: errorFree_def attempt_def split: prod.splits)

lemma errorFree_bind: "errorFree m \<Longrightarrow> (\<And>a. errorFree (f a)) \<Longrightarrow> errorFree (bind m f)"
  unfolding errorFree_def bind_def by (metis (no_types, lifting) case_prod_conv sum.case(2))

lemma errorFree_loopM: "(\<And>x s. errorFree (f x s)) \<Longrightarrow> errorFree (loopM xs f s)"
  by (induction xs arbitrary: s) (auto intro: errorFree_ret errorFree_bind)

lemma errorFree_cases:
  "errorFree m \<Longrightarrow> errorFree n \<Longrightarrow> errorFree (if b then m else n)"
  "errorFree m \<Longrightarrow> (\<And>x. errorFree (f x)) \<Longrightarrow> errorFree (case z of None \<Rightarrow> m | Some x \<Rightarrow> f x)"
  "(\<And>x. errorFree (g x)) \<Longrightarrow> (\<And>x. errorFree (h x)) \<Longrightarrow> errorFree (case r of Inl x \<Rightarrow> g x | Inr x \<Rightarrow> h x)"
  "(\<And>x y. errorFree (k x y)) \<Longrightarrow> errorFree (case p of (x, y) \<Rightarrow> k x y)"
  by (auto split: option.splits sum.splits prod.splits)

lemmas errorFree_intros = errorFree_ret errorFree_attempt errorFree_bind errorFree_loopM errorFree_cases

section \<open>A concrete environment\<close>

text \<open>
  No failures, a clock and random bytes that follow the number of the call, every instrument quoted at
  100, fees of a ten-thousandth; no token key.  The witnesses evaluate the services in it.
\<close>

definition plainEnv :: env where
  "plainEnv = \<lparr>fault = (\<lambda>_. False), unreported = (\<lambda>_. False), clock = int, entropy = (\<lambda>n k. Some (replicate k (of_nat n))),
     quote = (\<lambda>_ _ _. Inr (Fin 100)), postgres = False, sqlSum = foldl (+) 0, errText = (\<lambda>_ _. ''error''),
     uniLower = id, uniUpper = id, tokenKey = [], aeadSeal = (\<lambda>_ _ t. t), aeadOpen = (\<lambda>_ _ t. Some t),
     rawStdEncode = id, rawStdDecode = Some, hmacURL = (\<lambda>_ t. t), makerFee = lit (1 / 10000),
     takerFee = lit (1 / 10000), cfgUserName = ''Boss'', cfgUserToken = ''user-token'', cfgAgentToken = ''agent-token''\<rparr>"

definition worldOf :: "db \<Rightarrow> world" where
  "worldOf d = \<lparr>wdb = d, calls = 0, hub = newStreams\<rparr>"

lemma wdb_worldOf [simp]: "wdb (worldOf d) = d"
  by (simp add: worldOf_def)

end
