(* ===== verification/Store.thy ===== *)
theory Store
  imports StoreMonad "HOL-Library.Char_ord" "HOL-Library.List_Lexorder" "HOL-Library.Product_Lexorder"
begin

text \<open>
  \<^verbatim>\<open>backend/internal/database\<close>: the operations of \<^verbatim>\<open>account.go\<close> and \<^verbatim>\<open>trading.go\<close> on the tables.

  The SQL in the source is given its standard meaning on lists of rows: primary keys and unique
  indexes reject a conflicting row with \<open>ErrDuplicate\<close>, gorm's \<^verbatim>\<open>Save\<close> is an upsert, \<^verbatim>\<open>Create\<close> fills a
  zero \<^verbatim>\<open>CreatedAt\<close> from the clock and the columns that have a default, \<^verbatim>\<open>Updates\<close> writes the named
  columns of the matching rows.  Rows that tie in an \<^verbatim>\<open>ORDER BY\<close> stay in insertion order.  The sum
  aggregate is a parameter of the environment, since its order of additions belongs to the database.

  The token envelope follows \<^verbatim>\<open>protectToken\<close> and \<^verbatim>\<open>decryptAccount\<close>; AES-GCM, base64 and HMAC-SHA256
  are parameters of the environment.
\<close>

section \<open>Account tokens\<close>

definition encryptedTokenPrefix :: string where
  "encryptedTokenPrefix = ''enc:v1:''"

text \<open>\<^verbatim>\<open>aes.NewCipher\<close> accepts keys of 16, 24 and 32 bytes; \<^verbatim>\<open>cipher.NewGCM\<close> uses 12-byte nonces.\<close>

definition validKey :: "string \<Rightarrow> bool" where
  "validKey k = (length k \<in> {16, 24, 32})"

definition nonceSize :: nat where
  "nonceSize = 12"

definition protectToken :: "string \<Rightarrow> string M" where
  "protectToken token =
     bind (asks (\<lambda>e. e)) (\<lambda>e.
     if tokenKey e = [] then ret token
     else if \<not> validKey (tokenKey e) then raise ErrTokenKey
     else bind (mapErr (\<lambda>_. ErrTokenKey) (readEntropy nonceSize)) (\<lambda>nonce.
     let n = map (char_of \<circ> unat) nonce
     in ret (encryptedTokenPrefix @ rawStdEncode e (n @ aeadSeal e (tokenKey e) n token))))"

definition hashToken :: "env \<Rightarrow> string \<Rightarrow> string" where
  "hashToken e token = (if tokenKey e = [] then [] else hmacURL e (tokenKey e) token)"

definition storedAccount :: "account \<Rightarrow> account M" where
  "storedAccount a =
     bind (protectToken (accToken a)) (\<lambda>protected.
     bind (asks (\<lambda>e. e)) (\<lambda>e.
     ret (a\<lparr>accToken := protected,
            accTokenHash := (if tokenKey e \<noteq> [] then Some (hashToken e (accToken a)) else None)\<rparr>)))"

definition decryptAccount :: "env \<Rightarrow> account \<Rightarrow> err + account" where
  "decryptAccount e a =
     (if tokenKey e = [] then (if accTokenHash a \<noteq> None then Inl ErrTokenKey else Inr a)
      else if \<not> starts_with encryptedTokenPrefix (accToken a) then Inl ErrTokenKey
      else case rawStdDecode e (drop (length encryptedTokenPrefix) (accToken a)) of
             None \<Rightarrow> Inl ErrTokenKey
           | Some raw \<Rightarrow>
               if \<not> validKey (tokenKey e) then Inl ErrTokenKey
               else if length raw < nonceSize then Inl ErrTokenKey
               else case aeadOpen e (tokenKey e) (take nonceSize raw) (drop nonceSize raw) of
                      None \<Rightarrow> Inl ErrTokenKey
                    | Some plaintext \<Rightarrow> Inr (a\<lparr>accToken := plaintext\<rparr>))"

fun decryptAll :: "env \<Rightarrow> account list \<Rightarrow> err + account list" where
  "decryptAll e [] = Inr []"
| "decryptAll e (a # as) =
     (case decryptAccount e a of Inl x \<Rightarrow> Inl x
      | Inr a' \<Rightarrow> (case decryptAll e as of Inl x \<Rightarrow> Inl x | Inr as' \<Rightarrow> Inr (a' # as')))"

section \<open>Accounts\<close>

text \<open>A row that breaks a unique index of \<^verbatim>\<open>accounts\<close> against another row.\<close>

definition accountClash :: "account \<Rightarrow> account \<Rightarrow> bool" where
  "accountClash a b =
     (accUserName a = accUserName b \<or> accToken a = accToken b \<or>
      (accTokenHash a \<noteq> None \<and> accTokenHash a = accTokenHash b))"

definition accountDefaults :: "account \<Rightarrow> account" where
  "accountDefaults a = a\<lparr>accChatRead := True, accChatPost := True,
     accChatRateMinutes := (if accChatRateMinutes a = 0 then 1 else accChatRateMinutes a),
     accChatRateCount := (if accChatRateCount a = 0 then 3 else accChatRateCount a)\<rparr>"

definition insertAccount :: "account \<Rightarrow> unit M" where
  "insertAccount a = dbcall (\<lambda>e n d.
     if list_ex (\<lambda>b. accID b = accID a \<or> accountClash a b) (accounts d) then (Inl ErrDuplicate, d)
     else (Inr (), d\<lparr>accounts := accounts d @
       [(accountDefaults a)\<lparr>accCreatedAt :=
          (if accCreatedAt a = zeroTime then clock e n else accCreatedAt a)\<rparr>]\<rparr>))"

definition CreateAccount :: "account \<Rightarrow> unit M" where
  "CreateAccount a = bind (storedAccount a) (\<lambda>row. Tx (insertAccount row))"

text \<open>\<^verbatim>\<open>First\<close> of the rows a unique column selects.\<close>

definition accountWhere :: "(env \<Rightarrow> account \<Rightarrow> bool) \<Rightarrow> account M" where
  "accountWhere query = dbread (\<lambda>e d.
     case find (query e) (accounts d) of
       None \<Rightarrow> Inl ErrNotFound | Some a \<Rightarrow> decryptAccount e a)"

definition AccountByID :: "string \<Rightarrow> account M" where
  "AccountByID i = accountWhere (\<lambda>_ a. accID a = i)"

definition AccountByToken :: "string \<Rightarrow> account M" where
  "AccountByToken token = accountWhere (\<lambda>e a.
     if tokenKey e = [] then accToken a = token else accTokenHash a = Some (hashToken e token))"

definition ListAccounts :: "account list M" where
  "ListAccounts = dbread (\<lambda>e d. decryptAll e (sort_key (\<lambda>a. - accCreatedAt a) (accounts d)))"

definition upsertAccount :: "account \<Rightarrow> unit M" where
  "upsertAccount a = dbcall (\<lambda>e n d.
     if list_ex (\<lambda>b. accID b \<noteq> accID a \<and> accountClash a b) (accounts d) then (Inl ErrDuplicate, d)
     else (Inr (), d\<lparr>accounts := tbl_save accID a (accounts d)\<rparr>))"

definition SaveAccount :: "account \<Rightarrow> unit M" where
  "SaveAccount a = bind (storedAccount a) upsertAccount"

definition ListMaxDDAccounts :: "account list M" where
  "ListMaxDDAccounts = dbread (\<lambda>e d.
     decryptAll e (sort_key accCreatedAt (filter (\<lambda>a. accMaxDD a \<noteq> None) (accounts d))))"

record accountFields =
  fUserName :: "string option"
  fStatus :: "string option"
  fChatRead :: "bool option"
  fChatPost :: "bool option"
  fChatReadSince :: "time option"
  fChatRateMinutes :: "int option"
  fChatRateCount :: "int option"

definition applyAccountFields :: "accountFields \<Rightarrow> account \<Rightarrow> account" where
  "applyAccountFields f a = a\<lparr>
     accUserName := (case fUserName f of None \<Rightarrow> accUserName a | Some x \<Rightarrow> x),
     accStatus := (case fStatus f of None \<Rightarrow> accStatus a | Some x \<Rightarrow> x),
     accChatRead := (case fChatRead f of None \<Rightarrow> accChatRead a | Some x \<Rightarrow> x),
     accChatPost := (case fChatPost f of None \<Rightarrow> accChatPost a | Some x \<Rightarrow> x),
     accChatReadSince := (case fChatReadSince f of None \<Rightarrow> accChatReadSince a | Some x \<Rightarrow> Some x),
     accChatRateMinutes := (case fChatRateMinutes f of None \<Rightarrow> accChatRateMinutes a | Some x \<Rightarrow> x),
     accChatRateCount := (case fChatRateCount f of None \<Rightarrow> accChatRateCount a | Some x \<Rightarrow> x)\<rparr>"

text \<open>\<^verbatim>\<open>UPDATE accounts SET ... WHERE id = ?\<close>, with the unique index on the name and the token.\<close>

definition updateAccountRow :: "string \<Rightarrow> (account \<Rightarrow> account) \<Rightarrow> unit M" where
  "updateAccountRow i f = dbcall (\<lambda>e n d.
     case find (\<lambda>a. accID a = i) (accounts d) of
       None \<Rightarrow> (Inl ErrNotFound, d)
     | Some a \<Rightarrow>
         if list_ex (\<lambda>b. accID b \<noteq> i \<and> accountClash (f a) b) (accounts d) then (Inl ErrDuplicate, d)
         else (Inr (), d\<lparr>accounts := tbl_put accID (f a) (accounts d)\<rparr>))"

definition UpdateAccountFields :: "string \<Rightarrow> accountFields \<Rightarrow> unit M" where
  "UpdateAccountFields i f =
     (if fUserName f = None \<and> fStatus f = None \<and> fChatRead f = None \<and> fChatPost f = None \<and>
         fChatReadSince f = None \<and> fChatRateMinutes f = None \<and> fChatRateCount f = None
      then ret ()
      else updateAccountRow i (applyAccountFields f))"

definition UpdateAccountToken :: "string \<Rightarrow> string \<Rightarrow> unit M" where
  "UpdateAccountToken i token =
     bind (protectToken token) (\<lambda>stored.
     bind (asks (\<lambda>e. e)) (\<lambda>e.
     updateAccountRow i (\<lambda>a. a\<lparr>accToken := stored,
       accTokenHash := (if tokenKey e \<noteq> [] then Some (hashToken e token) else None)\<rparr>)))"

definition UpdateChatMute :: "string \<Rightarrow> time option \<Rightarrow> string \<Rightarrow> unit M" where
  "UpdateChatMute i until reason =
     updateAccountRow i (\<lambda>a. a\<lparr>accChatMutedUntil := until, accChatMuteReason := reason\<rparr>)"

definition DeleteAccount :: "string \<Rightarrow> unit M" where
  "DeleteAccount i = dbcall (\<lambda>e n d.
     if list_ex (\<lambda>a. accID a = i) (accounts d)
     then (Inr (), d\<lparr>accounts := filter (\<lambda>a. accID a \<noteq> i) (accounts d)\<rparr>)
     else (Inl ErrNotFound, d))"

section \<open>Orders\<close>

text \<open>
  \<^verbatim>\<open>SELECT ... FOR UPDATE\<close> on postgres; nothing on sqlite, which has one connection.  Transactions
  of one account therefore run one after the other, which is how the model runs them.
\<close>

definition LockAccount :: "string \<Rightarrow> unit M" where
  "LockAccount i =
     bind (asks postgres) (\<lambda>pg.
     if \<not> pg then ret ()
     else dbread (\<lambda>e d. if list_ex (\<lambda>a. accID a = i) (accounts d) then Inr () else Inl ErrNotFound))"

text \<open>\<^verbatim>\<open>Create\<close> writes the creation time back into the caller's struct, which is returned here.\<close>

definition CreateOrder :: "order \<Rightarrow> order M" where
  "CreateOrder x = dbcall (\<lambda>e n d.
     if list_ex (\<lambda>y. ordID y = ordID x) (orders d) then (Inl ErrDuplicate, d)
     else let x' = x\<lparr>ordCreatedAt := (if ordCreatedAt x = zeroTime then clock e n else ordCreatedAt x)\<rparr>
          in (Inr x', d\<lparr>orders := orders d @ [x'\<lparr>ordPositionID := []\<rparr>]\<rparr>))"

definition SaveOrder :: "order \<Rightarrow> unit M" where
  "SaveOrder x = dbcall (\<lambda>e n d.
     (Inr (), d\<lparr>orders := tbl_save ordID (x\<lparr>ordPositionID := []\<rparr>) (orders d)\<rparr>))"

definition OrderByID :: "string \<Rightarrow> string \<Rightarrow> order M" where
  "OrderByID acc i = dbread (\<lambda>e d.
     case find (\<lambda>x. ordAccountID x = acc \<and> ordID x = i) (orders d) of
       None \<Rightarrow> Inl ErrNotFound | Some x \<Rightarrow> Inr x)"

definition ListOrders :: "string \<Rightarrow> string \<Rightarrow> nat \<Rightarrow> order list M" where
  "ListOrders acc status limit = dbread (\<lambda>e d. Inr (take limit (rev (sort_key
     (\<lambda>x. (ordCreatedAt x, ordID x))
     (filter (\<lambda>x. ordAccountID x = acc \<and> (status = [] \<or> ordStatus x = status)) (orders d))))))"

definition OpenLimitOrders :: "order list M" where
  "OpenLimitOrders = dbread (\<lambda>e d. Inr (sort_key ordCreatedAt
     (filter (\<lambda>x. ordStatus x = OrderOpen \<and> ordType x = OrderLimit) (orders d))))"

definition OpenOrdersForAccount :: "string \<Rightarrow> order list M" where
  "OpenOrdersForAccount acc = dbread (\<lambda>e d. Inr (sort_key ordCreatedAt
     (filter (\<lambda>x. ordAccountID x = acc \<and> ordStatus x = OrderOpen) (orders d))))"

section \<open>Positions\<close>

definition PositionsWithStops :: "position list M" where
  "PositionsWithStops = dbread (\<lambda>e d. Inr
     (filter (\<lambda>p. posStopLoss p > 0 \<or> posTakeProfit p > 0) (positions d)))"

definition PositionFor :: "string \<Rightarrow> string \<Rightarrow> string \<Rightarrow> string \<Rightarrow> position M" where
  "PositionFor acc m s pr = dbread (\<lambda>e d.
     case find (\<lambda>p. posKey p = (acc, m, s, pr)) (positions d) of
       None \<Rightarrow> Inl ErrNotFound | Some p \<Rightarrow> Inr p)"

definition PositionByID :: "string \<Rightarrow> string \<Rightarrow> position M" where
  "PositionByID acc i = dbread (\<lambda>e d.
     case find (\<lambda>p. posAccountID p = acc \<and> posID p = i) (positions d) of
       None \<Rightarrow> Inl ErrNotFound | Some p \<Rightarrow> Inr p)"

definition ListPositions :: "string \<Rightarrow> string \<Rightarrow> position list M" where
  "ListPositions acc product = dbread (\<lambda>e d. Inr (sort_key posCreatedAt
     (filter (\<lambda>p. posAccountID p = acc \<and> (product = [] \<or> posProduct p = product)) (positions d))))"

definition CreatePosition :: "position \<Rightarrow> unit M" where
  "CreatePosition p = dbcall (\<lambda>e n d.
     if list_ex (\<lambda>q. posID q = posID p \<or> posKey q = posKey p) (positions d)
     then (Inl ErrDuplicate, d)
     else (Inr (), d\<lparr>positions := positions d @
       [p\<lparr>posCreatedAt := (if posCreatedAt p = zeroTime then clock e n else posCreatedAt p)\<rparr>]\<rparr>))"

definition SavePosition :: "position \<Rightarrow> unit M" where
  "SavePosition p = dbcall (\<lambda>e n d.
     if list_ex (\<lambda>q. posID q \<noteq> posID p \<and> posKey q = posKey p) (positions d)
     then (Inl ErrDuplicate, d)
     else (Inr (), d\<lparr>positions := tbl_save posID p (positions d)\<rparr>))"

definition UpdatePositionStops :: "position \<Rightarrow> unit M" where
  "UpdatePositionStops p = dbcall (\<lambda>e n d.
     case find (\<lambda>q. posID q = posID p) (positions d) of
       None \<Rightarrow> (Inl ErrNotFound, d)
     | Some q \<Rightarrow> (Inr (), d\<lparr>positions := tbl_put posID
         (q\<lparr>posStopLoss := posStopLoss p, posTakeProfit := posTakeProfit p,
            posStopLossSource := posStopLossSource p,
            posTakeProfitSource := posTakeProfitSource p\<rparr>) (positions d)\<rparr>))"

definition DeletePosition :: "string \<Rightarrow> unit M" where
  "DeletePosition i = dbcall (\<lambda>e n d.
     (Inr (), d\<lparr>positions := filter (\<lambda>p. posID p \<noteq> i) (positions d)\<rparr>))"

definition DeleteAccountTradingState :: "string \<Rightarrow> unit M" where
  "DeleteAccountTradingState acc =
     andThen
       (dbcall (\<lambda>e n d. (Inr (), d\<lparr>positions := filter (\<lambda>p. posAccountID p \<noteq> acc) (positions d)\<rparr>)))
       (dbcall (\<lambda>e n d. (Inr (), d\<lparr>orders :=
          filter (\<lambda>x. \<not> (ordAccountID x = acc \<and> ordStatus x = OrderOpen)) (orders d)\<rparr>)))"

text \<open>\<^verbatim>\<open>SELECT COALESCE(SUM(margin), 0) ... WHERE account_id = ?\<close>\<close>

definition lockedIn :: "env \<Rightarrow> string \<Rightarrow> db \<Rightarrow> float64" where
  "lockedIn e acc d =
     (let ms = map posMargin (filter (\<lambda>p. posAccountID p = acc) (positions d))
      in if ms = [] then 0 else sqlSum e ms)"

definition LockedMargin :: "string \<Rightarrow> float64 M" where
  "LockedMargin acc = dbread (\<lambda>e d. Inr (lockedIn e acc d))"

section \<open>Trades and ledger\<close>

definition CreateTrade :: "trade \<Rightarrow> unit M" where
  "CreateTrade t = dbcall (\<lambda>e n d.
     if list_ex (\<lambda>u. trdID u = trdID t) (trades d) then (Inl ErrDuplicate, d)
     else (Inr (), d\<lparr>trades := trades d @
       [t\<lparr>trdCreatedAt := (if trdCreatedAt t = zeroTime then clock e n else trdCreatedAt t)\<rparr>]\<rparr>))"

definition ListTrades :: "string \<Rightarrow> nat \<Rightarrow> trade list M" where
  "ListTrades acc limit = dbread (\<lambda>e d. Inr (take limit (rev (sort_key
     (\<lambda>t. (trdCreatedAt t, trdID t)) (filter (\<lambda>t. trdAccountID t = acc) (trades d))))))"

definition CreateLedgerEntry :: "ledgerEntry \<Rightarrow> unit M" where
  "CreateLedgerEntry l = dbcall (\<lambda>e n d.
     (Inr (), d\<lparr>ledger := ledger d @
        [l\<lparr>ledSeq := ledgerSeq d + 1,
           ledCreatedAt := (if ledCreatedAt l = zeroTime then clock e n else ledCreatedAt l)\<rparr>],
        ledgerSeq := ledgerSeq d + 1\<rparr>))"

text \<open>Ledger entries with the sequence numbers and times the database gives them.\<close>

fun stamp :: "int \<Rightarrow> (ledgerEntry \<times> time) list \<Rightarrow> ledgerEntry list" where
  "stamp n [] = []"
| "stamp n ((l, t) # es) = l\<lparr>ledSeq := n + 1, ledCreatedAt := t\<rparr> # stamp (n + 1) es"

definition logged :: "db \<Rightarrow> (ledgerEntry \<times> time) list \<Rightarrow> db" where
  "logged d es = d\<lparr>ledger := ledger d @ stamp (ledgerSeq d) es,
     ledgerSeq := ledgerSeq d + int (length es)\<rparr>"

record ledgerFilter =
  lfSessionID :: string
  lfRunID :: int
  lfBeforeSeq :: int
  lfLimit :: nat

definition ListLedger :: "string \<Rightarrow> ledgerFilter \<Rightarrow> ledgerEntry list M" where
  "ListLedger acc f = dbread (\<lambda>e d. Inr (take (lfLimit f) (rev (sort_key ledSeq
     (filter (\<lambda>l. ledAccountID l = acc \<and>
        (lfSessionID f \<noteq> [] \<longrightarrow> SessionID (ledSource l) = lfSessionID f) \<and>
        (lfRunID f > 0 \<longrightarrow> RunID (ledSource l) = lfRunID f) \<and>
        (lfBeforeSeq f > 0 \<longrightarrow> ledSeq l < lfBeforeSeq f)) (ledger d))))))"

section \<open>Weakest preconditions of the store\<close>

text \<open>A database call either fails, or goes on with \<open>P\<close>.\<close>

abbreviation live :: "env \<Rightarrow> (err \<Rightarrow> world \<Rightarrow> bool) \<Rightarrow> world \<Rightarrow> bool \<Rightarrow> bool" where
  "live e E w P \<equiv>
     (fault e (calls w) \<longrightarrow> E ErrStore (bump w)) \<and> (\<not> fault e (calls w) \<longrightarrow> P)"

abbreviation setDB :: "world \<Rightarrow> db \<Rightarrow> world" where
  "setDB w d \<equiv> bump (w\<lparr>wdb := d\<rparr>)"

lemma decryptAccount_Inr:
  "decryptAccount e a = Inr b \<Longrightarrow> \<exists>t. b = a\<lparr>accToken := t\<rparr>"
  by (auto simp: decryptAccount_def split: if_splits option.splits intro: exI [of _ "accToken a"])

lemma decryptAccount_Inl: "decryptAccount e a = Inl x \<Longrightarrow> x = ErrTokenKey"
  by (auto simp: decryptAccount_def split: if_splits option.splits)

lemma wp_AccountByID [wp_rules]:
  "wp e (AccountByID i) Q E w =
     live e E w
       ((find (\<lambda>a. accID a = i) (accounts (wdb w)) = None \<longrightarrow> E ErrNotFound (bump w)) \<and>
        (\<forall>r. find (\<lambda>a. accID a = i) (accounts (wdb w)) = Some r \<longrightarrow>
           (\<forall>x. decryptAccount e r = Inl x \<longrightarrow> E x (bump w)) \<and>
           (\<forall>a. decryptAccount e r = Inr a \<longrightarrow> Q a (bump w))))"
  by (auto simp: AccountByID_def accountWhere_def wp_dbread split: option.splits)

lemma wp_OrderByID [wp_rules]:
  "wp e (OrderByID acc i) Q E w =
     live e E w
       ((find (\<lambda>x. ordAccountID x = acc \<and> ordID x = i) (orders (wdb w)) = None \<longrightarrow>
           E ErrNotFound (bump w)) \<and>
        (\<forall>x. find (\<lambda>x. ordAccountID x = acc \<and> ordID x = i) (orders (wdb w)) = Some x \<longrightarrow>
           Q x (bump w)))"
  by (auto simp: OrderByID_def wp_dbread split: option.splits)

lemma wp_PositionFor [wp_rules]:
  "wp e (PositionFor acc m s pr) Q E w =
     live e E w
       ((find (\<lambda>p. posKey p = (acc, m, s, pr)) (positions (wdb w)) = None \<longrightarrow>
           E ErrNotFound (bump w)) \<and>
        (\<forall>p. find (\<lambda>p. posKey p = (acc, m, s, pr)) (positions (wdb w)) = Some p \<longrightarrow>
           Q p (bump w)))"
  by (auto simp: PositionFor_def wp_dbread split: option.splits)

lemma wp_PositionByID [wp_rules]:
  "wp e (PositionByID acc i) Q E w =
     live e E w
       ((find (\<lambda>p. posAccountID p = acc \<and> posID p = i) (positions (wdb w)) = None \<longrightarrow>
           E ErrNotFound (bump w)) \<and>
        (\<forall>p. find (\<lambda>p. posAccountID p = acc \<and> posID p = i) (positions (wdb w)) = Some p \<longrightarrow>
           Q p (bump w)))"
  by (auto simp: PositionByID_def wp_dbread split: option.splits)

lemma wp_ListPositions [wp_rules]:
  "wp e (ListPositions acc pr) Q E w =
     live e E w (Q (sort_key posCreatedAt (filter
       (\<lambda>p. posAccountID p = acc \<and> (pr = [] \<or> posProduct p = pr)) (positions (wdb w)))) (bump w))"
  by (simp add: ListPositions_def wp_dbread)

lemma wp_OpenOrdersForAccount [wp_rules]:
  "wp e (OpenOrdersForAccount acc) Q E w =
     live e E w (Q (sort_key ordCreatedAt (filter
       (\<lambda>x. ordAccountID x = acc \<and> ordStatus x = OrderOpen) (orders (wdb w)))) (bump w))"
  by (simp add: OpenOrdersForAccount_def wp_dbread)

lemma wp_LockedMargin [wp_rules]:
  "wp e (LockedMargin acc) Q E w = live e E w (Q (lockedIn e acc (wdb w)) (bump w))"
  by (simp add: LockedMargin_def wp_dbread)

text \<open>Locking reads at most: it fails without effect or goes on in the same database.\<close>

lemma wp_LockAccount:
  assumes "\<And>w'. wdb w' = wdb w \<Longrightarrow> Q () w'"
    and "\<And>x w'. x \<in> {ErrStore, ErrNotFound} \<Longrightarrow> wdb w' = wdb w \<Longrightarrow> E x w'"
  shows "wp e (LockAccount i) Q E w"
  using assms by (auto simp: LockAccount_def wp_rules split: if_splits)

lemma wp_CreateOrder:
  "wp e (CreateOrder x) Q E w =
     live e E w
       ((list_ex (\<lambda>y. ordID y = ordID x) (orders (wdb w)) \<longrightarrow> E ErrDuplicate (bump w)) \<and>
        (\<not> list_ex (\<lambda>y. ordID y = ordID x) (orders (wdb w)) \<longrightarrow>
          (let x' = x\<lparr>ordCreatedAt := (if ordCreatedAt x = zeroTime then clock e (calls w)
                                     else ordCreatedAt x)\<rparr>
           in Q x' (setDB w ((wdb w)\<lparr>orders := orders (wdb w) @ [x'\<lparr>ordPositionID := []\<rparr>]\<rparr>)))))"
  by (auto simp: CreateOrder_def wp_dbcall Let_def)

lemma wp_SaveOrder:
  "wp e (SaveOrder x) Q E w =
     live e E w (Q () (setDB w ((wdb w)\<lparr>orders :=
       tbl_save ordID (x\<lparr>ordPositionID := []\<rparr>) (orders (wdb w))\<rparr>)))"
  by (simp add: SaveOrder_def wp_dbcall)

lemma wp_CreatePosition [wp_rules]:
  "wp e (CreatePosition p) Q E w =
     live e E w
       ((list_ex (\<lambda>q. posID q = posID p \<or> posKey q = posKey p) (positions (wdb w)) \<longrightarrow>
           E ErrDuplicate (bump w)) \<and>
        (\<not> list_ex (\<lambda>q. posID q = posID p \<or> posKey q = posKey p) (positions (wdb w)) \<longrightarrow>
           Q () (setDB w ((wdb w)\<lparr>positions := positions (wdb w) @ [p\<lparr>posCreatedAt :=
             (if posCreatedAt p = zeroTime then clock e (calls w) else posCreatedAt p)\<rparr>]\<rparr>))))"
  by (auto simp: CreatePosition_def wp_dbcall)

lemma wp_SavePosition [wp_rules]:
  "wp e (SavePosition p) Q E w =
     live e E w
       ((list_ex (\<lambda>q. posID q \<noteq> posID p \<and> posKey q = posKey p) (positions (wdb w)) \<longrightarrow>
           E ErrDuplicate (bump w)) \<and>
        (\<not> list_ex (\<lambda>q. posID q \<noteq> posID p \<and> posKey q = posKey p) (positions (wdb w)) \<longrightarrow>
           Q () (setDB w ((wdb w)\<lparr>positions := tbl_save posID p (positions (wdb w))\<rparr>))))"
  by (auto simp: SavePosition_def wp_dbcall)

lemma wp_UpdatePositionStops [wp_rules]:
  "wp e (UpdatePositionStops p) Q E w =
     live e E w
       ((find (\<lambda>q. posID q = posID p) (positions (wdb w)) = None \<longrightarrow> E ErrNotFound (bump w)) \<and>
        (\<forall>q. find (\<lambda>q. posID q = posID p) (positions (wdb w)) = Some q \<longrightarrow>
           Q () (setDB w ((wdb w)\<lparr>positions := tbl_put posID
             (q\<lparr>posStopLoss := posStopLoss p, posTakeProfit := posTakeProfit p,
                posStopLossSource := posStopLossSource p,
                posTakeProfitSource := posTakeProfitSource p\<rparr>) (positions (wdb w))\<rparr>))))"
  by (auto simp: UpdatePositionStops_def wp_dbcall split: option.splits)

lemma wp_DeletePosition [wp_rules]:
  "wp e (DeletePosition i) Q E w =
     live e E w (Q () (setDB w ((wdb w)\<lparr>positions :=
       filter (\<lambda>p. posID p \<noteq> i) (positions (wdb w))\<rparr>)))"
  by (simp add: DeletePosition_def wp_dbcall)

lemma wp_CreateTrade:
  "wp e (CreateTrade t) Q E w =
     live e E w
       ((list_ex (\<lambda>u. trdID u = trdID t) (trades (wdb w)) \<longrightarrow> E ErrDuplicate (bump w)) \<and>
        (\<not> list_ex (\<lambda>u. trdID u = trdID t) (trades (wdb w)) \<longrightarrow>
           Q () (setDB w ((wdb w)\<lparr>trades := trades (wdb w) @ [t\<lparr>trdCreatedAt :=
             (if trdCreatedAt t = zeroTime then clock e (calls w) else trdCreatedAt t)\<rparr>]\<rparr>))))"
  by (auto simp: CreateTrade_def wp_dbcall)

lemma wp_CreateLedgerEntry:
  "wp e (CreateLedgerEntry l) Q E w =
     live e E w (Q () (setDB w ((wdb w)\<lparr>ledger := ledger (wdb w) @
        [l\<lparr>ledSeq := ledgerSeq (wdb w) + 1,
           ledCreatedAt := (if ledCreatedAt l = zeroTime then clock e (calls w) else ledCreatedAt l)\<rparr>],
        ledgerSeq := ledgerSeq (wdb w) + 1\<rparr>)))"
  by (simp add: CreateLedgerEntry_def wp_dbcall)

text \<open>The same facts as introduction rules, without the details no caller looks at.\<close>

lemma wp_newIDI:
  "(\<And>i w'. wdb w' = wdb w \<Longrightarrow> Q i w') \<Longrightarrow> (\<And>w'. wdb w' = wdb w \<Longrightarrow> E ErrEntropy w') \<Longrightarrow>
     wp e (newID p) Q E w"
  by (auto simp: wp_rules)

lemma wp_CreateTradeI:
  assumes "\<And>t1 w'. \<forall>u \<in> set (trades (wdb w)). trdID u \<noteq> trdID t \<Longrightarrow>
      wdb w' = (wdb w)\<lparr>trades := trades (wdb w) @ [t\<lparr>trdCreatedAt := t1\<rparr>]\<rparr> \<Longrightarrow> Q () w'"
    and "\<And>x w'. x \<in> {ErrStore, ErrDuplicate} \<Longrightarrow> E x w'"
  shows "wp e (CreateTrade t) Q E w"
  by (auto simp: wp_CreateTrade list_ex_iff split del: if_split intro!: assms)

lemma wp_CreateOrderI:
  assumes "\<And>t1 w'. \<forall>y \<in> set (orders (wdb w)). ordID y \<noteq> ordID x \<Longrightarrow>
      wdb w' = (wdb w)\<lparr>orders := orders (wdb w) @ [x\<lparr>ordCreatedAt := t1, ordPositionID := []\<rparr>]\<rparr> \<Longrightarrow>
      Q (x\<lparr>ordCreatedAt := t1\<rparr>) w'"
    and "\<And>x w'. x \<in> {ErrStore, ErrDuplicate} \<Longrightarrow> E x w'"
  shows "wp e (CreateOrder x) Q E w"
  by (auto simp: wp_CreateOrder list_ex_iff Let_def split del: if_split intro!: assms)

lemma wp_SaveOrderI:
  assumes "\<And>w'. wdb w' = (wdb w)\<lparr>orders := tbl_save ordID (x\<lparr>ordPositionID := []\<rparr>) (orders (wdb w))\<rparr>
      \<Longrightarrow> Q () w'"
    and "\<And>w'. E ErrStore w'"
  shows "wp e (SaveOrder x) Q E w"
  by (auto simp: wp_SaveOrder intro!: assms)

lemma wp_CreateLedgerEntryI:
  assumes "\<And>t w'. wdb w' = logged (wdb w) [(l, t)] \<Longrightarrow> Q () w'" and "\<And>w'. E ErrStore w'"
  shows "wp e (CreateLedgerEntry l) Q E w"
  by (auto simp: wp_CreateLedgerEntry logged_def split del: if_split intro!: assms)

lemma stamp_append [simp]: "stamp n (xs @ ys) = stamp n xs @ stamp (n + int (length xs)) ys"
  by (induction n xs rule: stamp.induct) (simp_all add: algebra_simps)

lemma logged_logged [simp]: "logged (logged d xs) ys = logged d (xs @ ys)"
  by (simp add: logged_def)

lemma logged_Nil [simp]: "logged d [] = d"
  by (simp add: logged_def)

lemma logged_fields [simp]:
  "accounts (logged d es) = accounts d" "orders (logged d es) = orders d"
  "positions (logged d es) = positions d" "trades (logged d es) = trades d"
  "messages (logged d es) = messages d" "messageTags (logged d es) = messageTags d"
  "ledger (logged d es) = ledger d @ stamp (ledgerSeq d) es"
  "ledgerSeq (logged d es) = ledgerSeq d + int (length es)"
  by (simp_all add: logged_def)

lemma logged_update [simp]:
  "(logged d es)\<lparr>orders := os\<rparr> = logged (d\<lparr>orders := os\<rparr>) es"
  "(logged d es)\<lparr>accounts := as\<rparr> = logged (d\<lparr>accounts := as\<rparr>) es"
  "(logged d es)\<lparr>positions := ps\<rparr> = logged (d\<lparr>positions := ps\<rparr>) es"
  "(logged d es)\<lparr>trades := ts\<rparr> = logged (d\<lparr>trades := ts\<rparr>) es"
  by (simp_all add: logged_def)

text \<open>Saving an account writes its row, with the token in its envelope.\<close>

lemma wp_storedAccount:
  assumes "\<And>t h w'. wdb w' = wdb w \<Longrightarrow> Q (a\<lparr>accToken := t, accTokenHash := h\<rparr>) w'"
    and "\<And>x w'. x \<in> {ErrTokenKey, ErrStore} \<Longrightarrow> wdb w' = wdb w \<Longrightarrow> E x w'"
  shows "wp e (storedAccount a) Q E w"
proof -
  have "Q (a\<lparr>accTokenHash := None\<rparr>) w"
    using assms(1) [where w' = w and t = "accToken a" and h = None] by (cases a) simp
  then show ?thesis
    by (auto simp: storedAccount_def protectToken_def wp_rules Let_def intro!: assms)
qed

lemma wp_SaveAccount:
  assumes "\<And>t h w'. wdb w' = wdb w \<Longrightarrow>
      \<not> list_ex (\<lambda>b. accID b \<noteq> accID a \<and> accountClash (a\<lparr>accToken := t, accTokenHash := h\<rparr>) b)
          (accounts (wdb w)) \<Longrightarrow>
      Q () (setDB w' ((wdb w)\<lparr>accounts :=
        tbl_save accID (a\<lparr>accToken := t, accTokenHash := h\<rparr>) (accounts (wdb w))\<rparr>))"
    and "\<And>x w'. x \<in> {ErrTokenKey, ErrStore, ErrDuplicate} \<Longrightarrow> wdb w' = wdb w \<Longrightarrow> E x w'"
  shows "wp e (SaveAccount a) Q E w"
  unfolding SaveAccount_def wp_bind
  by (rule wp_storedAccount)
    (auto simp: upsertAccount_def wp_dbcall accountClash_def intro!: assms)

end
