(* ===== verification/Position.thy ===== *)
theory Position
  imports Models
begin

text \<open>
  \<^verbatim>\<open>backend/internal/trading/position.go\<close>: how a fill changes the net position of an account in
  an instrument.  A missing position is \<^const>\<open>None\<close>, as the nil pointer of the source.
\<close>

definition qtyEpsilon :: float64 where
  "qtyEpsilon = lit (1 / 1000000000)"

definition signedQuantity :: "position option \<Rightarrow> float64" where
  "signedQuantity pos =
     (case pos of None \<Rightarrow> 0
      | Some p \<Rightarrow> if posSide p = Short then - posQuantity p else posQuantity p)"

definition sameDirection :: "float64 \<Rightarrow> float64 \<Rightarrow> bool" where
  "sameDirection a b = (a > 0 \<and> b > 0 \<or> a < 0 \<and> b < 0)"

text \<open>The entry price of a position; the branches that read it have a position.\<close>

definition entryOf :: "position option \<Rightarrow> float64" where
  "entryOf pos = (case pos of None \<Rightarrow> 0 | Some p \<Rightarrow> posEntryPrice p)"

text \<open>The tail of \<^verbatim>\<open>applyFill\<close>: build the updated row from the new signed quantity and entry price.\<close>

definition updatedPosition ::
    "position option \<Rightarrow> float64 \<Rightarrow> float64 \<Rightarrow> float64 \<Rightarrow> float64 \<Rightarrow> position" where
  "updatedPosition pos current next entry leverage =
     (let updated = position0\<lparr>posQuantity := \<bar>next\<bar>, posEntryPrice := entry,
            posLeverage := leverage, posSide := (if next < 0 then Short else Long),
            posMargin := \<bar>next\<bar> * entry / leverage\<rparr>
      in case pos of
           None \<Rightarrow> updated
         | Some p \<Rightarrow>
             let kept = updated\<lparr>posID := posID p, posAccountID := posAccountID p,
                   posMarket := posMarket p, posSymbol := posSymbol p, posProduct := posProduct p,
                   posCreatedAt := posCreatedAt p\<rparr>
             in if sameDirection next current
                then kept\<lparr>posStopLoss := posStopLoss p, posTakeProfit := posTakeProfit p,
                       posStopLossSource := posStopLossSource p,
                       posTakeProfitSource := posTakeProfitSource p,
                       posLeverage := posLeverage p,
                       posMargin := \<bar>next\<bar> * entry / posLeverage p\<rparr>
                else kept)"

definition applyFill ::
    "position option \<Rightarrow> string \<Rightarrow> float64 \<Rightarrow> float64 \<Rightarrow> float64 \<Rightarrow> position option \<times> float64" where
  "applyFill pos side qty price leverage =
     (let current = signedQuantity pos;
          delta = (if side = SideSell then - qty else qty);
          next = current + delta
      in if feq current 0 then (Some (updatedPosition pos current next price leverage), 0)
         else if sameDirection current delta then
           let total = \<bar>current\<bar> + qty;
               entry = (\<bar>current\<bar> * entryOf pos + qty * price) / total
           in (Some (updatedPosition pos current next entry leverage), 0)
         else
           let closing = fmin \<bar>current\<bar> qty;
               realized = (if current > 0 then (price - entryOf pos) * closing
                           else (entryOf pos - price) * closing)
           in if \<bar>next\<bar> < qtyEpsilon then (None, realized)
              else (Some (updatedPosition pos current next
                           (if sameDirection next current then entryOf pos else price) leverage),
                    realized))"

definition Unrealized :: "position \<Rightarrow> float64 \<Rightarrow> float64" where
  "Unrealized p price =
     (if posSide p = Short then (posEntryPrice p - price) * posQuantity p
      else (price - posEntryPrice p) * posQuantity p)"

section \<open>Identity, side and leverage of the updated row\<close>

lemma updatedPosition_fields [simp]:
  "posQuantity (updatedPosition pos c n en l) = \<bar>n\<bar>"
  "posEntryPrice (updatedPosition pos c n en l) = en"
  "posSide (updatedPosition pos c n en l) = (if n < 0 then Short else Long)"
  "posID (updatedPosition None c n en l) = []"
  "posCreatedAt (updatedPosition None c n en l) = zeroTime"
  "posID (updatedPosition (Some p) c n en l) = posID p"
  "posAccountID (updatedPosition (Some p) c n en l) = posAccountID p"
  "posMarket (updatedPosition (Some p) c n en l) = posMarket p"
  "posSymbol (updatedPosition (Some p) c n en l) = posSymbol p"
  "posProduct (updatedPosition (Some p) c n en l) = posProduct p"
  by (auto simp: updatedPosition_def Let_def position0_def split: option.splits)

lemma posKey_updatedPosition [simp]: "posKey (updatedPosition (Some p) c n en l) = posKey p"
  by (simp add: posKey_def)

lemma applyFill_Some_key:
  "applyFill (Some p) side qty price l = (Some u, r) \<Longrightarrow> posID u = posID p \<and> posKey u = posKey p"
  by (auto simp: applyFill_def Let_def split: if_splits)

lemma qtyEpsilon_pos: "0 < qtyEpsilon" and qtyEpsilon_finite: "finite64 qtyEpsilon"
  and qtyEpsilon_val: "qtyEpsilon = Fin (4835703278458517 / 4835703278458516698824704)"
proof -
  show v: "qtyEpsilon = Fin (4835703278458517 / 4835703278458516698824704)"
    by code_simp
  show "0 < qtyEpsilon" by (simp add: v zero_float64_def)
  show "finite64 qtyEpsilon" by (simp add: v finite64_def)
qed

text \<open>A row a position can have: a known side and a positive, finite, representable quantity.\<close>

definition positionOK :: "position \<Rightarrow> bool" where
  "positionOK p = (posSide p \<in> {Long, Short} \<and> 0 < posQuantity p \<and>
     finite64 (posQuantity p) \<and> f64 (posQuantity p))"

lemma positionOK_obtain:
  assumes "positionOK p"
  obtains q where "posQuantity p = Fin q" "0 < q" "fround q = Fin q" "posSide p = Long \<or> posSide p = Short"
  using assms by (auto simp: positionOK_def finite64_cases zero_float64_def f64_Fin)

text \<open>The side that closes a position, as \<^verbatim>\<open>closeAt\<close> picks it.\<close>

definition closingSide :: "position \<Rightarrow> string" where
  "closingSide p = (if posSide p = Short then SideBuy else SideSell)"

section \<open>Reducing and closing\<close>

lemma lit_facts [simp]: "- Fin x = Fin (- x)" "\<bar>Fin x\<bar> = Fin \<bar>x\<bar>"
  "(0 < Fin x) = (0 < x)" "(Fin x < 0) = (x < 0)" "feq (Fin x) 0 = (x = 0)"
  by (simp_all add: zero_float64_def feq_def)

lemma sameDirection_Fin [simp]: "sameDirection (Fin x) (Fin y) = (0 < x * y)"
  by (auto simp: sameDirection_def zero_less_mult_iff)

text \<open>The signed quantity of a row, and what an order of \<open>qty\<close> on the closing side adds to it.\<close>

lemma signedQuantity_Fin:
  "posQuantity p = Fin q \<Longrightarrow> signedQuantity (Some p) = Fin (if posSide p = Short then - q else q)"
  by (simp add: signedQuantity_def)

text \<open>The three shapes of a fill over finite quantities: opening, adding, reducing.\<close>

definition deltaOf :: "string \<Rightarrow> float64 \<Rightarrow> float64" where
  "deltaOf side qty = (if side = SideSell then - qty else qty)"

definition realizedOn :: "position option \<Rightarrow> rat \<Rightarrow> float64 \<Rightarrow> float64 \<Rightarrow> float64" where
  "realizedOn pos c qty price =
     (if c > 0 then (price - entryOf pos) * fmin (Fin \<bar>c\<bar>) qty
      else (entryOf pos - price) * fmin (Fin \<bar>c\<bar>) qty)"

lemma applyFill_open:
  "signedQuantity pos = Fin 0 \<Longrightarrow> deltaOf side qty = Fin d \<Longrightarrow>
   applyFill pos side qty price l = (Some (updatedPosition pos (Fin 0) (fround d) price l), 0)"
  by (simp add: applyFill_def Let_def deltaOf_def)

lemma applyFill_adding:
  "signedQuantity pos = Fin c \<Longrightarrow> deltaOf side qty = Fin d \<Longrightarrow> 0 < c * d \<Longrightarrow>
   applyFill pos side qty price l =
     (Some (updatedPosition pos (Fin c) (fround (c + d))
        ((Fin \<bar>c\<bar> * entryOf pos + qty * price) / (Fin \<bar>c\<bar> + qty)) l), 0)"
  by (auto simp: applyFill_def Let_def deltaOf_def)

lemma applyFill_reducing:
  "signedQuantity pos = Fin c \<Longrightarrow> deltaOf side qty = Fin d \<Longrightarrow> c \<noteq> 0 \<Longrightarrow> c * d \<le> 0 \<Longrightarrow>
   applyFill pos side qty price l =
     (if \<bar>fround (c + d)\<bar> < qtyEpsilon then None
      else Some (updatedPosition pos (Fin c) (fround (c + d))
             (if sameDirection (fround (c + d)) (Fin c) then entryOf pos else price) l),
      realizedOn pos c qty price)"
  by (simp add: applyFill_def Let_def deltaOf_def realizedOn_def linorder_not_less)

lemma signedQuantity_closing:
  assumes "posQuantity p = Fin q"
  shows "signedQuantity (Some p) = Fin (if posSide p = Short then - q else q)"
    and "deltaOf (closingSide p) (Fin x) = Fin (if posSide p = Short then x else - x)"
  using assms by (auto simp: signedQuantity_def deltaOf_def closingSide_def)

text \<open>
  Reducing a good position by \<open>x\<close> leaves the rounded difference on the same side with the same
  entry price, or nothing.
\<close>

lemma applyFill_closing:
  assumes p: "posQuantity p = Fin q" "0 < q" "fround q = Fin q"
    and x: "0 < x" "x \<le> q"
  obtains y r where "0 \<le> y" "y \<le> q" "fround (q - x) = Fin y"
    "applyFill (Some p) (closingSide p) (Fin x) price l =
      (if Fin y < qtyEpsilon then None
       else Some (updatedPosition (Some p) (signedQuantity (Some p))
              (Fin (if posSide p = Short then - y else y)) (posEntryPrice p) l), r)"
proof -
  have "fround (q - x) \<le> Fin q" "Fin 0 \<le> fround (q - x)"
    using x p(3) fround_mono [of "q - x" q] fround_mono [of 0 "q - x"] by auto
  then obtain y where y: "fround (q - x) = Fin y" "0 \<le> y" "y \<le> q"
    by (cases "fround (q - x)") (auto simp: less_eq_float64_def)
  have y': "fround (x - q) = Fin (- y)" using fround_uminus [of "q - x"] y by simp
  have pos: "\<not> Fin y < qtyEpsilon \<Longrightarrow> 0 < y"
    using y qtyEpsilon_pos by (cases "y = 0") (auto simp: zero_float64_def)
  let ?c = "if posSide p = Short then - q else q"
  let ?d = "if posSide p = Short then x else - x"
  have sum: "fround (?c + ?d) = Fin (if posSide p = Short then - y else y)"
    using y(1) y' by (simp add: algebra_simps)
  have red: "?c \<noteq> 0" "?c * ?d \<le> 0" using p(2) x(1) by auto
  note eq = applyFill_reducing [OF signedQuantity_closing(1) [OF p(1)]
      signedQuantity_closing(2) [OF p(1)] red, where price = price and l = l, unfolded sum]
  have "applyFill (Some p) (closingSide p) (Fin x) price l =
      (if Fin y < qtyEpsilon then None
       else Some (updatedPosition (Some p) (signedQuantity (Some p))
              (Fin (if posSide p = Short then - y else y)) (posEntryPrice p) l),
       realizedOn (Some p) ?c (Fin x) price)"
    using eq pos y(2) p(2)
    by (cases "posSide p = Short"; cases "Fin y < qtyEpsilon")
      (simp_all add: signedQuantity_closing(1) [OF p(1)] entryOf_def)
  with y show ?thesis by (intro that)
qed

section \<open>Properties\<close>

text \<open>A long position of two units at 100, for the witnesses.\<close>

definition longTwo :: position where
  "longTwo = position0\<lparr>posID := ''pos_1'', posAccountID := ''acc_1'', posMarket := Crypto,
     posSymbol := ''BTCUSDT'', posProduct := ProductFutures, posSide := Long, posQuantity := Fin 2,
     posEntryPrice := Fin 100, posLeverage := Fin 2, posMargin := Fin 100, posStopLoss := Fin 90\<rparr>"

lemma longTwo_OK: "positionOK longTwo"
  by code_simp

lemma fmin_self: "a \<noteq> NaN \<Longrightarrow> fmin a a = a"
  by (simp add: fmin_def)

lemma realizedOn_all:
  assumes "posQuantity p = Fin q" "0 < q" "\<bar>c\<bar> \<le> x" "c = (if posSide p = Short then - q else q)"
  shows "realizedOn (Some p) c (Fin x) price = Unrealized p price"
  using assms by (auto simp: realizedOn_def Unrealized_def entryOf_def fmin_def)

lemma close_all:
  assumes "positionOK p"
  shows "applyFill (Some p) (closingSide p) (posQuantity p) price l = (None, Unrealized p price)"
proof -
  obtain q where q: "posQuantity p = Fin q" "0 < q" using positionOK_obtain [OF assms] by metis
  let ?c = "if posSide p = Short then - q else q"
  let ?d = "if posSide p = Short then q else - q"
  have red: "?c \<noteq> 0" "?c * ?d \<le> 0" using q(2) by auto
  have sum: "fround (?c + ?d) = Fin 0" by simp
  note eq = applyFill_reducing [OF signedQuantity_closing(1) [OF q(1)]
      signedQuantity_closing(2) [OF q(1)] red, where price = price and l = l, unfolded sum]
  have "\<bar>Fin 0\<bar> < qtyEpsilon" using qtyEpsilon_pos by (simp add: zero_float64_def)
  moreover have "realizedOn (Some p) ?c (Fin q) price = Unrealized p price"
    using q by (intro realizedOn_all) auto
  ultimately show ?thesis using eq by (simp only: q(1) if_True)
qed

text \<open>
  Closing the whole of a well-formed position removes it, and the profit it realizes is, bit for
  bit, the unrealized profit the account was shown at that price.
\<close>

theorem applyFill_close_all:
  assumes "positionOK p"
  shows "applyFill (Some p) (closingSide p) (posQuantity p) price l = (None, Unrealized p price)"
  by (rule close_all [OF assms])

theorem applyFill_close_all_witness:
  "applyFill (Some longTwo) (closingSide longTwo) (posQuantity longTwo) (Fin 110) 1 = (None, Fin 20)"
proof -
  have "Unrealized longTwo (Fin 110) = Fin 20" by code_simp
  then show ?thesis using applyFill_close_all [OF longTwo_OK, of "Fin 110" 1] by simp
qed

text \<open>
  A closing fill of at most the held quantity never turns a position around: what is left, if
  anything, is the same row on the same side with the entry price, leverage and both stops and their
  sources untouched, and not more than before.
\<close>

theorem applyFill_reduce_keeps:
  assumes "positionOK p" "0 < qty" "qty \<le> posQuantity p"
    and "applyFill (Some p) (closingSide p) qty price l = (Some u, r)"
  shows "posSide u = posSide p \<and> posKey u = posKey p \<and> posID u = posID p \<and>
    posEntryPrice u = posEntryPrice p \<and> posLeverage u = posLeverage p \<and>
    posStopLoss u = posStopLoss p \<and> posTakeProfit u = posTakeProfit p \<and>
    posStopLossSource u = posStopLossSource p \<and> posTakeProfitSource u = posTakeProfitSource p \<and>
    posQuantity u = posQuantity p - qty \<and> posQuantity u \<le> posQuantity p \<and> positionOK u"
proof -
  obtain q where q: "posQuantity p = Fin q" "0 < q" "fround q = Fin q"
    "posSide p = Long \<or> posSide p = Short"
    using positionOK_obtain [OF assms(1)] by metis
  obtain x where x: "qty = Fin x" "0 < x" "x \<le> q"
    using assms(2,3) q(1) by (cases qty) (auto simp: zero_float64_def less_eq_float64_def)
  obtain y r' where y: "0 \<le> y" "y \<le> q" "fround (q - x) = Fin y"
    "applyFill (Some p) (closingSide p) (Fin x) price l =
      (if Fin y < qtyEpsilon then None
       else Some (updatedPosition (Some p) (signedQuantity (Some p))
              (Fin (if posSide p = Short then - y else y)) (posEntryPrice p) l), r')"
    using applyFill_closing [OF q(1-3) x(2,3)] by metis
  let ?n = "if posSide p = Short then - y else y"
  have u: "u = updatedPosition (Some p) (signedQuantity (Some p)) (Fin ?n) (posEntryPrice p) l"
    and big: "\<not> Fin y < qtyEpsilon"
    using y(4) assms(4) x(1) by (auto split: if_splits)
  have ypos: "0 < y" using big y(1) qtyEpsilon_pos by (cases "y = 0") (auto simp: zero_float64_def)
  have same: "sameDirection (Fin ?n) (signedQuantity (Some p))"
    using ypos q(2) by (simp add: signedQuantity_Fin [OF q(1)])
  have f: "fround y = Fin y" using y(3) f64_fround [of "q - x"] by (simp add: f64_Fin)
  have diff: "posQuantity p - qty = Fin y" using y(3) q(1) x(1) by (simp add: minus_float64_def)
  have stops: "posLeverage u = posLeverage p" "posStopLoss u = posStopLoss p"
    "posTakeProfit u = posTakeProfit p" "posStopLossSource u = posStopLossSource p"
    "posTakeProfitSource u = posTakeProfitSource p"
    using same by (simp_all add: u updatedPosition_def Let_def)
  have base: "posSide u = posSide p" "posKey u = posKey p" "posID u = posID p"
    "posEntryPrice u = posEntryPrice p" "posQuantity u = Fin y"
    using q(4) ypos by (auto simp: u)
  have "positionOK u"
    using base q(4) ypos f by (auto simp: positionOK_def finite64_cases f64_Fin)
  with base stops diff y(2) q(1) show ?thesis by simp
qed

theorem applyFill_reduce_keeps_witness:
  "\<exists>u r. applyFill (Some longTwo) (closingSide longTwo) (Fin 1) (Fin 110) 1 = (Some u, r) \<and>
     posSide u = Long \<and> posQuantity u = Fin 2 - Fin 1 \<and> posStopLoss u = Fin 90"
proof -
  have "(\<lambda>(u, r). u \<noteq> None) (applyFill (Some longTwo) (closingSide longTwo) (Fin 1) (Fin 110) 1)"
    by code_simp
  then obtain u r where u: "applyFill (Some longTwo) (closingSide longTwo) (Fin 1) (Fin 110) 1 = (Some u, r)"
    by (auto split: prod.splits)
  have "(0 :: float64) < Fin 1" "Fin 1 \<le> posQuantity longTwo" by code_simp+
  from applyFill_reduce_keeps [OF longTwo_OK this u] u show ?thesis by (auto simp: longTwo_def)
qed

text \<open>
  Buying into a long or selling into a short keeps the side, the leverage, both stops and their
  sources, realizes nothing, and the quantity grows to the rounded sum.
\<close>

theorem applyFill_add_keeps:
  assumes "positionOK p" "0 < qty" "finite64 qty" "side \<in> {SideBuy, SideSell}" "side \<noteq> closingSide p"
  shows "\<exists>u. applyFill (Some p) side qty price l = (Some u, 0) \<and>
    posSide u = posSide p \<and> posKey u = posKey p \<and> posLeverage u = posLeverage p \<and>
    posStopLoss u = posStopLoss p \<and> posTakeProfit u = posTakeProfit p \<and>
    posStopLossSource u = posStopLossSource p \<and> posTakeProfitSource u = posTakeProfitSource p \<and>
    posQuantity u = posQuantity p + qty \<and>
    posEntryPrice u = (posQuantity p * posEntryPrice p + qty * price) / (posQuantity p + qty)"
proof -
  obtain q where q: "posQuantity p = Fin q" "0 < q" "fround q = Fin q"
    "posSide p = Long \<or> posSide p = Short"
    using positionOK_obtain [OF assms(1)] by metis
  obtain x where x: "qty = Fin x" "0 < x" using assms(2,3) by (auto simp: finite64_cases)
  let ?c = "if posSide p = Short then - q else q"
  let ?d = "if posSide p = Short then - x else x"
  have d: "deltaOf side qty = Fin ?d"
    using assms(4,5) q(4) x(1) by (auto simp: deltaOf_def closingSide_def)
  have cd: "0 < ?c * ?d" using q(2) x(2) by simp
  define n where "n = fround (?c + ?d)"
  note eq = applyFill_adding [OF signedQuantity_closing(1) [OF q(1)] d cd, where price = price and l = l,
      folded n_def]
  have ge: "Fin q \<le> fround (q + x)" using fround_mono [of q "q + x"] q(3) x(2) by simp
  have n: "n = (if posSide p = Short then - fround (q + x) else fround (q + x))"
    using fround_uminus [of "q + x"] by (simp add: n_def)
  have nd: "sameDirection n (Fin ?c)" "\<bar>n\<bar> = fround (q + x)"
    "(n < 0) = (posSide p = Short)"
    using ge q(2) unfolding n sameDirection_def
    by (cases "fround (q + x)"; auto simp: zero_float64_def less_eq_float64_def)+
  define u where "u = updatedPosition (Some p) (Fin ?c) n
      ((Fin \<bar>?c\<bar> * entryOf (Some p) + qty * price) / (Fin \<bar>?c\<bar> + qty)) l"
  have ac: "\<bar>?c\<bar> = q" using q(2) by simp
  show ?thesis
  proof (intro exI [of _ u] conjI)
    show "applyFill (Some p) side qty price l = (Some u, 0)" using eq by (simp only: u_def)
    show "posSide u = posSide p" using q(4) nd(3) by (auto simp: u_def)
    show "posKey u = posKey p" by (simp add: u_def)
    show "posLeverage u = posLeverage p" "posStopLoss u = posStopLoss p" "posTakeProfit u = posTakeProfit p"
      "posStopLossSource u = posStopLossSource p" "posTakeProfitSource u = posTakeProfitSource p"
      using nd(1) by (simp_all add: u_def updatedPosition_def Let_def)
    show "posQuantity u = posQuantity p + qty" using q(1) x(1) nd(2) by (simp add: u_def)
    show "posEntryPrice u = (posQuantity p * posEntryPrice p + qty * price) / (posQuantity p + qty)"
      by (simp only: u_def updatedPosition_fields ac q(1) entryOf_def option.case)
  qed
qed

theorem applyFill_add_keeps_witness:
  "\<exists>u. applyFill (Some longTwo) SideBuy (Fin 2) (Fin 110) (Fin 5) = (Some u, 0) \<and>
     posLeverage u = Fin 2 \<and> posQuantity u = Fin 2 + Fin 2"
proof -
  have "(0 :: float64) < Fin 2" "finite64 (Fin 2)" "SideBuy \<in> {SideBuy, SideSell}"
    "SideBuy \<noteq> closingSide longTwo"
    by (simp_all add: finite64_def closingSide_def longTwo_def)
  from applyFill_add_keeps [OF longTwo_OK this, of "Fin 110" "Fin 5"] show ?thesis
    by (auto simp: longTwo_def)
qed

text \<open>
  An order on the closing side for more than the position holds closes it and opens the rest on
  the other side: the realized profit is exactly the unrealized one, the new entry price is the fill
  price, the leverage is the order's, and the old stops and their sources are gone.
\<close>

theorem applyFill_flip:
  assumes "positionOK p" "finite64 qty" "posQuantity p < qty"
    and "qtyEpsilon \<le> qty - posQuantity p"
  shows "\<exists>u. applyFill (Some p) (closingSide p) qty price l = (Some u, Unrealized p price) \<and>
    posSide u \<noteq> posSide p \<and> posSide u \<in> {Long, Short} \<and> posID u = posID p \<and> posKey u = posKey p \<and>
    posQuantity u = qty - posQuantity p \<and> posEntryPrice u = price \<and> posLeverage u = l \<and>
    posStopLoss u = 0 \<and> posTakeProfit u = 0 \<and>
    posStopLossSource u = noSource \<and> posTakeProfitSource u = noSource"
proof -
  obtain q where q: "posQuantity p = Fin q" "0 < q" "fround q = Fin q"
    "posSide p = Long \<or> posSide p = Short"
    using positionOK_obtain [OF assms(1)] by metis
  obtain x where x: "qty = Fin x" "q < x" using assms(2,3) q(1) by (auto simp: finite64_cases)
  let ?c = "if posSide p = Short then - q else q"
  let ?d = "if posSide p = Short then x else - x"
  define y where "y = fround (x - q)"
  have diff: "qty - posQuantity p = y" by (simp add: x q y_def minus_float64_def)
  have y: "qtyEpsilon \<le> y" using assms(4) diff by simp
  have ypos: "0 < y" "\<bar>y\<bar> = y" "\<bar>- y\<bar> = y" "\<not> y < qtyEpsilon" "\<not> y < 0" "- y < 0"
    using y qtyEpsilon_pos
    by (cases y; auto simp: zero_float64_def qtyEpsilon_val less_eq_float64_def)+
  have sum: "fround (?c + ?d) = (if posSide p = Short then y else - y)"
    using fround_uminus [of "x - q"] by (simp add: y_def)
  have red: "?c \<noteq> 0" "?c * ?d \<le> 0" using q(2) x(2) by auto
  have un: "realizedOn (Some p) ?c (Fin x) price = Unrealized p price"
    using q x by (intro realizedOn_all) auto
  note eq = applyFill_reducing [OF signedQuantity_closing(1) [OF q(1)]
      signedQuantity_closing(2) [OF q(1)] red, where price = price and l = l, unfolded sum un]
  let ?n = "if posSide p = Short then y else - y"
  have big: "\<not> \<bar>?n\<bar> < qtyEpsilon" using ypos by simp
  have opp: "\<not> sameDirection ?n (Fin ?c)"
    using ypos q(2) by (auto simp: sameDirection_def zero_float64_def dest: fless_asym)
  define u where "u = updatedPosition (Some p) (Fin ?c) ?n price l"
  have "applyFill (Some p) (closingSide p) qty price l = (Some u, Unrealized p price)"
    using eq by (simp only: big opp x(1) u_def if_False)
  moreover have "posStopLoss u = 0" "posTakeProfit u = 0" "posStopLossSource u = noSource"
    "posTakeProfitSource u = noSource" "posLeverage u = l"
    using opp by (simp_all add: u_def updatedPosition_def Let_def position0_def)
  moreover have "posSide u \<noteq> posSide p" "posSide u \<in> {Long, Short}" "posQuantity u = qty - posQuantity p"
    "posEntryPrice u = price" "posID u = posID p" "posKey u = posKey p"
    using q(4) ypos by (auto simp: u_def diff)
  ultimately show ?thesis by blast
qed

theorem applyFill_flip_witness:
  "\<exists>u. applyFill (Some longTwo) (closingSide longTwo) (Fin 5) (Fin 110) 1 =
     (Some u, Unrealized longTwo (Fin 110)) \<and> posSide u = Short \<and> posStopLoss u = 0"
proof -
  have "finite64 (Fin 5)" "posQuantity longTwo < Fin 5" "qtyEpsilon \<le> Fin 5 - posQuantity longTwo"
    by code_simp+
  from applyFill_flip [OF longTwo_OK this, of "Fin 110" 1] show ?thesis
    by (auto simp: longTwo_def)
qed

section \<open>Refinement of the rational bookkeeping\<close>

text \<open>
  The bookkeeping a fill is meant to perform, over rational numbers: signed quantity \<open>c\<close> at entry
  price \<open>en\<close>, a fill of signed quantity \<open>d\<close> at price \<open>pr\<close>; the result is the new signed quantity, its
  entry price and the realized profit.
\<close>

definition fillSpec :: "rat \<Rightarrow> rat \<Rightarrow> rat \<Rightarrow> rat \<Rightarrow> rat \<times> rat \<times> rat" where
  "fillSpec c en d pr =
     (if c = 0 then (d, pr, 0)
      else if 0 < c * d then (c + d, (\<bar>c\<bar> * en + \<bar>d\<bar> * pr) / (\<bar>c\<bar> + \<bar>d\<bar>), 0)
      else (c + d, if 0 < (c + d) * c then en else pr, (pr - en) * (sgn c * min \<bar>c\<bar> \<bar>d\<bar>)))"

text \<open>Marking to any price \<open>m\<close>, the specification neither creates nor loses value.\<close>

lemma fillSpec_value:
  assumes "fillSpec c en d pr = (n, en', r)"
  shows "r + (m - en') * n = (m - en) * c + (m - pr) * d"
proof -
  consider "c = 0" | "c \<noteq> 0" "0 < c * d" | "c \<noteq> 0" "\<not> 0 < c * d" by blast
  then show ?thesis
  proof cases
    case 1
    then show ?thesis using assms by (simp add: fillSpec_def)
  next
    case 2
    have n: "n = c + d" "en' = (\<bar>c\<bar> * en + \<bar>d\<bar> * pr) / (\<bar>c\<bar> + \<bar>d\<bar>)" "r = 0"
      using assms 2 by (simp_all add: fillSpec_def)
    have "en' = (c * en + d * pr) / (c + d)"
    proof (cases "0 < c")
      case True
      then show ?thesis using 2 by (simp add: n zero_less_mult_iff)
    next
      case False
      then have "c < 0" "d < 0" using 2 by (auto simp: zero_less_mult_iff)
      then have "\<bar>c\<bar> * en + \<bar>d\<bar> * pr = - (c * en + d * pr)" "\<bar>c\<bar> + \<bar>d\<bar> = - (c + d)" by simp_all
      then show ?thesis by (simp only: n minus_divide_divide)
    qed
    moreover have "c + d \<noteq> 0" using 2 by (auto simp: zero_less_mult_iff)
    ultimately have "en' * n = c * en + d * pr" by (simp add: n(1))
    then show ?thesis by (simp add: n(1,3) algebra_simps)
  next
    case 3
    then have r: "r = (pr - en) * (sgn c * min \<bar>c\<bar> \<bar>d\<bar>)" "n = c + d"
      "en' = (if 0 < (c + d) * c then en else pr)"
      using assms by (auto simp: fillSpec_def)
    have "sgn c * min \<bar>c\<bar> \<bar>d\<bar> = (if 0 < (c + d) * c then - d else c)"
      using 3 by (cases "0 < c") (auto simp: zero_less_mult_iff sgn_if min_def)
    then show ?thesis by (simp add: r algebra_simps)
  qed
qed

text \<open>The fills on which no operation of \<^verbatim>\<open>applyFill\<close> rounds, and no dust below \<open>qtyEpsilon\<close> remains.\<close>

definition exactFill :: "rat \<Rightarrow> rat \<Rightarrow> rat \<Rightarrow> rat \<Rightarrow> bool" where
  "exactFill c en d pr =
     ((c + d = 0 \<or> val qtyEpsilon \<le> \<bar>c + d\<bar>) \<and> fround (c + d) = Fin (c + d) \<and>
      (c \<noteq> 0 \<longrightarrow> (if 0 < c * d
         then list_all (\<lambda>x. fround x = Fin x) [\<bar>c\<bar> * en, \<bar>d\<bar> * pr, \<bar>c\<bar> * en + \<bar>d\<bar> * pr,
                \<bar>c\<bar> + \<bar>d\<bar>, (\<bar>c\<bar> * en + \<bar>d\<bar> * pr) / (\<bar>c\<bar> + \<bar>d\<bar>)]
         else list_all (\<lambda>x. fround x = Fin x) [pr - en, (pr - en) * (sgn c * min \<bar>c\<bar> \<bar>d\<bar>)])))"

lemma signedQuantity_updated:
  "signedQuantity (Some (updatedPosition pos c (Fin n) en l)) = Fin n"
  by (auto simp: signedQuantity_def)

lemma entryOf_updated [simp]: "entryOf (Some (updatedPosition pos c n en l)) = en"
  by (simp add: entryOf_def)

lemma realizedOn_exact:
  assumes "entryOf pos = Fin en" "c \<noteq> 0" "0 < x" "\<bar>d\<bar> = x"
    and "fround (pr - en) = Fin (pr - en)"
    and "fround ((pr - en) * (sgn c * min \<bar>c\<bar> \<bar>d\<bar>)) = Fin ((pr - en) * (sgn c * min \<bar>c\<bar> \<bar>d\<bar>))"
  shows "realizedOn pos c (Fin x) (Fin pr) = Fin ((pr - en) * (sgn c * min \<bar>c\<bar> \<bar>d\<bar>))"
proof -
  have m: "fmin (Fin \<bar>c\<bar>) (Fin x) = Fin (min \<bar>c\<bar> x)" by (auto simp: fmin_def min_def)
  have e: "fround (en - pr) = Fin (en - pr)" using fround_uminus [of "pr - en"] assms(5) by simp
  have s: "(en - pr) * min (- c) x = (pr - en) * (- min (- c) x)" by (simp add: algebra_simps)
  show ?thesis
  proof (cases "0 < c")
    case True
    then show ?thesis using assms m by (simp add: realizedOn_def minus_float64_def sgn_if)
  next
    case False
    then have "c < 0" using assms(2) by simp
    then show ?thesis using assms m e s by (simp add: realizedOn_def minus_float64_def sgn_if)
  qed
qed

lemma fill_refines:
  assumes "signedQuantity pos = Fin c" "entryOf pos = Fin en" "0 < x"
    and "exactFill c en (if side = SideSell then - x else x) pr"
    and "fillSpec c en (if side = SideSell then - x else x) pr = (n, en', r)"
  shows "\<exists>u. applyFill pos side (Fin x) (Fin pr) l = (u, Fin r) \<and> signedQuantity u = Fin n \<and>
    (n \<noteq> 0 \<longrightarrow> entryOf u = Fin en') \<and> (n = 0 \<longrightarrow> u = None)"
proof -
  define d where "d = (if side = SideSell then - x else x)"
  have d: "deltaOf side (Fin x) = Fin d" "d \<noteq> 0" "\<bar>d\<bar> = x"
    using assms(3) by (auto simp: d_def deltaOf_def)
  have ex: "exactFill c en d pr" and sp: "fillSpec c en d pr = (n, en', r)"
    using assms(4,5) by (simp_all add: d_def)
  have sum: "fround (c + d) = Fin (c + d)" and dust: "c + d = 0 \<or> val qtyEpsilon \<le> \<bar>c + d\<bar>"
    using ex by (auto simp: exactFill_def)
  consider "c = 0" | "c \<noteq> 0" "0 < c * d" | "c \<noteq> 0" "c * d \<le> 0" by linarith
  then show ?thesis
  proof cases
    case 1
    then have "n = d" "en' = pr" "r = 0" using sp by (auto simp: fillSpec_def)
    then show ?thesis using applyFill_open [of pos side "Fin x" d "Fin pr" l] assms(1) d sum 1
      by (simp add: signedQuantity_updated zero_float64_def)
  next
    case 2
    have n: "n = c + d" "en' = (\<bar>c\<bar> * en + \<bar>d\<bar> * pr) / (\<bar>c\<bar> + \<bar>d\<bar>)" "r = 0"
      using sp 2 by (auto simp: fillSpec_def)
    have "(Fin \<bar>c\<bar> * entryOf pos + Fin x * Fin pr) / (Fin \<bar>c\<bar> + Fin x) = Fin en'"
      using ex 2 assms(2,3) by (simp add: exactFill_def n d(3))
    moreover have "n \<noteq> 0" using 2 by (auto simp: n zero_less_mult_iff)
    ultimately show ?thesis
      using applyFill_adding [OF assms(1) d(1) 2(2), where price = "Fin pr" and l = l] sum n
      by (simp add: signedQuantity_updated zero_float64_def)
  next
    case 3
    have n: "n = c + d" "en' = (if 0 < (c + d) * c then en else pr)"
      "r = (pr - en) * (sgn c * min \<bar>c\<bar> \<bar>d\<bar>)"
      using sp 3 by (auto simp: fillSpec_def)
    have "realizedOn pos c (Fin x) (Fin pr) = Fin r"
      using realizedOn_exact [OF assms(2) 3(1) assms(3) d(3), of pr] ex 3 by (simp add: exactFill_def n)
    moreover have "(\<bar>fround (c + d)\<bar> < qtyEpsilon) = (c + d = 0)"
      using dust by (auto simp: sum qtyEpsilon_val val_def)
    ultimately show ?thesis
      using applyFill_reducing [OF assms(1) d(1) 3, where price = "Fin pr" and l = l] sum n assms(2)
      by (cases "c + d = 0")
        (simp_all add: signedQuantity_updated signedQuantity_def zero_float64_def)
  qed
qed

text \<open>
  (C31) On fills whose arithmetic is exact, \<^verbatim>\<open>applyFill\<close> implements the rational bookkeeping: same
  signed quantity, same entry price of what is left, same realized profit.
\<close>

theorem applyFill_refines_fillSpec:
  assumes "signedQuantity pos = Fin c" "entryOf pos = Fin en" "0 < x"
    and "exactFill c en (if side = SideSell then - x else x) pr"
    and "fillSpec c en (if side = SideSell then - x else x) pr = (n, en', r)"
  shows "\<exists>u. applyFill pos side (Fin x) (Fin pr) l = (u, Fin r) \<and> signedQuantity u = Fin n \<and>
    (n \<noteq> 0 \<longrightarrow> entryOf u = Fin en') \<and> (n = 0 \<longrightarrow> u = None)"
  by (rule fill_refines [OF assms])

theorem applyFill_refines_fillSpec_witness:
  "\<exists>u. applyFill (Some longTwo) SideSell (Fin 5) (Fin 110) 1 = (u, Fin 20) \<and>
     signedQuantity u = Fin (- 3) \<and> entryOf u = Fin 110"
proof -
  have h: "signedQuantity (Some longTwo) = Fin 2" "entryOf (Some longTwo) = Fin 100" "(0 :: rat) < 5"
    by (simp_all add: signedQuantity_def entryOf_def longTwo_def)
  have "exactFill 2 100 (if SideSell = SideSell then - 5 else 5) 110"
    "fillSpec 2 100 (if SideSell = SideSell then - 5 else 5) 110 = (- 3, 110, 20)"
    by code_simp+
  from applyFill_refines_fillSpec [OF h this, of 1] show ?thesis by auto
qed

text \<open>
  (C11) No value is made or lost by a fill: whatever price \<open>m\<close> the account is marked to afterwards,
  realized profit plus the marked value of the new position is the marked value of the old position
  plus that of the fill itself.
\<close>

theorem applyFill_conserves_value:
  assumes "signedQuantity pos = Fin c" "entryOf pos = Fin en" "0 < x"
    and "exactFill c en (if side = SideSell then - x else x) pr"
  shows "case applyFill pos side (Fin x) (Fin pr) l of (u, r) \<Rightarrow>
    val r + (m - val (entryOf u)) * val (signedQuantity u) =
    (m - en) * c + (m - pr) * (if side = SideSell then - x else x)"
proof -
  obtain n en' r where sp: "fillSpec c en (if side = SideSell then - x else x) pr = (n, en', r)"
    by (metis prod_cases3)
  have ref: "\<exists>u. applyFill pos side (Fin x) (Fin pr) l = (u, Fin r) \<and> signedQuantity u = Fin n \<and>
      (n \<noteq> 0 \<longrightarrow> entryOf u = Fin en') \<and> (n = 0 \<longrightarrow> u = None)"
    by (rule fill_refines [OF assms sp])
  then obtain u where u: "applyFill pos side (Fin x) (Fin pr) l = (u, Fin r)" "signedQuantity u = Fin n"
    "n \<noteq> 0 \<longrightarrow> entryOf u = Fin en'" "n = 0 \<longrightarrow> u = None" by blast
  have v: "val (Fin y) = y" for y by (simp add: val_def)
  have "(m - val (entryOf u)) * n = (m - en') * n" using u(3) by (cases "n = 0") (auto simp: v)
  then show ?thesis using fillSpec_value [OF sp, of m] by (simp only: u(1,2) v prod.case)
qed

theorem applyFill_conserves_value_witness:
  "case applyFill (Some longTwo) SideSell (Fin 5) (Fin 110) 1 of (u, r) \<Rightarrow>
     val r + (130 - val (entryOf u)) * val (signedQuantity u) = (130 - 100) * 2 + (130 - 110) * (- 5)"
proof -
  have h: "signedQuantity (Some longTwo) = Fin 2" "entryOf (Some longTwo) = Fin 100" "(0 :: rat) < 5"
    by (simp_all add: signedQuantity_def entryOf_def longTwo_def)
  have "exactFill 2 100 (if SideSell = SideSell then - 5 else 5) 110" by code_simp
  from applyFill_conserves_value [OF h this, where m = 130 and l = 1] show ?thesis by simp
qed

end
