(* ===== verification/Validate.thy ===== *)
theory Validate
  imports Position
begin

text \<open>
  \<^verbatim>\<open>backend/internal/trading/validate.go\<close>: what an order request must satisfy before it is looked at.
  \<open>normalize\<close> fills the defaults and checks the fields in the order of the source; the Unicode part of
  \<^verbatim>\<open>ToLower\<close> and \<^verbatim>\<open>ToUpper\<close> is the parameter \<open>lo\<close> and \<open>up\<close> (ASCII text is folded by the model).
\<close>

definition maxLeverage :: float64 where
  "maxLeverage = Fin 100"

record placeOrderInput =
  inMarket :: string
  inSymbol :: string
  inProduct :: string
  inSide :: string
  inType :: string
  inQuantity :: float64
  inPrice :: float64
  inLeverage :: float64
  inStopLoss :: float64
  inTakeProfit :: float64
  inSource :: source

text \<open>The assignments of \<^verbatim>\<open>normalize\<close> (lines 49 to 65), then its checks (lines 67 to 98).\<close>

definition defaults ::
    "(string \<Rightarrow> string) \<Rightarrow> (string \<Rightarrow> string) \<Rightarrow> placeOrderInput \<Rightarrow> placeOrderInput" where
  "defaults lo up i =
     (let m = ToLower lo (TrimSpace (inMarket i));
          p = ToLower lo (TrimSpace (inProduct i));
          t = ToLower lo (TrimSpace (inType i))
      in i\<lparr>inMarket := (if m = [] then Crypto else m),
           inSymbol := ToUpper up (TrimSpace (inSymbol i)),
           inProduct := (if p = [] then ProductFutures else p),
           inSide := ToLower lo (TrimSpace (inSide i)),
           inType := (if t = [] then OrderMarket else t),
           inLeverage := (if feq (inLeverage i) 0 then 1 else inLeverage i)\<rparr>)"

definition checkInput :: "placeOrderInput \<Rightarrow> err + unit" where
  "checkInput i =
     (if inSymbol i = [] then Inl ErrEmptySymbol
      else if inMarket i \<noteq> Crypto \<and> inMarket i \<noteq> Stock then Inl ErrUnknownMarket
      else if inProduct i \<noteq> ProductSpot \<and> inProduct i \<noteq> ProductFutures then Inl ErrInvalidProduct
      else if inSide i \<noteq> SideBuy \<and> inSide i \<noteq> SideSell then Inl ErrInvalidSide
      else if inType i \<noteq> OrderMarket \<and> inType i \<noteq> OrderLimit then Inl ErrInvalidType
      else if inQuantity i \<le> 0 then Inl ErrInvalidQuantity
      else if inType i = OrderLimit \<and> inPrice i \<le> 0 then Inl ErrInvalidPrice
      else if inLeverage i < 1 \<or> inLeverage i > maxLeverage then Inl ErrInvalidLeverage
      else if inProduct i = ProductSpot \<and> \<not> feq (inLeverage i) 1 then Inl ErrSpotLeverage
      else if inStopLoss i < 0 \<or> inTakeProfit i < 0 then Inl ErrInvalidStopLoss
      else Inr ())"

definition normalize ::
    "(string \<Rightarrow> string) \<Rightarrow> (string \<Rightarrow> string) \<Rightarrow> placeOrderInput \<Rightarrow> err + placeOrderInput" where
  "normalize lo up i =
     (case checkInput (defaults lo up i) of Inl x \<Rightarrow> Inl x | Inr _ \<Rightarrow> Inr (defaults lo up i))"

definition checkStopLevels :: "string \<Rightarrow> float64 \<Rightarrow> float64 \<Rightarrow> float64 \<Rightarrow> err + unit" where
  "checkStopLevels side reference stopLoss takeProfit =
     (let long = (side = SideBuy)
      in if long \<and> stopLoss > 0 \<and> stopLoss \<ge> reference then Inl ErrInvalidStopLoss
         else if long \<and> takeProfit > 0 \<and> takeProfit \<le> reference then Inl ErrInvalidStopLoss
         else if \<not> long \<and> stopLoss > 0 \<and> stopLoss \<le> reference then Inl ErrInvalidStopLoss
         else if \<not> long \<and> takeProfit > 0 \<and> takeProfit \<ge> reference then Inl ErrInvalidStopLoss
         else Inr ())"

definition checkSpotShort :: "string \<Rightarrow> string \<Rightarrow> position option \<Rightarrow> float64 \<Rightarrow> err + unit" where
  "checkSpotShort product side pos qty =
     (if product \<noteq> ProductSpot \<or> side \<noteq> SideSell then Inr ()
      else let held = (case pos of None \<Rightarrow> 0
                       | Some p \<Rightarrow> if posSide p = Long then posQuantity p else 0)
           in if qty > held + qtyEpsilon then Inl ErrSpotShort else Inr ())"

section \<open>What is accepted\<close>

text \<open>A request the backend may act on.\<close>

definition requestOK :: "placeOrderInput \<Rightarrow> bool" where
  "requestOK i =
     (inSymbol i \<noteq> [] \<and> inMarket i \<in> {Crypto, Stock} \<and> inProduct i \<in> {ProductSpot, ProductFutures} \<and>
      inSide i \<in> {SideBuy, SideSell} \<and> inType i \<in> {OrderMarket, OrderLimit} \<and>
      0 < inQuantity i \<and> (inType i = OrderLimit \<longrightarrow> 0 < inPrice i) \<and>
      1 \<le> inLeverage i \<and> inLeverage i \<le> maxLeverage \<and>
      (inProduct i = ProductSpot \<longrightarrow> inLeverage i = 1) \<and> 0 \<le> inStopLoss i \<and> 0 \<le> inTakeProfit i)"

text \<open>JSON has no NaN; the numbers of a request are not NaN.\<close>

definition numbersOK :: "placeOrderInput \<Rightarrow> bool" where
  "numbersOK i = (\<not> IsNaN (inQuantity i) \<and> \<not> IsNaN (inPrice i) \<and> \<not> IsNaN (inLeverage i) \<and>
     \<not> IsNaN (inStopLoss i) \<and> \<not> IsNaN (inTakeProfit i))"

lemma defaults_keep [simp]:
  "inQuantity (defaults lo up i) = inQuantity i" "inPrice (defaults lo up i) = inPrice i"
  "inStopLoss (defaults lo up i) = inStopLoss i" "inTakeProfit (defaults lo up i) = inTakeProfit i"
  "inSource (defaults lo up i) = inSource i"
  by (simp_all add: defaults_def Let_def)

lemma checkInput_requestOK:
  "numbersOK i \<Longrightarrow> (checkInput i = Inr ()) = requestOK i"
  by (auto simp: checkInput_def requestOK_def numbersOK_def IsNaN_def fless_not_le feq_def
      zero_float64_def one_float64_def maxLeverage_def)

text \<open>A market buy order as an agent sends it, for the witnesses.\<close>

definition buyOne :: placeOrderInput where
  "buyOne = \<lparr>inMarket = [], inSymbol = '' btcusdt '', inProduct = '' Futures'', inSide = ''BUY'',
     inType = [], inQuantity = Fin 1, inPrice = 0, inLeverage = 0, inStopLoss = Fin 90,
     inTakeProfit = 0, inSource = noSource\<rparr>"

definition buyOneNormal :: placeOrderInput where
  "buyOneNormal = \<lparr>inMarket = Crypto, inSymbol = ''BTCUSDT'', inProduct = ProductFutures,
     inSide = SideBuy, inType = OrderMarket, inQuantity = Fin 1, inPrice = 0, inLeverage = 1,
     inStopLoss = Fin 90, inTakeProfit = 0, inSource = noSource\<rparr>"

lemma buyOne_defaults: "defaults id id buyOne = buyOneNormal"
  by code_simp

lemma buyOne_OK: "numbersOK buyOne" "requestOK buyOneNormal"
  by code_simp+

lemma normalize_fixes:
  assumes "numbersOK i"
  shows "normalize lo up i = Inr j \<longleftrightarrow> j = defaults lo up i \<and> requestOK j"
proof -
  have "numbersOK (defaults lo up i)"
    using assms by (auto simp: numbersOK_def defaults_def Let_def IsNaN_def one_float64_def)
  from checkInput_requestOK [OF this] show ?thesis
    by (auto simp: normalize_def split: sum.splits)
qed

text \<open>
  (C39) Which requests are accepted: \<^verbatim>\<open>normalize\<close> returns the request with its defaults filled in exactly
  when that is a request the backend may act on, and an error otherwise.
\<close>

theorem normalize_accepts:
  assumes "numbersOK i"
  shows "normalize lo up i = Inr j \<longleftrightarrow> j = defaults lo up i \<and> requestOK j"
  by (rule normalize_fixes [OF assms])

theorem normalize_accepts_witness: "normalize id id buyOne = Inr buyOneNormal"
  using normalize_accepts [OF buyOne_OK(1)] buyOne_OK(2) by (simp add: buyOne_defaults)

text \<open>A stop level that passed the check, in terms of the reference price.\<close>

lemma checkStopLevels_ok:
  "checkStopLevels side reference sl tp = Inr () \<longleftrightarrow>
     (if side = SideBuy
      then \<not> (0 < sl \<and> reference \<le> sl) \<and> \<not> (0 < tp \<and> tp \<le> reference)
      else \<not> (0 < sl \<and> sl \<le> reference) \<and> \<not> (0 < tp \<and> reference \<le> tp))"
  by (auto simp: checkStopLevels_def Let_def)

section \<open>Normalizing twice\<close>

lemma space_runes_head:
  "r \<in> set (space_runes @ map rev space_runes) \<Longrightarrow>
     \<exists>c r'. r = c # r' \<and> (128 \<le> (of_char c :: nat) \<or> ((of_char c :: nat) < 65 \<and> r' = []))"
proof -
  assume r: "r \<in> set (space_runes @ map rev space_runes)"
  have "list_all (\<lambda>r. case r of [] \<Rightarrow> False
      | c # r' \<Rightarrow> 128 \<le> (of_char c :: nat) \<or> ((of_char c :: nat) < 65 \<and> r' = []))
      (space_runes @ map rev space_runes)"
    by (simp add: space_runes_def)
  with r show ?thesis unfolding list_all_iff by (fastforce split: list.splits)
qed

lemma upper_ascii_low: "(of_char (upper_ascii x) :: nat) < 65 \<longleftrightarrow> (of_char x :: nat) < 65"
  and upper_ascii_low_id: "(of_char x :: nat) < 65 \<Longrightarrow> upper_ascii x = x"
  by (auto simp: upper_ascii_def Let_def)

lemma trim_front_upper:
  assumes rs: "set rs \<subseteq> set (space_runes @ map rev space_runes)" and "is_ascii s"
    and "trim_front rs s = s"
  shows "trim_front rs (map upper_ascii s) = map upper_ascii s"
  unfolding trim_front_id_iff
proof (intro ballI impI notI)
  fix r assume r: "r \<in> set rs" "r \<noteq> []" "starts_with r (map upper_ascii s)"
  obtain c r' where c: "r = c # r'" "128 \<le> (of_char c :: nat) \<or> ((of_char c :: nat) < 65 \<and> r' = [])"
    using space_runes_head rs r(1) by blast
  obtain x xs where s: "s = x # xs" using r(3) c(1) by (cases s) (auto simp: starts_with_def)
  have x: "upper_ascii x = c" using r(3) c(1) s by (simp add: starts_with_def)
  have "is_ascii (map upper_ascii s)" using assms(2) by simp
  then have "(of_char c :: nat) < 128" using x s by (simp add: is_ascii_def)
  then have low: "(of_char c :: nat) < 65" "r' = []" using c(2) by auto
  then have "x = c" using x upper_ascii_low upper_ascii_low_id by metis
  then have "starts_with r s" using c(1) low s by (simp add: starts_with_def)
  then show False using assms(3) r(1,2) by (simp add: trim_front_id_iff)
qed

lemma TrimSpace_front: "TrimSpace s = s \<Longrightarrow> trim_front space_runes s = s"
  and TrimSpace_back: "TrimSpace s = s \<Longrightarrow> trim_front (map rev space_runes) (rev s) = rev s"
proof -
  assume t: "TrimSpace s = s"
  have "length s \<le> length (trim_front space_runes s)"
    using t length_trim_front [of "map rev space_runes" "rev (trim_front space_runes s)"]
    by (metis TrimSpace_def length_rev)
  then show f: "trim_front space_runes s = s"
    using trim_front_suffix [of s space_runes]
    by (metis append_eq_append_conv append_Nil le_antisym length_trim_front)
  show "trim_front (map rev space_runes) (rev s) = rev s"
    using t f by (metis TrimSpace_def rev_rev_ident)
qed

lemma TrimSpace_upper:
  assumes "is_ascii s" "TrimSpace s = s"
  shows "TrimSpace (map upper_ascii s) = map upper_ascii s"
proof -
  have "trim_front space_runes (map upper_ascii s) = map upper_ascii s"
    using assms by (intro trim_front_upper TrimSpace_front) auto
  moreover have "trim_front (map rev space_runes) (map upper_ascii (rev s)) = map upper_ascii (rev s)"
    using assms by (intro trim_front_upper TrimSpace_back) (auto simp: is_ascii_def)
  ultimately show ?thesis by (simp add: TrimSpace_def rev_map)
qed

lemma ToUpper_TrimSpace_again:
  assumes "is_ascii s"
  shows "ToUpper up (TrimSpace (ToUpper up (TrimSpace s))) = ToUpper up (TrimSpace s)"
proof -
  have "is_ascii (TrimSpace s)" using assms by (simp add: is_ascii_def TrimSpace_all)
  then show ?thesis by (simp add: ToUpper_def TrimSpace_upper comp_def)
qed

lemma lower_words:
  "w \<in> {Crypto, Stock, ProductSpot, ProductFutures, SideBuy, SideSell, OrderMarket, OrderLimit} \<Longrightarrow>
     ToLower lo (TrimSpace w) = w"
  by (elim insertE emptyE; hypsubst; code_simp)

text \<open>
  An accepted request with an ASCII symbol is a fixed point: normalizing it once more accepts it
  unchanged, so a request that is stored and replayed means the same.
\<close>

theorem normalize_again:
  assumes "numbersOK i" "is_ascii (inSymbol i)" "normalize lo up i = Inr j"
  shows "normalize lo up j = Inr j"
proof -
  have j: "j = defaults lo up i" "requestOK j"
    using assms(1,3) normalize_fixes by blast+
  have num: "numbersOK j"
    using assms(1) by (auto simp: j numbersOK_def defaults_def Let_def IsNaN_def one_float64_def)
  have sym: "inSymbol j = ToUpper up (TrimSpace (inSymbol i))" by (simp add: j defaults_def Let_def)
  have lw: "ToLower lo (TrimSpace (inMarket j)) = inMarket j"
    "ToLower lo (TrimSpace (inProduct j)) = inProduct j"
    "ToLower lo (TrimSpace (inSide j)) = inSide j" "ToLower lo (TrimSpace (inType j)) = inType j"
    using j(2) unfolding requestOK_def by (blast intro: lower_words)+
  have up: "ToUpper up (TrimSpace (inSymbol j)) = inSymbol j"
    using ToUpper_TrimSpace_again [OF assms(2)] by (simp add: sym)
  have lev: "\<not> feq (inLeverage j) 0"
    using j(2) by (auto simp: requestOK_def feq_def one_float64_def zero_float64_def)
  have ne: "inMarket j \<noteq> []" "inProduct j \<noteq> []" "inType j \<noteq> []"
    using j(2) by (auto simp: requestOK_def)
  have "defaults lo up j = j" using lw up lev ne by (simp add: defaults_def Let_def)
  then show ?thesis using normalize_fixes [OF num] j(2) by simp
qed

theorem normalize_again_witness: "normalize id id buyOneNormal = Inr buyOneNormal"
proof -
  have "is_ascii (inSymbol buyOne)" by (simp add: is_ascii_def buyOne_def)
  moreover have "normalize id id buyOne = Inr buyOneNormal"
    using normalize_fixes [OF buyOne_OK(1)] buyOne_OK(2) by (simp add: buyOne_defaults)
  ultimately show ?thesis by (rule normalize_again [OF buyOne_OK(1)])
qed

end
