(* ===== verification/Settle.thy ===== *)
theory Settle
  imports Store Validate
begin

text \<open>
  \<^verbatim>\<open>backend/internal/trading/settle.go\<close>: the core of a fill.  \<open>settle\<close> runs inside a transaction: it
  checks the rules, changes the position and the balance, and writes the trade and its ledger entry.
  The order struct it fills in is returned; writing the order is left to the caller, as in the source.
\<close>

abbreviation TriggerStopLoss :: string where "TriggerStopLoss \<equiv> ''stop_loss''"
abbreviation TriggerTakeProfit :: string where "TriggerTakeProfit \<equiv> ''take_profit''"
abbreviation TriggerMaxDD :: string where "TriggerMaxDD \<equiv> ''max_dd''"

section \<open>Rules\<close>

definition rate :: "env \<Rightarrow> string \<Rightarrow> float64" where
  "rate e role = (if role = RoleMaker then makerFee e else takerFee e)"

definition checkReduceOnly :: "position option \<Rightarrow> order \<Rightarrow> err + unit" where
  "checkReduceOnly pos order =
     (if \<not> ordReduceOnly order then Inr ()
      else case pos of
             None \<Rightarrow> Inl ErrPositionClosed
           | Some p \<Rightarrow> if ordQuantity order > posQuantity p + qtyEpsilon then Inl ErrCloseTooMuch
                       else Inr ())"

definition checkLeverage :: "position option \<Rightarrow> order \<Rightarrow> err + unit" where
  "checkLeverage pos order =
     (case pos of
        None \<Rightarrow> Inr ()
      | Some p \<Rightarrow>
          if feq (posLeverage p) (ordLeverage order) then Inr ()
          else let delta = (if ordSide order = SideSell then - ordQuantity order else ordQuantity order)
               in if sameDirection (signedQuantity pos) delta then Inl ErrLeverageLocked else Inr ())"

definition isBusinessRejection :: "err \<Rightarrow> bool" where
  "isBusinessRejection x = (x \<in> set [ErrInsufficient, ErrSpotShort, ErrLeverageLocked,
     ErrAccountDisabled, ErrPositionClosed, ErrCloseTooMuch])"

section \<open>Writing the position\<close>

definition wantSide :: "order \<Rightarrow> string" where
  "wantSide order = (if ordSide order = SideSell then Short else Long)"

text \<open>The stops an order carries overwrite those given, on a position of the order's direction.\<close>

definition orderStops :: "order \<Rightarrow> position \<Rightarrow> position" where
  "orderStops order p =
     (if posSide p = wantSide order then
        let p1 = (if ordStopLoss order > 0
                  then p\<lparr>posStopLoss := ordStopLoss order, posStopLossSource := ordSource order\<rparr> else p)
        in if ordTakeProfit order > 0
           then p1\<lparr>posTakeProfit := ordTakeProfit order, posTakeProfitSource := ordSource order\<rparr> else p1
      else p)"

text \<open>The identity a new position takes from the order that opens it.\<close>

definition openedFor :: "order \<Rightarrow> string \<Rightarrow> position \<Rightarrow> position" where
  "openedFor order i p = p\<lparr>posID := i, posAccountID := ordAccountID order,
     posMarket := ordMarket order, posSymbol := ordSymbol order, posProduct := ordProduct order\<rparr>"

definition persistPosition ::
    "order \<Rightarrow> position option \<Rightarrow> position option \<Rightarrow> position option M" where
  "persistPosition order previous updated =
     (case updated of
        None \<Rightarrow>
          (case previous of
             Some q \<Rightarrow> andThen (DeletePosition (posID q)) (ret None)
           | None \<Rightarrow> ret None)
      | Some u \<Rightarrow>
          let u1 = orderStops order u
          in case previous of
               Some _ \<Rightarrow> andThen (SavePosition u1) (ret (Some u1))
             | None \<Rightarrow>
                 bind (newID ''pos_'') (\<lambda>positionID.
                 let u2 = openedFor order positionID u1
                 in andThen (CreatePosition u2) (ret (Some u2))))"

section \<open>The fill\<close>

definition systemMaxDD :: "order \<Rightarrow> bool" where
  "systemMaxDD order = (ordReduceOnly order \<and> ordTrigger order = TriggerMaxDD)"

definition marginOf :: "position option \<Rightarrow> float64" where
  "marginOf pos = (case pos of None \<Rightarrow> 0 | Some p \<Rightarrow> posMargin p)"

definition filledOrder :: "order \<Rightarrow> float64 \<Rightarrow> float64 \<Rightarrow> float64 \<Rightarrow> position option \<Rightarrow> order" where
  "filledOrder order price fee realized updated =
     order\<lparr>ordStatus := OrderFilled, ordFilledQuantity := ordQuantity order, ordAvgFillPrice := price,
       ordFee := fee, ordRealizedPnL := realized,
       ordPositionID := (case updated of None \<Rightarrow> ordPositionID order | Some u \<Rightarrow> posID u)\<rparr>"

definition fillTrade :: "order \<Rightarrow> string \<Rightarrow> string \<Rightarrow> float64 \<Rightarrow> float64 \<Rightarrow> float64 \<Rightarrow> trade" where
  "fillTrade order tradeID role price fee realized =
     trade0\<lparr>trdID := tradeID, trdAccountID := ordAccountID order, trdOrderID := ordID order,
       trdMarket := ordMarket order, trdSymbol := ordSymbol order, trdProduct := ordProduct order,
       trdSide := ordSide order, trdRole := role, trdQuantity := ordQuantity order, trdPrice := price,
       trdFee := fee, trdRealizedPnL := realized, trdSource := ordSource order\<rparr>"

definition fillEntry ::
    "order \<Rightarrow> string \<Rightarrow> string \<Rightarrow> float64 \<Rightarrow> float64 \<Rightarrow> float64 \<Rightarrow> float64 \<Rightarrow> ledgerEntry" where
  "fillEntry order tradeID positionID price fee realized balance =
     ledgerEntry0\<lparr>ledAccountID := ordAccountID order, ledEvent := LedgerFill,
       ledOrderID := ordID order, ledTradeID := tradeID, ledPositionID := positionID,
       ledTrigger := ordTrigger order, ledQuantity := ordQuantity order, ledPrice := price,
       ledFee := fee, ledRealizedPnL := realized, ledBalanceDelta := realized - fee,
       ledBalanceAfter := balance, ledSource := ordSource order\<rparr>"

definition checkFunds ::
    "order \<Rightarrow> account \<Rightarrow> float64 \<Rightarrow> float64 \<Rightarrow> float64 \<Rightarrow> unit M" where
  "checkFunds order account oldMargin newMargin fee =
     (if systemMaxDD order then ret ()
      else bind (LockedMargin (ordAccountID order)) (\<lambda>locked.
           let available = accBalance account - locked;
               cost = (newMargin - oldMargin) + fee
           in if cost > available + qtyEpsilon then raise ErrInsufficient else ret ()))"

definition positionIDOf :: "position option \<Rightarrow> position option \<Rightarrow> string" where
  "positionIDOf pos updated =
     (case updated of Some u \<Rightarrow> posID u
      | None \<Rightarrow> (case pos of Some p \<Rightarrow> posID p | None \<Rightarrow> []))"

text \<open>The writes of \<^verbatim>\<open>settle\<close>, after all its checks have passed.\<close>

definition settleWrite ::
    "order \<Rightarrow> account \<Rightarrow> position option \<Rightarrow> position option \<Rightarrow> float64 \<Rightarrow> float64 \<Rightarrow> float64 \<Rightarrow> string \<Rightarrow> order M" where
  "settleWrite order account pos filled realized fee price role =
     bind (persistPosition order pos filled) (\<lambda>updated.
     let balance = accBalance account + (realized - fee) in
     andThen (SaveAccount (account\<lparr>accBalance := balance\<rparr>)) (
     bind (newID ''trd_'') (\<lambda>tradeID.
     andThen (CreateTrade (fillTrade order tradeID role price fee realized)) (
     andThen (CreateLedgerEntry
       (fillEntry order tradeID (positionIDOf pos updated) price fee realized balance)) (
     ret (filledOrder order price fee realized updated))))))"

definition settle :: "order \<Rightarrow> float64 \<Rightarrow> string \<Rightarrow> order M" where
  "settle order price role =
     bind (AccountByID (ordAccountID order)) (\<lambda>account.
     if \<not> systemMaxDD order \<and> \<not> Active account then raise ErrAccountDisabled else
     bind (orNone (PositionFor (ordAccountID order) (ordMarket order) (ordSymbol order)
                     (ordProduct order))) (\<lambda>pos.
     andThen (liftE (checkReduceOnly pos order)) (
     andThen (liftE (checkSpotShort (ordProduct order) (ordSide order) pos (ordQuantity order))) (
     andThen (liftE (checkLeverage pos order)) (
     bind (asks (\<lambda>e. ordQuantity order * price * rate e role)) (\<lambda>fee.
     case applyFill pos (ordSide order) (ordQuantity order) price (ordLeverage order) of
       (filled, realized) \<Rightarrow>
     andThen (checkFunds order account (marginOf pos) (marginOf filled) fee) (
     settleWrite order account pos filled realized fee price role)))))))"

section \<open>The effect of a fill on the database\<close>

abbreviation accountRow :: "db \<Rightarrow> string \<Rightarrow> account option" where
  "accountRow d i \<equiv> find (\<lambda>a. accID a = i) (accounts d)"

abbreviation positionOf :: "db \<Rightarrow> order \<Rightarrow> position option" where
  "positionOf d order \<equiv> find (\<lambda>p. posKey p =
     (ordAccountID order, ordMarket order, ordSymbol order, ordProduct order)) (positions d)"

text \<open>The rows of \<^verbatim>\<open>positions\<close> before and after \<^verbatim>\<open>persistPosition\<close>, and the struct it leaves.\<close>

definition persisted ::
    "order \<Rightarrow> position option \<Rightarrow> position option \<Rightarrow> position list \<Rightarrow> position option \<Rightarrow> position list \<Rightarrow> bool" where
  "persisted order pos filled ps upd ps' =
     (case filled of
        None \<Rightarrow> upd = None \<and>
          ps' = (case pos of None \<Rightarrow> ps | Some q \<Rightarrow> filter (\<lambda>p. posID p \<noteq> posID q) ps)
      | Some u \<Rightarrow>
          (case pos of
             Some _ \<Rightarrow> upd = Some (orderStops order u) \<and>
               (\<forall>q \<in> set ps. posID q \<noteq> posID u \<longrightarrow> posKey q \<noteq> posKey u) \<and>
               ps' = tbl_save posID (orderStops order u) ps
           | None \<Rightarrow> \<exists>i t. upd = Some (openedFor order i (orderStops order u)) \<and>
               (\<forall>q \<in> set ps. posID q \<noteq> i \<and> posKey q \<noteq> posKey (openedFor order i u)) \<and>
               ps' = ps @ [(openedFor order i (orderStops order u))\<lparr>posCreatedAt := t\<rparr>]))"

lemma orderStops_keeps [simp]:
  "posID (orderStops order p) = posID p" "posKey (orderStops order p) = posKey p"
  "posSide (orderStops order p) = posSide p" "posQuantity (orderStops order p) = posQuantity p"
  "posEntryPrice (orderStops order p) = posEntryPrice p" "posMargin (orderStops order p) = posMargin p"
  "posLeverage (orderStops order p) = posLeverage p" "posAccountID (orderStops order p) = posAccountID p"
  "posProduct (orderStops order p) = posProduct p" "posMarket (orderStops order p) = posMarket p"
  "posSymbol (orderStops order p) = posSymbol p"
  by (auto simp: orderStops_def posKey_def Let_def)

lemma openedFor_keeps [simp]:
  "posID (openedFor order i p) = i"
  "posKey (openedFor order i p) = (ordAccountID order, ordMarket order, ordSymbol order, ordProduct order)"
  by (auto simp: openedFor_def posKey_def)

lemma persisted_new:
  "\<forall>q \<in> set ps. posID q \<noteq> i \<and> posKey q \<noteq>
      (ordAccountID order, ordMarket order, ordSymbol order, ordProduct order) \<Longrightarrow>
   persisted order None (Some u) ps (Some (openedFor order i (orderStops order u)))
     (ps @ [(openedFor order i (orderStops order u))\<lparr>posCreatedAt := t\<rparr>])"
  by (auto simp: persisted_def)

lemma wp_persistPosition:
  assumes "\<And>upd ps' w'. persisted order pos filled (positions (wdb w)) upd ps' \<Longrightarrow>
      wdb w' = (wdb w)\<lparr>positions := ps'\<rparr> \<Longrightarrow> Q upd w'"
    and "\<And>x w'. x \<in> {ErrStore, ErrDuplicate, ErrEntropy} \<Longrightarrow> E x w'"
  shows "wp e (persistPosition order pos filled) Q E w"
proof (cases filled)
  case None
  then show ?thesis
    by (auto simp: persistPosition_def wp_rules persisted_def intro!: assms)
next
  case (Some u)
  show ?thesis
  proof (cases pos)
    case None
    then show ?thesis using Some
      by (auto simp: persistPosition_def wp_rules Let_def list_ex_iff split del: if_split
          intro!: assms persisted_new)
  next
    case (Some q)
    then show ?thesis using \<open>filled = Some u\<close>
      by (auto simp: persistPosition_def wp_rules persisted_def Let_def list_ex_iff intro!: assms)
  qed
qed

text \<open>The checks before anything is written, in the source's order.\<close>

definition fillCost :: "env \<Rightarrow> order \<Rightarrow> float64 \<Rightarrow> string \<Rightarrow> position option \<Rightarrow> float64" where
  "fillCost e order price role pos =
     (marginOf (fst (applyFill pos (ordSide order) (ordQuantity order) price (ordLeverage order)))
        - marginOf pos) + ordQuantity order * price * rate e role"

definition settleRejects :: "env \<Rightarrow> order \<Rightarrow> float64 \<Rightarrow> string \<Rightarrow> db \<Rightarrow> err \<Rightarrow> bool" where
  "settleRejects e order price role d x =
     (\<exists>r. accountRow d (ordAccountID order) = Some r \<and>
       (if \<not> systemMaxDD order \<and> \<not> Active r then x = ErrAccountDisabled
        else case checkReduceOnly (positionOf d order) order of Inl y \<Rightarrow> x = y | Inr _ \<Rightarrow>
        (case checkSpotShort (ordProduct order) (ordSide order) (positionOf d order) (ordQuantity order)
         of Inl y \<Rightarrow> x = y | Inr _ \<Rightarrow>
        (case checkLeverage (positionOf d order) order of Inl y \<Rightarrow> x = y | Inr _ \<Rightarrow>
           \<not> systemMaxDD order \<and> x = ErrInsufficient \<and>
           fillCost e order price role (positionOf d order) >
             accBalance r - lockedIn e (ordAccountID order) d + qtyEpsilon))))"

definition settleAccepts :: "env \<Rightarrow> order \<Rightarrow> float64 \<Rightarrow> string \<Rightarrow> db \<Rightarrow> account \<Rightarrow> bool" where
  "settleAccepts e order price role d r =
     (accountRow d (ordAccountID order) = Some r \<and> (systemMaxDD order \<or> Active r) \<and>
      checkReduceOnly (positionOf d order) order = Inr () \<and>
      checkSpotShort (ordProduct order) (ordSide order) (positionOf d order) (ordQuantity order) = Inr () \<and>
      checkLeverage (positionOf d order) order = Inr () \<and>
      (\<not> systemMaxDD order \<longrightarrow>
         \<not> fillCost e order price role (positionOf d order) >
             accBalance r - lockedIn e (ordAccountID order) d + qtyEpsilon))"

text \<open>
  What a successful \<open>settle\<close> did: the account row \<open>r\<close> with the new balance (and its token in a fresh
  envelope), the position, one trade, one ledger entry.
\<close>

definition settled ::
    "env \<Rightarrow> order \<Rightarrow> float64 \<Rightarrow> string \<Rightarrow> db \<Rightarrow> order \<Rightarrow> db \<Rightarrow> bool" where
  "settled e order price role d order' d' =
     (\<exists>r t h upd filled realized tid t1 t2 ps.
        settleAccepts e order price role d r \<and>
        applyFill (positionOf d order) (ordSide order) (ordQuantity order) price (ordLeverage order)
          = (filled, realized) \<and>
        persisted order (positionOf d order) filled (positions d) upd ps \<and>
        (\<forall>b \<in> set (accounts d). accID b \<noteq> accID r \<longrightarrow>
           \<not> accountClash (r\<lparr>accToken := t, accTokenHash := h\<rparr>) b) \<and>
        (\<forall>u \<in> set (trades d). trdID u \<noteq> tid) \<and>
        (let fee = ordQuantity order * price * rate e role;
             balance = accBalance r + (realized - fee)
         in order' = filledOrder order price fee realized upd \<and>
            d' = logged (d\<lparr>positions := ps,
                   accounts := tbl_save accID
                     (r\<lparr>accBalance := balance, accToken := t, accTokenHash := h\<rparr>) (accounts d),
                   trades := trades d @
                     [(fillTrade order tid role price fee realized)\<lparr>trdCreatedAt := t1\<rparr>]\<rparr>)
                   [(fillEntry order tid (positionIDOf (positionOf d order) upd) price fee realized
                        balance, t2)]))"

lemma rejection_simps [simp]:
  "\<not> isBusinessRejection ErrStore" "\<not> isBusinessRejection ErrDuplicate"
  "\<not> isBusinessRejection ErrEntropy" "\<not> isBusinessRejection ErrTokenKey"
  "\<not> isBusinessRejection ErrNotFound" "isBusinessRejection ErrAccountDisabled"
  "isBusinessRejection ErrInsufficient"
  by (simp_all add: isBusinessRejection_def)

lemma check_errors:
  "checkReduceOnly pos order = Inl x \<Longrightarrow> x \<in> {ErrPositionClosed, ErrCloseTooMuch}"
  "checkSpotShort pr s pos q = Inl x \<Longrightarrow> x = ErrSpotShort"
  "checkLeverage pos order = Inl x \<Longrightarrow> x = ErrLeverageLocked"
  by (auto simp: checkReduceOnly_def checkSpotShort_def checkLeverage_def Let_def
      split: if_splits option.splits)

lemma wp_checkFunds:
  assumes "accountRow d i = Some r" "wdb w = d" "accBalance a = accBalance r" "ordAccountID order = i"
    and "\<And>w'. wdb w' = d \<Longrightarrow>
      (\<not> systemMaxDD order \<longrightarrow> \<not> (n - m) + f > accBalance r - lockedIn e i d + qtyEpsilon) \<Longrightarrow> Q () w'"
    and "\<And>w'. wdb w' = d \<Longrightarrow> \<not> systemMaxDD order \<Longrightarrow>
      (n - m) + f > accBalance r - lockedIn e i d + qtyEpsilon \<Longrightarrow> E ErrInsufficient w'"
    and "\<And>w'. wdb w' = d \<Longrightarrow> E ErrStore w'"
  shows "wp e (checkFunds order a m n f) Q E w"
  using assms(2,3,4) by (auto simp: checkFunds_def wp_rules Let_def intro!: assms(5-7))

lemma wp_settleWrite:
  assumes r: "accountRow (wdb w) i = Some r" and a: "a = r\<lparr>accToken := t0\<rparr>"
    and Q: "\<And>t h upd tid t1 t2 ps w'.
        persisted order pos filled (positions (wdb w)) upd ps \<Longrightarrow>
        (\<forall>b \<in> set (accounts (wdb w)). accID b \<noteq> accID r \<longrightarrow>
           \<not> accountClash (r\<lparr>accToken := t, accTokenHash := h\<rparr>) b) \<Longrightarrow>
        (\<forall>u \<in> set (trades (wdb w)). trdID u \<noteq> tid) \<Longrightarrow>
        wdb w' = logged ((wdb w)\<lparr>positions := ps,
                   accounts := tbl_save accID
                     (r\<lparr>accBalance := accBalance r + (realized - fee), accToken := t, accTokenHash := h\<rparr>)
                     (accounts (wdb w)),
                   trades := trades (wdb w) @
                     [(fillTrade order tid role price fee realized)\<lparr>trdCreatedAt := t1\<rparr>]\<rparr>)
                   [(fillEntry order tid (positionIDOf pos upd) price fee realized
                        (accBalance r + (realized - fee)), t2)] \<Longrightarrow>
        Q (filledOrder order price fee realized upd) w'"
    and err: "\<And>x w'. \<not> isBusinessRejection x \<Longrightarrow> E x w'"
  shows "wp e (settleWrite order a pos filled realized fee price role) Q E w"
  unfolding settleWrite_def wp_bind Let_def wp_andThen
proof (rule wp_persistPosition, goal_cases)
  case (1 upd ps w1)
  note p = this
  show ?case
  proof (rule wp_SaveAccount, goal_cases)
    case (1 t h w2)
    note c = this
    show ?case
    proof (rule wp_newIDI; (rule wp_CreateTradeI)?; (rule wp_CreateLedgerEntryI)?; (unfold wp_ret)?;
        (rule err, force)?; goal_cases)
      case (1 i w3 t1 w4 t2 w5)
      then show ?case using c(2)
        by (intro Q [OF p(1), where t = t and h = h and tid = i and ?t1.0 = t1 and ?t2.0 = t2])
          (auto simp: list_ex_iff accountClash_def a p(2) fillTrade_def)
    qed
  qed (auto intro: err)
qed (auto intro: err)

lemma wp_settle:
  assumes Q: "\<And>order' w'. settled e order price role (wdb w) order' (wdb w') \<Longrightarrow> Q order' w'"
    and rej: "\<And>x w'. isBusinessRejection x \<Longrightarrow> settleRejects e order price role (wdb w) x \<Longrightarrow>
      wdb w' = wdb w \<Longrightarrow> E x w'"
    and err: "\<And>x w'. \<not> isBusinessRejection x \<Longrightarrow> E x w'"
  shows "wp e (settle order price role) Q E w"
proof -
  let ?i = "ordAccountID order" and ?pos = "positionOf (wdb w) order"
  let ?fee = "ordQuantity order * price * rate e role"
  have main: "wp e (andThen (liftE (checkReduceOnly ?pos order)) (
     andThen (liftE (checkSpotShort (ordProduct order) (ordSide order) ?pos (ordQuantity order))) (
     andThen (liftE (checkLeverage ?pos order)) (
     bind (asks (\<lambda>e. ordQuantity order * price * rate e role)) (\<lambda>fee.
     case applyFill ?pos (ordSide order) (ordQuantity order) price (ordLeverage order) of
       (filled, realized) \<Rightarrow>
     andThen (checkFunds order (r\<lparr>accToken := t\<rparr>) (marginOf ?pos) (marginOf filled) fee) (
     settleWrite order (r\<lparr>accToken := t\<rparr>) ?pos filled realized fee price role))))))
     Q E w'"
    if r: "accountRow (wdb w) ?i = Some r" "systemMaxDD order \<or> Active r" and w': "wdb w' = wdb w"
    for r t w'
    unfolding wp_andThen wp_liftE wp_bind wp_asks wp_case_prod
  proof (intro conjI impI allI)
    fix filled realized u1 u2 u3
    assume ok: "checkReduceOnly ?pos order = Inr u1"
      "checkSpotShort (ordProduct order) (ordSide order) ?pos (ordQuantity order) = Inr u2"
      "checkLeverage ?pos order = Inr u3"
      and f: "applyFill ?pos (ordSide order) (ordQuantity order) price (ordLeverage order) = (filled, realized)"
    show "wp e (checkFunds order (r\<lparr>accToken := t\<rparr>) (marginOf ?pos) (marginOf filled) ?fee)
        (\<lambda>_. wp e (settleWrite order (r\<lparr>accToken := t\<rparr>) ?pos filled realized ?fee price role) Q E) E w'"
    proof (rule wp_checkFunds [OF r(1) w'], goal_cases)
      case (3 w1)
      note funds = this
      show ?case
      proof (rule wp_settleWrite [where r = r and ?t0.0 = t and i = ?i], goal_cases)
        case (3 t h upd tid t1 t2 ps w2)
        have "settleAccepts e order price role (wdb w) r"
          using r ok f funds(2) by (auto simp: settleAccepts_def fillCost_def)
        then show ?case
          using 3 f funds(1) w' unfolding settled_def Let_def
          by (intro Q, unfold settled_def Let_def) (intro exI conjI, assumption+, simp_all)
      qed (use funds r err in auto)
    next
      case (4 w1)
      then show ?case using r ok f
        by (intro rej) (auto simp: settleRejects_def fillCost_def isBusinessRejection_def)
    qed (auto intro: err)
  qed (use r w' in \<open>auto intro!: rej simp: settleRejects_def isBusinessRejection_def dest: check_errors\<close>)
  have main': "wp e (andThen (liftE (checkReduceOnly pos order)) (
     andThen (liftE (checkSpotShort (ordProduct order) (ordSide order) pos (ordQuantity order))) (
     andThen (liftE (checkLeverage pos order)) (
     bind (asks (\<lambda>e. ordQuantity order * price * rate e role)) (\<lambda>fee.
     case applyFill pos (ordSide order) (ordQuantity order) price (ordLeverage order) of
       (filled, realized) \<Rightarrow>
     andThen (checkFunds order a (marginOf pos) (marginOf filled) fee) (
     settleWrite order a pos filled realized fee price role))))))
     Q E w'"
    if "accountRow (wdb w) ?i = Some r" "\<not> (\<not> systemMaxDD order \<and> \<not> Active a)" "wdb w' = wdb w"
      "decryptAccount e r = Inr a" "pos = ?pos" for r a pos w'
    using main [OF that(1) _ that(3)] that decryptAccount_Inr [OF that(4)] by (auto simp: Active_def)
  show ?thesis
    unfolding settle_def wp_bind wp_AccountByID wp_if wp_raise wp_orNone wp_PositionFor
  proof (((intro conjI impI allI); (rule err, simp add: isBusinessRejection_def; fail)?), goal_cases)
    case (1 r x)
    then show ?case using decryptAccount_Inl [OF 1(3)] by (simp add: err)
  next
    case (2 r a)
    then show ?case using decryptAccount_Inr [of e r a]
      by (intro rej) (auto simp: settleRejects_def Active_def)
  qed (auto intro: main')
qed

text \<open>
  A fill that a trading rule refuses changes nothing: when \<^verbatim>\<open>settle\<close> returns one of the business
  rejections, the database is exactly as before, and the rejection is the first rule, in the order of
  the source, that the account, its position and its available balance break.
\<close>

theorem settle_rejects_cleanly:
  assumes "settle order price role e w = (Inl x, w')" "isBusinessRejection x"
  shows "wdb w' = wdb w \<and> settleRejects e order price role (wdb w) x"
proof -
  have "wp e (settle order price role) (\<lambda>_ _. True)
      (\<lambda>x w'. isBusinessRejection x \<longrightarrow> wdb w' = wdb w \<and> settleRejects e order price role (wdb w) x) w"
    by (rule wp_settle) auto
  from wp_Inl [OF this assms(1)] assms(2) show ?thesis by simp
qed

definition sellOrder :: order where
  "sellOrder = order0\<lparr>ordID := ''ord_1'', ordAccountID := ''acc_1'', ordMarket := ''crypto'', ordSymbol := ''BTCUSDT'',
     ordProduct := ProductSpot, ordSide := SideSell, ordType := OrderMarket, ordQuantity := Fin 1, ordStatus := OrderOpen\<rparr>"

definition sellDB :: db where
  "sellDB = emptyDB\<lparr>accounts := [account0\<lparr>accID := ''acc_1'', accStatus := AccountActive, accBalance := Fin 100\<rparr>]\<rparr>"

lemma sell_refused: "case settle sellOrder (Fin 100) RoleTaker plainEnv (worldOf sellDB) of (Inl x, w') \<Rightarrow> x = ErrSpotShort | _ \<Rightarrow> False"
  by code_simp

theorem settle_rejects_cleanly_witness:
  "\<exists>w'. settle sellOrder (Fin 100) RoleTaker plainEnv (worldOf sellDB) = (Inl ErrSpotShort, w') \<and> wdb w' = sellDB"
proof -
  obtain w' where w': "settle sellOrder (Fin 100) RoleTaker plainEnv (worldOf sellDB) = (Inl ErrSpotShort, w')"
    using sell_refused by (auto split: prod.splits sum.splits)
  from settle_rejects_cleanly [OF this] w' show ?thesis by (simp add: isBusinessRejection_def)
qed

end
