(* ===== verification/Drawdown.thy ===== *)
theory Drawdown
  imports Settle
begin

text \<open>
  \<^verbatim>\<open>backend/internal/trading/drawdown.go\<close>: the maximum-drawdown limits of an account and the check that
  stops it.  The quotes of a round are a map from the key of \<^verbatim>\<open>matching.go\<close> to a price.
\<close>

definition key :: "string \<Rightarrow> string \<Rightarrow> string" where
  "key market symbol = market @ '':'' @ symbol"

type_synonym marks = "string \<rightharpoonup> float64"

record drawdownLimits =
  LossLimit :: float64
  EquityFloor :: float64

definition DrawdownLimits :: "float64 \<Rightarrow> float64 \<Rightarrow> float64 \<Rightarrow> drawdownLimits" where
  "DrawdownLimits initialBalance baselineEquity maxDD =
     (let lossLimit = initialBalance * (maxDD / Fin 100)
      in \<lparr>LossLimit = lossLimit, EquityFloor = baselineEquity - lossLimit\<rparr>)"

definition maxDDStopTolerance :: float64 where
  "maxDDStopTolerance = lit (1 / 100000000)"

text \<open>The loop that adds the unrealized profit of every position to the balance.\<close>

fun markEquity :: "marks \<Rightarrow> position list \<Rightarrow> float64 \<Rightarrow> err + float64" where
  "markEquity marks [] equity = Inr equity"
| "markEquity marks (p # ps) equity =
     (case marks (key (posMarket p) (posSymbol p)) of
        None \<Rightarrow> Inl ErrRiskPriceUnavailable
      | Some price \<Rightarrow> markEquity marks ps (equity + Unrealized p price))"

definition canceledEntry :: "string \<Rightarrow> order \<Rightarrow> source \<Rightarrow> ledgerEntry" where
  "canceledEntry accountID order source = ledgerEntry0\<lparr>ledAccountID := accountID,
     ledEvent := LedgerOrderCanceled, ledOrderID := ordID order, ledQuantity := ordQuantity order,
     ledPrice := ordPrice order, ledSource := source\<rparr>"

definition riskEntry :: "string \<Rightarrow> string \<Rightarrow> float64 \<Rightarrow> ledgerEntry" where
  "riskEntry accountID event balance = ledgerEntry0\<lparr>ledAccountID := accountID, ledEvent := event,
     ledBalanceAfter := balance\<rparr>"

definition cancelForRisk :: "string \<Rightarrow> order \<Rightarrow> unit M" where
  "cancelForRisk accountID order =
     andThen (SaveOrder (order\<lparr>ordStatus := OrderCanceled\<rparr>))
             (CreateLedgerEntry (canceledEntry accountID order noSource))"

text \<open>The writes once the threshold is crossed.\<close>

definition stopAccount :: "string \<Rightarrow> account \<Rightarrow> float64 \<Rightarrow> bool M" where
  "stopAccount accountID account equity =
     bind Now (\<lambda>now.
     andThen (SaveAccount (account\<lparr>accMaxDDStoppedAt := Some now\<rparr>)) (
     bind (OpenOrdersForAccount accountID) (\<lambda>orders.
     andThen (forM orders (cancelForRisk accountID)) (
     andThen (CreateLedgerEntry (riskEntry accountID LedgerMaxDDTriggered equity)) (
     ret True)))))"

definition checkMaxDD :: "string \<Rightarrow> marks \<Rightarrow> bool M" where
  "checkMaxDD accountID marks =
     bind (AccountByID accountID) (\<lambda>account.
     if accMaxDDStoppedAt account \<noteq> None then ret True else
     case accMaxDD account of None \<Rightarrow> ret False | Some maxDD \<Rightarrow>
     case accMaxDDBaselineEquity account of None \<Rightarrow> raise ErrMaxDDInconsistent | Some baseline \<Rightarrow>
     bind (ListPositions accountID []) (\<lambda>positions.
     bind (liftE (markEquity marks positions (accBalance account))) (\<lambda>equity.
     if equity > EquityFloor (DrawdownLimits (accInitialBalance account) baseline maxDD)
                   + maxDDStopTolerance
     then ret False
     else stopAccount accountID account equity)))"

section \<open>Limits\<close>

text \<open>The market names have no colon, so the key determines market and symbol.\<close>

lemma key_inj:
  assumes "m \<in> {Crypto, Stock}" "m' \<in> {Crypto, Stock}" "key m s = key m' s'"
  shows "m = m' \<and> s = s'"
  using assms by (auto simp: key_def)

text \<open>
  The limits of an account with a maximum drawdown of \<open>0 < maxDD \<le> 100\<close> percent: the loss limit
  lies between zero and the initial balance, and the floor is not above the baseline; in the first
  cycle, where the baseline is the initial balance, the floor is not negative.
\<close>

theorem DrawdownLimits_bounds:
  assumes "finite64 initial" "f64 initial" "0 < initial" "finite64 base" "f64 base"
    and "0 < maxDD" "maxDD \<le> Fin 100"
  shows "0 \<le> LossLimit (DrawdownLimits initial base maxDD) \<and>
    LossLimit (DrawdownLimits initial base maxDD) \<le> initial \<and>
    EquityFloor (DrawdownLimits initial base maxDD) \<le> base \<and>
    (base = initial \<longrightarrow> 0 \<le> EquityFloor (DrawdownLimits initial base maxDD))"
proof -
  let ?ratio = "maxDD / Fin 100"
  have r: "?ratio \<le> 1" "0 \<le> ?ratio"
    using fdiv_le_1 [of maxDD "Fin 100"] assms(6,7) by (auto simp: fless_imp_le finite64_def)
  then have fr: "finite64 ?ratio"
    by (cases ?ratio) (auto simp: zero_float64_def one_float64_def less_eq_float64_def finite64_def)
  have l: "0 \<le> initial * ?ratio" "initial * ?ratio \<le> initial"
    using assms(1-3) r fr by (auto intro: float_le fless_imp_le)
  then have "finite64 (initial * ?ratio)"
    using assms(1) by (cases "initial * ?ratio") (auto simp: zero_float64_def less_eq_float64_def finite64_cases)
  with l assms(4,5) show ?thesis
    by (auto simp: DrawdownLimits_def Let_def intro: float_le)
qed

theorem DrawdownLimits_bounds_witness:
  "0 \<le> EquityFloor (DrawdownLimits (Fin 10000) (Fin 10000) (Fin 20))"
proof -
  have "finite64 (Fin 10000)" "f64 (Fin 10000)" "(0 :: float64) < Fin 10000" "(0 :: float64) < Fin 20"
    "Fin 20 \<le> Fin 100"
    by code_simp+
  from DrawdownLimits_bounds [OF this(1-3) this(1,2) this(4,5)] show ?thesis by simp
qed

section \<open>The effect of the check\<close>

definition openOrders :: "string \<Rightarrow> db \<Rightarrow> order list" where
  "openOrders acc d = sort_key ordCreatedAt
     (filter (\<lambda>x. ordAccountID x = acc \<and> ordStatus x = OrderOpen) (orders d))"

definition openPositions :: "string \<Rightarrow> db \<Rightarrow> position list" where
  "openPositions acc d = sort_key posCreatedAt (filter (\<lambda>p. posAccountID p = acc) (positions d))"

definition canceledRow :: "order \<Rightarrow> order" where
  "canceledRow x = x\<lparr>ordStatus := OrderCanceled, ordPositionID := []\<rparr>"

definition cancelAll :: "order list \<Rightarrow> order list \<Rightarrow> order list" where
  "cancelAll xs os = fold (\<lambda>x. tbl_save ordID (canceledRow x)) xs os"

text \<open>The threshold an account is held to, and when its equity has crossed it.\<close>

definition crossed :: "marks \<Rightarrow> db \<Rightarrow> account \<Rightarrow> float64 \<Rightarrow> bool" where
  "crossed marks d r equity =
     (\<exists>maxDD base. accMaxDD r = Some maxDD \<and> accMaxDDBaselineEquity r = Some base \<and>
        markEquity marks (openPositions (accID r) d) (accBalance r) = Inr equity \<and>
        \<not> equity > EquityFloor (DrawdownLimits (accInitialBalance r) base maxDD) + maxDDStopTolerance)"

text \<open>The whole of what crossing does, in one transaction.\<close>

definition stoppedNow :: "string \<Rightarrow> account \<Rightarrow> float64 \<Rightarrow> db \<Rightarrow> db \<Rightarrow> bool" where
  "stoppedNow acc r equity d d' =
     (\<exists>now t h ts t'.
        (\<forall>b \<in> set (accounts d). accID b \<noteq> accID r \<longrightarrow>
           \<not> accountClash (r\<lparr>accToken := t, accTokenHash := h\<rparr>) b) \<and>
        length ts = length (openOrders acc d) \<and>
        d' = logged (d\<lparr>accounts := tbl_save accID
                 (r\<lparr>accMaxDDStoppedAt := Some now, accToken := t, accTokenHash := h\<rparr>) (accounts d),
               orders := cancelAll (openOrders acc d) (orders d)\<rparr>)
               (zip (map (\<lambda>x. canceledEntry acc x noSource) (openOrders acc d)) ts @
                [(riskEntry acc LedgerMaxDDTriggered equity, t')]))"

lemma wp_cancelLoop:
  assumes "\<And>ts w'. length ts = length xs \<Longrightarrow>
      wdb w' = logged ((wdb w)\<lparr>orders := cancelAll xs (orders (wdb w))\<rparr>)
                 (zip (map (\<lambda>x. canceledEntry acc x noSource) xs) ts) \<Longrightarrow> Q () w'"
    and "\<And>w'. E ErrStore w'"
  shows "wp e (forM xs (cancelForRisk acc)) Q E w"
  using assms
proof (induction xs arbitrary: w)
  case Nil
  have "Q () w" by (rule Nil(1) [of "[]"]) (simp_all add: cancelAll_def)
  then show ?case by (simp add: wp_ret)
next
  case (Cons x xs)
  show ?case
    unfolding forM.simps wp_andThen cancelForRisk_def [of acc x]
  proof (rule wp_SaveOrderI, rule wp_CreateLedgerEntryI, rule Cons.IH)
    fix w1 :: world and t and w2 :: world and ts and w3 :: world
    assume h: "wdb w1 = (wdb w)\<lparr>orders := tbl_save ordID (x\<lparr>ordStatus := OrderCanceled, ordPositionID := []\<rparr>)
            (orders (wdb w))\<rparr>"
      "wdb w2 = logged (wdb w1) [(canceledEntry acc x noSource, t)]"
      "length ts = length xs"
      "wdb w3 = logged ((wdb w2)\<lparr>orders := cancelAll xs (orders (wdb w2))\<rparr>)
         (zip (map (\<lambda>x. canceledEntry acc x noSource) xs) ts)"
    show "Q () w3"
      by (rule Cons.prems(1) [of "t # ts"]) (use h in \<open>simp_all add: cancelAll_def canceledRow_def\<close>)
  qed (auto intro: Cons.prems(2))
qed

lemma wp_stopAccount:
  assumes r: "a = r\<lparr>accToken := t0\<rparr>"
    and Q: "\<And>w'. stoppedNow acc r equity (wdb w) (wdb w') \<Longrightarrow> Q True w'"
    and err: "\<And>x w'. \<not> isBusinessRejection x \<Longrightarrow> E x w'"
  shows "wp e (stopAccount acc a equity) Q E w"
  unfolding stopAccount_def wp_bind wp_Now wp_andThen
proof (rule wp_SaveAccount, goal_cases)
  case (1 t h w1)
  let ?now = "clock e (calls w)"
  let ?d = "(wdb w)\<lparr>accounts := tbl_save accID
      (r\<lparr>accMaxDDStoppedAt := Some ?now, accToken := t, accTokenHash := h\<rparr>) (accounts (wdb w))\<rparr>"
  have c: "\<forall>b \<in> set (accounts (wdb w)). accID b \<noteq> accID r \<longrightarrow>
      \<not> accountClash (r\<lparr>accToken := t, accTokenHash := h\<rparr>) b"
    using 1(2) by (auto simp: list_ex_iff r accountClash_def)
  have open_eq: "sort_key ordCreatedAt (filter (\<lambda>x. ordAccountID x = acc \<and> ordStatus x = OrderOpen)
      (orders (wdb w))) = openOrders acc (wdb w)"
    by (simp add: openOrders_def)
  have loop: "wp e (forM (openOrders acc (wdb w)) (cancelForRisk acc))
      (\<lambda>_. wp e (CreateLedgerEntry (riskEntry acc LedgerMaxDDTriggered equity)) (\<lambda>_. wp e (ret True) Q E) E)
      E w2" if w2: "wdb w2 = ?d" for w2
  proof (rule wp_cancelLoop, rule wp_CreateLedgerEntryI, unfold wp_ret)
    fix ts and w3 :: world and t' and w4 :: world
    assume h: "length ts = length (openOrders acc (wdb w))"
      "wdb w3 = logged ((wdb w2)\<lparr>orders := cancelAll (openOrders acc (wdb w)) (orders (wdb w2))\<rparr>)
         (zip (map (\<lambda>x. canceledEntry acc x noSource) (openOrders acc (wdb w))) ts)"
      "wdb w4 = logged (wdb w3) [(riskEntry acc LedgerMaxDDTriggered equity, t')]"
    show "Q True w4"
      by (rule Q, unfold stoppedNow_def, rule exI [of _ ?now], rule exI [of _ t], rule exI [of _ h],
          rule exI [of _ ts], rule exI [of _ t']) (use h c w2 in simp)
  qed (auto intro: err)
  show ?case
    by (auto simp: wp_rules open_eq r err intro!: loop [simplified])
qed (auto intro: err)

lemma markEquity_Inl: "markEquity marks ps eq = Inl x \<Longrightarrow> x = ErrRiskPriceUnavailable"
  by (induction marks ps eq rule: markEquity.induct) (auto split: option.splits)

lemma accountRow_ID: "accountRow d i = Some r \<Longrightarrow> accID r = i"
  by (auto dest: find_SomeD)

lemma wp_checkMaxDD:
  assumes already: "\<And>r w'. accountRow (wdb w) acc = Some r \<Longrightarrow> accMaxDDStoppedAt r \<noteq> None \<Longrightarrow>
      wdb w' = wdb w \<Longrightarrow> Q True w'"
    and calm: "\<And>r w'. accountRow (wdb w) acc = Some r \<Longrightarrow> accMaxDDStoppedAt r = None \<Longrightarrow>
      (\<And>eq. \<not> crossed marks (wdb w) r eq) \<Longrightarrow> wdb w' = wdb w \<Longrightarrow> Q False w'"
    and stop: "\<And>r eq w'. accountRow (wdb w) acc = Some r \<Longrightarrow> accMaxDDStoppedAt r = None \<Longrightarrow>
      crossed marks (wdb w) r eq \<Longrightarrow> stoppedNow acc r eq (wdb w) (wdb w') \<Longrightarrow> Q True w'"
    and err: "\<And>x w'. \<not> isBusinessRejection x \<Longrightarrow> E x w'"
  shows "wp e (checkMaxDD acc marks) Q E w"
  unfolding checkMaxDD_def wp_bind wp_AccountByID wp_if wp_ret wp_case_option wp_raise wp_ListPositions wp_liftE
proof (intro conjI impI allI, goal_cases)
  case (3 r x)
  then show ?case using decryptAccount_Inl [OF 3(3)] by (simp add: err)
next
  case (4 r a)
  then show ?case using decryptAccount_Inr [OF 4(3)] by (auto intro!: already)
next
  case (5 r a)
  then show ?case using decryptAccount_Inr [OF 5(3)] by (auto intro!: calm simp: crossed_def)
next
  case (8 r a maxDD base x)
  then have "x = ErrRiskPriceUnavailable" by (auto dest: markEquity_Inl)
  then show ?case by (simp add: err isBusinessRejection_def)
next
  case (9 r a maxDD base eq)
  then show ?case using decryptAccount_Inr [OF 9(3)] accountRow_ID [OF 9(2)]
    by (intro calm [OF 9(2)]) (auto simp: crossed_def openPositions_def)
next
  case (10 r a maxDD base eq)
  then obtain t where a: "a = r\<lparr>accToken := t\<rparr>" using decryptAccount_Inr by blast
  have "crossed marks (wdb w) r eq" using 10 a accountRow_ID [OF 10(2)] by (auto simp: crossed_def openPositions_def)
  then show ?case using 10 a by (intro wp_stopAccount [OF a] stop [OF 10(2)] err) auto
qed (auto intro: err simp: isBusinessRejection_def)

end
