(* ===== verification/Stops.thy ===== *)
theory Stops
  imports Settle
begin

text \<open>
  \<^verbatim>\<open>backend/internal/trading/stops.go\<close>: when a stop loss, a take profit or a limit order fires, and how
  the stops of a position are changed.  \<open>stopTriggered\<close> returns \<^const>\<open>None\<close> for the source's
  \<^verbatim>\<open>("", false)\<close>.
\<close>

definition stopTriggered :: "position \<Rightarrow> float64 \<Rightarrow> string option" where
  "stopTriggered pos price =
     (let long = (posSide pos = Long)
      in if posStopLoss pos > 0 \<and>
            (long \<and> price \<le> posStopLoss pos \<or> \<not> long \<and> price \<ge> posStopLoss pos)
         then Some TriggerStopLoss
         else if posTakeProfit pos > 0 \<and>
            (long \<and> price \<ge> posTakeProfit pos \<or> \<not> long \<and> price \<le> posTakeProfit pos)
         then Some TriggerTakeProfit
         else None)"

definition limitTriggered :: "order \<Rightarrow> float64 \<Rightarrow> bool" where
  "limitTriggered order price =
     (if ordSide order = SideBuy then price \<le> ordPrice order else price \<ge> ordPrice order)"

record stopInput =
  siStopLoss :: "float64 option"
  siTakeProfit :: "float64 option"
  siSource :: source

definition levelOr :: "float64 option \<Rightarrow> float64 \<Rightarrow> float64" where
  "levelOr level fallback = (case level of None \<Rightarrow> fallback | Some x \<Rightarrow> x)"

definition applyStopInput :: "position \<Rightarrow> stopInput \<Rightarrow> float64 \<times> float64" where
  "applyStopInput pos i = (levelOr (siStopLoss i) (posStopLoss pos), levelOr (siTakeProfit i) (posTakeProfit pos))"

definition entrySide :: "position \<Rightarrow> string" where
  "entrySide pos = (if posSide pos = Short then SideSell else SideBuy)"

definition sourceIfSet :: "float64 \<Rightarrow> source \<Rightarrow> source" where
  "sourceIfSet level source = (if level > 0 then source else noSource)"

text \<open>The assignments of \<^verbatim>\<open>SetStops\<close> to the re-read position.\<close>

definition withStops :: "stopInput \<Rightarrow> position \<Rightarrow> position" where
  "withStops i pos =
     (case applyStopInput pos i of (sl, tp) \<Rightarrow>
       let p = pos\<lparr>posStopLoss := sl, posTakeProfit := tp\<rparr>;
           p1 = (if siStopLoss i \<noteq> None then p\<lparr>posStopLossSource := sourceIfSet sl (siSource i)\<rparr> else p)
       in if siTakeProfit i \<noteq> None then p1\<lparr>posTakeProfitSource := sourceIfSet tp (siSource i)\<rparr> else p1)"

definition stopsEntry :: "position \<Rightarrow> source \<Rightarrow> ledgerEntry" where
  "stopsEntry pos source = ledgerEntry0\<lparr>ledAccountID := posAccountID pos, ledEvent := LedgerStopsUpdated,
     ledPositionID := posID pos, ledQuantity := posQuantity pos, ledStopLoss := posStopLoss pos,
     ledTakeProfit := posTakeProfit pos, ledSource := source\<rparr>"

text \<open>\<^verbatim>\<open>ErrNotFound\<close> of a position becomes \<^verbatim>\<open>ErrPositionClosed\<close>.\<close>

definition closedIfMissing :: "'a M \<Rightarrow> 'a M" where
  "closedIfMissing m = mapErr (\<lambda>x. if x = ErrNotFound then ErrPositionClosed else x) m"

text \<open>The body of the transaction.\<close>

definition setStopsTx :: "string \<Rightarrow> string \<Rightarrow> stopInput \<Rightarrow> float64 \<Rightarrow> position M" where
  "setStopsTx accountID positionID i price =
     andThen (LockAccount accountID) (
     bind (AccountByID accountID) (\<lambda>account.
     if accMaxDDStoppedAt account \<noteq> None then raise ErrMaxDDStopped else
     bind (closedIfMissing (PositionByID accountID positionID)) (\<lambda>found.
     let pos = withStops i found in
     andThen (if price > 0
              then liftE (checkStopLevels (entrySide pos) price (levelOr (siStopLoss i) 0)
                            (levelOr (siTakeProfit i) 0))
              else ret ()) (
     andThen (closedIfMissing (UpdatePositionStops pos)) (
     andThen (CreateLedgerEntry (stopsEntry pos (siSource i))) (
     ret pos))))))"

definition SetStops :: "string \<Rightarrow> string \<Rightarrow> stopInput \<Rightarrow> position M" where
  "SetStops accountID positionID i =
     (if siStopLoss i = None \<and> siTakeProfit i = None then raise ErrNoStopChange else
      bind (AccountByID accountID) (\<lambda>account.
      if accMaxDDStoppedAt account \<noteq> None then raise ErrMaxDDStopped else
      bind (closedIfMissing (PositionByID accountID positionID)) (\<lambda>pos.
      case applyStopInput pos i of (stopLoss, takeProfit) \<Rightarrow>
      if stopLoss < 0 \<or> takeProfit < 0 then raise ErrInvalidStopLoss else
      bind (if stopLoss > 0 \<or> takeProfit > 0
            then bind (GetPrice (posMarket pos) (posSymbol pos)) (\<lambda>current.
                 andThen (liftE (checkStopLevels (entrySide pos) current stopLoss takeProfit))
                 (ret current))
            else ret 0) (\<lambda>price.
      Tx (setStopsTx accountID positionID i price)))))"

section \<open>Properties\<close>

lemma accepted_stops_quiet:
  assumes "checkStopLevels (entrySide pos) price (posStopLoss pos) (posTakeProfit pos) = Inr ()"
    and "posSide pos \<in> {Long, Short}"
  shows "stopTriggered pos price = None"
  using assms unfolding checkStopLevels_ok stopTriggered_def Let_def entrySide_def
  by (auto split: if_splits)

text \<open>
  Stops that pass the level check at a price do not fire at that price: a stop is never triggered
  by the very quote it was accepted at.
\<close>

theorem accepted_stops_do_not_fire:
  assumes "checkStopLevels (entrySide pos) price (posStopLoss pos) (posTakeProfit pos) = Inr ()"
    and "posSide pos \<in> {Long, Short}"
  shows "stopTriggered pos price = None"
  by (rule accepted_stops_quiet [OF assms])

theorem accepted_stops_do_not_fire_witness:
  "stopTriggered longTwo (Fin 95) = None"
proof -
  have "checkStopLevels (entrySide longTwo) (Fin 95) (posStopLoss longTwo) (posTakeProfit longTwo) = Inr ()"
    by code_simp
  moreover have "posSide longTwo \<in> {Long, Short}" by (simp add: longTwo_def)
  ultimately show ?thesis by (rule accepted_stops_do_not_fire)
qed

text \<open>
  A fired stop loss stays fired when the price moves further in the losing direction.
\<close>

lemma stop_loss_monotone:
  assumes "posSide pos \<in> {Long, Short}" "stopTriggered pos price = Some TriggerStopLoss"
    and "if posSide pos = Long then price' \<le> price else price \<le> price'"
  shows "stopTriggered pos price' = Some TriggerStopLoss"
proof -
  from assms(2) have "posStopLoss pos > 0"
    "posSide pos = Long \<and> price \<le> posStopLoss pos \<or> posSide pos \<noteq> Long \<and> posStopLoss pos \<le> price"
    by (auto simp: stopTriggered_def Let_def split: if_splits)
  with assms(1,3) show ?thesis
    by (auto simp: stopTriggered_def Let_def dest: fle_trans)
qed

end
