(* ===== verification/Steps.thy ===== *)
theory Steps
  imports Drawdown Stops
begin

text \<open>
  The database as a state machine.  \<open>dbstep\<close> has one rule for every way a committed transaction of the
  services changes the tables; the service theories prove that each of their operations, for every
  environment and whether it succeeds or fails, moves the database along these steps only
  (\<open>follows\<close>).  Since a transaction may start in any state, the steps cover every interleaving
  of the transactions of concurrent requests and of the matching engine.

  An invariant of the steps is an instance of the locale \<open>store_invariant\<close>; every operation that
  follows the steps keeps it.
\<close>

section \<open>Steps\<close>

definition placedEntry :: "order \<Rightarrow> ledgerEntry" where
  "placedEntry order = ledgerEntry0\<lparr>ledAccountID := ordAccountID order, ledEvent := LedgerOrderPlaced,
     ledOrderID := ordID order, ledQuantity := ordQuantity order, ledPrice := ordPrice order,
     ledSource := ordSource order\<rparr>"

definition rejectedEntry :: "order \<Rightarrow> ledgerEntry" where
  "rejectedEntry order = ledgerEntry0\<lparr>ledAccountID := ordAccountID order, ledEvent := LedgerOrderRejected,
     ledOrderID := ordID order, ledQuantity := ordQuantity order, ledPrice := ordPrice order,
     ledSource := ordSource order\<rparr>"

definition rejectedRow :: "string \<Rightarrow> order \<Rightarrow> order" where
  "rejectedRow reason x = x\<lparr>ordStatus := OrderRejected, ordRejectReason := reason, ordPositionID := []\<rparr>"

text \<open>A limit order as \<^verbatim>\<open>PlaceOrder\<close> stores it.\<close>

definition limitOrderOK :: "order \<Rightarrow> bool" where
  "limitOrderOK x = (ordStatus x = OrderOpen \<and> ordType x = OrderLimit \<and> \<not> ordReduceOnly x \<and>
     ordTrigger x = [] \<and> \<not> ordQuantity x \<le> 0 \<and> \<not> ordPrice x \<le> 0 \<and>
     ordMarket x \<in> {Crypto, Stock} \<and> ordProduct x \<in> {ProductSpot, ProductFutures} \<and>
     ordSide x \<in> {SideBuy, SideSell})"

definition maxDDValid :: "float64 \<Rightarrow> bool" where
  "maxDDValid x = (finite64 x \<and> 0 < x \<and> x \<le> Fin 100)"

text \<open>An account as \<^verbatim>\<open>account.Create\<close> stores it.\<close>

definition newAccountOK :: "account \<Rightarrow> bool" where
  "newAccountOK a = (\<not> accInitialBalance a \<le> 0 \<and> accBalance a = accInitialBalance a \<and>
     accMaxDDStoppedAt a = None \<and> accStatus a = AccountActive \<and>
     (case accMaxDD a of None \<Rightarrow> accMaxDDBaselineEquity a = None
      | Some x \<Rightarrow> maxDDValid x \<and> accMaxDDBaselineEquity a = Some (accInitialBalance a)))"

text \<open>Two versions of a row that agree on everything trading depends on but the status.\<close>

definition sameFunds :: "account \<Rightarrow> account \<Rightarrow> bool" where
  "sameFunds a b = (accID a = accID b \<and> accInitialBalance a = accInitialBalance b \<and>
     accBalance a = accBalance b \<and> accMaxDD a = accMaxDD b \<and>
     accMaxDDBaselineEquity a = accMaxDDBaselineEquity b \<and>
     accMaxDDStoppedAt a = accMaxDDStoppedAt b \<and> accCreatedAt a = accCreatedAt b)"

definition noClash :: "db \<Rightarrow> account \<Rightarrow> bool" where
  "noClash d a = (\<forall>b \<in> set (accounts d). accID b \<noteq> accID a \<longrightarrow> \<not> accountClash a b)"

inductive dbstep :: "db \<Rightarrow> db \<Rightarrow> bool" where
  fill_new: "\<lbrakk>settled e x price role d x' d1; accountRow d (ordAccountID x) = Some r;
     (accMaxDDStoppedAt r \<noteq> None) = systemMaxDD x; \<forall>y \<in> set (orders d). ordID y \<noteq> ordID x\<rbrakk>
   \<Longrightarrow> dbstep d (d1\<lparr>orders := orders d1 @ [x'\<lparr>ordCreatedAt := t, ordPositionID := []\<rparr>]\<rparr>)"
| fill_open: "\<lbrakk>find (\<lambda>y. ordAccountID y = acc \<and> ordID y = i) (orders d) = Some x; ordStatus x = OrderOpen;
     settled e x price role d x' d1; accountRow d acc = Some r; accMaxDDStoppedAt r = None\<rbrakk>
   \<Longrightarrow> dbstep d (d1\<lparr>orders := tbl_save ordID (x'\<lparr>ordPositionID := []\<rparr>) (orders d1)\<rparr>)"
| place: "\<lbrakk>accountRow d (ordAccountID x) = Some r; Active r; accMaxDDStoppedAt r = None;
     limitOrderOK x; \<forall>y \<in> set (orders d). ordID y \<noteq> ordID x\<rbrakk>
   \<Longrightarrow> dbstep d (logged (d\<lparr>orders := orders d @ [x\<lparr>ordCreatedAt := t, ordPositionID := []\<rparr>]\<rparr>)
         [(placedEntry x, t')])"
| cancel: "\<lbrakk>find (\<lambda>y. ordAccountID y = acc \<and> ordID y = i) (orders d) = Some x; ordStatus x = OrderOpen\<rbrakk>
   \<Longrightarrow> dbstep d (logged (d\<lparr>orders := tbl_save ordID (canceledRow x) (orders d)\<rparr>)
         [(canceledEntry acc x src, t)])"
| reject: "\<lbrakk>find (\<lambda>y. ordAccountID y = acc \<and> ordID y = i) (orders d) = Some x; ordStatus x = OrderOpen;
     settleRejects e x price role d why; isBusinessRejection why\<rbrakk>
   \<Longrightarrow> dbstep d (logged (d\<lparr>orders := tbl_save ordID (rejectedRow reason x) (orders d)\<rparr>)
         [(rejectedEntry x, t)])"
| set_stops: "\<lbrakk>accountRow d acc = Some r; accMaxDDStoppedAt r = None;
     find (\<lambda>p. posAccountID p = acc \<and> posID p = i) (positions d) = Some p; find (\<lambda>q. posID q = posID p) (positions d) = Some q\<rbrakk>
   \<Longrightarrow> dbstep d (logged (d\<lparr>positions := tbl_put posID
         (q\<lparr>posStopLoss := sl, posTakeProfit := tp, posStopLossSource := ss, posTakeProfitSource := ts\<rparr>)
         (positions d)\<rparr>)
         [(stopsEntry (p\<lparr>posStopLoss := sl, posTakeProfit := tp\<rparr>) src, t)])"
| stop: "\<lbrakk>accountRow d acc = Some r; accMaxDDStoppedAt r = None; crossed marks d r eq;
     stoppedNow acc r eq d d'\<rbrakk>
   \<Longrightarrow> dbstep d d'"
| create: "\<lbrakk>newAccountOK a; \<forall>b \<in> set (accounts d). accID b \<noteq> accID a; noClash d a\<rbrakk>
   \<Longrightarrow> dbstep d (d\<lparr>accounts := accounts d @ [a]\<rparr>)"
| amend: "\<lbrakk>accountRow d i = Some r; sameFunds r a; noClash d a\<rbrakk>
   \<Longrightarrow> dbstep d (d\<lparr>accounts := tbl_put accID a (accounts d)\<rparr>)"
| resume: "\<lbrakk>accountRow d i = Some r; accMaxDD r \<noteq> None; accMaxDDBaselineEquity r \<noteq> None;
     accMaxDDStoppedAt r \<noteq> None; openPositions i d = []; openOrders i d = [];
     noClash d (r\<lparr>accToken := t, accTokenHash := h\<rparr>)\<rbrakk>
   \<Longrightarrow> dbstep d (logged (d\<lparr>accounts := tbl_save accID
         (r\<lparr>accMaxDDBaselineEquity := Some (accBalance r), accMaxDDStoppedAt := None,
            accStatus := AccountActive, accToken := t, accTokenHash := h\<rparr>) (accounts d)\<rparr>)
         [(riskEntry i LedgerMaxDDResumed (accBalance r), t')])"
| remove: "\<exists>a \<in> set (accounts d). accID a = i
   \<Longrightarrow> dbstep d (d\<lparr>positions := filter (\<lambda>p. posAccountID p \<noteq> i) (positions d),
         orders := filter (\<lambda>x. \<not> (ordAccountID x = i \<and> ordStatus x = OrderOpen)) (orders d),
         accounts := filter (\<lambda>a. accID a \<noteq> i) (accounts d)\<rparr>)"
| chat: "dbstep d (d\<lparr>messages := ms, messageTags := mts\<rparr>)"

text \<open>The states the service can get into, starting from empty tables.\<close>

definition reachable :: "db \<Rightarrow> bool" where
  "reachable d = dbstep\<^sup>*\<^sup>* emptyDB d"

lemma reachable_init: "reachable emptyDB"
  by (simp add: reachable_def)

lemma reachable_step: "reachable d \<Longrightarrow> dbstep d d' \<Longrightarrow> reachable d'"
  by (simp add: reachable_def)

section \<open>Operations that follow the steps\<close>

definition follows :: "'a M \<Rightarrow> bool" where
  "follows m = (\<forall>d0. keeps (dbstep\<^sup>*\<^sup>* d0) m)"

lemma follows_Tx:
  assumes "\<And>e w :: world. wp e m (\<lambda>_ w'. dbstep\<^sup>*\<^sup>* (wdb w) (wdb w')) (\<lambda>_ _. True) w"
  shows "follows (Tx m)"
  unfolding follows_def
proof (intro allI keeps_Tx)
  fix d0 e and w :: world
  assume "dbstep\<^sup>*\<^sup>* d0 (wdb w)"
  then show "wp e m (\<lambda>_ w'. dbstep\<^sup>*\<^sup>* d0 (wdb w')) (\<lambda>_ _. True) w"
    by (intro wp_mono [OF assms]) auto
qed

lemma follows_wp:
  assumes "\<And>e w :: world. wp e m (\<lambda>_ w'. dbstep\<^sup>*\<^sup>* (wdb w) (wdb w')) (\<lambda>_ w'. dbstep\<^sup>*\<^sup>* (wdb w) (wdb w')) w"
  shows "follows m"
  unfolding follows_def keeps_wp
proof (intro allI impI)
  fix d0 e and w :: world
  assume "dbstep\<^sup>*\<^sup>* d0 (wdb w)"
  then show "wp e m (\<lambda>_ w'. dbstep\<^sup>*\<^sup>* d0 (wdb w')) (\<lambda>_ w'. dbstep\<^sup>*\<^sup>* d0 (wdb w')) w"
    by (intro wp_mono [OF assms]) auto
qed

lemma follows_bind: "follows m \<Longrightarrow> (\<And>a. follows (f a)) \<Longrightarrow> follows (bind m f)"
  by (simp add: follows_def keeps_bind)

lemma follows_andThen: "follows m \<Longrightarrow> follows n \<Longrightarrow> follows (andThen m n)"
  by (simp add: follows_def keeps_andThen)

lemma follows_basic:
  "follows (ret a)" "follows (raise x)" "follows (liftE r)" "follows (asks f)" "follows (dbread g)"
  "follows (GetPrice m s)" "follows (newID p)" "follows (Secret p)" "follows Now"
  by (simp_all add: follows_def keeps_ret keeps_raise keeps_liftE keeps_asks keeps_dbread keeps_GetPrice
      keeps_newID keeps_Secret keeps_Now)

lemma follows_attempt: "follows m \<Longrightarrow> follows (attempt m)"
  and follows_mapErr: "follows m \<Longrightarrow> follows (mapErr f m)"
  by (simp_all add: follows_def keeps_attempt keeps_mapErr)

lemma follows_forM: "(\<And>x. follows (f x)) \<Longrightarrow> follows (forM xs f)"
  and follows_loopM: "(\<And>x s. follows (g x s)) \<Longrightarrow> follows (loopM xs g s)"
  by (simp_all add: follows_def keeps_forM keeps_loopM)

lemma follows_orNone: "follows m \<Longrightarrow> follows (orNone m)"
  unfolding orNone_def by (intro follows_bind follows_attempt) (auto intro: follows_basic split: sum.splits)

lemma follows_reads:
  "follows (AccountByID i)" "follows (AccountByToken t)" "follows ListAccounts" "follows ListMaxDDAccounts"
  "follows (OrderByID a i)" "follows (ListOrders a st n)" "follows OpenLimitOrders"
  "follows (OpenOrdersForAccount a)" "follows PositionsWithStops" "follows (PositionFor a mk sy pr)"
  "follows (PositionByID a i)" "follows (ListPositions a pr)" "follows (LockedMargin a)"
  "follows (ListTrades a n)" "follows (ListLedger a f)"
  by (simp_all add: AccountByID_def AccountByToken_def accountWhere_def ListAccounts_def ListMaxDDAccounts_def OrderByID_def
      ListOrders_def OpenLimitOrders_def OpenOrdersForAccount_def PositionsWithStops_def PositionFor_def
      PositionByID_def ListPositions_def LockedMargin_def ListTrades_def ListLedger_def follows_basic)

lemma follows_if: "(b \<Longrightarrow> follows m) \<Longrightarrow> (\<not> b \<Longrightarrow> follows n) \<Longrightarrow> follows (if b then m else n)"
  by simp

lemma follows_case_option: "follows m \<Longrightarrow> (\<And>x. follows (f x)) \<Longrightarrow> follows (case z of None \<Rightarrow> m | Some x \<Rightarrow> f x)"
  by (simp split: option.splits)

lemma follows_case_sum:
  "(\<And>x. follows (f x)) \<Longrightarrow> (\<And>x. follows (g x)) \<Longrightarrow> follows (case z of Inl x \<Rightarrow> f x | Inr x \<Rightarrow> g x)"
  by (simp split: sum.splits)

lemma follows_case_prod: "(\<And>x y. follows (f x y)) \<Longrightarrow> follows (case z of (x, y) \<Rightarrow> f x y)"
  by (simp split: prod.splits)

lemmas follows_intros = follows_basic follows_reads follows_bind follows_andThen follows_attempt
  follows_mapErr follows_orNone follows_forM follows_loopM follows_if follows_case_option follows_case_sum follows_case_prod

lemma follows_bind_liftE: "(\<And>a. r = Inr a \<Longrightarrow> follows (f a)) \<Longrightarrow> follows (bind (liftE r) f)"
  by (cases r) (auto simp: follows_def keeps_wp wp_rules)

lemma follows_bind_asks: "(\<And>e. follows (f (g e))) \<Longrightarrow> follows (bind (asks g) f)"
  by (auto simp: follows_def keeps_wp wp_rules)

section \<open>Invariants\<close>

locale store_invariant =
  fixes I :: "db \<Rightarrow> bool"
  assumes step: "I d \<Longrightarrow> dbstep d d' \<Longrightarrow> I d'"
    and init: "I emptyDB"
begin

lemma steps: "dbstep\<^sup>*\<^sup>* d d' \<Longrightarrow> I d \<Longrightarrow> I d'"
  by (induction rule: rtranclp_induct) (auto intro: step)

lemma of_reachable: "reachable d \<Longrightarrow> I d"
  using steps init by (auto simp: reachable_def)

lemma op_keeps:
  assumes "follows m" shows "keeps I m"
  unfolding keeps_def
proof (intro allI impI)
  fix e and w :: world
  assume "I (wdb w)"
  moreover have "dbstep\<^sup>*\<^sup>* (wdb w) (wdb (snd (m e w)))"
    using assms by (simp add: follows_def keeps_def)
  ultimately show "I (wdb (snd (m e w)))" using steps by blast
qed

end

lemma follows_reachable: "follows m \<Longrightarrow> reachable (wdb w) \<Longrightarrow> reachable (wdb (snd (m e w)))"
  by (simp add: follows_def keeps_def reachable_def)

text \<open>One step, or none, after a failed or successful transaction body.\<close>

lemma step1: "dbstep d d' \<Longrightarrow> dbstep\<^sup>*\<^sup>* d d'"
  by (rule r_into_rtranclp)

lemma wp_closedIfMissing [wp_rules]:
  "wp e (closedIfMissing m) Q E w = wp e m Q (\<lambda>x. E (if x = ErrNotFound then ErrPositionClosed else x)) w"
  by (simp add: closedIfMissing_def wp_mapErr)

lemma follows_closedIfMissing: "follows m \<Longrightarrow> follows (closedIfMissing m)"
  by (simp add: closedIfMissing_def follows_mapErr)

section \<open>Changing stops\<close>

lemma withStops_keeps [simp]: "posID (withStops i p) = posID p" "posAccountID (withStops i p) = posAccountID p"
  "posQuantity (withStops i p) = posQuantity p"
  by (auto simp: withStops_def applyStopInput_def Let_def)

lemma stopsEntry_withStops:
  "stopsEntry (withStops i p) s =
   stopsEntry (p\<lparr>posStopLoss := posStopLoss (withStops i p), posTakeProfit := posTakeProfit (withStops i p)\<rparr>) s"
  by (simp add: stopsEntry_def)

lemma setStopsTx_steps:
  "wp e (setStopsTx accountID positionID i price) (\<lambda>_ w'. dbstep\<^sup>*\<^sup>* (wdb w) (wdb w')) (\<lambda>_ _. True) w"
  unfolding setStopsTx_def wp_andThen
proof (rule wp_LockAccount, goal_cases)
  case (1 w1)
  have step: "dbstep\<^sup>*\<^sup>* (wdb w) (logged ((wdb w)\<lparr>positions := tbl_put posID
         (q\<lparr>posStopLoss := posStopLoss (withStops i p), posTakeProfit := posTakeProfit (withStops i p),
            posStopLossSource := posStopLossSource (withStops i p),
            posTakeProfitSource := posTakeProfitSource (withStops i p)\<rparr>) (positions (wdb w))\<rparr>)
         [(stopsEntry (withStops i p) (siSource i), t)])"
    if "accountRow (wdb w) accountID = Some r" "accMaxDDStoppedAt r = None"
      "find (\<lambda>p. posAccountID p = accountID \<and> posID p = positionID) (positions (wdb w)) = Some p"
      "find (\<lambda>q. posID q = posID p) (positions (wdb w)) = Some q" for r p q t
    using dbstep.set_stops [OF that] by (metis stopsEntry_withStops step1)
  show ?case
    using 1 by (auto simp: wp_rules Let_def dest!: decryptAccount_Inr
        intro!: wp_CreateLedgerEntryI step)
qed auto

lemma SetStops_follows: "follows (SetStops accountID positionID i)"
  unfolding SetStops_def
  by (intro follows_intros follows_closedIfMissing follows_Tx setStopsTx_steps)

end
