(* ===== verification/Trading.thy ===== *)
theory Trading
  imports Steps
begin

text \<open>
  \<^verbatim>\<open>backend/internal/trading/trading.go\<close>, the rest of \<^verbatim>\<open>drawdown.go\<close> and \<^verbatim>\<open>summary.go\<close>: the operations of
  the trading service.  The callback of each \<^verbatim>\<open>store.Tx\<close> is a definition of its own (suffix \<open>Tx\<close>); a
  callback that sets \<^verbatim>\<open>blocked\<close> and returns nil yields \<^const>\<open>None\<close>.
\<close>

section \<open>Operations\<close>

text \<open>The quotes of all instruments an account holds, each fetched once.\<close>

fun collectMarks :: "position list \<Rightarrow> marks \<Rightarrow> marks M" where
  "collectMarks [] marks = ret marks"
| "collectMarks (p # ps) marks =
     (let k = key (posMarket p) (posSymbol p)
      in if marks k \<noteq> None then collectMarks ps marks
         else bind (GetPrice (posMarket p) (posSymbol p)) (\<lambda>price. collectMarks ps (marks(k \<mapsto> price))))"

definition riskMarks :: "string \<Rightarrow> marks M" where
  "riskMarks accountID =
     bind (AccountByID accountID) (\<lambda>account.
     if accMaxDD account = None then ret Map.empty
     else bind (ListPositions accountID []) (\<lambda>positions. collectMarks positions Map.empty))"

definition orderFromInput :: "string \<Rightarrow> string \<Rightarrow> placeOrderInput \<Rightarrow> order" where
  "orderFromInput orderID accountID i = order0\<lparr>ordID := orderID, ordAccountID := accountID,
     ordMarket := inMarket i, ordSymbol := inSymbol i, ordProduct := inProduct i, ordSide := inSide i,
     ordType := inType i, ordQuantity := inQuantity i, ordPrice := inPrice i, ordLeverage := inLeverage i,
     ordStopLoss := inStopLoss i, ordTakeProfit := inTakeProfit i, ordStatus := OrderOpen,
     ordSource := inSource i\<rparr>"

definition precheck :: "string \<Rightarrow> account \<Rightarrow> marks \<Rightarrow> bool M" where
  "precheck accountID account marks =
     (if accMaxDD account \<noteq> None then checkMaxDD accountID marks else ret False)"

definition placeLimitTx :: "order \<Rightarrow> marks \<Rightarrow> order option M" where
  "placeLimitTx order marks =
     andThen (LockAccount (ordAccountID order)) (
     bind (AccountByID (ordAccountID order)) (\<lambda>account.
     if \<not> Active account then raise ErrAccountDisabled
     else if accMaxDDStoppedAt account \<noteq> None then raise ErrMaxDDStopped
     else bind (precheck (ordAccountID order) account marks) (\<lambda>stopped.
          if stopped then ret None
          else bind (CreateOrder order) (\<lambda>created.
               andThen (CreateLedgerEntry (placedEntry created)) (ret (Some created))))))"

definition executeTx :: "order \<Rightarrow> float64 \<Rightarrow> string \<Rightarrow> marks \<Rightarrow> order option M" where
  "executeTx order price role marks =
     andThen (LockAccount (ordAccountID order)) (
     bind (AccountByID (ordAccountID order)) (\<lambda>account.
     if accMaxDDStoppedAt account \<noteq> None then raise ErrMaxDDStopped
     else bind (precheck (ordAccountID order) account marks) (\<lambda>stopped.
          if stopped then ret None
          else bind (settle order price role) (\<lambda>filled.
               bind (CreateOrder filled) (\<lambda>created.
               andThen (precheck (ordAccountID order) account
                          (marks(key (ordMarket order) (ordSymbol order) \<mapsto> price)))
                 (ret (Some created)))))))"

text \<open>The error after commit when the transaction was blocked by the drawdown check.\<close>

definition unblocked :: "order option \<Rightarrow> order M" where
  "unblocked r = (case r of None \<Rightarrow> raise ErrMaxDDStopped | Some order \<Rightarrow> ret order)"

definition execute :: "order \<Rightarrow> float64 \<Rightarrow> string \<Rightarrow> order M" where
  "execute order price role =
     bind (riskMarks (ordAccountID order)) (\<lambda>marks.
     bind (Tx (executeTx order price role marks)) unblocked)"

definition PlaceOrder :: "string \<Rightarrow> placeOrderInput \<Rightarrow> order M" where
  "PlaceOrder accountID i0 =
     bind (asks (\<lambda>e. normalize (uniLower e) (uniUpper e) i0)) (\<lambda>normalized.
     bind (liftE normalized) (\<lambda>i.
     bind (newID ''ord_'') (\<lambda>orderID.
     let order = orderFromInput orderID accountID i in
     if inType i = OrderLimit then
       andThen (liftE (checkStopLevels (inSide i) (inPrice i) (inStopLoss i) (inTakeProfit i))) (
       bind (riskMarks accountID) (\<lambda>marks.
       bind (Tx (placeLimitTx order marks)) unblocked))
     else
       bind (GetPrice (inMarket i) (inSymbol i)) (\<lambda>price.
       andThen (liftE (checkStopLevels (inSide i) price (inStopLoss i) (inTakeProfit i))) (
       execute order price RoleTaker)))))"

text \<open>Whose stop or which run a close is attributed to, and whether its trigger still holds.\<close>

definition closeSource ::
    "account \<Rightarrow> position \<Rightarrow> float64 \<Rightarrow> source \<Rightarrow> string \<Rightarrow> err + source" where
  "closeSource account pos price source trigger =
     (if trigger = TriggerMaxDD then
        if accMaxDDStoppedAt account = None then Inl ErrMaxDDInconsistent else Inr source
      else if trigger \<noteq> [] then
        (case stopTriggered pos price of
           None \<Rightarrow> Inl ErrStopInactive
         | Some reason \<Rightarrow>
             if reason \<noteq> trigger then Inl ErrStopInactive
             else Inr (if trigger = TriggerTakeProfit then posTakeProfitSource pos
                       else posStopLossSource pos))
      else Inr source)"

definition closeOrder :: "string \<Rightarrow> position \<Rightarrow> float64 \<Rightarrow> source \<Rightarrow> string \<Rightarrow> order" where
  "closeOrder orderID pos quantity source trigger = order0\<lparr>ordID := orderID,
     ordAccountID := posAccountID pos, ordMarket := posMarket pos, ordSymbol := posSymbol pos,
     ordProduct := posProduct pos, ordSide := (if posSide pos = Short then SideBuy else SideSell),
     ordType := OrderMarket, ordQuantity := quantity, ordLeverage := posLeverage pos,
     ordReduceOnly := True, ordStatus := OrderOpen, ordSource := source, ordTrigger := trigger\<rparr>"

definition closeAtTx ::
    "string \<Rightarrow> string \<Rightarrow> string \<Rightarrow> float64 \<Rightarrow> float64 \<Rightarrow> source \<Rightarrow> string \<Rightarrow> order M" where
  "closeAtTx orderID accountID positionID quantity price source trigger =
     andThen (LockAccount accountID) (
     bind (AccountByID accountID) (\<lambda>account.
     if trigger \<noteq> TriggerMaxDD \<and> accMaxDDStoppedAt account \<noteq> None then raise ErrMaxDDStopped else
     bind (closedIfMissing (PositionByID accountID positionID)) (\<lambda>pos.
     bind (liftE (closeSource account pos price source trigger)) (\<lambda>src.
     let qty = (if quantity \<le> 0 then posQuantity pos else quantity) in
     if qty > posQuantity pos + qtyEpsilon then raise ErrCloseTooMuch else
     bind (settle (closeOrder orderID pos qty src trigger) price RoleTaker) (\<lambda>filled.
     CreateOrder filled)))))"

definition closeAt ::
    "string \<Rightarrow> string \<Rightarrow> float64 \<Rightarrow> float64 \<Rightarrow> source \<Rightarrow> string \<Rightarrow> order M" where
  "closeAt accountID positionID quantity price source trigger =
     bind (newID ''ord_'') (\<lambda>orderID.
     Tx (closeAtTx orderID accountID positionID quantity price source trigger))"

definition ClosePosition :: "string \<Rightarrow> string \<Rightarrow> float64 \<Rightarrow> source \<Rightarrow> order M" where
  "ClosePosition accountID positionID quantity source =
     bind (AccountByID accountID) (\<lambda>account.
     if accMaxDDStoppedAt account \<noteq> None then raise ErrMaxDDStopped else
     bind (closedIfMissing (PositionByID accountID positionID)) (\<lambda>pos.
     if quantity > posQuantity pos + qtyEpsilon then raise ErrCloseTooMuch else
     bind (GetPrice (posMarket pos) (posSymbol pos)) (\<lambda>price.
     closeAt accountID positionID quantity price source [])))"

definition cancelOrderTx :: "string \<Rightarrow> string \<Rightarrow> source \<Rightarrow> order M" where
  "cancelOrderTx accountID orderID source =
     andThen (LockAccount accountID) (
     bind (OrderByID accountID orderID) (\<lambda>order.
     if ordStatus order \<noteq> OrderOpen then raise ErrOrderNotOpen else
     let order' = order\<lparr>ordStatus := OrderCanceled\<rparr> in
     andThen (SaveOrder order') (
     andThen (CreateLedgerEntry (canceledEntry (ordAccountID order) order source)) (
     ret order'))))"

definition CancelOrder :: "string \<Rightarrow> string \<Rightarrow> source \<Rightarrow> order M" where
  "CancelOrder accountID orderID source = Tx (cancelOrderTx accountID orderID source)"

text \<open>
  The matching engine's fill of a stored limit order.  The result is \<^const>\<open>None\<close> when nothing was
  done for this order in this round.
\<close>

definition rejectOpen :: "order \<Rightarrow> err \<Rightarrow> order M" where
  "rejectOpen order x =
     bind (errorText x) (\<lambda>reason.
     andThen (CreateLedgerEntry (rejectedEntry order)) (
     ret (order\<lparr>ordStatus := OrderRejected, ordRejectReason := reason\<rparr>)))"

definition fillOpenOrderTx :: "string \<Rightarrow> string \<Rightarrow> float64 \<Rightarrow> marks \<Rightarrow> order option M" where
  "fillOpenOrderTx accountID orderID price marks =
     andThen (LockAccount accountID) (
     bind (OrderByID accountID orderID) (\<lambda>order.
     if ordStatus order \<noteq> OrderOpen then ret None else
     bind (AccountByID accountID) (\<lambda>account.
     if accMaxDDStoppedAt account \<noteq> None then
       andThen (SaveOrder (order\<lparr>ordStatus := OrderCanceled\<rparr>)) (
       andThen (CreateLedgerEntry (canceledEntry (ordAccountID order) order noSource)) (
       ret None))
     else
       bind (precheck accountID account marks) (\<lambda>stopped.
       if stopped then ret (Some (order\<lparr>ordStatus := OrderCanceled\<rparr>)) else
       bind (attempt (settle order price RoleMaker)) (\<lambda>r.
       case r of
         Inl x \<Rightarrow>
           if \<not> isBusinessRejection x then raise x
           else bind (rejectOpen order x) (\<lambda>rejected.
                andThen (SaveOrder rejected) (ret (Some rejected)))
       | Inr filled \<Rightarrow>
           andThen (SaveOrder filled) (
           andThen (precheck accountID account marks) (
           ret (Some filled))))))))"

definition fillOpenOrder :: "string \<Rightarrow> string \<Rightarrow> float64 \<Rightarrow> marks \<Rightarrow> order option M" where
  "fillOpenOrder accountID orderID price marks = Tx (fillOpenOrderTx accountID orderID price marks)"

section \<open>Drawdown enforcement\<close>

text \<open>Go returns a count and an error here; the pair is the value of the computation.\<close>

definition liquidateOne ::
    "string \<Rightarrow> marks \<Rightarrow> position \<Rightarrow> int \<times> err option \<Rightarrow> (int \<times> err option) M" where
  "liquidateOne accountID marks pos acc =
     (case acc of (n, firstErr) \<Rightarrow>
       (case marks (key (posMarket pos) (posSymbol pos)) of
          None \<Rightarrow> ret (n, firstErr)
        | Some price \<Rightarrow>
            bind (attempt (closeAt accountID (posID pos) 0 price noSource TriggerMaxDD)) (\<lambda>r.
            (case r of
               Inl x \<Rightarrow>
                 if isBusinessRejection x then ret (n, firstErr)
                 else ret (n, if firstErr = None then Some x else firstErr)
             | Inr _ \<Rightarrow> ret (n + 1, firstErr)))))"

definition liquidateMaxDD :: "string \<Rightarrow> marks \<Rightarrow> (int \<times> err option) M" where
  "liquidateMaxDD accountID marks =
     bind (attempt (ListPositions accountID [])) (\<lambda>r.
     case r of
       Inl x \<Rightarrow> ret (0, Some x)
     | Inr held \<Rightarrow> loopM held (liquidateOne accountID marks) (0, None))"

definition enforceMaxDDTx :: "string \<Rightarrow> marks \<Rightarrow> bool M" where
  "enforceMaxDDTx accountID marks =
     andThen (LockAccount accountID) (checkMaxDD accountID marks)"

definition enforceMaxDD :: "string \<Rightarrow> marks \<Rightarrow> (int \<times> err option) M" where
  "enforceMaxDD accountID marks =
     bind (attempt (Tx (enforceMaxDDTx accountID marks))) (\<lambda>r.
     case r of
       Inl x \<Rightarrow> ret (0, Some x)
     | Inr stopped \<Rightarrow> if \<not> stopped then ret (0, None) else liquidateMaxDD accountID marks)"

section \<open>Queries\<close>

record summary =
  smBalance :: float64
  smLockedMargin :: float64
  smAvailable :: float64
  smUnrealized :: float64
  smEquity :: float64

record openPosition =
  opPosition :: position
  opMarkPrice :: float64
  opUnrealized :: float64

definition viewPosition :: "position \<Rightarrow> openPosition list \<Rightarrow> openPosition list M" where
  "viewPosition p views =
     bind (GetPrice (posMarket p) (posSymbol p)) (\<lambda>price.
     ret (views @ [\<lparr>opPosition = p, opMarkPrice = price, opUnrealized = Unrealized p price\<rparr>]))"

definition Positions :: "string \<Rightarrow> string \<Rightarrow> openPosition list M" where
  "Positions accountID product =
     bind (ListPositions accountID product) (\<lambda>positions. loopM positions viewPosition [])"

definition Summary :: "string \<Rightarrow> summary M" where
  "Summary accountID =
     bind (AccountByID accountID) (\<lambda>account.
     bind (Positions accountID []) (\<lambda>positions.
     let locked = foldl (\<lambda>s p. s + posMargin (opPosition p)) 0 positions;
         floating = foldl (\<lambda>s p. s + opUnrealized p) 0 positions
     in ret \<lparr>smBalance = accBalance account, smLockedMargin = locked,
             smAvailable = accBalance account - locked, smUnrealized = floating,
             smEquity = accBalance account + floating\<rparr>))"

definition Orders :: "string \<Rightarrow> string \<Rightarrow> nat \<Rightarrow> order list M" where
  "Orders accountID status limit = ListOrders accountID status limit"

definition Order :: "string \<Rightarrow> string \<Rightarrow> order M" where
  "Order accountID orderID = OrderByID accountID orderID"

definition Trades :: "string \<Rightarrow> nat \<Rightarrow> trade list M" where
  "Trades accountID limit = ListTrades accountID limit"

section \<open>Every operation follows the steps\<close>

lemma wp_precheck:
  assumes "\<And>w'. wdb w' = wdb w \<Longrightarrow> Q False w'" "\<And>w'. dbstep\<^sup>*\<^sup>* (wdb w) (wdb w') \<Longrightarrow> Q True w'"
    and "\<And>x w'. \<not> isBusinessRejection x \<Longrightarrow> E x w'"
  shows "wp e (precheck acc a marks) Q E w"
proof -
  have "wp e (checkMaxDD acc marks) Q E w"
    by (rule wp_checkMaxDD) (auto intro!: assms dest!: dbstep.stop intro: step1)
  then show ?thesis using assms(1) by (auto simp: precheck_def wp_rules)
qed

lemma placedEntry_created [simp]: "placedEntry (x\<lparr>ordCreatedAt := t\<rparr>) = placedEntry x"
  by (simp add: placedEntry_def)

lemma placeLimitTx_steps:
  assumes "limitOrderOK order"
  shows "wp e (placeLimitTx order marks) (\<lambda>_ w'. dbstep\<^sup>*\<^sup>* (wdb w) (wdb w')) (\<lambda>_ _. True) w"
  unfolding placeLimitTx_def wp_andThen
proof (rule wp_LockAccount, goal_cases)
  case (1 w1)
  note w1 = this
  let ?i = "ordAccountID order"
  have "wp e (precheck ?i a marks)
      (\<lambda>stopped. wp e (if stopped then ret None else bind (CreateOrder order) (\<lambda>created.
               andThen (CreateLedgerEntry (placedEntry created)) (ret (Some created))))
         (\<lambda>_ w'. dbstep\<^sup>*\<^sup>* (wdb w) (wdb w')) (\<lambda>_ _. True)) (\<lambda>_ _. True) w2"
    if r: "accountRow (wdb w) ?i = Some r" "Active r" "accMaxDDStoppedAt r = None" and w2: "wdb w2 = wdb w"
    for a r w2
  proof (rule wp_precheck, goal_cases)
    case (1 w3)
    show ?case
      unfolding if_False wp_bind wp_andThen
    proof (rule wp_CreateOrderI, rule wp_CreateLedgerEntryI, unfold wp_ret, goal_cases)
      case (1 t w4 t' w5)
      with dbstep.place [OF r assms, of t t'] \<open>wdb w3 = wdb w2\<close> w2 show ?case by auto
    qed auto
  qed (use w2 in \<open>auto simp: wp_rules\<close>)
  then show ?case
    using w1 by (auto simp: wp_bind wp_AccountByID wp_if wp_raise Active_def dest!: decryptAccount_Inr)
qed auto

lemma fill_then_check:
  assumes r: "accountRow (wdb w) (ordAccountID order) = Some r"
    and sys: "(accMaxDDStoppedAt r \<noteq> None) = systemMaxDD order"
    and Q: "\<And>x w'. dbstep\<^sup>*\<^sup>* (wdb w) (wdb w') \<Longrightarrow> Q x w'"
  shows "wp e (settle order price role) (\<lambda>filled. wp e (CreateOrder filled) Q (\<lambda>_ _. True)) (\<lambda>_ _. True) w"
proof (rule wp_settle, goal_cases)
  case (1 x' w1)
  then have o: "orders (wdb w1) = orders (wdb w)" "ordID x' = ordID order"
    by (auto simp: settled_def Let_def filledOrder_def)
  show ?case
  proof (rule wp_CreateOrderI, goal_cases)
    case (1 t w2)
    with dbstep.fill_new [OF \<open>settled _ _ _ _ _ _ _\<close> r sys, of t] o show ?case by (auto intro: Q)
  qed simp
qed auto

lemma executeTx_steps:
  assumes "\<not> systemMaxDD order"
  shows "wp e (executeTx order price role marks) (\<lambda>_ w'. dbstep\<^sup>*\<^sup>* (wdb w) (wdb w')) (\<lambda>_ _. True) w"
  unfolding executeTx_def wp_andThen
proof (rule wp_LockAccount, goal_cases)
  case (1 w1)
  note w1 = this
  let ?i = "ordAccountID order" and ?m = "marks(key (ordMarket order) (ordSymbol order) \<mapsto> price)"
  have "wp e (precheck ?i a marks)
      (\<lambda>stopped. wp e (if stopped then ret None else bind (settle order price role) (\<lambda>filled.
               bind (CreateOrder filled) (\<lambda>created. andThen (precheck ?i a ?m) (ret (Some created)))))
         (\<lambda>_ w'. dbstep\<^sup>*\<^sup>* (wdb w) (wdb w')) (\<lambda>_ _. True)) (\<lambda>_ _. True) w2"
    if r: "accountRow (wdb w) ?i = Some r" "accMaxDDStoppedAt r = None" and w2: "wdb w2 = wdb w"
    for a r w2
  proof (rule wp_precheck, goal_cases)
    case (1 w3)
    then have w3: "wdb w3 = wdb w" using w2 by simp
    show ?case
      unfolding if_False wp_bind wp_andThen
    proof (rule fill_then_check [of _ _ r], goal_cases)
      case (3 x w4)
      then show ?case
        using w3 by (intro wp_precheck) (auto simp: wp_rules intro: rtranclp_trans)
    qed (use r assms w3 in auto)
  qed (use w2 in \<open>auto simp: wp_rules\<close>)
  then show ?case
    using w1 by (auto simp: wp_bind wp_AccountByID wp_if wp_raise dest!: decryptAccount_Inr)
qed auto

lemma closeSource_token [simp]:
  "closeSource (r\<lparr>accToken := t\<rparr>) pos price source trigger = closeSource r pos price source trigger"
  by (simp add: closeSource_def)

lemma closeAtTx_steps:
  "wp e (closeAtTx orderID accountID positionID quantity price source trigger)
     (\<lambda>_ w'. dbstep\<^sup>*\<^sup>* (wdb w) (wdb w')) (\<lambda>_ _. True) w"
  unfolding closeAtTx_def wp_andThen
proof (rule wp_LockAccount, goal_cases)
  case (1 w1)
  have main: "wp e (settle (closeOrder orderID pos qty src trg) price RoleTaker)
      (\<lambda>filled. wp e (CreateOrder filled) (\<lambda>_ w'. dbstep\<^sup>*\<^sup>* (wdb w) (wdb w')) (\<lambda>_ _. True)) (\<lambda>_ _. True) w2"
    if "accountRow (wdb w) accountID = Some r" "wdb w2 = wdb w"
      "find (\<lambda>p. posAccountID p = accountID \<and> posID p = positionID) (positions (wdb w)) = Some pos"
      "closeSource r pos price source trg = Inr src"
      "trg \<noteq> TriggerMaxDD \<longrightarrow> accMaxDDStoppedAt r = None" for pos qty src r w2 trg
    using that find_SomeD [OF that(3)] by (intro fill_then_check [of _ _ r])
      (auto simp: closeOrder_def systemMaxDD_def closeSource_def split: if_splits)
  show ?case
    unfolding wp_bind wp_AccountByID wp_if wp_raise wp_closedIfMissing wp_PositionByID wp_liftE Let_def
    using 1 by (auto dest!: decryptAccount_Inr intro!: main)
qed auto

lemma cancelOrderTx_steps:
  "wp e (cancelOrderTx accountID orderID source) (\<lambda>_ w'. dbstep\<^sup>*\<^sup>* (wdb w) (wdb w')) (\<lambda>_ _. True) w"
  unfolding cancelOrderTx_def wp_andThen
proof (rule wp_LockAccount, goal_cases)
  case (1 w1)
  have "dbstep\<^sup>*\<^sup>* (wdb w) (logged ((wdb w)\<lparr>orders := tbl_save ordID
          (x\<lparr>ordStatus := OrderCanceled, ordPositionID := []\<rparr>) (orders (wdb w))\<rparr>)
          [(canceledEntry (ordAccountID x) x source, t)])"
    if "find (\<lambda>x. ordAccountID x = accountID \<and> ordID x = orderID) (orders (wdb w)) = Some x"
      "ordStatus x = OrderOpen" for x t
    using dbstep.cancel [OF that, of source t] find_SomeD [OF that(1)]
    by (auto simp: canceledRow_def intro: step1)
  then show ?case
    using 1 by (auto simp: wp_rules Let_def intro!: wp_SaveOrderI wp_CreateLedgerEntryI)
qed auto

lemma fillOpenOrderTx_steps:
  "wp e (fillOpenOrderTx accountID orderID price marks) (\<lambda>_ w'. dbstep\<^sup>*\<^sup>* (wdb w) (wdb w')) (\<lambda>_ _. True) w"
  unfolding fillOpenOrderTx_def wp_andThen
proof (rule wp_LockAccount, goal_cases)
  case (1 w1)
  note w1 = this
  let ?found = "\<lambda>x. find (\<lambda>x. ordAccountID x = accountID \<and> ordID x = orderID) (orders (wdb w)) = Some x"
  have cancel: "dbstep\<^sup>*\<^sup>* (wdb w) (logged ((wdb w)\<lparr>orders := tbl_save ordID
          (x\<lparr>ordStatus := OrderCanceled, ordPositionID := []\<rparr>) (orders (wdb w))\<rparr>)
          [(canceledEntry (ordAccountID x) x noSource, t)])"
    if "?found x" "ordStatus x = OrderOpen" for x t
    using dbstep.cancel [OF that, of noSource t] find_SomeD [OF that(1)]
    by (auto simp: canceledRow_def intro: step1)
  have settle: "wp e (settle x price RoleMaker)
      (\<lambda>filled. wp e (andThen (SaveOrder filled) (andThen (precheck accountID a marks) (ret (Some filled))))
         (\<lambda>_ w'. dbstep\<^sup>*\<^sup>* (wdb w) (wdb w')) (\<lambda>_ _. True))
      (\<lambda>y. wp e (if \<not> isBusinessRejection y then raise y
           else bind (rejectOpen x y) (\<lambda>rejected. andThen (SaveOrder rejected) (ret (Some rejected))))
           (\<lambda>_ w'. dbstep\<^sup>*\<^sup>* (wdb w) (wdb w')) (\<lambda>_ _. True)) w2"
    if x: "?found x" "ordStatus x = OrderOpen" and r: "accountRow (wdb w) accountID = Some r"
      "accMaxDDStoppedAt r = None" and w2: "wdb w2 = wdb w" for x a r w2
  proof (rule wp_settle, goal_cases)
    case (1 x' w3)
    with dbstep.fill_open [OF x _ r] w2 have
      "dbstep (wdb w) ((wdb w3)\<lparr>orders := tbl_save ordID (x'\<lparr>ordPositionID := []\<rparr>) (orders (wdb w3))\<rparr>)" by simp
    then show ?case
      unfolding wp_andThen
      by (intro wp_SaveOrderI wp_precheck) (auto simp: wp_rules intro: rtranclp_trans)
  next
    case (2 y w3)
    with dbstep.reject [OF x, of e price RoleMaker y] w2 show ?case
      by (auto simp: wp_rules rejectOpen_def rejectedRow_def intro!: wp_SaveOrderI wp_CreateLedgerEntryI step1)
  qed (auto simp: wp_rules)
  have main: "wp e (precheck accountID a marks)
      (\<lambda>stopped. wp e (if stopped then ret (Some (x\<lparr>ordStatus := OrderCanceled\<rparr>)) else
       bind (attempt (settle x price RoleMaker)) (\<lambda>r. case r of
         Inl y \<Rightarrow> if \<not> isBusinessRejection y then raise y
           else bind (rejectOpen x y) (\<lambda>rejected. andThen (SaveOrder rejected) (ret (Some rejected)))
       | Inr filled \<Rightarrow> andThen (SaveOrder filled) (andThen (precheck accountID a marks) (ret (Some filled)))))
        (\<lambda>_ w'. dbstep\<^sup>*\<^sup>* (wdb w) (wdb w')) (\<lambda>_ _. True)) (\<lambda>_ _. True) w2"
    if x: "?found x" "ordStatus x = OrderOpen" and r: "accountRow (wdb w) accountID = Some r"
      "accMaxDDStoppedAt r = None" and w2: "wdb w2 = wdb w" for x a r w2
  proof (rule wp_precheck, goal_cases)
    case (1 w3)
    then show ?case using settle [OF x r, of w3 a] w2
      by (simp only: if_False wp_bind wp_attempt sum.case)
  qed (use w2 in \<open>auto simp: wp_rules\<close>)
  show ?case
    unfolding wp_bind wp_OrderByID wp_AccountByID wp_if wp_ret wp_raise wp_andThen
    using w1 by (auto intro!: wp_SaveOrderI wp_CreateLedgerEntryI main [unfolded wp_bind wp_if wp_ret wp_raise wp_andThen] cancel
        dest!: decryptAccount_Inr)
qed auto

lemma limit_input_OK:
  assumes "normalize lo up i0 = Inr i" "inType i = OrderLimit"
  shows "limitOrderOK (orderFromInput orderID accountID i)"
  using assms
  by (auto simp: normalize_def checkInput_def limitOrderOK_def orderFromInput_def order0_def
      split: sum.splits if_splits)

lemma input_not_system: "\<not> systemMaxDD (orderFromInput orderID accountID i)"
  by (simp add: systemMaxDD_def orderFromInput_def order0_def)

lemma collectMarks_follows: "follows (collectMarks ps marks)"
  by (induction ps arbitrary: marks) (auto simp: Let_def intro!: follows_intros)

lemma riskMarks_follows: "follows (riskMarks i)"
  unfolding riskMarks_def by (intro follows_intros collectMarks_follows)

lemma execute_follows: "\<not> systemMaxDD order \<Longrightarrow> follows (execute order price role)"
  unfolding execute_def unblocked_def
  by (intro follows_intros riskMarks_follows follows_Tx executeTx_steps)

lemma PlaceOrder_follows: "follows (PlaceOrder accountID i)"
  unfolding PlaceOrder_def Let_def unblocked_def
  by (intro follows_bind_asks follows_bind_liftE follows_bind follows_basic)
    (auto intro!: follows_intros riskMarks_follows execute_follows input_not_system
      follows_Tx placeLimitTx_steps limit_input_OK)

lemma closeAt_follows: "follows (closeAt accountID positionID quantity price source trigger)"
  unfolding closeAt_def by (intro follows_intros follows_Tx closeAtTx_steps)

lemma ClosePosition_follows: "follows (ClosePosition accountID positionID quantity source)"
  unfolding ClosePosition_def by (intro follows_intros follows_closedIfMissing closeAt_follows)

lemma CancelOrder_follows: "follows (CancelOrder accountID orderID source)"
  unfolding CancelOrder_def by (intro follows_Tx cancelOrderTx_steps)

lemma fillOpenOrder_follows: "follows (fillOpenOrder accountID orderID price marks)"
  unfolding fillOpenOrder_def by (intro follows_Tx fillOpenOrderTx_steps)

lemma liquidateMaxDD_follows: "follows (liquidateMaxDD accountID marks)"
  unfolding liquidateMaxDD_def liquidateOne_def by (intro follows_intros closeAt_follows)

lemma enforceMaxDDTx_steps:
  "wp e (enforceMaxDDTx accountID marks) (\<lambda>_ w'. dbstep\<^sup>*\<^sup>* (wdb w) (wdb w')) (\<lambda>_ _. True) w"
  unfolding enforceMaxDDTx_def wp_andThen
  by (rule wp_LockAccount, rule wp_checkMaxDD) (auto dest!: dbstep.stop intro: step1)

lemma enforceMaxDD_follows: "follows (enforceMaxDD accountID marks)"
  unfolding enforceMaxDD_def by (intro follows_intros follows_Tx enforceMaxDDTx_steps liquidateMaxDD_follows)

lemma queries_follow: "follows (Positions a p)" "follows (Summary a)" "follows (Orders a st n)"
  "follows (Order a i)" "follows (Trades a n)"
  unfolding Positions_def Summary_def Orders_def Order_def Trades_def viewPosition_def Let_def
  by (intro follows_intros)+

end
