(* ===== verification/Auth.thy ===== *)
theory Auth
  imports Steps
begin

text \<open>
  \<^verbatim>\<open>backend/internal/auth\<close>: who a token stands for.  The backend knows two kinds of token, the internal
  USER token of the middleware and the opaque account tokens.
\<close>

abbreviation KindUser :: string where "KindUser \<equiv> ''user''"
abbreviation KindAccount :: string where "KindAccount \<equiv> ''account''"

record identity =
  idKind :: string
  idAccountID :: string
  idUserName :: string

definition IsUser :: "identity \<Rightarrow> bool" where
  "IsUser i = (idKind i = KindUser)"

definition Owns :: "identity \<Rightarrow> string \<Rightarrow> bool" where
  "Owns i accountID = (idKind i = KindAccount \<and> idAccountID i = accountID)"

definition Resolve :: "string \<Rightarrow> identity M" where
  "Resolve raw =
     (let token = TrimSpace raw in
      if token = [] then raise ErrNoToken else
      bind (asks cfgUserToken) (\<lambda>userToken.
      if token = userToken then
        bind (asks cfgUserName) (\<lambda>name. ret \<lparr>idKind = KindUser, idAccountID = [], idUserName = name\<rparr>)
      else
        bind (mapErr (\<lambda>x. if x = ErrNotFound then ErrInvalidToken else x) (AccountByToken token)) (\<lambda>acc.
        if \<not> Active acc then raise ErrInvalidToken
        else ret \<lparr>idKind = KindAccount, idAccountID = accID acc, idUserName = accUserName acc\<rparr>)))"

text \<open>
  \<^verbatim>\<open>strings.EqualFold(header[:7], "bearer ")\<close>: no character outside ASCII folds to one of these letters.
\<close>

definition BearerToken :: "string \<Rightarrow> string" where
  "BearerToken header0 =
     (let header = TrimSpace header0 in
      if header = [] then []
      else if length header \<ge> 7 \<and> map lower_ascii (take 7 header) = ''bearer '' then TrimSpace (drop 7 header)
      else header)"

lemma Resolve_follows: "follows (Resolve raw)"
  unfolding Resolve_def Let_def by (intro follows_intros)

lemma Resolve_readOnly: "readOnly (Resolve raw)"
  unfolding readOnly_def
proof
  fix d0
  have "keeps (\<lambda>d. d = d0) (AccountByToken t)" for t by (simp add: AccountByToken_def accountWhere_def keeps_dbread)
  then show "keeps (\<lambda>d. d = d0) (Resolve raw)"
    unfolding Resolve_def Let_def by (auto intro!: keeps_bind keeps_asks keeps_mapErr keeps_ret keeps_raise)
qed

text \<open>
  A token is accepted only for the USER or for an account that is in the database, active, and stored
  under this token (under its keyed hash when a key is configured); a disabled or unknown account is
  refused with \<^verbatim>\<open>ErrInvalidToken\<close>.
\<close>

theorem Resolve_identity:
  assumes "Resolve raw e w = (Inr i, w')"
  shows "(IsUser i \<and> TrimSpace raw = cfgUserToken e \<and> idAccountID i = []) \<or>
    (\<exists>a \<in> set (accounts (wdb w)). idKind i = KindAccount \<and> idAccountID i = accID a \<and>
       idUserName i = accUserName a \<and> accStatus a = AccountActive \<and>
       (if tokenKey e = [] then accToken a = TrimSpace raw
        else accTokenHash a = Some (hashToken e (TrimSpace raw))))"
proof -
  have "wp e (Resolve raw) (\<lambda>i w'. (IsUser i \<and> TrimSpace raw = cfgUserToken e \<and> idAccountID i = []) \<or>
    (\<exists>a \<in> set (accounts (wdb w)). idKind i = KindAccount \<and> idAccountID i = accID a \<and>
       idUserName i = accUserName a \<and> accStatus a = AccountActive \<and>
       (if tokenKey e = [] then accToken a = TrimSpace raw
        else accTokenHash a = Some (hashToken e (TrimSpace raw))))) (\<lambda>_ _. True) w"
    unfolding Resolve_def Let_def AccountByToken_def accountWhere_def
    by (auto simp: wp_rules IsUser_def Active_def dest!: find_SomeD decryptAccount_Inr split: option.splits)
  from wp_Inr [OF this assms] show ?thesis .
qed

definition demoAccount :: account where
  "demoAccount = account0\<lparr>accID := ''acc_1'', accUserName := ''agent'', accToken := ''at_1'', accStatus := AccountActive,
     accChatRead := True, accChatPost := True, accChatRateMinutes := 1, accChatRateCount := 3\<rparr>"

definition demoDB :: db where
  "demoDB = emptyDB\<lparr>accounts := [demoAccount]\<rparr>"

lemma demo_token: "TrimSpace ''at_1'' = ''at_1''"
  by code_simp

theorem Resolve_identity_witness:
  "\<exists>a \<in> set (accounts demoDB). accID a = ''acc_1'' \<and> accStatus a = AccountActive"
proof -
  have "Resolve ''at_1'' plainEnv (worldOf demoDB) =
      (Inr \<lparr>idKind = KindAccount, idAccountID = ''acc_1'', idUserName = ''agent''\<rparr>, bump (worldOf demoDB))"
    by (simp add: Resolve_def demo_token plainEnv_def bind_def asks_def ret_def mapErr_def AccountByToken_def accountWhere_def
        dbread_def dbcall_def worldOf_def demoDB_def emptyDB_def demoAccount_def decryptAccount_def
        zero_defs Active_def bump_def Let_def)
  from Resolve_identity [OF this] show ?thesis by (auto simp: IsUser_def)
qed

end
