(* ===== verification/Accounts.thy ===== *)
theory Accounts
  imports Steps
begin

text \<open>
  \<^verbatim>\<open>backend/internal/account\<close>: the rules for virtual accounts, and the user's release of an account that
  the drawdown check has stopped.
\<close>

definition maxNameLength :: nat where
  "maxNameLength = 64"

definition cleanName :: "string \<Rightarrow> err + string" where
  "cleanName raw =
     (let name = TrimSpace raw
      in if name = [] \<or> length name > maxNameLength then Inl ErrInvalidName else Inr name)"

definition validateMaxDD :: "float64 \<Rightarrow> err + unit" where
  "validateMaxDD v =
     (if IsNaN v \<or> IsInf v \<or> v \<le> 0 \<or> v > Fin 100 then Inl ErrInvalidMaxDD else Inr ())"

record createInput =
  ciUserName :: string
  ciInitialBalance :: float64
  ciMaxDD :: "float64 option"

definition createLimits :: "createInput \<Rightarrow> err + (float64 option \<times> float64 option)" where
  "createLimits i =
     (case ciMaxDD i of
        None \<Rightarrow> Inr (None, None)
      | Some m \<Rightarrow> (case validateMaxDD m of Inl x \<Rightarrow> Inl x
                  | Inr _ \<Rightarrow> Inr (Some m, Some (ciInitialBalance i))))"

definition newAccount ::
    "string \<Rightarrow> string \<Rightarrow> string \<Rightarrow> createInput \<Rightarrow> float64 option \<times> float64 option \<Rightarrow> account" where
  "newAccount i name token inp limits = account0\<lparr>accID := i, accUserName := name, accToken := token,
     accInitialBalance := ciInitialBalance inp, accBalance := ciInitialBalance inp,
     accStatus := AccountActive, accMaxDD := fst limits, accMaxDDBaselineEquity := snd limits,
     accChatRateMinutes := 1, accChatRateCount := 3\<rparr>"

text \<open>\<^verbatim>\<open>Create\<close> returns the struct it built: the store inserts a copy with the token in its envelope.\<close>

definition Create :: "createInput \<Rightarrow> account M" where
  "Create inp =
     bind (liftE (cleanName (ciUserName inp))) (\<lambda>name.
     if ciInitialBalance inp \<le> 0 then raise ErrInvalidBalance else
     bind (liftE (createLimits inp)) (\<lambda>limits.
     bind (newID ''acc_'') (\<lambda>i.
     bind (Secret ''at_'') (\<lambda>token.
     let acc = newAccount i name token inp limits in
     andThen (mapErr (\<lambda>x. if x = ErrDuplicate then ErrNameTaken else x) (CreateAccount acc)) (
     ret acc)))))"

definition List :: "account list M" where
  "List = ListAccounts"

definition Get :: "string \<Rightarrow> account M" where
  "Get i = AccountByID i"

record updateInput =
  uiUserName :: "string option"
  uiStatus :: "string option"
  uiChatRead :: "bool option"
  uiChatPost :: "bool option"
  uiChatRateMinutes :: "int option"
  uiChatRateCount :: "int option"

definition outside :: "int option \<Rightarrow> int \<Rightarrow> int \<Rightarrow> bool" where
  "outside v lo hi = (case v of None \<Rightarrow> False | Some x \<Rightarrow> x < lo \<or> x > hi)"

definition updateName :: "updateInput \<Rightarrow> err + string option" where
  "updateName u =
     (case uiUserName u of None \<Rightarrow> Inr None
      | Some raw \<Rightarrow> (case cleanName raw of Inl x \<Rightarrow> Inl x | Inr name \<Rightarrow> Inr (Some name)))"

definition updateStatus :: "updateInput \<Rightarrow> err + string option" where
  "updateStatus u =
     (case uiStatus u of None \<Rightarrow> Inr None
      | Some raw \<Rightarrow>
          let v = TrimSpace raw
          in if v \<noteq> AccountActive \<and> v \<noteq> AccountDisabled then Inl ErrInvalidStatus else Inr (Some v))"

definition updateTx :: "string \<Rightarrow> updateInput \<Rightarrow> string option \<Rightarrow> string option \<Rightarrow> account M" where
  "updateTx i u userName status =
     andThen (LockAccount i) (
     bind (AccountByID i) (\<lambda>current.
     bind (if uiChatRead u = Some True \<and> \<not> accChatRead current
           then bind Now (\<lambda>now. ret (Some now)) else ret None) (\<lambda>since.
     andThen (UpdateAccountFields i
       \<lparr>fUserName = userName, fStatus = status, fChatRead = uiChatRead u, fChatPost = uiChatPost u,
        fChatReadSince = since, fChatRateMinutes = uiChatRateMinutes u,
        fChatRateCount = uiChatRateCount u\<rparr>) (
     AccountByID i))))"

definition Update :: "string \<Rightarrow> updateInput \<Rightarrow> account M" where
  "Update i u =
     (if outside (uiChatRateMinutes u) 1 1440 \<or> outside (uiChatRateCount u) 1 100
      then raise ErrInvalidChatRate else
      bind (liftE (updateName u)) (\<lambda>userName.
      bind (liftE (updateStatus u)) (\<lambda>status.
      mapErr (\<lambda>x. if x = ErrDuplicate then ErrNameTaken else x) (Tx (updateTx i u userName status)))))"

definition deleteTx :: "string \<Rightarrow> unit M" where
  "deleteTx i = andThen (LockAccount i) (andThen (DeleteAccountTradingState i) (DeleteAccount i))"

definition Delete :: "string \<Rightarrow> unit M" where
  "Delete i = Tx (deleteTx i)"

definition chatMuteTx :: "string \<Rightarrow> time option \<Rightarrow> string \<Rightarrow> account M" where
  "chatMuteTx i until reason =
     andThen (LockAccount i) (andThen (UpdateChatMute i until reason) (AccountByID i))"

definition setChatMute :: "string \<Rightarrow> time option \<Rightarrow> string \<Rightarrow> account M" where
  "setChatMute i until reason = Tx (chatMuteTx i until reason)"

definition minuteNanos :: int where
  "minuteNanos = 60000000000"

definition MuteChat :: "string \<Rightarrow> int \<Rightarrow> string \<Rightarrow> account M" where
  "MuteChat i minutes reason =
     (if minutes < 1 \<or> minutes > 43200 \<or> TrimSpace reason = [] \<or> RuneCount reason > 200
      then raise ErrInvalidChatMute
      else bind Now (\<lambda>now. setChatMute i (Some (now + minutes * minuteNanos)) reason))"

definition UnmuteChat :: "string \<Rightarrow> account M" where
  "UnmuteChat i = setChatMute i None []"

definition resetTokenTx :: "string \<Rightarrow> string \<Rightarrow> account M" where
  "resetTokenTx i token =
     andThen (LockAccount i) (
     andThen (AccountByID i) (
     andThen (UpdateAccountToken i token) (
     AccountByID i)))"

definition ResetToken :: "string \<Rightarrow> account M" where
  "ResetToken i = bind (Secret ''at_'') (\<lambda>token. Tx (resetTokenTx i token))"

definition resumeTradingTx :: "string \<Rightarrow> account M" where
  "resumeTradingTx i =
     andThen (LockAccount i) (
     bind (AccountByID i) (\<lambda>account.
     if accMaxDD account = None \<or> accMaxDDBaselineEquity account = None \<or>
        accMaxDDStoppedAt account = None
     then raise ErrTradingNotStopped else
     bind (ListPositions i []) (\<lambda>held.
     if held \<noteq> [] then raise ErrLiquidationPending else
     bind (OpenOrdersForAccount i) (\<lambda>pending.
     if pending \<noteq> [] then raise ErrLiquidationPending else
     let account' = account\<lparr>accMaxDDBaselineEquity := Some (accBalance account),
           accMaxDDStoppedAt := None, accStatus := AccountActive\<rparr> in
     andThen (SaveAccount account') (
     andThen (CreateLedgerEntry (riskEntry i LedgerMaxDDResumed (accBalance account'))) (
     ret account'))))))"

definition ResumeTrading :: "string \<Rightarrow> account M" where
  "ResumeTrading i = Tx (resumeTradingTx i)"

section \<open>Every operation follows the steps\<close>

lemma validateMaxDD_ok: "validateMaxDD v = Inr () \<longleftrightarrow> maxDDValid v"
  unfolding validateMaxDD_def maxDDValid_def
  by (cases v) (auto simp: IsNaN_def IsInf_def finite64_def zero_float64_def)

lemma newAccount_OK:
  assumes "\<not> ciInitialBalance inp \<le> 0" "createLimits inp = Inr limits"
  shows "newAccountOK (newAccount i name token inp limits)"
  using assms
  by (auto simp: newAccountOK_def newAccount_def createLimits_def account0_def validateMaxDD_ok
      split: option.splits sum.splits)

lemma newAccountOK_stored:
  "newAccountOK a \<Longrightarrow> newAccountOK ((accountDefaults (a\<lparr>accToken := t, accTokenHash := h\<rparr>))\<lparr>accCreatedAt := c\<rparr>)"
  by (auto simp: newAccountOK_def accountDefaults_def split: option.splits)

lemma CreateAccount_follows:
  assumes "newAccountOK a"
  shows "follows (CreateAccount a)"
proof (rule follows_wp)
  fix e and w :: world
  show "wp e (CreateAccount a) (\<lambda>_ w'. dbstep\<^sup>*\<^sup>* (wdb w) (wdb w')) (\<lambda>_ w'. dbstep\<^sup>*\<^sup>* (wdb w) (wdb w')) w"
    unfolding CreateAccount_def wp_bind
  proof (rule wp_storedAccount, goal_cases)
    case (1 t h w1)
    let ?b = "\<lambda>c. (accountDefaults (a\<lparr>accToken := t, accTokenHash := h\<rparr>))\<lparr>accCreatedAt := c\<rparr>"
    have "dbstep\<^sup>*\<^sup>* (wdb w) ((wdb w)\<lparr>accounts := accounts (wdb w) @ [?b c]\<rparr>)"
      if "\<not> list_ex (\<lambda>b. accID b = accID a \<or> accountClash (a\<lparr>accToken := t, accTokenHash := h\<rparr>) b)
           (accounts (wdb w))" for c
      using that newAccountOK_stored [OF assms]
      by (intro step1 dbstep.create) (auto simp: list_ex_iff noClash_def accountDefaults_def accountClash_def)
    then show ?case
      using 1 by (auto simp: insertAccount_def wp_Tx wp_dbcall split del: if_split split: if_split_asm)
  qed auto
qed

lemma Create_follows: "follows (Create inp)"
  unfolding Create_def Let_def
  by (intro follows_bind_liftE follows_intros) (auto intro!: CreateAccount_follows newAccount_OK)

lemma sameFunds_refl [simp]: "sameFunds a a"
  by (simp add: sameFunds_def)

text \<open>An update of columns that trading does not depend on.\<close>

lemma wp_updateAccountRow:
  assumes "\<And>a. sameFunds a (f a)"
    and "\<And>w'. dbstep\<^sup>*\<^sup>* (wdb w) (wdb w') \<Longrightarrow> Q () w'" and "\<And>x w'. wdb w' = wdb w \<Longrightarrow> E x w'"
  shows "wp e (updateAccountRow i f) Q E w"
proof -
  have "dbstep\<^sup>*\<^sup>* (wdb w) ((wdb w)\<lparr>accounts := tbl_put accID (f a) (accounts (wdb w))\<rparr>)"
    if "accountRow (wdb w) i = Some a"
      "\<not> list_ex (\<lambda>b. accID b \<noteq> i \<and> accountClash (f a) b) (accounts (wdb w))" for a
  proof -
    have "accID (f a) = i" using assms(1) [of a] accountRow_ID [OF that(1)] by (simp add: sameFunds_def)
    with that assms(1) show ?thesis
      by (intro step1 dbstep.amend) (auto simp: noClash_def list_ex_iff)
  qed
  then show ?thesis
    by (auto simp: updateAccountRow_def wp_dbcall intro!: assms(2,3) split: option.splits if_splits)
qed

lemma updateTx_steps:
  "wp e (updateTx i u n s) (\<lambda>_ w'. dbstep\<^sup>*\<^sup>* (wdb w) (wdb w')) (\<lambda>_ _. True) w"
  unfolding updateTx_def wp_andThen
proof (rule wp_LockAccount, goal_cases)
  case (1 w1)
  have "wp e (UpdateAccountFields i f) (\<lambda>_. wp e (AccountByID i) (\<lambda>_ w'. dbstep\<^sup>*\<^sup>* (wdb w) (wdb w')) (\<lambda>_ _. True))
      (\<lambda>_ _. True) w2" if "wdb w2 = wdb w" for f w2
    unfolding UpdateAccountFields_def wp_if wp_ret
    using that by (auto simp: wp_rules sameFunds_def applyAccountFields_def intro!: wp_updateAccountRow)
  then show ?case using 1 by (auto simp: wp_rules)
qed auto

lemma Update_follows: "follows (Update i u)"
  unfolding Update_def by (intro follows_intros follows_Tx updateTx_steps)

lemma chatMuteTx_steps:
  "wp e (chatMuteTx i until reason) (\<lambda>_ w'. dbstep\<^sup>*\<^sup>* (wdb w) (wdb w')) (\<lambda>_ _. True) w"
  unfolding chatMuteTx_def wp_andThen UpdateChatMute_def
  by (rule wp_LockAccount) (auto simp: wp_rules sameFunds_def intro!: wp_updateAccountRow)

lemma setChatMute_follows: "follows (setChatMute i until reason)"
  unfolding setChatMute_def by (intro follows_Tx chatMuteTx_steps)

lemma MuteChat_follows: "follows (MuteChat i minutes reason)" and UnmuteChat_follows: "follows (UnmuteChat i)"
  unfolding MuteChat_def UnmuteChat_def by (intro follows_intros setChatMute_follows)+

lemma wp_protectToken:
  assumes "\<And>t w'. wdb w' = wdb w \<Longrightarrow> Q t w'" and "\<And>x w'. wdb w' = wdb w \<Longrightarrow> E x w'"
  shows "wp e (protectToken token) Q E w"
  by (auto simp: protectToken_def wp_rules Let_def intro!: assms)

lemma resetTokenTx_steps:
  "wp e (resetTokenTx i token) (\<lambda>_ w'. dbstep\<^sup>*\<^sup>* (wdb w) (wdb w')) (\<lambda>_ _. True) w"
  unfolding resetTokenTx_def wp_andThen
proof (rule wp_LockAccount, goal_cases)
  case (1 w1)
  have "wp e (UpdateAccountToken i token) (\<lambda>_. wp e (AccountByID i) (\<lambda>_ w'. dbstep\<^sup>*\<^sup>* (wdb w) (wdb w')) (\<lambda>_ _. True))
      (\<lambda>_ _. True) w2" if "wdb w2 = wdb w" for w2
    unfolding UpdateAccountToken_def wp_bind wp_asks
    using that by (auto simp: wp_rules sameFunds_def intro!: wp_protectToken wp_updateAccountRow)
  then show ?case using 1 by (auto simp: wp_rules)
qed auto

lemma ResetToken_follows: "follows (ResetToken i)"
  unfolding ResetToken_def by (intro follows_intros follows_Tx resetTokenTx_steps)

lemma deleteTx_steps: "wp e (deleteTx i) (\<lambda>_ w'. dbstep\<^sup>*\<^sup>* (wdb w) (wdb w')) (\<lambda>_ _. True) w"
  unfolding deleteTx_def wp_andThen DeleteAccountTradingState_def DeleteAccount_def
proof (rule wp_LockAccount, goal_cases)
  case (1 w1)
  have "dbstep\<^sup>*\<^sup>* (wdb w) ((wdb w)\<lparr>positions := filter (\<lambda>p. posAccountID p \<noteq> i) (positions (wdb w)),
         orders := filter (\<lambda>x. ordAccountID x = i \<longrightarrow> ordStatus x \<noteq> OrderOpen) (orders (wdb w)),
         accounts := filter (\<lambda>a. accID a \<noteq> i) (accounts (wdb w))\<rparr>)"
    if "list_ex (\<lambda>a. accID a = i) (accounts (wdb w))"
    using that dbstep.remove [of "wdb w" i] by (auto simp: list_ex_iff intro!: step1)
  then show ?case using 1 by (auto simp: wp_dbcall split: if_splits)
qed auto

lemma Delete_follows: "follows (Delete i)"
  unfolding Delete_def by (intro follows_Tx deleteTx_steps)

lemma resumeTradingTx_steps:
  "wp e (resumeTradingTx i) (\<lambda>_ w'. dbstep\<^sup>*\<^sup>* (wdb w) (wdb w')) (\<lambda>_ _. True) w"
  unfolding resumeTradingTx_def wp_andThen
proof (rule wp_LockAccount, goal_cases)
  case (1 w1)
  let ?a = "\<lambda>r t. r\<lparr>accToken := t, accMaxDDBaselineEquity := Some (accBalance r), accMaxDDStoppedAt := None,
      accStatus := AccountActive\<rparr>"
  have main: "wp e (SaveAccount (?a r t)) (\<lambda>_. wp e (andThen (CreateLedgerEntry
        (riskEntry i LedgerMaxDDResumed (accBalance r))) (ret (?a r t)))
        (\<lambda>_ w'. dbstep\<^sup>*\<^sup>* (wdb w) (wdb w')) (\<lambda>_ _. True)) (\<lambda>_ _. True) w2"
    if r: "accountRow (wdb w) i = Some r" "accMaxDD r \<noteq> None" "accMaxDDBaselineEquity r \<noteq> None"
      "accMaxDDStoppedAt r \<noteq> None" "openPositions i (wdb w) = []" "openOrders i (wdb w) = []"
      and w2: "wdb w2 = wdb w" for r t w2
    unfolding wp_andThen
  proof (rule wp_SaveAccount, rule wp_CreateLedgerEntryI, unfold wp_ret, goal_cases)
    case (1 t1 h w3 t2 w4)
    have "noClash (wdb w) (r\<lparr>accToken := t1, accTokenHash := h\<rparr>)"
      using 1(2) w2 by (auto simp: noClash_def list_ex_iff accountClash_def)
    from dbstep.resume [OF r this, of t2] 1 w2 show ?case by (auto intro: step1)
  qed auto
  then show ?case
    using 1 by (auto simp: wp_rules Let_def openPositions_def openOrders_def dest!: decryptAccount_Inr
        intro!: main)
qed auto

lemma ResumeTrading_follows: "follows (ResumeTrading i)"
  unfolding ResumeTrading_def by (intro follows_Tx resumeTradingTx_steps)

end
