(* ===== verification/Messages.thy ===== *)
theory Messages
  imports Auth Accounts
begin

text \<open>
  \<^verbatim>\<open>backend/internal/message/message.go\<close> and \<^verbatim>\<open>backend/internal/database/message.go\<close>: the chat of the agents
  and the USER.  The rows of \<^verbatim>\<open>messages\<close> and \<^verbatim>\<open>message_tags\<close> are tables of the database; a message struct
  that comes from the database has its tags filled in by \<open>ListMessages\<close> only.
\<close>

abbreviation PageSize :: int where "PageSize \<equiv> 10"
abbreviation MaxLimit :: int where "MaxLimit \<equiv> 50"
abbreviation MaxContentLen :: nat where "MaxContentLen \<equiv> 500"
abbreviation You :: string where "You \<equiv> ''you''"
abbreviation deletedName :: string where "deletedName \<equiv> ''[deleted]''"
abbreviation UserTag :: string where "UserTag \<equiv> ''USER''"
abbreviation MaxInt :: int where "MaxInt \<equiv> 9223372036854775807"

section \<open>The store\<close>

record messageQuery =
  mqDesc :: bool
  mqLimit :: int
  mqOffset :: int
  mqTag :: string
  mqAfterCreatedAt :: "time option"
  mqAfterID :: string
  mqBeforeCreatedAt :: "time option"
  mqBeforeID :: string

definition recentPosts :: "string \<Rightarrow> time \<Rightarrow> db \<Rightarrow> message list" where
  "recentPosts accountID since d =
     filter (\<lambda>m. msgAuthorType m = AuthorAccount \<and> msgAuthorID m = accountID \<and> msgCreatedAt m > since) (messages d)"

text \<open>
  One statement reads the number of rows (a window function, so before the limit) and the time of the
  \<open>limit\<close>-th newest row; without such a row the struct keeps its zero values.
\<close>

definition AccountMessageWindow :: "string \<Rightarrow> time \<Rightarrow> int \<Rightarrow> (int \<times> time) M" where
  "AccountMessageWindow accountID since limit = dbread (\<lambda>e d.
     let rows = recentPosts accountID since d
     in Inr (case drop (nat (limit - 1)) (rev (sort_key msgCreatedAt rows)) of
               [] \<Rightarrow> (0, zeroTime)
             | m # _ \<Rightarrow> (int (length rows), msgCreatedAt m)))"

text \<open>A transaction inside a transaction is a savepoint: it has no commit of its own.\<close>

definition Savepoint :: "'a M \<Rightarrow> 'a M" where
  "Savepoint fn = (\<lambda>e w.
     if fault e (calls w) then (Inl ErrStore, bump w)
     else case fn e (bump w) of
            (Inl x, w') \<Rightarrow> (Inl x, w'\<lparr>wdb := wdb w\<rparr>)
          | (Inr a, w') \<Rightarrow> (Inr a, w'))"

definition insertMessage :: "message \<Rightarrow> message M" where
  "insertMessage m = dbcall (\<lambda>e n d.
     if list_ex (\<lambda>y. msgID y = msgID m) (messages d) then (Inl ErrDuplicate, d)
     else let m' = m\<lparr>msgCreatedAt := (if msgCreatedAt m = zeroTime then clock e n else msgCreatedAt m)\<rparr>
          in (Inr m', d\<lparr>messages := messages d @ [m'\<lparr>msgTags := []\<rparr>]\<rparr>))"

definition tagRows :: "message \<Rightarrow> messageTag list" where
  "tagRows m = map (\<lambda>(p, t). \<lparr>tagMessageID = msgID m, tagPosition = p, tagTag = t\<rparr>) (enumerate 0 (msgTags m))"

definition insertTags :: "messageTag list \<Rightarrow> unit M" where
  "insertTags ts = dbcall (\<lambda>e n d.
     if list_ex (\<lambda>t. list_ex (\<lambda>u. tagMessageID u = tagMessageID t \<and> tagPosition u = tagPosition t) (messageTags d)) ts
     then (Inl ErrDuplicate, d) else (Inr (), d\<lparr>messageTags := messageTags d @ ts\<rparr>))"

text \<open>Its caller, \<^verbatim>\<open>Service.Post\<close>, has a transaction open already.\<close>

definition CreateMessage :: "message \<Rightarrow> message M" where
  "CreateMessage m = Savepoint (
     bind (insertMessage m) (\<lambda>m'.
     if msgTags m' = [] then ret m' else andThen (insertTags (tagRows m')) (ret m')))"

definition afterCursor :: "messageQuery \<Rightarrow> message \<Rightarrow> bool" where
  "afterCursor q m = (case mqAfterCreatedAt q of None \<Rightarrow> True
     | Some t \<Rightarrow> msgCreatedAt m > t \<or> (msgCreatedAt m = t \<and> msgID m > mqAfterID q))"

definition beforeCursor :: "messageQuery \<Rightarrow> message \<Rightarrow> bool" where
  "beforeCursor q m = (case mqBeforeCreatedAt q of None \<Rightarrow> True
     | Some t \<Rightarrow> msgCreatedAt m < t \<or> (msgCreatedAt m = t \<and> msgID m < mqBeforeID q))"

text \<open>\<^verbatim>\<open>JOIN message_tags ON message_tags.message_id = messages.id AND message_tags.tag = ?\<close>\<close>

definition joinTag :: "string \<Rightarrow> db \<Rightarrow> message list" where
  "joinTag tag d =
     (if tag = [] then messages d
      else concat (map (\<lambda>m. map (\<lambda>_. m) (filter (\<lambda>t. tagMessageID t = msgID m \<and> tagTag t = tag) (messageTags d)))
             (messages d)))"

definition matching :: "messageQuery \<Rightarrow> db \<Rightarrow> message list" where
  "matching q d =
     (let rows = sort_key (\<lambda>m. (msgCreatedAt m, msgID m))
            (filter (\<lambda>m. afterCursor q m \<and> beforeCursor q m) (joinTag (mqTag q) d))
      in if mqDesc q then rev rows else rows)"

definition tagsOf :: "db \<Rightarrow> string \<Rightarrow> string list" where
  "tagsOf d i = map tagTag (filter (\<lambda>t. tagMessageID t = i)
     (sort_key (\<lambda>t. (tagMessageID t, tagPosition t)) (messageTags d)))"

definition ListMessages :: "messageQuery \<Rightarrow> message list M" where
  "ListMessages q =
     bind (dbread (\<lambda>e d. Inr (take (nat (mqLimit q)) (drop (nat (mqOffset q)) (matching q d))))) (\<lambda>ms.
     if ms = [] then ret []
     else dbread (\<lambda>e d. Inr (map (\<lambda>m. m\<lparr>msgTags := tagsOf d (msgID m)\<rparr>) ms)))"

definition MessageByID :: "string \<Rightarrow> message M" where
  "MessageByID i = dbread (\<lambda>e d. case find (\<lambda>m. msgID m = i) (messages d) of
     None \<Rightarrow> Inl ErrNotFound | Some m \<Rightarrow> Inr m)"

definition DeleteMessage :: "string \<Rightarrow> unit M" where
  "DeleteMessage i = Tx (andThen
     (dbcall (\<lambda>e n d. (Inr (), d\<lparr>messageTags := filter (\<lambda>t. tagMessageID t \<noteq> i) (messageTags d)\<rparr>)))
     (dbcall (\<lambda>e n d. if list_ex (\<lambda>m. msgID m = i) (messages d)
        then (Inr (), d\<lparr>messages := filter (\<lambda>m. msgID m \<noteq> i) (messages d)\<rparr>) else (Inl ErrNotFound, d))))"

definition ClearMessages :: "unit M" where
  "ClearMessages = Tx (andThen
     (dbcall (\<lambda>e n d. (Inr (), d\<lparr>messageTags := []\<rparr>)))
     (dbcall (\<lambda>e n d. (Inr (), d\<lparr>messages := []\<rparr>))))"

definition AccountNames :: "string list \<Rightarrow> (string \<rightharpoonup> string) M" where
  "AccountNames ids =
     (if ids = [] then ret Map.empty
      else dbread (\<lambda>e d. Inr (foldl (\<lambda>m a. m(accID a \<mapsto> accUserName a)) Map.empty
             (filter (\<lambda>a. accID a \<in> set ids) (accounts d)))))"

definition AccountIDsByName :: "string list \<Rightarrow> (string \<rightharpoonup> string) M" where
  "AccountIDsByName names =
     (if names = [] then ret Map.empty
      else dbread (\<lambda>e d. Inr (foldl (\<lambda>m a. m(accUserName a \<mapsto> accID a)) Map.empty
             (filter (\<lambda>a. accUserName a \<in> set names) (accounts d)))))"

section \<open>The service\<close>

fun normalizeTagsFrom :: "string \<Rightarrow> string list \<Rightarrow> string list \<Rightarrow> err + string list" where
  "normalizeTagsFrom userName seen [] = Inr []"
| "normalizeTagsFrom userName seen (t # ts) =
     (let t1 = TrimSpace t; tag = (if t1 = userName then UserTag else t1)
      in if tag = [] \<or> tag \<in> set seen then Inl ErrInvalidTags
         else case normalizeTagsFrom userName (tag # seen) ts of Inl x \<Rightarrow> Inl x | Inr rest \<Rightarrow> Inr (tag # rest))"

definition normalizeTags :: "string \<Rightarrow> string list \<Rightarrow> err + string list" where
  "normalizeTags userName tags = normalizeTagsFrom userName [] tags"

definition checkPermission :: "identity \<Rightarrow> (account \<Rightarrow> bool) \<Rightarrow> err \<Rightarrow> account option M" where
  "checkPermission who allowed denied =
     (if IsUser who then ret None
      else bind (AccountByID (idAccountID who)) (\<lambda>account.
           if \<not> allowed account then raise denied else ret (Some account)))"

fun checkTags :: "identity \<Rightarrow> (string \<rightharpoonup> string) \<Rightarrow> string list \<Rightarrow> err + unit" where
  "checkTags author ids [] = Inr ()"
| "checkTags author ids (tag # tags) =
     (if tag = UserTag then (if IsUser author then Inl ErrSelfTag else checkTags author ids tags)
      else case ids tag of
             None \<Rightarrow> Inl ErrUnknownTag
           | Some i \<Rightarrow> if Owns author i then Inl ErrSelfTag else checkTags author ids tags)"

definition checkRecipients :: "identity \<Rightarrow> string list \<Rightarrow> unit M" where
  "checkRecipients author tags =
     (if tags = [] then ret ()
      else bind (AccountIDsByName (filter (\<lambda>t. t \<noteq> UserTag) tags)) (\<lambda>ids. liftE (checkTags author ids tags)))"

text \<open>Mute and rate limit of the posting account.\<close>

definition checkChatLimits :: "account \<Rightarrow> unit M" where
  "checkChatLimits account =
     bind Now (\<lambda>now.
     if (case accChatMutedUntil account of None \<Rightarrow> False | Some until \<Rightarrow> until > now) then raise ErrChatMuted else
     bind (AccountMessageWindow (accID account) (now - accChatRateMinutes account * minuteNanos)
             (accChatRateCount account)) (\<lambda>(count, blocking).
     if count \<ge> accChatRateCount account then raise ErrChatRateLimited else ret ()))"

definition newMessage :: "string \<Rightarrow> identity \<Rightarrow> string \<Rightarrow> string list \<Rightarrow> message" where
  "newMessage i author content tags = \<lparr>msgID = i, msgAuthorType = idKind author, msgAuthorID = idAccountID author,
     msgContent = content, msgTags = tags, msgCreatedAt = zeroTime\<rparr>"

definition post :: "identity \<Rightarrow> string \<Rightarrow> string list \<Rightarrow> message M" where
  "post author content0 tags0 =
     (let content = TrimSpace content0 in
      if content = [] then raise ErrEmptyContent
      else if RuneCount content > MaxContentLen then raise ErrContentLong else
      bind (checkPermission author accChatPost ErrChatPostDisabled) (\<lambda>account.
      andThen (case account of None \<Rightarrow> ret () | Some a \<Rightarrow> checkChatLimits a) (
      bind (asks cfgUserName) (\<lambda>userName.
      bind (liftE (normalizeTags userName tags0)) (\<lambda>tags.
      andThen (checkRecipients author tags) (
      bind (newID ''msg_'') (\<lambda>messageID.
      CreateMessage (newMessage messageID author content tags))))))))"

definition publishEvent :: "event \<Rightarrow> unit M" where
  "publishEvent ev = (\<lambda>e w. case publish ev (hub w) of
     None \<Rightarrow> (Inl ErrPanic, w) | Some h \<Rightarrow> (Inr (), w\<lparr>hub := h\<rparr>))"

definition viewOf :: "string \<Rightarrow> message \<Rightarrow> view" where
  "viewOf name m = \<lparr>vwID = msgID m, vwUserName = name, vwContent = msgContent m, vwTags = msgTags m,
     vwCreatedAt = msgCreatedAt m\<rparr>"

definition postTx :: "identity \<Rightarrow> string \<Rightarrow> string list \<Rightarrow> message M" where
  "postTx author content tags =
     andThen (if IsUser author then ret () else LockAccount (idAccountID author)) (post author content tags)"

definition Post :: "identity \<Rightarrow> string \<Rightarrow> string list \<Rightarrow> message M" where
  "Post author content tags =
     bind (Tx (postTx author content tags)) (\<lambda>posted.
     andThen (publishEvent \<lparr>evName = EventCreated,
       evMessage = viewOf (if IsUser author then You else idUserName author) posted, evID = []\<rparr>) (
     ret posted))"

record query =
  qPage :: int
  qLimit :: int
  qSort :: string
  qTag :: string
  qAfter :: string
  qBefore :: string

definition parseSort :: "string \<Rightarrow> err + bool" where
  "parseSort s =
     (let t = TrimSpace s
      in if t = [] \<or> t = ''desc'' then Inr True else if t = ''asc'' then Inr False else Inl ErrInvalidSort)"

fun accountIDsFrom :: "string list \<Rightarrow> message list \<Rightarrow> string list" where
  "accountIDsFrom seen [] = []"
| "accountIDsFrom seen (m # ms) =
     (if msgAuthorType m = AuthorAccount \<and> msgAuthorID m \<notin> set seen
      then msgAuthorID m # accountIDsFrom (msgAuthorID m # seen) ms else accountIDsFrom seen ms)"

definition accountIDs :: "message list \<Rightarrow> string list" where
  "accountIDs ms = accountIDsFrom [] ms"

definition displayName :: "string \<Rightarrow> message \<Rightarrow> (string \<rightharpoonup> string) \<Rightarrow> identity option \<Rightarrow> string" where
  "displayName userName m names requester =
     (if (case requester of None \<Rightarrow> False
          | Some r \<Rightarrow> idKind r = msgAuthorType m \<and> idAccountID r = msgAuthorID m) then You
      else if msgAuthorType m = AuthorUser then userName
      else case names (msgAuthorID m) of Some name \<Rightarrow> name | None \<Rightarrow> deletedName)"

text \<open>\<^verbatim>\<open>s.store.MessageByID\<close> of a cursor, with the error of the cursor when it does not exist.\<close>

definition anchorOf :: "err \<Rightarrow> string \<Rightarrow> message option M" where
  "anchorOf missing i =
     (if i = [] then ret None
      else mapErr (\<lambda>x. if x = ErrNotFound then missing else x) (bind (MessageByID i) (\<lambda>m. ret (Some m))))"

definition pageOf :: "query \<Rightarrow> err + int \<times> int" where
  "pageOf q =
     (let limit = (if qLimit q = 0 then PageSize else qLimit q);
          page = (if qPage q = 0 then 1 else qPage q)
      in if limit < 1 \<or> limit > MaxLimit then Inl ErrInvalidLimit
         else if page < 1 \<or> page - 1 > MaxInt div limit then Inl ErrInvalidPage
         else Inr (limit, page))"

definition listQuery :: "bool \<Rightarrow> int \<Rightarrow> int \<Rightarrow> string \<Rightarrow> message option \<Rightarrow> message option \<Rightarrow> messageQuery" where
  "listQuery desc limit page tag bef aft = \<lparr>mqDesc = desc, mqLimit = limit + 1, mqOffset = (page - 1) * limit,
     mqTag = tag, mqAfterCreatedAt = map_option msgCreatedAt aft,
     mqAfterID = (case aft of None \<Rightarrow> [] | Some m \<Rightarrow> msgID m),
     mqBeforeCreatedAt = map_option msgCreatedAt bef,
     mqBeforeID = (case bef of None \<Rightarrow> [] | Some m \<Rightarrow> msgID m)\<rparr>"

definition showPage :: "int \<Rightarrow> identity option \<Rightarrow> message list \<Rightarrow> (view list \<times> bool) M" where
  "showPage limit requester found =
     (let hasMore = int (length found) > limit;
          shown = (if hasMore then take (nat limit) found else found) in
      bind (AccountNames (accountIDs shown)) (\<lambda>names.
      bind (asks cfgUserName) (\<lambda>userName.
      ret (map (\<lambda>m. viewOf (displayName userName m names requester) m) shown, hasMore))))"

definition ListChat :: "query \<Rightarrow> identity option \<Rightarrow> (view list \<times> bool) M" where
  "ListChat q requester =
     bind (liftE (parseSort (qSort q))) (\<lambda>desc.
     bind (liftE (pageOf q)) (\<lambda>(limit, page).
     let tag = TrimSpace (qTag q) in
     if qTag q \<noteq> [] \<and> tag = [] then raise ErrInvalidTag else
     andThen (case requester of None \<Rightarrow> ret None
              | Some r \<Rightarrow> checkPermission r accChatRead ErrChatReadDisabled) (
     let aft = TrimSpace (qAfter q); bef = TrimSpace (qBefore q) in
     if aft \<noteq> [] \<and> bef \<noteq> [] then raise ErrInvalidBefore else
     bind (anchorOf ErrInvalidBefore bef) (\<lambda>anchorB.
     bind (anchorOf ErrInvalidAfter aft) (\<lambda>anchorA.
     bind (ListMessages (listQuery desc limit page tag anchorB anchorA)) (showPage limit requester))))))"

definition DeleteChat :: "string \<Rightarrow> identity \<Rightarrow> unit M" where
  "DeleteChat i requester =
     bind (MessageByID i) (\<lambda>message.
     if \<not> IsUser requester \<and> \<not> (msgAuthorType message = AuthorAccount \<and> Owns requester (msgAuthorID message))
     then raise ErrForbidden else
     andThen (DeleteMessage i) (
     publishEvent \<lparr>evName = EventDeleted, evMessage = view0, evID = i\<rparr>))"

definition ClearChat :: "unit M" where
  "ClearChat = andThen ClearMessages (publishEvent \<lparr>evName = EventCleared, evMessage = view0, evID = []\<rparr>)"

section \<open>Every operation follows the steps\<close>

lemma follows_in_Tx: "follows m \<Longrightarrow> follows (Tx m)"
  unfolding follows_def by (blast intro: keeps_Tx wp_mono dest: keeps_wp [THEN iffD1])

lemma follows_Savepoint:
  assumes "follows m" shows "follows (Savepoint m)"
  unfolding follows_def keeps_def
proof (intro allI impI)
  fix d0 e and w :: world
  assume w: "dbstep\<^sup>*\<^sup>* d0 (wdb w)"
  have "dbstep\<^sup>*\<^sup>* d0 (wdb (snd (m e (bump w))))" using assms w by (simp add: follows_def keeps_def)
  with w show "dbstep\<^sup>*\<^sup>* d0 (wdb (snd (Savepoint m e w)))"
    by (auto simp: Savepoint_def split: prod.splits sum.splits)
qed

lemma follows_chat:
  assumes "\<And>e n d. \<exists>ms mts. snd (f e n d) = d\<lparr>messages := ms, messageTags := mts\<rparr>"
  shows "follows (dbcall f)"
  unfolding follows_def keeps_def
proof (intro allI impI)
  fix d0 e and w :: world
  assume w: "dbstep\<^sup>*\<^sup>* d0 (wdb w)"
  from assms [of e "calls w" "wdb w"] have "dbstep (wdb w) (snd (f e (calls w) (wdb w)))"
    using dbstep.chat by metis
  with w show "dbstep\<^sup>*\<^sup>* d0 (wdb (snd (dbcall f e w)))"
    by (auto simp: dbcall_def split: prod.splits sum.splits)
qed

lemma follows_publish: "follows (publishEvent ev)"
  by (auto simp: follows_def keeps_def publishEvent_def split: option.splits)

lemma chat_update: "\<exists>ms mts. d\<lparr>messages := a\<rparr> = d\<lparr>messages := ms, messageTags := mts\<rparr>"
  "\<exists>ms mts. d\<lparr>messageTags := b\<rparr> = d\<lparr>messages := ms, messageTags := mts\<rparr>"
  "\<exists>ms mts. d = d\<lparr>messages := ms, messageTags := mts\<rparr>"
  by (rule exI [of _ a], rule exI [of _ "messageTags d"], simp)
    (rule exI [of _ "messages d"], rule exI [of _ b], simp,
     rule exI [of _ "messages d"], rule exI [of _ "messageTags d"], simp)

lemma follows_chat_calls: "follows (insertMessage m)" "follows (insertTags ts)"
  "follows (DeleteMessage i)" "follows ClearMessages"
  unfolding insertMessage_def insertTags_def DeleteMessage_def ClearMessages_def
  by (intro follows_in_Tx follows_andThen follows_chat; simp add: chat_update Let_def)+

lemma CreateMessage_follows: "follows (CreateMessage m)"
  unfolding CreateMessage_def by (intro follows_Savepoint follows_intros follows_chat_calls)

lemma follows_chat_reads: "follows (AccountMessageWindow a s n)" "follows (ListMessages q)" "follows (MessageByID i)"
  "follows (AccountNames ids)" "follows (AccountIDsByName names)"
  unfolding AccountMessageWindow_def ListMessages_def MessageByID_def AccountNames_def AccountIDsByName_def
  by (intro follows_intros)+

lemma LockAccount_follows: "follows (LockAccount i)"
  unfolding LockAccount_def by (intro follows_intros)

lemma Post_follows: "follows (Post author content tags)"
  unfolding Post_def postTx_def post_def checkPermission_def checkChatLimits_def checkRecipients_def Let_def
  by (intro follows_intros follows_in_Tx follows_publish CreateMessage_follows follows_chat_reads LockAccount_follows)

lemma ListChat_follows: "follows (ListChat q requester)"
  unfolding ListChat_def showPage_def checkPermission_def anchorOf_def Let_def
  by (intro follows_intros follows_chat_reads)

lemma DeleteChat_follows: "follows (DeleteChat i requester)" and ClearChat_follows: "follows ClearChat"
  unfolding DeleteChat_def ClearChat_def
  by (intro follows_intros follows_chat_reads follows_chat_calls follows_publish)+

section \<open>What a post does\<close>

lemma wp_Savepoint [wp_rules]:
  "wp e (Savepoint m) Q E w =
     ((fault e (calls w) \<longrightarrow> E ErrStore (bump w)) \<and>
      (\<not> fault e (calls w) \<longrightarrow> wp e m Q (\<lambda>x w'. E x (w'\<lparr>wdb := wdb w\<rparr>)) (bump w)))"
  by (simp add: wp_def Savepoint_def split: sum.splits prod.splits)

text \<open>Nothing but time has passed.\<close>

definition idle :: "world \<Rightarrow> world \<Rightarrow> bool" where
  "idle w w' = (wdb w' = wdb w \<and> hub w' = hub w \<and> calls w \<le> calls w')"

lemma idle_simps [simp]: "idle w w"
  "idle w (bump w') = (wdb w' = wdb w \<and> hub w' = hub w \<and> calls w \<le> Suc (calls w'))"
  by (auto simp: idle_def)

lemma idleD: "idle w w' \<Longrightarrow> wdb w' = wdb w \<and> hub w' = hub w \<and> calls w \<le> calls w'"
  by (simp add: idle_def)

lemma idle_trans: "idle w w1 \<Longrightarrow> idle w1 w2 \<Longrightarrow> idle w w2"
  by (auto simp: idle_def)

definition muted :: "account \<Rightarrow> time \<Rightarrow> bool" where
  "muted r now = (case accChatMutedUntil r of None \<Rightarrow> False | Some until \<Rightarrow> until > now)"

lemma wp_checkPermission:
  assumes "IsUser who \<Longrightarrow> Q None w"
    and "\<And>r t w'. \<not> IsUser who \<Longrightarrow> accountRow (wdb w) (idAccountID who) = Some r \<Longrightarrow> allowed (r\<lparr>accToken := t\<rparr>) \<Longrightarrow>
      idle w w' \<Longrightarrow> Q (Some (r\<lparr>accToken := t\<rparr>)) w'"
    and "\<And>x w'. idle w w' \<Longrightarrow> E x w'"
  shows "wp e (checkPermission who allowed denied) Q E w"
  using assms
  by (auto simp: checkPermission_def wp_rules wp_AccountByID dest!: decryptAccount_Inr)

lemma drop_Cons_length: "drop n xs = y # ys \<Longrightarrow> n < length xs"
  by (metis drop_all linorder_not_le list.distinct(1))

lemma wp_checkChatLimits:
  assumes "\<And>w' n. idle w w' \<Longrightarrow> calls w \<le> n \<Longrightarrow> n \<le> calls w' \<Longrightarrow> \<not> muted a (clock e n) \<Longrightarrow>
      int (length (recentPosts (accID a) (clock e n - accChatRateMinutes a * minuteNanos) (wdb w))) < accChatRateCount a \<Longrightarrow>
      Q () w'"
    and "\<And>x w'. idle w w' \<Longrightarrow> E x w'"
  shows "wp e (checkChatLimits a) Q E w"
proof -
  have "Q () (bump (bump w))" if "\<not> muted a (clock e (calls w))"
    "int (length (recentPosts (accID a) (clock e (calls w) - accChatRateMinutes a * minuteNanos) (wdb w))) < accChatRateCount a"
    using that by (intro assms(1) [of _ "calls w"]) (auto simp: idle_def)
  then show ?thesis
    unfolding checkChatLimits_def AccountMessageWindow_def Let_def
    by (auto simp: wp_rules muted_def split: list.splits intro!: assms(2) dest!: drop_Cons_length)
qed

lemma wp_checkRecipients:
  assumes "\<And>w'. idle w w' \<Longrightarrow> Q () w'" and "\<And>x w'. idle w w' \<Longrightarrow> E x w'"
  shows "wp e (checkRecipients author tags) Q E w"
  using assms by (auto simp: checkRecipients_def AccountIDsByName_def wp_rules)

lemma wp_CreateMessage:
  assumes "msgCreatedAt m = zeroTime"
    and "\<And>n m' w'. calls w \<le> n \<Longrightarrow> \<forall>y \<in> set (messages (wdb w)). msgID y \<noteq> msgID m \<Longrightarrow>
      m' = m\<lparr>msgCreatedAt := clock e n\<rparr> \<Longrightarrow> hub w' = hub w \<Longrightarrow>
      (\<forall>t \<in> set (messageTags (wdb w)). \<forall>u \<in> set (tagRows m'). tagMessageID t = tagMessageID u \<longrightarrow> tagPosition t \<noteq> tagPosition u) \<Longrightarrow>
      wdb w' = (wdb w)\<lparr>messages := messages (wdb w) @ [m'\<lparr>msgTags := []\<rparr>],
        messageTags := messageTags (wdb w) @ tagRows m'\<rparr> \<Longrightarrow> Q m' w'"
    and "\<And>x w'. hub w' = hub w \<Longrightarrow> wdb w' = wdb w \<Longrightarrow> E x w'"
  shows "wp e (CreateMessage m) Q E w"
proof -
  have none: "tagRows m' = []" if "msgTags m' = []" for m' using that by (simp add: tagRows_def)
  show ?thesis
    unfolding CreateMessage_def insertMessage_def insertTags_def
    by (auto simp: wp_rules Let_def list_ex_iff assms(1) split del: if_split split: if_split_asm
        intro!: assms(2) [where n = "Suc (calls w)"] assms(3) simp: none)
qed

definition chatAllowed :: "env \<Rightarrow> identity \<Rightarrow> nat \<Rightarrow> db \<Rightarrow> bool" where
  "chatAllowed e author n d =
     (IsUser author \<or> (\<exists>r. accountRow d (idAccountID author) = Some r \<and> accChatPost r \<and> \<not> muted r (clock e n) \<and>
        int (length (recentPosts (idAccountID author) (clock e n - accChatRateMinutes r * minuteNanos) d)) < accChatRateCount r))"

text \<open>An accepted post: its content and tags, the permission at the time of the check, and the rows written.\<close>

definition postedAs :: "env \<Rightarrow> identity \<Rightarrow> string \<Rightarrow> string list \<Rightarrow> db \<Rightarrow> message \<Rightarrow> db \<Rightarrow> bool" where
  "postedAs e author content tags d m d' =
     (msgContent m = TrimSpace content \<and> msgContent m \<noteq> [] \<and> RuneCount (msgContent m) \<le> MaxContentLen \<and>
      normalizeTags (cfgUserName e) tags = Inr (msgTags m) \<and>
      msgAuthorType m = idKind author \<and> msgAuthorID m = idAccountID author \<and>
      (\<exists>n k. n \<le> k \<and> chatAllowed e author n d \<and> msgCreatedAt m = clock e k) \<and>
      (\<forall>y \<in> set (messages d). msgID y \<noteq> msgID m) \<and>
      (\<forall>t \<in> set (messageTags d). \<forall>u \<in> set (tagRows m). tagMessageID t = tagMessageID u \<longrightarrow> tagPosition t \<noteq> tagPosition u) \<and>
      d' = d\<lparr>messages := messages d @ [m\<lparr>msgTags := []\<rparr>], messageTags := messageTags d @ tagRows m\<rparr>)"

lemma wp_publish_message:
  assumes "chatAllowed e author n (wdb w)" "n \<le> calls w" "content = TrimSpace content0" "content \<noteq> []"
    "RuneCount content \<le> MaxContentLen"
    and "\<And>m w'. postedAs e author content0 tags0 (wdb w) m (wdb w') \<Longrightarrow> hub w' = hub w \<Longrightarrow> Q m w'"
    and "\<And>x w'. hub w' = hub w \<Longrightarrow> E x w'"
  shows "wp e (bind (asks cfgUserName) (\<lambda>userName.
      bind (liftE (normalizeTags userName tags0)) (\<lambda>tags.
      andThen (checkRecipients author tags) (
      bind (newID ''msg_'') (\<lambda>messageID.
      CreateMessage (newMessage messageID author content tags)))))) Q E w"
proof -
  have create: "wp e (CreateMessage (newMessage i author content tags)) Q E w2"
    if "wdb w2 = wdb w" "hub w2 = hub w" "n \<le> calls w2" "normalizeTags (cfgUserName e) tags0 = Inr tags" for i tags w2
  proof (rule wp_CreateMessage, goal_cases)
    case (2 k m' w')
    have "\<exists>n k'. n \<le> k' \<and> chatAllowed e author n (wdb w) \<and> clock e k = clock e k'"
      using 2(1) assms(1) that(3) by (intro exI [of _ n] exI [of _ k]) auto
    with 2 that assms(3-5) show ?case by (intro assms(6)) (auto simp: newMessage_def postedAs_def)
  qed (use that in \<open>auto simp: newMessage_def intro: assms(7)\<close>)
  have recip: "wp e (checkRecipients author tags)
      (\<lambda>_. wp e (bind (newID ''msg_'') (\<lambda>i. CreateMessage (newMessage i author content tags))) Q E) E w"
    if "normalizeTags (cfgUserName e) tags0 = Inr tags" for tags
    by (rule wp_checkRecipients) (use assms(2,7) that in \<open>auto simp: wp_bind wp_newID dest!: idleD intro!: create\<close>)
  then show ?thesis
    by (auto simp: wp_bind wp_asks wp_liftE wp_andThen assms(7))
qed

lemma wp_post:
  assumes "\<And>m w'. postedAs e author content tags (wdb w) m (wdb w') \<Longrightarrow> hub w' = hub w \<Longrightarrow> Q m w'"
    and "\<And>x w'. hub w' = hub w \<Longrightarrow> E x w'"
  shows "wp e (post author content tags) Q E w"
proof -
  note finish = wp_publish_message [where author = author and ?content0.0 = content and ?tags0.0 = tags, OF _ _ refl]
  show ?thesis
    unfolding post_def Let_def wp_if wp_raise
  proof (intro conjI impI assms(2) refl)
    assume ok: "TrimSpace content \<noteq> []" "\<not> RuneCount (TrimSpace content) > MaxContentLen"
    then have len: "RuneCount (TrimSpace content) \<le> MaxContentLen" by simp
    show "wp e (bind (checkPermission author accChatPost ErrChatPostDisabled) (\<lambda>account.
      andThen (case account of None \<Rightarrow> ret () | Some a \<Rightarrow> checkChatLimits a) (
      bind (asks cfgUserName) (\<lambda>userName.
      bind (liftE (normalizeTags userName tags)) (\<lambda>tags.
      andThen (checkRecipients author tags) (
      bind (newID ''msg_'') (\<lambda>messageID.
      CreateMessage (newMessage messageID author (TrimSpace content) tags)))))))) Q E w"
      unfolding wp_bind [of e "checkPermission author accChatPost ErrChatPostDisabled"]
    proof (rule wp_checkPermission, goal_cases)
      case 1
      then show ?case unfolding option.case wp_andThen wp_ret
        by (intro finish [where n = 0, OF _ _ ok(1) len] assms) (auto simp: chatAllowed_def)
    next
      case (2 r t w1)
      note p = this
      show ?case unfolding option.case wp_andThen
      proof (rule wp_checkChatLimits, goal_cases)
        case (1 w2 n)
        have "accID r = idAccountID author" using p(2) by (auto dest: find_SomeD)
        then have "chatAllowed e author n (wdb w2)" "n \<le> calls w2"
          using 1 p by (auto simp: chatAllowed_def muted_def dest!: idleD)
        then show ?case
          by (intro finish [where n = n, OF _ _ ok(1) len] assms) (use 1 p in \<open>auto dest!: idleD\<close>)
      next
        case (2 x w2)
        then show ?case using p by (auto intro!: assms(2) dest!: idleD)
      qed
    next
      case (3 x w1)
      then show ?case by (auto intro!: assms(2) dest!: idleD)
    qed
  qed
qed

lemma wp_publishEvent [wp_rules]:
  "wp e (publishEvent ev) Q E w =
     ((publish ev (hub w) = None \<longrightarrow> E ErrPanic w) \<and> (\<forall>h. publish ev (hub w) = Some h \<longrightarrow> Q () (w\<lparr>hub := h\<rparr>)))"
  by (simp add: wp_def publishEvent_def split: option.splits)

lemma Post_result:
  obtains (posted) m where "fst (Post author content tags e w) \<in> {Inr m, Inl ErrPanic, Inl ErrStore}"
      "postedAs e author content tags (wdb w) m (wdb (snd (Post author content tags e w)))"
  | (refused) x where "Post author content tags e w = (Inl x, snd (Post author content tags e w))"
      "wdb (snd (Post author content tags e w)) = wdb w" "hub (snd (Post author content tags e w)) = hub w"
proof -
  let ?P = "\<lambda>r d h. (\<exists>m. r \<in> {Inr m, Inl ErrPanic, Inl ErrStore} \<and> postedAs e author content tags (wdb w) m d) \<or>
      (\<exists>x. r = Inl x \<and> d = wdb w \<and> h = hub w)"
  have tx: "wp e (postTx author content tags) (\<lambda>m w'. postedAs e author content tags (wdb w) m (wdb w') \<and> hub w' = hub w)
      (\<lambda>_ w'. hub w' = hub w) w1" if "wdb w1 = wdb w" "hub w1 = hub w" for w1
    unfolding postTx_def LockAccount_def wp_andThen
    by (auto simp: wp_rules that intro!: wp_post split: if_splits)
  have "wp e (Post author content tags) (\<lambda>m w'. ?P (Inr m) (wdb w') (hub w')) (\<lambda>x w'. ?P (Inl x) (wdb w') (hub w')) w"
    unfolding Post_def wp_bind wp_Tx
    using tx [of "bump w"]
    by (auto intro!: wp_mono [OF tx] simp: wp_andThen wp_ret wp_publishEvent)
  then have "?P (fst (Post author content tags e w)) (wdb (snd (Post author content tags e w))) (hub (snd (Post author content tags e w)))"
    by (auto simp: wp_def split: prod.splits sum.splits)
  then show ?thesis using that by (metis prod.collapse)
qed

section \<open>The rate limit\<close>

definition inWindow :: "string \<Rightarrow> int \<Rightarrow> time \<Rightarrow> db \<Rightarrow> message list" where
  "inWindow acc width t d = filter (\<lambda>m. msgAuthorType m = AuthorAccount \<and> msgAuthorID m = acc \<and>
     t - width < msgCreatedAt m \<and> msgCreatedAt m \<le> t) (messages d)"

definition rateOK :: "string \<Rightarrow> int \<Rightarrow> int \<Rightarrow> db \<Rightarrow> bool" where
  "rateOK acc width limit d = (\<forall>t. int (length (inWindow acc width t d)) \<le> limit)"

lemma length_filter_weaken: "(\<And>x. P x \<Longrightarrow> Q x) \<Longrightarrow> length (filter P xs) \<le> length (filter Q xs)"
  by (induction xs) (auto simp: le_SucI)

lemma inWindow_recent: "t - width \<ge> since \<Longrightarrow> length (inWindow acc width t d) \<le> length (recentPosts acc since d)"
  unfolding inWindow_def recentPosts_def by (rule length_filter_weaken) auto

text \<open>
  (C12) No account ever gets more than its \<^verbatim>\<open>chat_rate_count\<close> messages into any window of \<^verbatim>\<open>chat_rate_minutes\<close>,
  whoever posts: if that holds before \<^verbatim>\<open>Post\<close>, it holds after it, with a clock that does not run backwards.
\<close>

theorem Post_respects_rate:
  assumes "mono (clock e)" "accountRow (wdb w) acc = Some r"
    and "rateOK acc (accChatRateMinutes r * minuteNanos) (accChatRateCount r) (wdb w)"
  shows "rateOK acc (accChatRateMinutes r * minuteNanos) (accChatRateCount r) (wdb (snd (Post author content tags e w)))"
proof (rule Post_result [of author content tags e w])
  fix m
  assume p: "postedAs e author content tags (wdb w) m (wdb (snd (Post author content tags e w)))"
  let ?d' = "wdb (snd (Post author content tags e w))"
  let ?W = "accChatRateMinutes r * minuteNanos"
  have d': "messages ?d' = messages (wdb w) @ [m\<lparr>msgTags := []\<rparr>]" using p by (simp add: postedAs_def)
  show ?thesis
  proof (cases "msgAuthorType m = AuthorAccount \<and> msgAuthorID m = acc")
    case False
    then show ?thesis using assms(3) by (auto simp: rateOK_def inWindow_def d')
  next
    case True
    then have a: "\<not> IsUser author" "idAccountID author = acc" using p by (auto simp: postedAs_def IsUser_def)
    from p obtain n k where nk: "n \<le> k" "chatAllowed e author n (wdb w)" "msgCreatedAt m = clock e k"
      by (auto simp: postedAs_def)
    then have few: "int (length (recentPosts acc (clock e n - ?W) (wdb w))) < accChatRateCount r"
      using a assms(2) by (auto simp: chatAllowed_def)
    have now: "clock e n \<le> msgCreatedAt m" using nk assms(1) by (simp add: monoD)
    show ?thesis unfolding rateOK_def
    proof
      fix t
      show "int (length (inWindow acc ?W t ?d')) \<le> accChatRateCount r"
      proof (cases "msgCreatedAt m \<le> t")
        case True
        then have "length (inWindow acc ?W t (wdb w)) \<le> length (recentPosts acc (clock e n - ?W) (wdb w))"
          using now by (intro inWindow_recent) simp
        with few show ?thesis by (simp add: inWindow_def d')
      next
        case False
        then show ?thesis using assms(3) by (simp add: inWindow_def d' rateOK_def)
      qed
    qed
  qed
next
  fix x
  assume "wdb (snd (Post author content tags e w)) = wdb w"
  then show ?thesis using assms(3) by simp
qed

end
