(* ===== verification/Views.thy ===== *)
theory Views
  imports Trading Messages
begin

text \<open>
  \<^verbatim>\<open>backend/internal/api/views.go\<close> and the view types of the other files of the package: what the HTTP API
  shows of the stored rows.  A view is the struct that is marshalled; \<^verbatim>\<open>omitempty\<close> only drops zero values
  from the text.  Amounts are rounded to eight decimals on the way out.
\<close>

section \<open>Numbers\<close>

text \<open>\<^verbatim>\<open>math.Round\<close>: the nearest integer, halves away from zero; it is always representable.\<close>

definition Round :: "float64 \<Rightarrow> float64" where
  "Round a = (case a of
     Fin x \<Rightarrow> Fin (if x < 0 then - of_int \<lfloor>1 / 2 - x\<rfloor> else of_int \<lfloor>x + 1 / 2\<rfloor>)
   | _ \<Rightarrow> a)"

definition roundView :: "float64 \<Rightarrow> float64" where
  "roundView v = Round (v * Fin 100000000) / Fin 100000000"

section \<open>Rows as the API shows them\<close>

record sourceView =
  svSessionID :: string
  svRunID :: int

definition viewSource :: "source \<Rightarrow> sourceView option" where
  "viewSource s = (if \<not> Known s then None else Some \<lparr>svSessionID = SessionID s, svRunID = RunID s\<rparr>)"

record orderView =
  ovID :: string
  ovMarket :: string
  ovSymbol :: string
  ovProduct :: string
  ovSide :: string
  ovType :: string
  ovQuantity :: float64
  ovPrice :: float64
  ovLeverage :: float64
  ovStopLoss :: float64
  ovTakeProfit :: float64
  ovReduceOnly :: bool
  ovStatus :: string
  ovPositionID :: string
  ovRejectReason :: string
  ovFilledQuantity :: float64
  ovAvgFillPrice :: float64
  ovFee :: float64
  ovRealizedPnL :: float64
  ovTrigger :: string
  ovSource :: "sourceView option"
  ovCreatedAt :: time

definition viewOrder :: "order \<Rightarrow> orderView" where
  "viewOrder o' = \<lparr>ovID = ordID o', ovMarket = ordMarket o', ovSymbol = ordSymbol o', ovProduct = ordProduct o',
     ovSide = ordSide o', ovType = ordType o', ovQuantity = roundView (ordQuantity o'),
     ovPrice = roundView (ordPrice o'), ovLeverage = ordLeverage o', ovStopLoss = roundView (ordStopLoss o'),
     ovTakeProfit = roundView (ordTakeProfit o'), ovReduceOnly = ordReduceOnly o', ovStatus = ordStatus o',
     ovPositionID = ordPositionID o', ovRejectReason = ordRejectReason o',
     ovFilledQuantity = roundView (ordFilledQuantity o'), ovAvgFillPrice = roundView (ordAvgFillPrice o'),
     ovFee = roundView (ordFee o'), ovRealizedPnL = roundView (ordRealizedPnL o'), ovTrigger = ordTrigger o',
     ovSource = viewSource (ordSource o'), ovCreatedAt = ordCreatedAt o'\<rparr>"

record positionView =
  pvID :: string
  pvMarket :: string
  pvSymbol :: string
  pvProduct :: string
  pvSide :: string
  pvQuantity :: float64
  pvEntryPrice :: float64
  pvMarkPrice :: float64
  pvLeverage :: float64
  pvMargin :: float64
  pvUnrealized :: float64
  pvStopLoss :: float64
  pvTakeProfit :: float64
  pvOpenedAt :: time
  pvStopLossSource :: "sourceView option"
  pvTakeProfitSource :: "sourceView option"

text \<open>\<^verbatim>\<open>viewPosition\<close> of the API, not the loop body of \<^verbatim>\<open>trading.Positions\<close>.\<close>

definition showPosition :: "openPosition \<Rightarrow> positionView" where
  "showPosition p = (let q = opPosition p in
     \<lparr>pvID = posID q, pvMarket = posMarket q, pvSymbol = posSymbol q, pvProduct = posProduct q,
      pvSide = posSide q, pvQuantity = roundView (posQuantity q), pvEntryPrice = roundView (posEntryPrice q),
      pvMarkPrice = roundView (opMarkPrice p), pvLeverage = posLeverage q, pvMargin = roundView (posMargin q),
      pvUnrealized = roundView (opUnrealized p), pvStopLoss = roundView (posStopLoss q),
      pvTakeProfit = roundView (posTakeProfit q), pvOpenedAt = posCreatedAt q,
      pvStopLossSource = viewSource (posStopLossSource q),
      pvTakeProfitSource = viewSource (posTakeProfitSource q)\<rparr>)"

record tradeView =
  tvID :: string
  tvOrderID :: string
  tvMarket :: string
  tvSymbol :: string
  tvProduct :: string
  tvSide :: string
  tvRole :: string
  tvQuantity :: float64
  tvPrice :: float64
  tvFee :: float64
  tvRealizedPnL :: float64
  tvSource :: "sourceView option"
  tvCreatedAt :: time

definition viewTrade :: "trade \<Rightarrow> tradeView" where
  "viewTrade t = \<lparr>tvID = trdID t, tvOrderID = trdOrderID t, tvMarket = trdMarket t, tvSymbol = trdSymbol t,
     tvProduct = trdProduct t, tvSide = trdSide t, tvRole = trdRole t, tvQuantity = roundView (trdQuantity t),
     tvPrice = roundView (trdPrice t), tvFee = roundView (trdFee t), tvRealizedPnL = roundView (trdRealizedPnL t),
     tvSource = viewSource (trdSource t), tvCreatedAt = trdCreatedAt t\<rparr>"

record ledgerEntryView =
  lvSeq :: int
  lvEvent :: string
  lvOrderID :: string
  lvTradeID :: string
  lvPositionID :: string
  lvTrigger :: string
  lvQuantity :: float64
  lvPrice :: float64
  lvFee :: float64
  lvRealizedPnL :: float64
  lvBalanceDelta :: float64
  lvBalanceAfter :: float64
  lvStopLoss :: float64
  lvTakeProfit :: float64
  lvSource :: "sourceView option"
  lvCreatedAt :: time

definition viewLedgerEntry :: "ledgerEntry \<Rightarrow> ledgerEntryView" where
  "viewLedgerEntry l = \<lparr>lvSeq = ledSeq l, lvEvent = ledEvent l, lvOrderID = ledOrderID l, lvTradeID = ledTradeID l,
     lvPositionID = ledPositionID l, lvTrigger = ledTrigger l, lvQuantity = roundView (ledQuantity l),
     lvPrice = roundView (ledPrice l), lvFee = roundView (ledFee l), lvRealizedPnL = roundView (ledRealizedPnL l),
     lvBalanceDelta = roundView (ledBalanceDelta l), lvBalanceAfter = roundView (ledBalanceAfter l),
     lvStopLoss = roundView (ledStopLoss l), lvTakeProfit = roundView (ledTakeProfit l),
     lvSource = viewSource (ledSource l), lvCreatedAt = ledCreatedAt l\<rparr>"

record accountView =
  avID :: string
  avUserName :: string
  avInitialBalance :: float64
  avBalance :: float64
  avStatus :: string
  avCreatedAt :: time
  avToken :: string
  avMaxDD :: "float64 option"
  avMaxDDBaselineEquity :: "float64 option"
  avMaxDDStoppedAt :: "time option"
  avMaxDDLossLimit :: "float64 option"
  avMaxDDEquityFloor :: "float64 option"
  avChatRead :: bool
  avChatPost :: bool
  avChatReadSince :: "time option"
  avChatMutedUntil :: "time option"
  avChatMuteReason :: "string option"
  avChatRateMinutes :: int
  avChatRateCount :: int

definition accountViewAt :: "account \<Rightarrow> bool \<Rightarrow> bool \<Rightarrow> accountView" where
  "accountViewAt a includeToken mutedNow =
     (let limits = (case (accMaxDD a, accMaxDDBaselineEquity a) of
            (Some m, Some b) \<Rightarrow> Some (DrawdownLimits (accInitialBalance a) b m) | _ \<Rightarrow> None)
      in \<lparr>avID = accID a, avUserName = accUserName a, avInitialBalance = accInitialBalance a,
          avBalance = accBalance a, avStatus = accStatus a, avCreatedAt = accCreatedAt a,
          avToken = (if includeToken then accToken a else []),
          avMaxDD = accMaxDD a, avMaxDDBaselineEquity = accMaxDDBaselineEquity a,
          avMaxDDStoppedAt = accMaxDDStoppedAt a,
          avMaxDDLossLimit = map_option LossLimit limits, avMaxDDEquityFloor = map_option EquityFloor limits,
          avChatRead = accChatRead a, avChatPost = accChatPost a, avChatReadSince = accChatReadSince a,
          avChatMutedUntil = (if mutedNow then accChatMutedUntil a else None),
          avChatMuteReason = (if mutedNow then Some (accChatMuteReason a) else None),
          avChatRateMinutes = accChatRateMinutes a, avChatRateCount = accChatRateCount a\<rparr>)"

text \<open>The clock is only asked when the account carries a mute.\<close>

definition viewAccount :: "account \<Rightarrow> bool \<Rightarrow> accountView M" where
  "viewAccount a includeToken =
     (case accChatMutedUntil a of
        None \<Rightarrow> ret (accountViewAt a includeToken False)
      | Some until \<Rightarrow> bind Now (\<lambda>now. ret (accountViewAt a includeToken (until > now))))"

record selfAccountView =
  savAccount :: accountView
  savLockedMargin :: float64
  savAvailable :: float64
  savUnrealized :: float64
  savEquity :: float64

record messageView =
  mvID :: string
  mvUserName :: string
  mvContent :: string
  mvTags :: "string list"
  mvCreatedAt :: time

definition toMessageView :: "view \<Rightarrow> messageView" where
  "toMessageView v = \<lparr>mvID = vwID v, mvUserName = vwUserName v, mvContent = vwContent v, mvTags = vwTags v,
     mvCreatedAt = vwCreatedAt v\<rparr>"

record identityView =
  ivKind :: string
  ivUserName :: string
  ivAccountID :: string

end
