(* ===== verification/Api.thy ===== *)
theory Api
  imports Views Accounts
begin

text \<open>
  \<^verbatim>\<open>backend/internal/api\<close>: the HTTP interface.  gin (a third-party router) has matched the path and the
  method of the request to an \<open>endpoint\<close> and bound the JSON body to the request struct; a handler yields
  the response.  The human-readable \<^verbatim>\<open>message\<close> of an error response is left out, its code is kept.
  \<^verbatim>\<open>guardOf\<close> is the route table of \<^verbatim>\<open>registerRoutes\<close>.
\<close>

section \<open>Requests and responses\<close>

text \<open>The body of a request: none, one that does not bind, or the bound struct.\<close>

datatype 'a payload = NoBody | BadJSON | Json 'a

definition bindJSON :: "'a payload \<Rightarrow> 'a option" where
  "bindJSON p = (case p of Json a \<Rightarrow> Some a | _ \<Rightarrow> None)"

text \<open>\<^verbatim>\<open>if c.Request.ContentLength != 0 { ShouldBindJSON }\<close>: without a body the struct keeps its zero value.\<close>

definition bindOptional :: "'a \<Rightarrow> 'a payload \<Rightarrow> 'a option" where
  "bindOptional zero p = (case p of Json a \<Rightarrow> Some a | NoBody \<Rightarrow> Some zero | BadJSON \<Rightarrow> None)"

datatype body =
    Empty | ErrorBody string | HealthBody string string
  | IdentityBody identityView
  | AccountBody accountView | AccountsBody "accountView list" | SelfBody selfAccountView
  | OrderBody orderView | OrdersBody "orderView list"
  | PositionBody positionView | PositionsBody "positionView list"
  | TradesBody "tradeView list" | EntriesBody "ledgerEntryView list"
  | MessageBody messageView | MessagesBody "messageView list" int bool
  | PriceBody float64

record response =
  status :: nat
  rbody :: body

definition fail :: "nat \<Rightarrow> string \<Rightarrow> response" where
  "fail code err = \<lparr>status = code, rbody = ErrorBody err\<rparr>"

definition ok :: "nat \<Rightarrow> body \<Rightarrow> response M" where
  "ok code b = ret \<lparr>status = code, rbody = b\<rparr>"

definition answer :: "(err \<Rightarrow> response) \<Rightarrow> 'a M \<Rightarrow> ('a \<Rightarrow> response M) \<Rightarrow> response M" where
  "answer onError m k = bind (attempt m) (\<lambda>r. case r of Inl x \<Rightarrow> ret (onError x) | Inr a \<Rightarrow> k a)"

definition orFail :: "response + 'a \<Rightarrow> ('a \<Rightarrow> response M) \<Rightarrow> response M" where
  "orFail r k = (case r of Inl resp \<Rightarrow> ret resp | Inr a \<Rightarrow> k a)"

section \<open>Errors\<close>

definition writeAccountError :: "err \<Rightarrow> response" where
  "writeAccountError x =
     (if x = ErrNotFound then fail 404 ''not_found''
      else if x = ErrTradingNotStopped then fail 409 ''trading_not_stopped''
      else if x = ErrNameTaken then fail 409 ''name_taken''
      else if x = ErrLiquidationPending then fail 409 ''liquidation_pending''
      else if x \<in> set [ErrInvalidName, ErrInvalidBalance, ErrInvalidStatus, ErrInvalidChatMute,
                       ErrInvalidChatRate, ErrInvalidMaxDD] then fail 400 ''invalid_request''
      else fail 500 ''internal_error'')"

definition isValidationError :: "err \<Rightarrow> bool" where
  "isValidationError x = (x \<in> set [ErrInvalidProduct, ErrInvalidSide, ErrInvalidType, ErrInvalidQuantity,
     ErrInvalidPrice, ErrInvalidLeverage, ErrSpotLeverage, ErrSpotShort, ErrInvalidStopLoss, ErrCloseTooMuch,
     ErrLeverageLocked, ErrNoStopChange])"

definition writeTradingError :: "err \<Rightarrow> response" where
  "writeTradingError x =
     (if x = ErrNotFound then fail 404 ''not_found''
      else if x = ErrPositionClosed then fail 404 ''not_found''
      else if x = ErrInsufficient then fail 422 ''insufficient_balance''
      else if x = ErrAccountDisabled then fail 403 ''account_disabled''
      else if x = ErrMaxDDStopped then fail 409 ''max_dd_stopped''
      else if x = ErrMaxDDInconsistent then fail 409 ''max_dd_inconsistent''
      else if x = ErrRiskPriceUnavailable then fail 503 ''risk_price_unavailable''
      else if x = ErrOrderNotOpen then fail 409 ''order_not_open''
      else if x = ErrEmptySymbol \<or> x = ErrUnknownMarket then fail 400 ''invalid_request''
      else if x = ErrNotImplemented then fail 501 ''not_implemented''
      else if x = ErrTimeout then fail 504 ''market_timeout''
      else if isValidationError x then fail 400 ''invalid_request''
      else fail 500 ''internal_error'')"

definition writeMessageError :: "err \<Rightarrow> response" where
  "writeMessageError x =
     (if x \<in> set [ErrEmptyContent, ErrContentLong, ErrInvalidSort, ErrInvalidPage, ErrInvalidTag, ErrInvalidTags,
                 ErrUnknownTag, ErrSelfTag, ErrInvalidAfter, ErrInvalidLimit, ErrInvalidBefore]
      then fail 400 ''invalid_request''
      else if x = ErrChatPostDisabled then fail 403 ''chat_post_disabled''
      else if x = ErrChatReadDisabled then fail 403 ''chat_read_disabled''
      else if x = ErrChatMuted then fail 403 ''chat_muted''
      else if x = ErrChatRateLimited then fail 429 ''chat_rate_limited''
      else if x = ErrForbidden then fail 403 ''forbidden''
      else if x = ErrNotFound then fail 404 ''not_found''
      else fail 500 ''internal_error'')"

text \<open>A request whose own context was cancelled is aborted without a body.\<close>

definition writeMarketError :: "err \<Rightarrow> response" where
  "writeMarketError x =
     (if x = ErrEmptySymbol \<or> x = ErrUnknownMarket then fail 400 ''invalid_request''
      else if x = ErrUnsupportedInterval then fail 400 ''unsupported_interval''
      else if x = ErrInvalidTimeRange \<or> x = ErrInvalidOHLCVLimit then fail 400 ''invalid_request''
      else if x = ErrReadUnsupported then fail 501 ''not_implemented''
      else if x = ErrUnknownSymbol then fail 404 ''symbol_not_found''
      else if x = ErrNotImplemented then fail 501 ''not_implemented''
      else if x = ErrTimeout \<or> x = ErrDeadlineExceeded then fail 504 ''market_timeout''
      else if x = ErrClosed then fail 503 ''shutting_down''
      else if x = ErrInvalidSourceData then fail 502 ''market_response_invalid''
      else if x = ErrCanceled then \<lparr>status = 200, rbody = Empty\<rparr>
      else fail 502 ''market_unavailable'')"

section \<open>Identity\<close>

definition authenticate :: "bool \<Rightarrow> string \<Rightarrow> (response + identity option) M" where
  "authenticate allowAnonymous header =
     bind (attempt (Resolve (BearerToken header))) (\<lambda>r.
     (case r of
        Inr i \<Rightarrow> ret (Inr (Some i))
      | Inl x \<Rightarrow>
          if x = ErrNoToken then
            (if allowAnonymous then ret (Inr None) else ret (Inl (fail 401 ''unauthorized'')))
          else if x = ErrInvalidToken then ret (Inl (fail 401 ''unauthorized''))
          else ret (Inl (fail 500 ''internal_error''))))"

definition requireUser :: "string \<Rightarrow> (identity option \<Rightarrow> response M) \<Rightarrow> response M" where
  "requireUser header k =
     bind (authenticate False header) (\<lambda>r. orFail r (\<lambda>i.
     (case i of
        Some who \<Rightarrow> if IsUser who then k i else ret (fail 403 ''forbidden'')
      | None \<Rightarrow> ret (fail 403 ''forbidden''))))"

definition requireAny :: "string \<Rightarrow> (identity option \<Rightarrow> response M) \<Rightarrow> response M" where
  "requireAny header k = bind (authenticate False header) (\<lambda>r. orFail r k)"

definition optionalAuth :: "string \<Rightarrow> (identity option \<Rightarrow> response M) \<Rightarrow> response M" where
  "optionalAuth header k = bind (authenticate True header) (\<lambda>r. orFail r k)"

definition isAgentService :: "env \<Rightarrow> string \<Rightarrow> bool" where
  "isAgentService e header =
     (let token = BearerToken header
      in length (filter (\<lambda>c. c = CHR ''.'') token) \<noteq> 2 \<and> cfgAgentToken e \<noteq> [] \<and> token = cfgAgentToken e)"

definition allowAgentService :: "string \<Rightarrow> (identity option \<Rightarrow> response M) \<Rightarrow> response M \<Rightarrow> response M" where
  "allowAgentService header k fallback =
     bind (asks (\<lambda>e. isAgentService e header)) (\<lambda>agent. if agent then k None else fallback)"

definition ownAccount :: "identity option \<Rightarrow> response + string" where
  "ownAccount i =
     (case i of
        None \<Rightarrow> Inl (fail 403 ''forbidden'')
      | Some who \<Rightarrow> if IsUser who then Inl (fail 403 ''forbidden'') else Inr (idAccountID who))"

definition me :: "identity option \<Rightarrow> response M" where
  "me i = (case i of
     None \<Rightarrow> ret (fail 401 ''unauthorized'')
   | Some who \<Rightarrow> ok 200 (IdentityBody \<lparr>ivKind = idKind who, ivUserName = idUserName who, ivAccountID = idAccountID who\<rparr>))"

section \<open>Query parameters\<close>

type_synonym params = "(string \<times> string) list"

definition Query :: "params \<Rightarrow> string \<Rightarrow> string" where
  "Query ps name = (case map_of ps name of None \<Rightarrow> [] | Some v \<Rightarrow> v)"

definition DefaultQuery :: "params \<Rightarrow> string \<Rightarrow> string \<Rightarrow> string" where
  "DefaultQuery ps name fallback = (case map_of ps name of None \<Rightarrow> fallback | Some v \<Rightarrow> v)"

abbreviation defaultListLimit :: int where "defaultListLimit \<equiv> 50"
abbreviation maxListLimit :: int where "maxListLimit \<equiv> 200"

definition listLimit :: "params \<Rightarrow> int" where
  "listLimit ps =
     (case ParseInt (Query ps ''limit'') of
        None \<Rightarrow> defaultListLimit
      | Some limit \<Rightarrow> if limit \<le> 0 then defaultListLimit else if limit > maxListLimit then maxListLimit else limit)"

definition optionalPositiveQuery :: "params \<Rightarrow> string \<Rightarrow> response + int" where
  "optionalPositiveQuery ps name =
     (let raw = Query ps name
      in if raw = [] then Inr 0
         else case ParseInt raw of
                None \<Rightarrow> Inl (fail 400 ''invalid_request'')
              | Some v \<Rightarrow> if v \<le> 0 then Inl (fail 400 ''invalid_request'') else Inr v)"

section \<open>Accounts\<close>

definition withAccount :: "account M \<Rightarrow> nat \<Rightarrow> response M" where
  "withAccount m code = answer writeAccountError m (\<lambda>acc. bind (viewAccount acc True) (\<lambda>v. ok code (AccountBody v)))"

definition createAccount :: "createInput payload \<Rightarrow> response M" where
  "createAccount p = (case bindJSON p of
     None \<Rightarrow> ret (fail 400 ''invalid_request'') | Some req \<Rightarrow> withAccount (Create req) 201)"

fun viewAccounts :: "account list \<Rightarrow> accountView list M" where
  "viewAccounts [] = ret []"
| "viewAccounts (a # as) = bind (viewAccount a True) (\<lambda>v. bind (viewAccounts as) (\<lambda>vs. ret (v # vs)))"

definition listAccounts :: "response M" where
  "listAccounts = answer writeAccountError List (\<lambda>accs. bind (viewAccounts accs) (\<lambda>vs. ok 200 (AccountsBody vs)))"

definition getAccount :: "string \<Rightarrow> response M" where
  "getAccount i = withAccount (Get i) 200"

definition updateAccount :: "string \<Rightarrow> updateInput payload \<Rightarrow> response M" where
  "updateAccount i p = (case bindJSON p of
     None \<Rightarrow> ret (fail 400 ''invalid_request'')
   | Some req \<Rightarrow>
       if uiUserName req = None \<and> uiStatus req = None \<and> uiChatRead req = None \<and> uiChatPost req = None \<and>
          uiChatRateMinutes req = None \<and> uiChatRateCount req = None
       then ret (fail 400 ''invalid_request'') else withAccount (Update i req) 200)"

definition deleteAccount :: "string \<Rightarrow> response M" where
  "deleteAccount i = answer writeAccountError (Delete i) (\<lambda>_. ok 204 Empty)"

definition muteAccountChat :: "string \<Rightarrow> (int \<times> string) payload \<Rightarrow> response M" where
  "muteAccountChat i p = (case bindJSON p of
     None \<Rightarrow> ret (fail 400 ''invalid_request'')
   | Some (minutes, reason) \<Rightarrow> withAccount (MuteChat i minutes reason) 200)"

definition unmuteAccountChat :: "string \<Rightarrow> response M" where
  "unmuteAccountChat i = withAccount (UnmuteChat i) 200"

definition resetAccountToken :: "string \<Rightarrow> response M" where
  "resetAccountToken i = withAccount (ResetToken i) 200"

definition resumeAccountTrading :: "string \<Rightarrow> response M" where
  "resumeAccountTrading i = withAccount (ResumeTrading i) 200"

definition selfAccount :: "identity option \<Rightarrow> response M" where
  "selfAccount who = orFail (ownAccount who) (\<lambda>accountID.
     answer writeAccountError (Get accountID) (\<lambda>acc.
     answer writeTradingError (Summary accountID) (\<lambda>summary.
     bind (viewAccount acc False) (\<lambda>v.
     ok 200 (SelfBody \<lparr>savAccount = v, savLockedMargin = roundView (smLockedMargin summary),
       savAvailable = roundView (smAvailable summary), savUnrealized = roundView (smUnrealized summary),
       savEquity = roundView (smEquity summary)\<rparr>)))))"

section \<open>Trading\<close>

record sourceRequest =
  srSessionID :: "string option"
  srRunID :: "int option"

definition parseSource :: "sourceRequest option \<Rightarrow> response + source" where
  "parseSource req =
     (case req of
        None \<Rightarrow> Inr noSource
      | Some r \<Rightarrow>
          (case (srSessionID r, srRunID r) of
             (Some s, Some run) \<Rightarrow>
               let sessionID = TrimSpace s
               in if sessionID = [] \<or> length sessionID > 64 \<or> run \<le> 0 then Inl (fail 400 ''invalid_request'')
                  else Inr \<lparr>SessionID = sessionID, RunID = run\<rparr>
           | _ \<Rightarrow> Inl (fail 400 ''invalid_request'')))"

record placeOrderRequest =
  porMarket :: string
  porSymbol :: string
  porProduct :: string
  porSide :: string
  porType :: string
  porQuantity :: float64
  porPrice :: float64
  porLeverage :: float64
  porStopLoss :: float64
  porTakeProfit :: float64
  porSource :: "sourceRequest option"

definition placeOrder :: "identity option \<Rightarrow> placeOrderRequest payload \<Rightarrow> response M" where
  "placeOrder who p = orFail (ownAccount who) (\<lambda>accountID.
     (case bindJSON p of
        None \<Rightarrow> ret (fail 400 ''invalid_request'')
      | Some req \<Rightarrow> orFail (parseSource (porSource req)) (\<lambda>source.
          answer writeTradingError (PlaceOrder accountID
            \<lparr>inMarket = porMarket req, inSymbol = porSymbol req, inProduct = porProduct req, inSide = porSide req,
             inType = porType req, inQuantity = porQuantity req, inPrice = porPrice req,
             inLeverage = porLeverage req, inStopLoss = porStopLoss req, inTakeProfit = porTakeProfit req,
             inSource = source\<rparr>) (\<lambda>order. ok 201 (OrderBody (viewOrder order))))))"

definition closePosition :: "identity option \<Rightarrow> string \<Rightarrow> (float64 \<times> sourceRequest option) payload \<Rightarrow> response M" where
  "closePosition who i p = orFail (ownAccount who) (\<lambda>accountID.
     (case bindOptional (0, None) p of
        None \<Rightarrow> ret (fail 400 ''invalid_request'')
      | Some (quantity, src) \<Rightarrow> orFail (parseSource src) (\<lambda>source.
          answer writeTradingError (ClosePosition accountID i quantity source)
            (\<lambda>order. ok 200 (OrderBody (viewOrder order))))))"

text \<open>The stops are committed: a missing quote afterwards only leaves the mark price at zero.\<close>

definition markedPosition :: "position \<Rightarrow> openPosition M" where
  "markedPosition pos =
     bind (attempt (GetPrice (posMarket pos) (posSymbol pos))) (\<lambda>r.
     (case r of
        Inl _ \<Rightarrow> ret \<lparr>opPosition = pos, opMarkPrice = 0, opUnrealized = 0\<rparr>
      | Inr price \<Rightarrow> ret \<lparr>opPosition = pos, opMarkPrice = price, opUnrealized = Unrealized pos price\<rparr>))"

definition setStops ::
    "identity option \<Rightarrow> string \<Rightarrow> (float64 option \<times> float64 option \<times> sourceRequest option) payload \<Rightarrow> response M" where
  "setStops who i p = orFail (ownAccount who) (\<lambda>accountID.
     (case bindJSON p of
        None \<Rightarrow> ret (fail 400 ''invalid_request'')
      | Some (sl, tp, src) \<Rightarrow> orFail (parseSource src) (\<lambda>source.
          answer writeTradingError (SetStops accountID i \<lparr>siStopLoss = sl, siTakeProfit = tp, siSource = source\<rparr>) (\<lambda>pos.
          bind (markedPosition pos) (\<lambda>view. ok 200 (PositionBody (showPosition view)))))))"

definition cancelOrder :: "identity option \<Rightarrow> string \<Rightarrow> sourceRequest option payload \<Rightarrow> response M" where
  "cancelOrder who i p = orFail (ownAccount who) (\<lambda>accountID.
     (case bindOptional None p of
        None \<Rightarrow> ret (fail 400 ''invalid_request'')
      | Some src \<Rightarrow> orFail (parseSource src) (\<lambda>source.
          answer writeTradingError (CancelOrder accountID i source) (\<lambda>order. ok 200 (OrderBody (viewOrder order))))))"

definition ledgerFor :: "params \<Rightarrow> string \<Rightarrow> response M" where
  "ledgerFor ps accountID =
     orFail (optionalPositiveQuery ps ''run_id'') (\<lambda>runID.
     orFail (optionalPositiveQuery ps ''before_seq'') (\<lambda>beforeSeq.
     answer writeTradingError (ListLedger accountID \<lparr>lfSessionID = TrimSpace (Query ps ''session_id''),
       lfRunID = runID, lfBeforeSeq = beforeSeq, lfLimit = nat (listLimit ps)\<rparr>) (\<lambda>entries.
     ok 200 (EntriesBody (map viewLedgerEntry entries)))))"

definition listLedger :: "identity option \<Rightarrow> params \<Rightarrow> response M" where
  "listLedger who ps = orFail (ownAccount who) (ledgerFor ps)"

definition userListLedger :: "params \<Rightarrow> string \<Rightarrow> response M" where
  "userListLedger ps i = ledgerFor ps i"

definition positionsFor :: "params \<Rightarrow> string \<Rightarrow> response M" where
  "positionsFor ps accountID = answer writeTradingError (Positions accountID (Query ps ''product'')) (\<lambda>held.
     ok 200 (PositionsBody (map showPosition held)))"

definition listPositions :: "identity option \<Rightarrow> params \<Rightarrow> response M" where
  "listPositions who ps = orFail (ownAccount who) (positionsFor ps)"

definition userListPositions :: "params \<Rightarrow> string \<Rightarrow> response M" where
  "userListPositions ps i = positionsFor ps i"

definition ordersFor :: "params \<Rightarrow> string \<Rightarrow> response M" where
  "ordersFor ps accountID =
     answer writeTradingError (Orders accountID (Query ps ''status'') (nat (listLimit ps))) (\<lambda>os.
     ok 200 (OrdersBody (map viewOrder os)))"

definition listOrders :: "identity option \<Rightarrow> params \<Rightarrow> response M" where
  "listOrders who ps = orFail (ownAccount who) (ordersFor ps)"

definition userListOrders :: "params \<Rightarrow> string \<Rightarrow> response M" where
  "userListOrders ps i = ordersFor ps i"

definition getOrder :: "identity option \<Rightarrow> string \<Rightarrow> response M" where
  "getOrder who i = orFail (ownAccount who) (\<lambda>accountID.
     answer writeTradingError (Order accountID i) (\<lambda>order. ok 200 (OrderBody (viewOrder order))))"

definition tradesFor :: "params \<Rightarrow> string \<Rightarrow> response M" where
  "tradesFor ps accountID = answer writeTradingError (Trades accountID (nat (listLimit ps))) (\<lambda>ts.
     ok 200 (TradesBody (map viewTrade ts)))"

definition listTrades :: "identity option \<Rightarrow> params \<Rightarrow> response M" where
  "listTrades who ps = orFail (ownAccount who) (tradesFor ps)"

definition userListTrades :: "params \<Rightarrow> string \<Rightarrow> response M" where
  "userListTrades ps i = tradesFor ps i"

section \<open>Messages\<close>

record postMessageRequest =
  pmContent :: string
  pmTags :: "string list"
  pmAuthorID :: "string option"
  pmAuthorName :: "string option"
  pmAuthorType :: "string option"

definition postMessage :: "identity option \<Rightarrow> postMessageRequest payload \<Rightarrow> response M" where
  "postMessage who p =
     (case who of
        None \<Rightarrow> ret (fail 401 ''unauthorized'')
      | Some author \<Rightarrow>
          (case bindJSON p of
             None \<Rightarrow> ret (fail 400 ''invalid_request'')
           | Some req \<Rightarrow>
               if pmAuthorID req \<noteq> None \<or> pmAuthorName req \<noteq> None \<or> pmAuthorType req \<noteq> None
               then ret (fail 400 ''invalid_request'')
               else answer writeMessageError (Post author (pmContent req) (pmTags req)) (\<lambda>posted.
                    ok 201 (MessageBody (toMessageView (viewOf You posted))))))"

definition listParams :: "string list" where
  "listParams = [''page'', ''limit'', ''sort'', ''tag'', ''after'', ''before'']"

definition goodParams :: "params \<Rightarrow> bool" where
  "goodParams ps = (list_all (\<lambda>p. fst p \<in> set listParams) ps \<and> distinct (map fst ps))"

text \<open>A positive integer parameter that is present must parse; absent, it keeps its default.\<close>

definition positiveParam :: "params \<Rightarrow> string \<Rightarrow> int \<Rightarrow> response + int" where
  "positiveParam ps name fallback =
     (case map_of ps name of
        None \<Rightarrow> Inr fallback
      | Some raw \<Rightarrow>
          (case ParseInt (TrimSpace raw) of
             None \<Rightarrow> Inl (fail 400 ''invalid_request'')
           | Some v \<Rightarrow> if v \<le> 0 then Inl (fail 400 ''invalid_request'') else Inr v))"

definition listMessages :: "identity option \<Rightarrow> params \<Rightarrow> response M" where
  "listMessages who ps =
     (if \<not> goodParams ps then ret (fail 400 ''invalid_request'') else
      orFail (positiveParam ps ''page'' 1) (\<lambda>page.
      orFail (positiveParam ps ''limit'' 0) (\<lambda>limit.
      answer writeMessageError (ListChat \<lparr>qPage = page, qLimit = limit, qSort = Query ps ''sort'', qTag = Query ps ''tag'',
        qAfter = Query ps ''after'', qBefore = Query ps ''before''\<rparr> who) (\<lambda>(views, hasMore).
      ok 200 (MessagesBody (map toMessageView views) page hasMore)))))"

definition deleteMessage :: "identity option \<Rightarrow> string \<Rightarrow> response M" where
  "deleteMessage who i =
     (let requester = (case who of None \<Rightarrow> \<lparr>idKind = [], idAccountID = [], idUserName = []\<rparr> | Some r \<Rightarrow> r)
      in answer writeMessageError (DeleteChat i requester) (\<lambda>_. ok 204 Empty))"

definition clearMessages :: "response M" where
  "clearMessages = answer writeMessageError ClearChat (\<lambda>_. ok 204 Empty)"

section \<open>Market and health\<close>

definition marketPrice :: "params \<Rightarrow> response M" where
  "marketPrice ps = answer writeMarketError (GetPrice (DefaultQuery ps ''market'' Crypto) (Query ps ''symbol''))
     (\<lambda>price. ok 200 (PriceBody price))"

definition Ping :: "unit M" where
  "Ping = dbread (\<lambda>e d. Inr ())"

text \<open>The response also carries the version of the build, which is left out.\<close>

definition health :: "response M" where
  "health = bind (attempt Ping) (\<lambda>r. case r of
       Inl x \<Rightarrow> bind (errorText x) (\<lambda>why. ret \<lparr>status = 503, rbody = HealthBody ''degraded'' why\<rparr>)
     | Inr _ \<Rightarrow> bind (asks postgres) (\<lambda>pg. ok 200 (HealthBody ''ok'' (if pg then ''postgres'' else ''sqlite''))))"

section \<open>Routes\<close>

text \<open>
  The routes of \<^verbatim>\<open>router.go\<close> but for the stream of messages, which is socket I/O around \<open>Streams\<close>, and the list of
  subscriptions, which reads the market runtime; both have the guard of the other endpoints of the USER.  The routes of
  candles and market information are in \<open>MarketApi\<close>.
\<close>

datatype endpoint =
    Health | Me | GetAccount string
  | CreateAccountAt "createInput payload" | ListAccountsAt | UpdateAccountAt string "updateInput payload"
  | MuteAt string "(int \<times> string) payload" | UnmuteAt string | DeleteAccountAt string | ResetTokenAt string
  | ResumeAt string
  | UserPositions string | UserOrders string | UserTrades string | UserLedger string
  | SelfAccount | MarketPrice
  | PlaceOrderAt "placeOrderRequest payload" | ListOrdersAt | GetOrderAt string
  | CancelOrderAt string "sourceRequest option payload" | ListPositionsAt
  | ClosePositionAt string "(float64 \<times> sourceRequest option) payload"
  | SetStopsAt string "(float64 option \<times> float64 option \<times> sourceRequest option) payload"
  | ListTradesAt | ListLedgerAt
  | ListMessagesAt | PostMessageAt "postMessageRequest payload" | ClearMessagesAt | DeleteMessageAt string

datatype guard = Open | AnyToken | UserOnly | OptionalToken | AgentOrUser | AgentOrAny

fun guardOf :: "endpoint \<Rightarrow> guard" where
  "guardOf Health = Open"
| "guardOf Me = AnyToken"
| "guardOf (GetAccount _) = AgentOrUser"
| "guardOf (CreateAccountAt _) = UserOnly"
| "guardOf ListAccountsAt = UserOnly"
| "guardOf (UpdateAccountAt _ _) = UserOnly"
| "guardOf (MuteAt _ _) = UserOnly"
| "guardOf (UnmuteAt _) = UserOnly"
| "guardOf (DeleteAccountAt _) = UserOnly"
| "guardOf (ResetTokenAt _) = UserOnly"
| "guardOf (ResumeAt _) = UserOnly"
| "guardOf (UserPositions _) = UserOnly"
| "guardOf (UserOrders _) = UserOnly"
| "guardOf (UserTrades _) = UserOnly"
| "guardOf (UserLedger _) = UserOnly"
| "guardOf MarketPrice = AgentOrAny"
| "guardOf ListMessagesAt = OptionalToken"
| "guardOf ClearMessagesAt = UserOnly"
| "guardOf _ = AnyToken"

fun handle :: "params \<Rightarrow> endpoint \<Rightarrow> identity option \<Rightarrow> response M" where
  "handle ps Health who = health"
| "handle ps Me who = me who"
| "handle ps (GetAccount i) who = getAccount i"
| "handle ps (CreateAccountAt p) who = createAccount p"
| "handle ps ListAccountsAt who = listAccounts"
| "handle ps (UpdateAccountAt i p) who = updateAccount i p"
| "handle ps (MuteAt i p) who = muteAccountChat i p"
| "handle ps (UnmuteAt i) who = unmuteAccountChat i"
| "handle ps (DeleteAccountAt i) who = deleteAccount i"
| "handle ps (ResetTokenAt i) who = resetAccountToken i"
| "handle ps (ResumeAt i) who = resumeAccountTrading i"
| "handle ps (UserPositions i) who = userListPositions ps i"
| "handle ps (UserOrders i) who = userListOrders ps i"
| "handle ps (UserTrades i) who = userListTrades ps i"
| "handle ps (UserLedger i) who = userListLedger ps i"
| "handle ps SelfAccount who = selfAccount who"
| "handle ps MarketPrice who = marketPrice ps"
| "handle ps (PlaceOrderAt p) who = placeOrder who p"
| "handle ps ListOrdersAt who = listOrders who ps"
| "handle ps (GetOrderAt i) who = getOrder who i"
| "handle ps (CancelOrderAt i p) who = cancelOrder who i p"
| "handle ps ListPositionsAt who = listPositions who ps"
| "handle ps (ClosePositionAt i p) who = closePosition who i p"
| "handle ps (SetStopsAt i p) who = setStops who i p"
| "handle ps ListTradesAt who = listTrades who ps"
| "handle ps ListLedgerAt who = listLedger who ps"
| "handle ps ListMessagesAt who = listMessages who ps"
| "handle ps (PostMessageAt p) who = postMessage who p"
| "handle ps ClearMessagesAt who = clearMessages"
| "handle ps (DeleteMessageAt i) who = deleteMessage who i"

definition guarded :: "guard \<Rightarrow> string \<Rightarrow> (identity option \<Rightarrow> response M) \<Rightarrow> response M" where
  "guarded g header k =
     (case g of
        Open \<Rightarrow> k None
      | AnyToken \<Rightarrow> requireAny header k
      | UserOnly \<Rightarrow> requireUser header k
      | OptionalToken \<Rightarrow> optionalAuth header k
      | AgentOrUser \<Rightarrow> allowAgentService header k (requireUser header k)
      | AgentOrAny \<Rightarrow> allowAgentService header k (requireAny header k))"

definition serve :: "string \<Rightarrow> params \<Rightarrow> endpoint \<Rightarrow> response M" where
  "serve header ps ep = guarded (guardOf ep) header (handle ps ep)"

end
