(* ===== verification/Chat.thy ===== *)
theory Chat
  imports Messages
begin

text \<open>
  What the chat promises: the rows stay consistent, a message comes back with its tags and under each of
  them, pages and cursors walk the messages in order without gaps, and only the USER or its author
  deletes a message.
\<close>

section \<open>Rows\<close>

definition chatOK :: "db \<Rightarrow> bool" where
  "chatOK d = (distinct (map msgID (messages d)) \<and>
     (\<forall>t \<in> set (messageTags d). tagMessageID t \<in> msgID ` set (messages d)))"

lemma tagRows_id [simp]: "t \<in> set (tagRows m) \<Longrightarrow> tagMessageID t = msgID m"
  by (auto simp: tagRows_def)

lemma map_tagTag_tagRows [simp]: "map tagTag (tagRows m) = msgTags m"
proof -
  have "tagTag \<circ> (\<lambda>(p, t). \<lparr>tagMessageID = msgID m, tagPosition = p, tagTag = t\<rparr>) = snd" by (auto simp: fun_eq_iff)
  then show ?thesis by (simp add: tagRows_def)
qed

lemma sorted_pair: "sorted ps \<Longrightarrow> sorted (map (\<lambda>p. (i :: string, p :: nat)) ps)"
  by (induction ps) (auto simp: less_eq_prod_def)

lemma sorted_tagRows: "sorted (map (\<lambda>t. (tagMessageID t, tagPosition t)) (tagRows m))"
proof -
  have "(\<lambda>t. (tagMessageID t, tagPosition t)) \<circ> (\<lambda>(p, t). \<lparr>tagMessageID = msgID m, tagPosition = p, tagTag = t\<rparr>) =
      (\<lambda>p. (msgID m, p)) \<circ> fst" by (simp add: fun_eq_iff)
  then have "map (\<lambda>t. (tagMessageID t, tagPosition t)) (tagRows m) =
      map (\<lambda>p. (msgID m, p)) (map fst (enumerate 0 (msgTags m)))"
    by (simp only: tagRows_def map_map)
  also have "sorted \<dots>" by (rule sorted_pair [OF sorted_enumerate])
  finally show ?thesis .
qed

lemma postedAs_chatOK: "chatOK d \<Longrightarrow> postedAs e author content tags d m d' \<Longrightarrow> chatOK d'"
  by (auto simp: chatOK_def postedAs_def)

lemma Post_chatOK: "keeps chatOK (Post author content tags)"
  unfolding keeps_def
proof (intro allI impI)
  fix e and w :: world assume ok: "chatOK (wdb w)"
  show "chatOK (wdb (snd (Post author content tags e w)))"
    by (rule Post_result [of author content tags e w]) (use ok in \<open>auto intro: postedAs_chatOK\<close>)
qed

lemma DeleteMessage_wp:
  assumes "\<And>w'. msgID ` set (messages (wdb w)) \<noteq> {} \<Longrightarrow> i \<in> msgID ` set (messages (wdb w)) \<Longrightarrow> hub w' = hub w \<Longrightarrow>
      wdb w' = (wdb w)\<lparr>messages := filter (\<lambda>m. msgID m \<noteq> i) (messages (wdb w)),
        messageTags := filter (\<lambda>t. tagMessageID t \<noteq> i) (messageTags (wdb w))\<rparr> \<Longrightarrow> Q () w'"
    and "\<And>x w'. E x w'"
  shows "wp e (DeleteMessage i) Q E w"
  unfolding DeleteMessage_def
  by (auto simp: wp_rules list_ex_iff split del: if_split split: if_split_asm intro!: assms)

text \<open>
  (C38) Posting and reading back: a message just posted is stored once, is listed with exactly its
  normalized tags in the order they were given, and is found under each of these tags.
\<close>

theorem Post_then_list:
  assumes "chatOK (wdb w)" "Post author content tags e w = (Inr m, w')"
  shows "filter (\<lambda>x. msgID x = msgID m) (messages (wdb w')) = [m\<lparr>msgTags := []\<rparr>] \<and>
    tagsOf (wdb w') (msgID m) = msgTags m \<and>
    normalizeTags (cfgUserName e) tags = Inr (msgTags m) \<and>
    (\<forall>t \<in> set (msgTags m). t \<noteq> [] \<longrightarrow> m\<lparr>msgTags := []\<rparr> \<in> set (joinTag t (wdb w')))"
proof -
  have p: "postedAs e author content tags (wdb w) m (wdb w')"
    by (rule Post_result [of author content tags e w]) (use assms(2) in auto)
  then have fresh: "\<forall>y \<in> set (messages (wdb w)). msgID y \<noteq> msgID m"
    and d': "messages (wdb w') = messages (wdb w) @ [m\<lparr>msgTags := []\<rparr>]"
      "messageTags (wdb w') = messageTags (wdb w) @ tagRows m"
      "normalizeTags (cfgUserName e) tags = Inr (msgTags m)"
    by (auto simp: postedAs_def)
  have old: "\<forall>t \<in> set (messageTags (wdb w)). tagMessageID t \<noteq> msgID m"
    using assms(1) fresh by (auto simp: chatOK_def)
  have "filter (\<lambda>t. tagMessageID t = msgID m) (messageTags (wdb w')) = tagRows m"
    using old by (simp add: d' filter_empty_conv filter_id_conv)
  then have "tagsOf (wdb w') (msgID m) = msgTags m"
    by (simp add: tagsOf_def filter_sort sort_key_id_if_sorted [OF sorted_tagRows])
  moreover have "m\<lparr>msgTags := []\<rparr> \<in> set (joinTag t (wdb w'))" if "t \<in> set (msgTags m)" for t
  proof -
    have "t \<in> tagTag ` set (tagRows m)" using that by (metis map_tagTag_tagRows set_map)
    then show ?thesis by (force simp: joinTag_def d')
  qed
  ultimately show ?thesis using fresh d' by (simp add: filter_empty_conv)
qed

section \<open>Pages\<close>

lemma matching_page: "matching (listQuery desc l p tag b a) = matching (listQuery desc l' p' tag b a)"
  by (rule ext, cases a; cases b) (simp_all add: matching_def listQuery_def afterCursor_def beforeCursor_def)

lemma pageOf_bounds:
  assumes "pageOf q = Inr (limit, page)"
  shows "1 \<le> limit" "limit \<le> MaxLimit" "1 \<le> page" "(page - 1) * limit \<le> MaxInt"
proof -
  show l: "1 \<le> limit" and "limit \<le> MaxLimit" and "1 \<le> page"
    using assms by (auto simp: pageOf_def Let_def split: if_splits)
  have "page - 1 \<le> MaxInt div limit"
    using assms by (auto simp: pageOf_def Let_def split: if_splits)
  then have "(page - 1) * limit \<le> MaxInt div limit * limit" using l by (simp add: mult_right_mono)
  also have "\<dots> = MaxInt - MaxInt mod limit" by (simp add: minus_mod_eq_div_mult)
  also have "\<dots> \<le> MaxInt" using l by simp
  finally show "(page - 1) * limit \<le> MaxInt" .
qed

lemma wp_ListMessages:
  assumes "\<And>w'. Q (map (\<lambda>m. m\<lparr>msgTags := tagsOf (wdb w) (msgID m)\<rparr>)
      (take (nat (mqLimit q)) (drop (nat (mqOffset q)) (matching q (wdb w))))) w'"
    and "\<And>x w'. E x w'"
  shows "wp e (ListMessages q) Q E w"
proof -
  have "Q [] w'" if "take (nat (mqLimit q)) (drop (nat (mqOffset q)) (matching q (wdb w))) = []" for w'
    using assms(1) [of w'] by (simp add: that)
  then show ?thesis
    unfolding ListMessages_def by (auto simp: wp_rules assms)
qed

lemma wp_showPage:
  "wp e (showPage limit requester found) (\<lambda>r _. map vwID (fst r) =
      map msgID (if int (length found) > limit then take (nat limit) found else found) \<and>
      snd r = (int (length found) > limit)) (\<lambda>_ _. True) w"
  by (simp add: showPage_def AccountNames_def wp_rules Let_def viewOf_def comp_def)

text \<open>
  Pages partition the chat: page \<open>k\<close> of a listing without cursor shows exactly the \<open>k\<close>-th run of
  \<open>limit\<close> messages of one fixed order, and says that there is more exactly when a message is left after it.
\<close>

theorem ListChat_pages:
  assumes "ListChat q requester e w = (Inr (views, hasMore), w')"
    and "qAfter q = []" "qBefore q = []" "parseSort (qSort q) = Inr desc" "pageOf q = Inr (limit, page)"
    and every: "every = matching (listQuery desc 1 1 (TrimSpace (qTag q)) None None) (wdb w)"
  shows "map vwID views = map msgID (take (nat limit) (drop (nat ((page - 1) * limit)) every)) \<and>
    (hasMore \<longleftrightarrow> int (length every) > page * limit)"
proof -
  let ?off = "nat ((page - 1) * limit)"
  note b = pageOf_bounds [OF assms(5)]
  have off: "int ?off = (page - 1) * limit" using b by simp
  let ?found = "map (\<lambda>m. m\<lparr>msgTags := tagsOf (wdb w) (msgID m)\<rparr>) (take (nat (limit + 1)) (drop ?off every))"
  have rest: "int (length ?found) > limit \<longleftrightarrow> int (length every) > page * limit"
    using b off by (auto simp: algebra_simps min_def)
  have shown: "map msgID (if int (length ?found) > limit then take (nat limit) ?found else ?found) =
      map msgID (take (nat limit) (drop ?off every))"
  proof (cases "int (length ?found) > limit")
    case True
    then show ?thesis using b by (simp add: take_map comp_def nat_add_distrib)
  next
    case False
    then have "length (drop ?off every) \<le> nat limit" using b by (auto simp: min_def split: if_splits)
    then show ?thesis using False b by (simp add: comp_def)
  qed
  have q: "matching (listQuery desc limit page (TrimSpace (qTag q)) None None) (wdb w) = every"
    unfolding every by (metis matching_page)
  let ?Q = "\<lambda>r (_ :: world). map vwID (fst r) = map msgID (take (nat limit) (drop ?off every)) \<and>
      (snd r \<longleftrightarrow> int (length every) > page * limit)"
  have fin: "wp e (bind (ListMessages (listQuery desc limit page (TrimSpace (qTag q)) None None)) (showPage limit requester))
      ?Q (\<lambda>_ _. True) w1" if "wdb w1 = wdb w" for w1
    unfolding wp_bind
  proof (rule wp_ListMessages, goal_cases)
    case (1 w2)
    have "wp e (showPage limit requester ?found) ?Q (\<lambda>_ _. True) w2"
      by (rule wp_mono [OF wp_showPage]) (use shown rest in auto)
    moreover have "mqLimit (listQuery desc limit page (TrimSpace (qTag q)) None None) = limit + 1"
      "mqOffset (listQuery desc limit page (TrimSpace (qTag q)) None None) = (page - 1) * limit"
      by (simp_all add: listQuery_def)
    ultimately show ?case using that q by simp
  qed simp
  have "wp e (ListChat q requester) ?Q (\<lambda>_ _. True) w"
    unfolding ListChat_def Let_def assms(2-5) checkPermission_def anchorOf_def TrimSpace_Nil
    using fin by (auto simp: wp_bind wp_liftE wp_rules split: option.splits)
  from wp_Inr [OF this assms(1)] show ?thesis by simp
qed

section \<open>Cursors\<close>

lemma suffix_after:
  fixes f :: "'a \<Rightarrow> 'b :: linorder"
  assumes "sorted (map f xs)" "distinct (map f xs)" "a \<in> set xs"
  shows "\<exists>pre. xs = pre @ a # filter (\<lambda>x. f a < f x) xs"
proof -
  from split_list [OF assms(3)] obtain pre post where xs: "xs = pre @ a # post" by blast
  have "\<forall>x \<in> set pre. \<not> f a < f x" "\<forall>x \<in> set post. f a < f x"
    using assms(1,2) by (auto simp: xs sorted_append order.strict_iff_order)
  then have post: "filter (\<lambda>x. f a < f x) xs = post" by (simp add: xs filter_empty_conv filter_id_conv)
  show ?thesis by (rule exI [of _ pre], subst post, rule xs)
qed

abbreviation chatKey :: "message \<Rightarrow> time \<times> string" where
  "chatKey m \<equiv> (msgCreatedAt m, msgID m)"

lemma afterCursor_key: "afterCursor (listQuery desc l p tag b (Some a)) m = (chatKey a < chatKey m)"
  by (auto simp: afterCursor_def listQuery_def less_prod_def)

lemma distinct_chatKey: "distinct (map msgID xs) \<Longrightarrow> distinct (map chatKey xs)"
  by (induction xs) auto

text \<open>
  Reading on from the last message seen: in ascending order the messages after the anchor are exactly
  the rest of the whole list behind it, also when several messages carry the same time; nothing is
  skipped and nothing is shown twice.
\<close>

theorem after_cursor_continues:
  assumes "chatOK d" "a \<in> set (messages d)"
  shows "\<exists>seen. matching (listQuery False l p [] None None) d =
    seen @ a # matching (listQuery False l' p' [] None (Some a)) d"
proof -
  let ?xs = "sort_key chatKey (messages d)"
  have "distinct (map chatKey (messages d))" using assms(1) by (simp add: chatOK_def distinct_chatKey)
  then have dist: "distinct (map chatKey ?xs)" by (simp add: distinct_map)
  have whole: "matching (listQuery False l p [] None None) d = ?xs"
    by (simp add: matching_def listQuery_def afterCursor_def beforeCursor_def joinTag_def)
  have "matching (listQuery False l' p' [] None (Some a)) d = filter (\<lambda>m. chatKey a < chatKey m) ?xs"
  proof -
    have "beforeCursor (listQuery False l' p' [] None (Some a)) m" for m by (simp add: beforeCursor_def listQuery_def)
    then have "matching (listQuery False l' p' [] None (Some a)) d =
        sort_key chatKey (filter (\<lambda>m. chatKey a < chatKey m) (messages d))"
      by (simp add: matching_def joinTag_def afterCursor_key) (simp add: listQuery_def)
    then show ?thesis by (simp add: filter_sort)
  qed
  moreover have "\<exists>pre. ?xs = pre @ a # filter (\<lambda>m. chatKey a < chatKey m) ?xs"
    by (rule suffix_after [OF _ dist]) (simp_all add: assms(2))
  ultimately show ?thesis by (simp only: whole)
qed

section \<open>Who may delete\<close>

text \<open>
  An account deletes only its own messages: for every requester that is neither the USER nor the
  author, \<^verbatim>\<open>Delete\<close> fails, and neither the database nor any subscriber sees a change; whenever it
  succeeds, exactly this message and its tags are gone.
\<close>

theorem Delete_authorized:
  assumes "find (\<lambda>m. msgID m = i) (messages (wdb w)) = Some m"
  shows "(\<not> IsUser requester \<and> \<not> (msgAuthorType m = AuthorAccount \<and> Owns requester (msgAuthorID m)) \<longrightarrow>
      (\<exists>x w'. DeleteChat i requester e w = (Inl x, w') \<and> wdb w' = wdb w \<and> hub w' = hub w)) \<and>
    (\<forall>w'. DeleteChat i requester e w = (Inr (), w') \<longrightarrow>
      wdb w' = (wdb w)\<lparr>messages := filter (\<lambda>m. msgID m \<noteq> i) (messages (wdb w)),
        messageTags := filter (\<lambda>t. tagMessageID t \<noteq> i) (messageTags (wdb w))\<rparr>)"
proof (intro conjI impI allI)
  assume r: "\<not> IsUser requester \<and> \<not> (msgAuthorType m = AuthorAccount \<and> Owns requester (msgAuthorID m))"
  have "wp e (DeleteChat i requester) (\<lambda>_ _. False) (\<lambda>_ w'. wdb w' = wdb w \<and> hub w' = hub w) w"
    using r assms by (auto simp: DeleteChat_def MessageByID_def wp_rules)
  then show "\<exists>x w'. DeleteChat i requester e w = (Inl x, w') \<and> wdb w' = wdb w \<and> hub w' = hub w"
    by (auto simp: wp_def split: prod.splits sum.splits)
next
  fix w' assume d: "DeleteChat i requester e w = (Inr (), w')"
  have "wp e (DeleteChat i requester) (\<lambda>_ w'. wdb w' = (wdb w)\<lparr>messages := filter (\<lambda>m. msgID m \<noteq> i) (messages (wdb w)),
        messageTags := filter (\<lambda>t. tagMessageID t \<noteq> i) (messageTags (wdb w))\<rparr>) (\<lambda>_ _. True) w"
    using assms by (auto simp: DeleteChat_def MessageByID_def wp_rules wp_publishEvent intro!: DeleteMessage_wp)
  from wp_Inr [OF this d] show "wdb w' = (wdb w)\<lparr>messages := filter (\<lambda>m. msgID m \<noteq> i) (messages (wdb w)),
        messageTags := filter (\<lambda>t. tagMessageID t \<noteq> i) (messageTags (wdb w))\<rparr>" .
qed

text \<open>
  An account whose posting right is switched off, or that is muted for all the time the request
  takes, gets an error from \<^verbatim>\<open>Post\<close>; nothing is stored and no subscriber is told.
\<close>

theorem silenced_cannot_post:
  assumes "\<not> IsUser author" "accountRow (wdb w) (idAccountID author) = Some r"
    and "\<not> accChatPost r \<or> (\<forall>n. muted r (clock e n))"
  shows "\<exists>x w'. Post author content tags e w = (Inl x, w') \<and> wdb w' = wdb w \<and> hub w' = hub w"
proof (rule Post_result [of author content tags e w])
  fix m assume "postedAs e author content tags (wdb w) m (wdb (snd (Post author content tags e w)))"
  then have False using assms by (auto simp: postedAs_def chatAllowed_def)
  then show ?thesis ..
qed auto

section \<open>Witnesses\<close>

definition userBoss :: identity where
  "userBoss = \<lparr>idKind = KindUser, idAccountID = [], idUserName = ''Boss''\<rparr>"

definition agentOne :: identity where
  "agentOne = \<lparr>idKind = KindAccount, idAccountID = ''acc_1'', idUserName = ''agent''\<rparr>"

definition oneMessage :: message where
  "oneMessage = \<lparr>msgID = ''first'', msgAuthorType = AuthorUser, msgAuthorID = [], msgContent = ''hi'', msgTags = [],
     msgCreatedAt = 5\<rparr>"

definition chatDB :: db where
  "chatDB = demoDB\<lparr>messages := [oneMessage]\<rparr>"

lemma chatDB_OK: "chatOK chatDB" "accountRow chatDB ''acc_1'' = Some demoAccount"
  by (simp_all add: chatOK_def chatDB_def demoDB_def emptyDB_def demoAccount_def)

theorem Post_respects_rate_witness:
  "rateOK ''acc_1'' (accChatRateMinutes demoAccount * minuteNanos) (accChatRateCount demoAccount)
     (wdb (snd (Post agentOne ''hello'' [''USER''] plainEnv (worldOf chatDB))))"
proof (rule Post_respects_rate)
  show "mono (clock plainEnv)" by (simp add: plainEnv_def mono_def)
  show "accountRow (wdb (worldOf chatDB)) ''acc_1'' = Some demoAccount" by (simp add: chatDB_OK)
  show "rateOK ''acc_1'' (accChatRateMinutes demoAccount * minuteNanos) (accChatRateCount demoAccount)
      (wdb (worldOf chatDB))"
    by (simp add: rateOK_def inWindow_def chatDB_def oneMessage_def demoAccount_def)
qed

lemma hello_text: "TrimSpace ''hello'' = ''hello''" "RuneCount ''hello'' = 5"
  by code_simp+

lemma demo_post:
  "case Post userBoss ''hello'' [''agent''] plainEnv (worldOf chatDB) of (Inr m, w') \<Rightarrow> msgTags m = [''agent''] | _ \<Rightarrow> False"
  by code_simp

theorem Post_then_list_witness:
  "\<exists>m w'. Post userBoss ''hello'' [''agent''] plainEnv (worldOf chatDB) = (Inr m, w') \<and>
     filter (\<lambda>x. msgID x = msgID m) (messages (wdb w')) = [m\<lparr>msgTags := []\<rparr>] \<and> tagsOf (wdb w') (msgID m) = [''agent''] \<and>
     m\<lparr>msgTags := []\<rparr> \<in> set (joinTag ''agent'' (wdb w'))"
proof -
  from demo_post obtain m w' where p: "Post userBoss ''hello'' [''agent''] plainEnv (worldOf chatDB) = (Inr m, w')" "msgTags m = [''agent'']"
    by (auto split: prod.splits sum.splits)
  have "chatOK (wdb (worldOf chatDB))" by (simp add: chatDB_OK)
  from Post_then_list [OF this p(1)] p show ?thesis by auto
qed

definition firstPage :: query where
  "firstPage = \<lparr>qPage = 1, qLimit = 10, qSort = ''asc'', qTag = [], qAfter = [], qBefore = []\<rparr>"

lemma asc_sort: "parseSort ''asc'' = Inr False"
  by code_simp

theorem ListChat_pages_witness:
  "\<exists>views hasMore w'. ListChat firstPage None plainEnv (worldOf chatDB) = (Inr (views, hasMore), w') \<and>
     map vwID views = [''first''] \<and> \<not> hasMore"
proof -
  have rows: "matching (listQuery False l p [] None None) chatDB = [oneMessage]" for l p
    by (simp add: matching_def listQuery_def afterCursor_def beforeCursor_def joinTag_def chatDB_def)
  have page: "pageOf firstPage = Inr (10, 1)" by (simp add: pageOf_def firstPage_def)
  have "\<exists>r w'. ListChat firstPage None plainEnv (worldOf chatDB) = (Inr r, w')"
    using rows [of 10 1] page
    by (simp add: ListChat_def asc_sort firstPage_def anchorOf_def ListMessages_def showPage_def AccountNames_def
        accountIDs_def bind_def andThen_def ret_def liftE_def asks_def dbread_def dbcall_def plainEnv_def worldOf_def
        oneMessage_def Let_def) (simp add: listQuery_def)
  then obtain views hasMore w' where run: "ListChat firstPage None plainEnv (worldOf chatDB) = (Inr (views, hasMore), w')"
    by (metis surj_pair)
  have "map vwID views = map msgID (take (nat 10) (drop (nat ((1 - 1) * 10)) [oneMessage])) \<and>
      (hasMore \<longleftrightarrow> int (length [oneMessage]) > 1 * 10)"
    by (rule ListChat_pages [OF run _ _ _ page, where desc = False]) (simp_all add: firstPage_def asc_sort rows)
  with run show ?thesis by (auto simp: oneMessage_def)
qed

theorem after_cursor_continues_witness:
  "\<exists>seen. matching (listQuery False 10 1 [] None None) chatDB =
     seen @ oneMessage # matching (listQuery False 10 1 [] None (Some oneMessage)) chatDB"
  by (rule after_cursor_continues) (simp_all add: chatDB_OK, simp add: chatDB_def)

theorem Delete_authorized_witness:
  "\<exists>x w'. DeleteChat ''first'' agentOne plainEnv (worldOf chatDB) = (Inl x, w') \<and> wdb w' = chatDB \<and> hub w' = newStreams"
proof -
  have f: "find (\<lambda>m. msgID m = ''first'') (messages (wdb (worldOf chatDB))) = Some oneMessage"
    by (simp add: chatDB_def oneMessage_def)
  have "\<not> IsUser agentOne" "msgAuthorType oneMessage \<noteq> AuthorAccount"
    by (simp_all add: IsUser_def agentOne_def oneMessage_def)
  with Delete_authorized [OF f, of agentOne plainEnv] show ?thesis by (auto simp: worldOf_def)
qed

definition mutedDB :: db where
  "mutedDB = demoDB\<lparr>accounts := [demoAccount\<lparr>accChatPost := False\<rparr>]\<rparr>"

theorem silenced_cannot_post_witness:
  "\<exists>x w'. Post agentOne ''hello'' [] plainEnv (worldOf mutedDB) = (Inl x, w') \<and> wdb w' = mutedDB \<and> hub w' = newStreams"
proof -
  have "\<not> IsUser agentOne" by (simp add: IsUser_def agentOne_def)
  moreover have "accountRow (wdb (worldOf mutedDB)) (idAccountID agentOne) = Some (demoAccount\<lparr>accChatPost := False\<rparr>)"
    by (simp add: mutedDB_def agentOne_def demoAccount_def)
  ultimately show ?thesis
    using silenced_cannot_post [of agentOne "worldOf mutedDB" "demoAccount\<lparr>accChatPost := False\<rparr>" plainEnv]
    by (simp add: worldOf_def)
qed

end
