(* ===== verification/Invariants.thy ===== *)
theory Invariants
  imports Steps
begin

text \<open>
  What stays true of the tables, whatever the services do: each section defines a property of the
  database, proves it of every step, and interprets the locale of \<open>Steps\<close> with it.
\<close>

section \<open>The parts of a fill\<close>

lemma settledE:
  assumes "settled e x price role d x' d1"
  obtains r t h upd filled realized tid t1 t2 ps fee b where
    "settleAccepts e x price role d r"
    "applyFill (positionOf d x) (ordSide x) (ordQuantity x) price (ordLeverage x) = (filled, realized)"
    "persisted x (positionOf d x) filled (positions d) upd ps"
    "noClash d (r\<lparr>accToken := t, accTokenHash := h\<rparr>)"
    "\<forall>u \<in> set (trades d). trdID u \<noteq> tid"
    "fee = ordQuantity x * price * rate e role" "b = accBalance r + (realized - fee)"
    "x' = filledOrder x price fee realized upd"
    "d1 = logged (d\<lparr>positions := ps,
       accounts := tbl_put accID (r\<lparr>accBalance := b, accToken := t, accTokenHash := h\<rparr>) (accounts d),
       trades := trades d @ [(fillTrade x tid role price fee realized)\<lparr>trdCreatedAt := t1\<rparr>]\<rparr>)
       [(fillEntry x tid (positionIDOf (positionOf d x) upd) price fee realized b, t2)]"
proof -
  from assms obtain r t h upd filled realized tid t1 t2 ps where s:
    "settleAccepts e x price role d r"
    "applyFill (positionOf d x) (ordSide x) (ordQuantity x) price (ordLeverage x) = (filled, realized)"
    "persisted x (positionOf d x) filled (positions d) upd ps"
    "\<forall>b \<in> set (accounts d). accID b \<noteq> accID r \<longrightarrow>
       \<not> accountClash (r\<lparr>accToken := t, accTokenHash := h\<rparr>) b"
    "\<forall>u \<in> set (trades d). trdID u \<noteq> tid"
    "let fee = ordQuantity x * price * rate e role;
         balance = accBalance r + (realized - fee)
     in x' = filledOrder x price fee realized upd \<and>
        d1 = logged (d\<lparr>positions := ps,
               accounts := tbl_save accID
                 (r\<lparr>accBalance := balance, accToken := t, accTokenHash := h\<rparr>) (accounts d),
               trades := trades d @
                 [(fillTrade x tid role price fee realized)\<lparr>trdCreatedAt := t1\<rparr>]\<rparr>)
               [(fillEntry x tid (positionIDOf (positionOf d x) upd) price fee realized balance, t2)]"
    unfolding settled_def by blast
  have r: "r \<in> set (accounts d)" using s(1) by (auto simp: settleAccepts_def dest: find_SomeD)
  have save: "tbl_save accID (r\<lparr>accBalance := b, accToken := t, accTokenHash := h\<rparr>) (accounts d) =
      tbl_put accID (r\<lparr>accBalance := b, accToken := t, accTokenHash := h\<rparr>) (accounts d)" for b
    using r by (intro tbl_save_present) auto
  show ?thesis
    by (rule that [OF s(1-3) _ s(5) refl refl, where t = t and h = h and ?t1.0 = t1 and ?t2.0 = t2])
      (use s(4,6) in \<open>auto simp: Let_def noClash_def save\<close>)
qed

lemma accountRow_in: "accountRow d i = Some r \<Longrightarrow> r \<in> set (accounts d) \<and> accID r = i"
  by (auto dest: find_SomeD)

lemma accountRow_save:
  assumes "accountRow d i = Some r" "accID a = accID r"
  shows "tbl_save accID a (accounts d) = tbl_put accID a (accounts d)"
  using accountRow_in [OF assms(1)] assms(2) by (intro tbl_save_present [of r]) auto

abbreviation orderKey :: "order \<Rightarrow> string \<times> string \<times> string \<times> string" where
  "orderKey x \<equiv> (ordAccountID x, ordMarket x, ordSymbol x, ordProduct x)"

lemma persisted_rows:
  assumes f: "applyFill pos (ordSide x) q price l = (filled, realized)"
    and pos: "pos = find (\<lambda>p. posKey p = orderKey x) ps"
    and per: "persisted x pos filled ps upd ps'"
    and dist: "distinct (map posID ps)" "distinct (map posKey ps)"
  shows "distinct (map posID ps') \<and> distinct (map posKey ps') \<and>
    (\<forall>p \<in> set ps'. p \<in> set ps \<or> posKey p = orderKey x)"
proof (cases filled)
  case None
  then show ?thesis using per dist by (auto simp: persisted_def split: option.splits)
next
  case (Some u)
  show ?thesis
  proof (cases pos)
    case None
    then have n: "\<forall>p \<in> set ps. posKey p \<noteq> orderKey x" using pos by (simp add: find_None_iff_all)
    from per Some None obtain i t where i: "\<forall>q \<in> set ps. posID q \<noteq> i"
      "ps' = ps @ [(openedFor x i (orderStops x u))\<lparr>posCreatedAt := t\<rparr>]"
      by (auto simp: persisted_def)
    have "posKey ((openedFor x i (orderStops x u))\<lparr>posCreatedAt := t\<rparr>) = orderKey x"
      "posID ((openedFor x i (orderStops x u))\<lparr>posCreatedAt := t\<rparr>) = i"
      by (auto simp: posKey_def openedFor_def)
    with i n dist show ?thesis by auto
  next
    case (Some q)
    then have q: "q \<in> set ps" "posKey q = orderKey x" using find_SomeD [of _ ps q] pos by auto
    have u: "posID u = posID q" "posKey u = posKey q"
      using applyFill_Some_key f \<open>filled = Some u\<close> Some by metis+
    let ?u = "orderStops x u"
    have ps': "ps' = tbl_put posID ?u ps"
      using per \<open>filled = Some u\<close> Some q(1) u(1) by (auto simp: persisted_def intro: tbl_save_present)
    have "map posKey ps' = map posKey ps"
      unfolding ps' using distinct_key_eq [OF dist(1) _ q(1)] u by (intro map_tbl_put_same) auto
    moreover have "map posID ps' = map posID ps" by (simp add: ps')
    ultimately show ?thesis using dist u q(2) ps' by (auto dest: in_tbl_put)
  qed
qed

section \<open>Keys\<close>

text \<open>Primary keys and unique indexes hold, and the ledger is written in the order of its sequence.\<close>

definition keysOK :: "db \<Rightarrow> bool" where
  "keysOK d =
     (distinct (map accID (accounts d)) \<and> distinct (map accUserName (accounts d)) \<and>
      distinct (map accToken (accounts d)) \<and>
      distinct (map ordID (orders d)) \<and> distinct (map posID (positions d)) \<and>
      distinct (map posKey (positions d)) \<and> distinct (map trdID (trades d)) \<and>
      sorted_wrt (<) (map ledSeq (ledger d)) \<and> (\<forall>l \<in> set (ledger d). ledSeq l \<le> ledgerSeq d))"

lemma stamp_seq:
  "sorted_wrt (<) (map ledSeq (stamp n es)) \<and> (\<forall>l \<in> set (stamp n es). n < ledSeq l \<and> ledSeq l \<le> n + int (length es))"
  by (induction n es rule: stamp.induct) (auto simp: order.strict_implies_order)

lemma ledger_logged:
  assumes "sorted_wrt (<) (map ledSeq (ledger d))" "\<forall>l \<in> set (ledger d). ledSeq l \<le> ledgerSeq d"
  shows "sorted_wrt (<) (map ledSeq (ledger (logged d es)))"
    and "\<forall>l \<in> set (ledger (logged d es)). ledSeq l \<le> ledgerSeq (logged d es)"
  using assms stamp_seq [of "ledgerSeq d" es]
  by (fastforce simp: sorted_wrt_append)+

lemma keysOK_logged: "keysOK d \<Longrightarrow> keysOK (logged d es)"
  using ledger_logged [of d es] by (simp add: keysOK_def)

lemma accounts_put:
  assumes "keysOK d" "r \<in> set (accounts d)" "accID a = accID r" "noClash d a"
  shows "distinct (map accID (tbl_put accID a (accounts d)))"
    "distinct (map accUserName (tbl_put accID a (accounts d)))"
    "distinct (map accToken (tbl_put accID a (accounts d)))"
proof -
  have k: "distinct (map accID (accounts d))" "distinct (map accUserName (accounts d))"
    "distinct (map accToken (accounts d))" using assms(1) by (simp_all add: keysOK_def)
  have "accUserName b \<noteq> accUserName a" "accToken b \<noteq> accToken a"
    if "b \<in> set (accounts d)" "accID b \<noteq> accID a" for b
    using assms(4) that by (auto simp: noClash_def accountClash_def)
  with k show "distinct (map accID (tbl_put accID a (accounts d)))"
    "distinct (map accUserName (tbl_put accID a (accounts d)))"
    "distinct (map accToken (tbl_put accID a (accounts d)))"
    by (auto intro: distinct_map_put)
qed

lemma keysOK_put:
  assumes "keysOK d" "accountRow d i = Some r" "accID a = accID r" "noClash d a"
  shows "keysOK (d\<lparr>accounts := tbl_put accID a (accounts d)\<rparr>)"
  using accounts_put [OF assms(1) _ assms(3,4)] accountRow_in [OF assms(2)] assms(1)
  by (simp add: keysOK_def)

lemma noClash_cong: "accID a = accID b \<Longrightarrow> accUserName a = accUserName b \<Longrightarrow> accToken a = accToken b \<Longrightarrow>
    accTokenHash a = accTokenHash b \<Longrightarrow> noClash d a = noClash d b"
  by (simp add: noClash_def accountClash_def)

lemma keysOK_settled:
  assumes "keysOK d" "settled e x price role d x' d1"
  shows "keysOK d1"
  using assms(2)
proof (rule settledE)
  fix r t h upd filled realized tid t1 t2 ps fee b
  assume s: "settleAccepts e x price role d r"
    "applyFill (positionOf d x) (ordSide x) (ordQuantity x) price (ordLeverage x) = (filled, realized)"
    "persisted x (positionOf d x) filled (positions d) upd ps"
    "noClash d (r\<lparr>accToken := t, accTokenHash := h\<rparr>)"
    "\<forall>u \<in> set (trades d). trdID u \<noteq> tid"
    "d1 = logged (d\<lparr>positions := ps,
       accounts := tbl_put accID (r\<lparr>accBalance := b, accToken := t, accTokenHash := h\<rparr>) (accounts d),
       trades := trades d @ [(fillTrade x tid role price fee realized)\<lparr>trdCreatedAt := t1\<rparr>]\<rparr>)
       [(fillEntry x tid (positionIDOf (positionOf d x) upd) price fee realized b, t2)]"
  have "distinct (map posID ps)" "distinct (map posKey ps)"
    using persisted_rows [OF s(2) refl s(3)] assms(1) by (auto simp: keysOK_def)
  moreover have "keysOK (d\<lparr>accounts := tbl_put accID (r\<lparr>accBalance := b, accToken := t, accTokenHash := h\<rparr>)
      (accounts d)\<rparr>)"
    by (rule keysOK_put [OF assms(1), of "ordAccountID x" r])
      (use s(1,4) in \<open>auto simp: settleAccepts_def noClash_def accountClash_def\<close>)
  ultimately have "keysOK (d\<lparr>positions := ps,
       accounts := tbl_put accID (r\<lparr>accBalance := b, accToken := t, accTokenHash := h\<rparr>) (accounts d),
       trades := trades d @ [(fillTrade x tid role price fee realized)\<lparr>trdCreatedAt := t1\<rparr>]\<rparr>)"
    using s(5) by (auto simp: keysOK_def fillTrade_def)
  then show ?thesis using s(6) by (simp add: keysOK_logged)
qed

lemma settled_same: "settled e x price role d x' d1 \<Longrightarrow> orders d1 = orders d \<and> ordID x' = ordID x \<and>
    ordAccountID x' = ordAccountID x \<and> ordStatus x' = OrderFilled"
  by (auto simp: settled_def Let_def filledOrder_def)

lemma distinct_cancelAll: "distinct (map ordID os) \<Longrightarrow> distinct (map ordID (cancelAll xs os))"
  by (induction xs arbitrary: os) (auto simp: cancelAll_def intro: distinct_tbl_save)

lemma keysOK_orders: "keysOK d \<Longrightarrow> distinct (map ordID os) \<Longrightarrow> keysOK (d\<lparr>orders := os\<rparr>)"
  by (simp add: keysOK_def)

lemma stoppedNowE:
  assumes "stoppedNow acc r equity d d'"
  obtains now t h ts t' where
    "noClash d (r\<lparr>accToken := t, accTokenHash := h\<rparr>)" "length ts = length (openOrders acc d)"
    "d' = logged (d\<lparr>accounts := tbl_save accID
         (r\<lparr>accMaxDDStoppedAt := Some now, accToken := t, accTokenHash := h\<rparr>) (accounts d),
       orders := cancelAll (openOrders acc d) (orders d)\<rparr>)
       (zip (map (\<lambda>x. canceledEntry acc x noSource) (openOrders acc d)) ts @
        [(riskEntry acc LedgerMaxDDTriggered equity, t')])"
  using assms unfolding stoppedNow_def noClash_def by auto

lemma keysOK_positions:
  "keysOK d \<Longrightarrow> distinct (map posID ps) \<Longrightarrow> distinct (map posKey ps) \<Longrightarrow> keysOK (d\<lparr>positions := ps\<rparr>)"
  by (simp add: keysOK_def)

lemma keysOKD:
  assumes "keysOK d"
  shows "distinct (map accID (accounts d))" "distinct (map ordID (orders d))"
    "distinct (map posID (positions d))" "distinct (map posKey (positions d))"
    "distinct (map trdID (trades d))"
  using assms by (simp_all add: keysOK_def)

lemma keysOK_step:
  assumes "dbstep d d'" "keysOK d"
  shows "keysOK d'"
  using assms
proof (cases rule: dbstep.cases)
  case (fill_new e x price role x' d1 r t)
  have "distinct (map ordID (orders d1 @ [x'\<lparr>ordCreatedAt := t, ordPositionID := []\<rparr>]))"
    using settled_same [OF fill_new(2)] fill_new(5) keysOKD(2) [OF assms(2)] by auto
  then show ?thesis using keysOK_settled [OF assms(2) fill_new(2)] fill_new(1)
    by (simp only: keysOK_orders)
next
  case (fill_open acc i x e price role x' d1 r)
  have "keysOK d1" by (rule keysOK_settled [OF assms(2) fill_open(4)])
  with fill_open(1) show ?thesis
    by (auto intro!: keysOK_orders distinct_tbl_save keysOKD(2))
next
  case (stop acc r marks eq)
  from stop(4) show ?thesis
  proof (rule stoppedNowE)
    fix now :: time and t :: string and h :: "string option" and ts :: "time list" and t' :: time
    let ?es = "zip (map (\<lambda>x. canceledEntry acc x noSource) (openOrders acc d)) ts @
        [(riskEntry acc LedgerMaxDDTriggered eq, t')]"
    let ?a = "r\<lparr>accMaxDDStoppedAt := Some now, accToken := t, accTokenHash := h\<rparr>"
    assume "noClash d (r\<lparr>accToken := t, accTokenHash := h\<rparr>)"
      and d': "d' = logged (d\<lparr>accounts := tbl_save accID ?a (accounts d),
         orders := cancelAll (openOrders acc d) (orders d)\<rparr>) ?es"
    then have "keysOK (d\<lparr>accounts := tbl_put accID ?a (accounts d)\<rparr>)"
      using keysOK_put [OF assms(2) stop(1), of ?a] noClash_cong [of ?a "r\<lparr>accToken := t, accTokenHash := h\<rparr>"]
      by simp
    moreover have "distinct (map ordID (cancelAll (openOrders acc d) (orders d)))"
      using assms(2) by (simp add: distinct_cancelAll keysOK_def)
    ultimately show ?thesis
      using accountRow_save [OF stop(1), of ?a] d' by (simp add: keysOK_logged keysOK_orders)
  qed
next
  case (amend i r a)
  then show ?thesis using assms(2) by (auto simp: sameFunds_def intro: keysOK_put)
next
  case (resume i r h t t')
  let ?a = "r\<lparr>accMaxDDBaselineEquity := Some (accBalance r), accMaxDDStoppedAt := None,
            accStatus := AccountActive, accToken := t, accTokenHash := h\<rparr>"
  have "keysOK (d\<lparr>accounts := tbl_put accID ?a (accounts d)\<rparr>)"
    using keysOK_put [OF assms(2) resume(2), of ?a] resume
      noClash_cong [of ?a "r\<lparr>accToken := t, accTokenHash := h\<rparr>"] by simp
  then show ?thesis using resume accountRow_save [OF resume(2), of ?a] by (simp add: keysOK_logged)
next
  case (place x r t t')
  then have "ordID x \<notin> ordID ` set (orders d)" by (metis imageE)
  then show ?thesis using place(1) keysOKD(2) [OF assms(2)]
    by (auto intro!: keysOK_logged keysOK_orders assms(2))
next
  case (cancel acc i x src t)
  then show ?thesis using keysOKD(2) [OF assms(2)]
    by (auto intro!: keysOK_logged keysOK_orders distinct_tbl_save assms(2))
next
  case (reject acc i x e price role why reason t)
  then show ?thesis using keysOKD(2) [OF assms(2)]
    by (auto intro!: keysOK_logged keysOK_orders distinct_tbl_save assms(2))
next
  case (set_stops acc r i p q ts ss tp sl src t)
  let ?q = "q\<lparr>posStopLoss := sl, posTakeProfit := tp, posStopLossSource := ss, posTakeProfitSource := ts\<rparr>"
  note k = keysOKD [OF assms(2)]
  have "map posKey (tbl_put posID ?q (positions d)) = map posKey (positions d)"
    using distinct_key_eq [OF k(3)] find_SomeD [OF set_stops(5)]
    by (intro map_tbl_put_same) (fastforce simp: posKey_def)
  then show ?thesis using set_stops k
    by (auto intro!: keysOK_logged keysOK_positions assms(2))
next
  case (create a)
  have "accUserName b \<noteq> accUserName a" "accToken b \<noteq> accToken a" if "b \<in> set (accounts d)" for b
    using create that by (auto simp: noClash_def accountClash_def)
  with create assms(2) show ?thesis by (fastforce simp: keysOK_def)
next
  case (remove i)
  with assms(2) show ?thesis by (auto simp: keysOK_def)
next
  case (chat ms mts)
  with assms(2) show ?thesis by (simp add: keysOK_def)
qed

interpretation keys: store_invariant keysOK
proof
  show "keysOK d \<Longrightarrow> dbstep d d' \<Longrightarrow> keysOK d'" for d d' by (rule keysOK_step)
  show "keysOK emptyDB" by (simp add: keysOK_def emptyDB_def)
qed

text \<open>Invariants whose proof needs the keys.\<close>

locale keyed_invariant =
  fixes J :: "db \<Rightarrow> bool"
  assumes keyed_step: "keysOK d \<Longrightarrow> J d \<Longrightarrow> dbstep d d' \<Longrightarrow> J d'"
    and keyed_init: "J emptyDB"

sublocale keyed_invariant \<subseteq> keyed: store_invariant "\<lambda>d. keysOK d \<and> J d"
proof
  show "keysOK d \<and> J d \<Longrightarrow> dbstep d d' \<Longrightarrow> keysOK d' \<and> J d'" for d d'
    using keyed_step keysOK_step by blast
  show "keysOK emptyDB \<and> J emptyDB" using keys.init keyed_init by blast
qed

context keyed_invariant
begin

lemma holds: "reachable d \<Longrightarrow> J d"
  using keyed.of_reachable by blast

end

lemma cancelAll_elim:
  "x \<in> set (cancelAll xs os) \<Longrightarrow> (x \<in> set os \<and> ordID x \<notin> ordID ` set xs) \<or> x \<in> canceledRow ` set xs"
proof (induction xs arbitrary: os)
  case Nil
  then show ?case by (simp add: cancelAll_def)
next
  case (Cons y ys)
  then have "x \<in> set (cancelAll ys (tbl_save ordID (canceledRow y) os))" by (simp add: cancelAll_def)
  from Cons.IH [OF this] show ?case by (auto simp: in_tbl_save canceledRow_def)
qed

lemma cancelAll_keep: "x \<in> set os \<Longrightarrow> ordID x \<notin> ordID ` set xs \<Longrightarrow> x \<in> set (cancelAll xs os)"
  by (induction xs arbitrary: os) (auto simp: cancelAll_def in_tbl_save canceledRow_def)

lemma set_openOrders: "set (openOrders acc d) = {x \<in> set (orders d). ordAccountID x = acc \<and> ordStatus x = OrderOpen}"
  by (auto simp: openOrders_def)

lemma set_openPositions: "set (openPositions acc d) = {p \<in> set (positions d). posAccountID p = acc}"
  by (auto simp: openPositions_def)

lemma openOrders_empty: "openOrders acc d = [] \<longleftrightarrow>
    (\<forall>x \<in> set (orders d). ordAccountID x = acc \<longrightarrow> ordStatus x \<noteq> OrderOpen)"
proof -
  have "openOrders acc d = [] \<longleftrightarrow> set (openOrders acc d) = {}" by simp
  then show ?thesis unfolding set_openOrders by auto
qed

lemma stoppedNow_quiet: "stoppedNow acc r eq d d' \<Longrightarrow> openOrders acc d' = []"
  by (elim stoppedNowE)
    (auto simp: openOrders_empty set_openOrders canceledRow_def dest!: cancelAll_elim)

section \<open>How one step changes an account\<close>

definition evolves :: "db \<Rightarrow> db \<Rightarrow> account \<Rightarrow> account \<Rightarrow> bool" where
  "evolves d d' r r' =
     (accID r' = accID r \<and> accInitialBalance r' = accInitialBalance r \<and> accMaxDD r' = accMaxDD r \<and>
      accCreatedAt r' = accCreatedAt r \<and>
      (accMaxDDStoppedAt r' = accMaxDDStoppedAt r \<and> accMaxDDBaselineEquity r' = accMaxDDBaselineEquity r \<or>
       accMaxDDStoppedAt r = None \<and> accMaxDDStoppedAt r' \<noteq> None \<and> accMaxDD r \<noteq> None \<and>
         accMaxDDBaselineEquity r \<noteq> None \<and> accMaxDDBaselineEquity r' = accMaxDDBaselineEquity r \<and>
         accBalance r' = accBalance r \<and> (\<exists>marks eq. crossed marks d r eq) \<and> openOrders (accID r) d' = [] \<or>
       accMaxDDStoppedAt r \<noteq> None \<and> accMaxDDStoppedAt r' = None \<and> accBalance r' = accBalance r \<and>
         accMaxDD r \<noteq> None \<and> accMaxDDBaselineEquity r' = Some (accBalance r') \<and>
         openPositions (accID r) d = [] \<and> openOrders (accID r) d = []))"

lemma evolves_refl: "evolves d d' r r"
  by (simp add: evolves_def)

lemma evolves_same: "r \<in> set (accounts d) \<Longrightarrow> \<exists>r0 \<in> set (accounts d). evolves d d' r0 r"
  using evolves_refl by blast

lemma evolves_put:
  assumes "accountRow d i = Some r" "evolves d d' r a" "r' \<in> set (tbl_put accID a (accounts d))"
  shows "\<exists>r0 \<in> set (accounts d). evolves d d' r0 r'"
  using assms(2) accountRow_in [OF assms(1)] in_tbl_put [OF assms(3)] evolves_refl by blast

lemma settled_accounts:
  assumes "settled e x price role d x' d1"
  obtains r b t h where "accountRow d (ordAccountID x) = Some r"
    "accounts d1 = tbl_put accID (r\<lparr>accBalance := b, accToken := t, accTokenHash := h\<rparr>) (accounts d)"
  using assms by (elim settledE) (auto simp: settleAccepts_def)

lemma settled_evolves:
  assumes "settled e x price role d x' d1" "r' \<in> set (accounts d1)"
  shows "\<exists>r \<in> set (accounts d). evolves d d' r r'"
  using assms(1)
proof (rule settled_accounts)
  fix r :: account and b t h
  let ?a = "r\<lparr>accBalance := b, accToken := t, accTokenHash := h\<rparr>"
  assume "accountRow d (ordAccountID x) = Some r" "accounts d1 = tbl_put accID ?a (accounts d)"
  moreover have "evolves d d' r ?a" by (simp add: evolves_def)
  ultimately show ?thesis using assms(2) evolves_put by metis
qed

lemma step_accounts:
  assumes "dbstep d d'" "r' \<in> set (accounts d')"
  shows "(\<exists>r \<in> set (accounts d). evolves d d' r r') \<or>
    (newAccountOK r' \<and> (\<forall>r \<in> set (accounts d). accID r \<noteq> accID r'))"
  using assms(1)
proof (cases rule: dbstep.cases)
  case (fill_new e x price role x' d1 r t)
  then show ?thesis using settled_evolves [OF fill_new(2), of r'] assms(2) by simp
next
  case (fill_open acc i x e price role x' d1 r)
  then show ?thesis using settled_evolves [OF fill_open(4), of r'] assms(2) by simp
next
  case (stop acc r marks eq)
  from stop(4) show ?thesis
  proof (rule stoppedNowE)
    fix now :: time and t :: string and h :: "string option" and ts :: "time list" and t' :: time
    let ?a = "r\<lparr>accMaxDDStoppedAt := Some now, accToken := t, accTokenHash := h\<rparr>"
    assume "d' = logged (d\<lparr>accounts := tbl_save accID ?a (accounts d),
         orders := cancelAll (openOrders acc d) (orders d)\<rparr>)
         (zip (map (\<lambda>x. canceledEntry acc x noSource) (openOrders acc d)) ts @
        [(riskEntry acc LedgerMaxDDTriggered eq, t')])"
    then have "r' \<in> set (tbl_put accID ?a (accounts d))"
      using assms(2) accountRow_save [OF stop(1), of ?a] by simp
    moreover have "openOrders (accID r) d' = []"
      using stoppedNow_quiet [OF stop(4)] accountRow_in [OF stop(1)] by simp
    ultimately show ?thesis using stop(1-3)
      by (intro disjI1) (rule evolves_put, auto simp: evolves_def crossed_def)
  qed
next
  case (amend i r a)
  then show ?thesis using assms(2)
    by (intro disjI1) (rule evolves_put, auto simp: evolves_def sameFunds_def)
next
  case (resume i r h t t')
  let ?a = "r\<lparr>accMaxDDBaselineEquity := Some (accBalance r), accMaxDDStoppedAt := None,
            accStatus := AccountActive, accToken := t, accTokenHash := h\<rparr>"
  have "r' \<in> set (tbl_put accID ?a (accounts d))"
    using assms(2) resume(1) accountRow_save [OF resume(2), of ?a] by simp
  then show ?thesis using resume(2-7) accountRow_in [OF resume(2)]
    by (intro disjI1) (rule evolves_put, auto simp: evolves_def)
next
  case (create a)
  then show ?thesis using assms(2) evolves_same [of r' d d'] by auto
qed (use assms(2) evolves_same [of r' d d'] in auto)

section \<open>How one step changes an order\<close>

text \<open>What no step changes about a stored order.\<close>

definition sameTerms :: "order \<Rightarrow> order \<Rightarrow> bool" where
  "sameTerms x y = (ordID x = ordID y \<and> ordAccountID x = ordAccountID y \<and> ordMarket x = ordMarket y \<and>
     ordSymbol x = ordSymbol y \<and> ordProduct x = ordProduct y \<and> ordSide x = ordSide y \<and>
     ordType x = ordType y \<and> ordQuantity x = ordQuantity y \<and> ordPrice x = ordPrice y \<and>
     ordLeverage x = ordLeverage y \<and> ordReduceOnly x = ordReduceOnly y \<and> ordSource x = ordSource y \<and>
     ordTrigger x = ordTrigger y \<and> ordCreatedAt x = ordCreatedAt y)"

lemma step_orders:
  assumes "dbstep d d'" "x' \<in> set (orders d')"
  shows "x' \<in> set (orders d) \<or>
    (\<exists>x \<in> set (orders d). sameTerms x x' \<and> ordStatus x = OrderOpen \<and>
       ordStatus x' \<in> {OrderFilled, OrderCanceled, OrderRejected}) \<or>
    (\<forall>x \<in> set (orders d). ordID x \<noteq> ordID x') \<and> (ordStatus x' = OrderFilled \<or>
       limitOrderOK x' \<and> (\<exists>r. accountRow d (ordAccountID x') = Some r \<and> Active r \<and> accMaxDDStoppedAt r = None))"
  using assms(1)
proof (cases rule: dbstep.cases)
  case (fill_new e x price role y d1 r t)
  from assms(2) fill_new(1) settled_same [OF fill_new(2)]
  have "x' \<in> set (orders d) \<or> x' = y\<lparr>ordCreatedAt := t, ordPositionID := []\<rparr>" by auto
  then show ?thesis using settled_same [OF fill_new(2)] fill_new(5) by auto
next
  case (fill_open acc i x e price role y d1 r)
  have y: "y = filledOrder x p f rl u \<Longrightarrow> sameTerms x (y\<lparr>ordPositionID := []\<rparr>)" for p f rl u
    by (simp add: sameTerms_def filledOrder_def)
  have "sameTerms x (y\<lparr>ordPositionID := []\<rparr>)"
    using fill_open(4) by (elim settledE) (rule y)
  moreover have "x' \<in> set (orders d) \<or> x' = y\<lparr>ordPositionID := []\<rparr>"
    using assms(2) fill_open(1) settled_same [OF fill_open(4)] by (auto simp: in_tbl_save)
  moreover have "x \<in> set (orders d)" using find_SomeD [OF fill_open(2)] by simp
  ultimately show ?thesis using fill_open(3) settled_same [OF fill_open(4)] by auto
next
  case (place x r t t')
  then have "x' \<in> set (orders d) \<or> x' = x\<lparr>ordCreatedAt := t, ordPositionID := []\<rparr>"
    using assms(2) by auto
  moreover have "limitOrderOK (x\<lparr>ordCreatedAt := t, ordPositionID := []\<rparr>)"
    using place(5) by (simp add: limitOrderOK_def)
  ultimately show ?thesis using place(2-4,6) by auto
next
  case (cancel acc i x src t)
  then have "x' \<in> set (orders d) \<or> x' = canceledRow x" using assms(2) by (auto simp: in_tbl_save)
  then show ?thesis using find_SomeD [OF cancel(2)] cancel(3)
    by (auto simp: canceledRow_def sameTerms_def)
next
  case (reject acc i x e price role why reason t)
  then have "x' \<in> set (orders d) \<or> x' = rejectedRow reason x" using assms(2) by (auto simp: in_tbl_save)
  then show ?thesis using find_SomeD [OF reject(2)] reject(3)
    by (auto simp: rejectedRow_def sameTerms_def)
next
  case (stop acc r marks eq)
  from stop(4) have "orders d' = cancelAll (openOrders acc d) (orders d)" by (elim stoppedNowE) simp
  then have "x' \<in> set (orders d) \<or> x' \<in> canceledRow ` set (openOrders acc d)"
    using assms(2) cancelAll_elim [of x' "openOrders acc d" "orders d"] by auto
  then show ?thesis by (auto simp: set_openOrders canceledRow_def sameTerms_def)
qed (use assms(2) in auto)

text \<open>A filled, canceled or rejected order is never changed or removed again.\<close>

lemma step_final_orders:
  assumes "dbstep d d'" "keysOK d" "x \<in> set (orders d)" "ordStatus x \<noteq> OrderOpen"
  shows "x \<in> set (orders d')"
proof -
  have other: "ordID y \<noteq> ordID x" if "y \<in> set (orders d)" "ordStatus y = OrderOpen" for y
    using distinct_key_eq [OF keysOKD(2) [OF assms(2)] assms(3) that(1)] that(2) assms(4) by auto
  from assms(1) show ?thesis
  proof (cases rule: dbstep.cases)
    case (fill_new e z price role y d1 r t)
    then show ?thesis using settled_same [OF fill_new(2)] assms(3) by auto
  next
    case (fill_open acc i z e price role y d1 r)
    then show ?thesis
      using settled_same [OF fill_open(4)] assms(3) other [of z] find_SomeD [OF fill_open(2)]
      by (auto simp: in_tbl_save)
  next
    case (cancel acc i z src t)
    then show ?thesis using assms(3) other [of z] find_SomeD [OF cancel(2)]
      by (auto simp: in_tbl_save canceledRow_def)
  next
    case (reject acc i z e price role why reason t)
    then show ?thesis using assms(3) other [of z] find_SomeD [OF reject(2)]
      by (auto simp: in_tbl_save rejectedRow_def)
  next
    case (stop acc r marks eq)
    from stop(4) have "orders d' = cancelAll (openOrders acc d) (orders d)" by (elim stoppedNowE) simp
    moreover have "ordID x \<notin> ordID ` set (openOrders acc d)" using other by (force simp: set_openOrders)
    ultimately show ?thesis using assms(3) cancelAll_keep by simp
  qed (use assms(3,4) in auto)
qed

text \<open>Trades and ledger entries are only ever added.\<close>

lemma step_history:
  assumes "dbstep d d'"
  shows "(\<exists>ts. trades d' = trades d @ ts) \<and> (\<exists>ls. ledger d' = ledger d @ ls)"
  using assms
proof (cases rule: dbstep.cases)
  case (fill_new e x price role y d1 r t)
  from fill_new(2) show ?thesis by (elim settledE) (simp add: fill_new(1))
next
  case (fill_open acc i x e price role y d1 r)
  from fill_open(4) show ?thesis by (elim settledE) (simp add: fill_open(1))
next
  case (stop acc r marks eq)
  from stop(4) show ?thesis by (elim stoppedNowE) simp
qed auto

end
