(* ===== verification/Matching.thy ===== *)
theory Matching
  imports Trading
begin

text \<open>
  \<^verbatim>\<open>backend/internal/trading/matching.go\<close>: one round of the matching engine.  \<open>Tick\<close> is the composition
  of its phases, in the source's order: load, price, drawdown sweep, limit orders, stops, clean-up.
  Log lines are left out.  Go iterates a map of wanted instruments in an unspecified order; the model
  uses the order of insertion, and the environment's answers are arbitrary anyway.
\<close>

record tickResult =
  Filled :: int
  Rejected :: int
  Closed :: int
  Errors :: int

definition tickResult0 :: tickResult where
  "tickResult0 = \<lparr>Filled = 0, Rejected = 0, Closed = 0, Errors = 0\<rparr>"

abbreviation failed :: "tickResult \<Rightarrow> tickResult" where
  "failed r \<equiv> r\<lparr>Errors := Errors r + 1\<rparr>"

definition wanted :: "order list \<Rightarrow> position list \<Rightarrow> (string \<times> string \<times> string) list" where
  "wanted os ps =
     foldl (\<lambda>m (market, symbol). tbl_save fst (key market symbol, market, symbol) m) []
       (map (\<lambda>x. (ordMarket x, ordSymbol x)) os @ map (\<lambda>p. (posMarket p, posSymbol p)) ps)"

definition collectPrice :: "string \<times> string \<times> string \<Rightarrow> marks \<Rightarrow> marks M" where
  "collectPrice kms prices =
     (case kms of (k, market, symbol) \<Rightarrow>
       bind (attempt (GetPrice market symbol)) (\<lambda>r.
       (case r of Inl _ \<Rightarrow> ret prices | Inr price \<Rightarrow> ret (prices(k \<mapsto> price)))))"

definition collectPrices :: "order list \<Rightarrow> position list \<Rightarrow> marks M" where
  "collectPrices os ps = loopM (wanted os ps) collectPrice Map.empty"

definition loadCandidate :: "account \<Rightarrow> position list \<times> tickResult \<Rightarrow> (position list \<times> tickResult) M" where
  "loadCandidate a s =
     (case s of (ps, res) \<Rightarrow>
       bind (attempt (ListPositions (accID a) [])) (\<lambda>r.
       (case r of Inl _ \<Rightarrow> ret (ps, failed res) | Inr held \<Rightarrow> ret (ps @ held, res))))"

definition sweepOne :: "marks \<Rightarrow> account \<Rightarrow> tickResult \<Rightarrow> tickResult M" where
  "sweepOne prices a res =
     bind (enforceMaxDD (accID a) prices) (\<lambda>r.
     (case r of (n, err) \<Rightarrow>
       let res1 = res\<lparr>Closed := Closed res + n\<rparr>
       in (case err of
             None \<Rightarrow> ret res1
           | Some x \<Rightarrow> if x = ErrRiskPriceUnavailable then ret res1 else ret (failed res1))))"

definition noteStopped :: "account \<Rightarrow> (string \<Rightarrow> bool) \<Rightarrow> (string \<Rightarrow> bool) M" where
  "noteStopped a m =
     bind (attempt (AccountByID (accID a))) (\<lambda>r.
     (case r of Inl _ \<Rightarrow> ret m | Inr acc \<Rightarrow> ret (m(accID a := accMaxDDStoppedAt acc \<noteq> None))))"

definition fillOne :: "marks \<Rightarrow> order \<Rightarrow> tickResult \<Rightarrow> tickResult M" where
  "fillOne prices order res =
     (case prices (key (ordMarket order) (ordSymbol order)) of
        None \<Rightarrow> ret res
      | Some price \<Rightarrow>
          if \<not> limitTriggered order price then ret res
          else bind (attempt (fillOpenOrder (ordAccountID order) (ordID order) (ordPrice order) prices)) (\<lambda>r.
               (case r of
                  Inl x \<Rightarrow> if x = ErrRiskPriceUnavailable then ret res else ret (failed res)
                | Inr None \<Rightarrow> ret res
                | Inr (Some filled) \<Rightarrow>
                    if ordStatus filled = OrderCanceled then ret res
                    else if ordStatus filled = OrderRejected then ret (res\<lparr>Rejected := Rejected res + 1\<rparr>)
                    else ret (res\<lparr>Filled := Filled res + 1\<rparr>))))"

definition stopOne :: "marks \<Rightarrow> position \<Rightarrow> tickResult \<Rightarrow> tickResult M" where
  "stopOne prices pos res =
     (case prices (key (posMarket pos) (posSymbol pos)) of
        None \<Rightarrow> ret res
      | Some price \<Rightarrow>
          (case stopTriggered pos price of
             None \<Rightarrow> ret res
           | Some reason \<Rightarrow>
               bind (attempt (closeAt (posAccountID pos) (posID pos) 0 price noSource reason)) (\<lambda>r.
               (case r of
                  Inl x \<Rightarrow>
                    if isBusinessRejection x \<or> x = ErrStopInactive \<or> x = ErrMaxDDStopped then ret res
                    else ret (failed res)
                | Inr _ \<Rightarrow> ret (res\<lparr>Closed := Closed res + 1\<rparr>)))))"

definition cleanupOne :: "marks \<Rightarrow> (string \<Rightarrow> bool) \<Rightarrow> account \<Rightarrow> tickResult \<Rightarrow> tickResult M" where
  "cleanupOne prices stoppedAfterSweep a res =
     (if stoppedAfterSweep (accID a) then ret res
      else bind (attempt (AccountByID (accID a))) (\<lambda>r.
           (case r of
              Inl _ \<Rightarrow> ret (failed res)
            | Inr acc \<Rightarrow>
                if accMaxDDStoppedAt acc = None then ret res
                else bind (liquidateMaxDD (accID a) prices) (\<lambda>q.
                     (case q of (n, err) \<Rightarrow>
                       let res1 = res\<lparr>Closed := Closed res + n\<rparr>
                       in ret (if err = None then res1 else failed res1))))))"

definition tickLoaded :: "order list \<Rightarrow> position list \<Rightarrow> account list \<Rightarrow> tickResult M" where
  "tickLoaded os ps candidates =
     bind (loopM candidates loadCandidate (ps, tickResult0)) (\<lambda>loaded.
     (case loaded of (pricePositions, res0) \<Rightarrow>
       bind (collectPrices os pricePositions) (\<lambda>prices.
       bind (loopM candidates (sweepOne prices) res0) (\<lambda>res1.
       bind (loopM candidates noteStopped (\<lambda>_. False)) (\<lambda>stoppedAfterSweep.
       bind (loopM os (fillOne prices) res1) (\<lambda>res2.
       bind (loopM ps (stopOne prices) res2) (\<lambda>res3.
       loopM candidates (cleanupOne prices stoppedAfterSweep) res3)))))))"

definition Tick :: "tickResult M" where
  "Tick =
     bind (attempt OpenLimitOrders) (\<lambda>r1.
     (case r1 of Inl _ \<Rightarrow> ret (failed tickResult0) | Inr os \<Rightarrow>
     bind (attempt PositionsWithStops) (\<lambda>r2.
     (case r2 of Inl _ \<Rightarrow> ret (failed tickResult0) | Inr ps \<Rightarrow>
     bind (attempt ListMaxDDAccounts) (\<lambda>r3.
     (case r3 of Inl _ \<Rightarrow> ret (failed tickResult0) | Inr candidates \<Rightarrow>
     tickLoaded os ps candidates))))))"

lemma Tick_follows: "follows Tick"
  unfolding Tick_def tickLoaded_def loadCandidate_def collectPrices_def collectPrice_def sweepOne_def
    noteStopped_def fillOne_def stopOne_def cleanupOne_def Let_def
  by (intro follows_intros enforceMaxDD_follows fillOpenOrder_follows closeAt_follows liquidateMaxDD_follows)

lemma liquidateMaxDD_errorFree: "errorFree (liquidateMaxDD accountID marks)"
  unfolding liquidateMaxDD_def liquidateOne_def by (intro errorFree_intros)

lemma enforceMaxDD_errorFree: "errorFree (enforceMaxDD accountID marks)"
  unfolding enforceMaxDD_def by (intro errorFree_intros liquidateMaxDD_errorFree)

lemma Tick_errorFree: "errorFree Tick"
  unfolding Tick_def tickLoaded_def loadCandidate_def collectPrices_def collectPrice_def sweepOne_def
    noteStopped_def fillOne_def stopOne_def cleanupOne_def Let_def
  by (intro errorFree_intros enforceMaxDD_errorFree liquidateMaxDD_errorFree)

end
