(* ===== verification/Safety.thy ===== *)
theory Safety
  imports Invariants Matching Accounts
begin

text \<open>
  Safety of the trading backend: the invariants of accounts, orders, positions and trades that hold in
  every state the services can reach, as interpretations of the locales of \<open>Steps\<close> and \<open>Invariants\<close>.
\<close>

section \<open>Risk configuration\<close>

definition riskOK :: "db \<Rightarrow> bool" where
  "riskOK d = (\<forall>r \<in> set (accounts d). \<not> accInitialBalance r \<le> 0 \<and>
     (case accMaxDD r of
        None \<Rightarrow> accMaxDDBaselineEquity r = None \<and> accMaxDDStoppedAt r = None
      | Some m \<Rightarrow> maxDDValid m \<and> accMaxDDBaselineEquity r \<noteq> None))"

interpretation risk: store_invariant riskOK
proof
  fix d d' assume d: "riskOK d" "dbstep d d'"
  show "riskOK d'"
    unfolding riskOK_def
  proof
    fix r' assume "r' \<in> set (accounts d')"
    from step_accounts [OF d(2) this] d(1)
    show "\<not> accInitialBalance r' \<le> 0 \<and> (case accMaxDD r' of
        None \<Rightarrow> accMaxDDBaselineEquity r' = None \<and> accMaxDDStoppedAt r' = None
      | Some m \<Rightarrow> maxDDValid m \<and> accMaxDDBaselineEquity r' \<noteq> None)"
      by (fastforce simp: riskOK_def evolves_def newAccountOK_def split: option.splits)
  qed
qed (simp add: riskOK_def emptyDB_def)

section \<open>Open orders\<close>

definition openLimits :: "db \<Rightarrow> bool" where
  "openLimits d = (\<forall>x \<in> set (orders d). ordStatus x = OrderOpen \<longrightarrow> limitOrderOK x)"

interpretation limits: store_invariant openLimits
proof
  fix d d' assume d: "openLimits d" "dbstep d d'"
  show "openLimits d'"
    unfolding openLimits_def
  proof (intro ballI impI)
    fix x' assume x': "x' \<in> set (orders d')" "ordStatus x' = OrderOpen"
    from step_orders [OF d(2) x'(1)] d(1) x'(2) show "limitOrderOK x'" by (auto simp: openLimits_def)
  qed
qed (simp add: openLimits_def emptyDB_def)

section \<open>A stopped account has no open orders\<close>

definition stoppedQuiet :: "db \<Rightarrow> bool" where
  "stoppedQuiet d = (\<forall>r \<in> set (accounts d). accMaxDDStoppedAt r \<noteq> None \<longrightarrow> openOrders (accID r) d = [])"

interpretation quiet: keyed_invariant stoppedQuiet
proof
  fix d d' assume d: "keysOK d" "stoppedQuiet d" "dbstep d d'"
  show "stoppedQuiet d'"
    unfolding stoppedQuiet_def openOrders_empty
  proof (intro ballI impI notI)
    fix r' x assume r': "r' \<in> set (accounts d')" "accMaxDDStoppedAt r' \<noteq> None"
      and x: "x \<in> set (orders d')" "ordAccountID x = accID r'" "ordStatus x = OrderOpen"
    from step_accounts [OF d(3) r'(1)] r'(2) obtain r where r: "r \<in> set (accounts d)" "evolves d d' r r'"
      by (auto simp: newAccountOK_def)
    show False
    proof (cases "accMaxDDStoppedAt r")
      case None
      then have "openOrders (accID r) d' = []" "accID r' = accID r"
        using r(2) r'(2) by (auto simp: evolves_def)
      with x show False by (auto simp: openOrders_empty)
    next
      case (Some s)
      then have q: "openOrders (accID r') d = []" "accID r' = accID r"
        using d(2) r by (auto simp: stoppedQuiet_def evolves_def)
      from step_orders [OF d(3) x(1)] x(2,3) q obtain a where a: "accountRow d (accID r) = Some a"
        "accMaxDDStoppedAt a = None"
        by (auto simp: openOrders_empty)
      then have "r = a" using accountRow_in distinct_key_eq [OF keysOKD(1) [OF d(1)] r(1)] by metis
      with Some a(2) show False by simp
    qed
  qed
qed (simp add: stoppedQuiet_def emptyDB_def)

section \<open>Positions and open orders have an account\<close>

definition ownedOK :: "db \<Rightarrow> bool" where
  "ownedOK d =
     ((\<forall>p \<in> set (positions d). posAccountID p \<in> accID ` set (accounts d)) \<and>
      (\<forall>x \<in> set (orders d). ordStatus x = OrderOpen \<longrightarrow> ordAccountID x \<in> accID ` set (accounts d)))"

lemma ids_put [simp]: "accID ` set (tbl_put accID a (accounts d)) = accID ` set (accounts d)"
  by (metis map_key_tbl_put set_map)

lemma accountRow_id: "accountRow d i = Some r \<Longrightarrow> i \<in> accID ` set (accounts d)"
  using accountRow_in by blast

lemma settled_owned:
  assumes "keysOK d" "settled e x price role d x' d1"
  shows "accID ` set (accounts d1) = accID ` set (accounts d)"
    "p \<in> set (positions d1) \<Longrightarrow> p \<in> set (positions d) \<or> posAccountID p = ordAccountID x"
    "ordAccountID x \<in> accID ` set (accounts d)"
proof -
  from assms(2) show "accID ` set (accounts d1) = accID ` set (accounts d)"
    by (elim settled_accounts) simp
  from assms(2) show "ordAccountID x \<in> accID ` set (accounts d)"
    by (elim settled_accounts) (rule accountRow_id)
  assume p: "p \<in> set (positions d1)"
  from assms(2) show "p \<in> set (positions d) \<or> posAccountID p = ordAccountID x"
  proof (rule settledE)
    fix r t h upd filled realized tid t1 t2 ps fee b
    assume s: "applyFill (positionOf d x) (ordSide x) (ordQuantity x) price (ordLeverage x) = (filled, realized)"
      "persisted x (positionOf d x) filled (positions d) upd ps"
      "d1 = logged (d\<lparr>positions := ps,
       accounts := tbl_put accID (r\<lparr>accBalance := b, accToken := t, accTokenHash := h\<rparr>) (accounts d),
       trades := trades d @ [(fillTrade x tid role price fee realized)\<lparr>trdCreatedAt := t1\<rparr>]\<rparr>)
       [(fillEntry x tid (positionIDOf (positionOf d x) upd) price fee realized b, t2)]"
    with persisted_rows [OF s(1) refl s(2)] keysOKD(3,4) [OF assms(1)] p show ?thesis
      by (auto simp: posKey_def)
  qed
qed

lemma step_open_orders:
  assumes "dbstep d d'" "x' \<in> set (orders d')" "ordStatus x' = OrderOpen"
  shows "x' \<in> set (orders d) \<or> ordAccountID x' \<in> accID ` set (accounts d)"
  using step_orders [OF assms(1,2)] assms(3) accountRow_id by auto

lemma step_ids:
  assumes "dbstep d d'" "\<And>i. d' \<noteq> d\<lparr>positions := filter (\<lambda>p. posAccountID p \<noteq> i) (positions d),
         orders := filter (\<lambda>x. \<not> (ordAccountID x = i \<and> ordStatus x = OrderOpen)) (orders d),
         accounts := filter (\<lambda>a. accID a \<noteq> i) (accounts d)\<rparr>" "keysOK d"
  shows "accID ` set (accounts d) \<subseteq> accID ` set (accounts d') \<and>
    (\<forall>p' \<in> set (positions d'). posAccountID p' \<in> posAccountID ` set (positions d) \<or>
       posAccountID p' \<in> accID ` set (accounts d))"
  using assms(1)
proof (cases rule: dbstep.cases)
  case (fill_new e x price role x' d1 r t)
  have "posAccountID p' \<in> posAccountID ` set (positions d) \<or> posAccountID p' \<in> accID ` set (accounts d)"
    if "p' \<in> set (positions d1)" for p'
    using settled_owned(2) [OF assms(3) fill_new(2) that] settled_owned(3) [OF assms(3) fill_new(2)] by auto
  then show ?thesis using settled_owned(1) [OF assms(3) fill_new(2)] fill_new(1) by simp
next
  case (fill_open acc i x e price role x' d1 r)
  have "posAccountID p' \<in> posAccountID ` set (positions d) \<or> posAccountID p' \<in> accID ` set (accounts d)"
    if "p' \<in> set (positions d1)" for p'
    using settled_owned(2) [OF assms(3) fill_open(4) that] settled_owned(3) [OF assms(3) fill_open(4)] by auto
  then show ?thesis using settled_owned(1) [OF assms(3) fill_open(4)] fill_open(1) by simp
next
  case (set_stops acc r i p q ts ss tp sl src t)
  then show ?thesis using find_SomeD [OF set_stops(5)] by (auto dest: in_tbl_put)
next
  case (stop acc r marks eq)
  from stop(4) show ?thesis
    by (elim stoppedNowE) (simp add: accountRow_save [OF stop(1)])
next
  case (resume i r h t t')
  then show ?thesis by (simp add: accountRow_save [OF resume(2)])
next
  case (remove i)
  then show ?thesis using assms(2) [of i] by simp
qed auto

interpretation owned: keyed_invariant ownedOK
proof
  fix d d' assume d: "keysOK d" "ownedOK d" "dbstep d d'"
  show "ownedOK d'"
  proof (cases "\<exists>i. d' = d\<lparr>positions := filter (\<lambda>p. posAccountID p \<noteq> i) (positions d),
         orders := filter (\<lambda>x. \<not> (ordAccountID x = i \<and> ordStatus x = OrderOpen)) (orders d),
         accounts := filter (\<lambda>a. accID a \<noteq> i) (accounts d)\<rparr>")
    case True
    then show ?thesis using d(2) by (force simp: ownedOK_def)
  next
    case False
    then have ids: "accID ` set (accounts d) \<subseteq> accID ` set (accounts d')"
      and pos: "\<forall>p' \<in> set (positions d'). posAccountID p' \<in> posAccountID ` set (positions d) \<or>
        posAccountID p' \<in> accID ` set (accounts d)"
      using step_ids [OF d(3) _ d(1)] by auto
    have "posAccountID p' \<in> accID ` set (accounts d)" if "p' \<in> set (positions d')" for p'
      using pos that d(2) by (auto simp: ownedOK_def)
    moreover have "ordAccountID x \<in> accID ` set (accounts d)"
      if "x \<in> set (orders d')" "ordStatus x = OrderOpen" for x
      using step_open_orders [OF d(3) that] that(2) d(2) by (auto simp: ownedOK_def)
    ultimately show ?thesis using ids unfolding ownedOK_def by blast
  qed
qed (simp add: ownedOK_def emptyDB_def)

section \<open>Orders and trades\<close>

text \<open>The trade of a filled order, and what it records of it.\<close>

definition tradeOf :: "order \<Rightarrow> trade \<Rightarrow> bool" where
  "tradeOf x t = (ordID x = trdOrderID t \<and> ordStatus x = OrderFilled \<and> ordAccountID x = trdAccountID t \<and>
     ordMarket x = trdMarket t \<and> ordSymbol x = trdSymbol t \<and> ordProduct x = trdProduct t \<and>
     ordSide x = trdSide t \<and> ordFilledQuantity x = trdQuantity t \<and> ordAvgFillPrice x = trdPrice t \<and>
     ordFee x = trdFee t \<and> ordRealizedPnL x = trdRealizedPnL t \<and> ordSource x = trdSource t)"

definition tradesOK :: "db \<Rightarrow> bool" where
  "tradesOK d =
     (distinct (map trdOrderID (trades d)) \<and>
      (\<forall>t \<in> set (trades d). \<exists>x \<in> set (orders d). tradeOf x t) \<and>
      (\<forall>x \<in> set (orders d). ordStatus x = OrderFilled \<longrightarrow> (\<exists>t \<in> set (trades d). tradeOf x t)))"

lemma tradeOf_fill:
  "tradeOf (filledOrder x price fee realized upd) ((fillTrade x tid role price fee realized)\<lparr>trdCreatedAt := c\<rparr>)"
  by (simp add: tradeOf_def fillTrade_def filledOrder_def)

lemma settled_trade:
  assumes "settled e x price role d x' d1"
  obtains t where "trades d1 = trades d @ [t]" "tradeOf x' t" "trdOrderID t = ordID x"
  using assms
  by (elim settledE) (rule that, simp, simp add: tradeOf_fill, simp add: fillTrade_def)

lemma tradeOf_rows [simp]: "tradeOf (x\<lparr>ordCreatedAt := c\<rparr>) t = tradeOf x t"
  "tradeOf (x\<lparr>ordPositionID := p\<rparr>) t = tradeOf x t"
  by (simp_all add: tradeOf_def)

lemma trades_mono:
  assumes "keysOK d" "tradesOK d" "dbstep d d'" "trades d' = trades d"
    and "\<And>x. x \<in> set (orders d') \<Longrightarrow> ordStatus x = OrderFilled \<Longrightarrow> x \<in> set (orders d)"
  shows "tradesOK d'"
  unfolding tradesOK_def assms(4)
proof (intro conjI ballI impI)
  fix t assume "t \<in> set (trades d)"
  then obtain x where x: "x \<in> set (orders d)" "tradeOf x t" using assms(2) by (auto simp: tradesOK_def)
  then have "ordStatus x \<noteq> OrderOpen" by (auto simp: tradeOf_def)
  from step_final_orders [OF assms(3,1) x(1) this] x(2) show "\<exists>x \<in> set (orders d'). tradeOf x t" ..
qed (use assms(2,5) in \<open>auto simp: tradesOK_def\<close>)

lemma trades_fill:
  assumes "keysOK d" "tradesOK d" "dbstep d d'" "trades d' = trades d @ [t]"
    and y: "y \<in> set (orders d')" "tradeOf y t"
    and new: "\<And>x. x \<in> set (orders d) \<Longrightarrow> ordID x = trdOrderID t \<Longrightarrow> ordStatus x \<noteq> OrderFilled"
    and rest: "\<And>x. x \<in> set (orders d') \<Longrightarrow> ordStatus x = OrderFilled \<Longrightarrow> x \<in> set (orders d) \<or> x = y"
  shows "tradesOK d'"
  unfolding tradesOK_def assms(4)
proof (intro conjI ballI impI)
  have "trdOrderID u \<noteq> trdOrderID t" if "u \<in> set (trades d)" for u
  proof
    assume "trdOrderID u = trdOrderID t"
    moreover obtain x where "x \<in> set (orders d)" "tradeOf x u" using assms(2) \<open>u \<in> set (trades d)\<close> by (auto simp: tradesOK_def)
    ultimately show False using new by (auto simp: tradeOf_def)
  qed
  then have "trdOrderID t \<notin> trdOrderID ` set (trades d)" by (metis imageE)
  then show "distinct (map trdOrderID (trades d @ [t]))" using assms(2) by (simp add: tradesOK_def)
next
  fix u assume "u \<in> set (trades d @ [t])"
  then consider "u = t" | "u \<in> set (trades d)" by auto
  then show "\<exists>x \<in> set (orders d'). tradeOf x u"
  proof cases
    case 1
    with y show ?thesis by auto
  next
    case 2
    then obtain x where x: "x \<in> set (orders d)" "tradeOf x u" using assms(2) by (auto simp: tradesOK_def)
    then have "ordStatus x \<noteq> OrderOpen" by (auto simp: tradeOf_def)
    from step_final_orders [OF assms(3,1) x(1) this] x(2) show ?thesis ..
  qed
next
  fix x assume "x \<in> set (orders d')" "ordStatus x = OrderFilled"
  from rest [OF this] y(2) this(2) assms(2) show "\<exists>u \<in> set (trades d @ [t]). tradeOf x u"
    by (auto simp: tradesOK_def)
qed

interpretation traded: keyed_invariant tradesOK
proof
  fix d d' assume d: "keysOK d" "tradesOK d" "dbstep d d'"
  from d(3) show "tradesOK d'"
  proof (cases rule: dbstep.cases)
    case (fill_new e x price role x' d1 r c)
    from fill_new(2) show ?thesis
    proof (rule settled_trade)
      fix t assume t: "trades d1 = trades d @ [t]" "tradeOf x' t" "trdOrderID t = ordID x"
      note same = settled_same [OF fill_new(2)]
      show ?thesis
        by (rule trades_fill [OF d, of t "x'\<lparr>ordCreatedAt := c, ordPositionID := []\<rparr>"])
          (use t same fill_new(1,5) in auto)
    qed
  next
    case (fill_open acc i x e price role x' d1 r)
    from fill_open(4) show ?thesis
    proof (rule settled_trade)
      fix t assume t: "trades d1 = trades d @ [t]" "tradeOf x' t" "trdOrderID t = ordID x"
      note same = settled_same [OF fill_open(4)]
      have x: "x \<in> set (orders d)" using find_SomeD [OF fill_open(2)] by simp
      have only: "ordStatus z \<noteq> OrderFilled" if "z \<in> set (orders d)" "ordID z = trdOrderID t" for z
        using distinct_key_eq [OF keysOKD(2) [OF d(1)] that(1) x] that(2) t(3) fill_open(3) by auto
      show ?thesis
        by (rule trades_fill [OF d, of t "x'\<lparr>ordPositionID := []\<rparr>"])
          (use t same fill_open(1) only in \<open>auto simp: in_tbl_save\<close>)
    qed
  next
    case (stop acc r marks eq)
    then have "trades d' = trades d" "orders d' = cancelAll (openOrders acc d) (orders d)"
      by (auto elim: stoppedNowE)
    then show ?thesis
      by (intro trades_mono [OF d]) (auto simp: canceledRow_def dest!: cancelAll_elim)
  next
    case (cancel acc i x src t)
    then show ?thesis by (intro trades_mono [OF d]) (auto simp: in_tbl_save canceledRow_def)
  next
    case (reject acc i x e price role why reason t)
    then show ?thesis by (intro trades_mono [OF d]) (auto simp: in_tbl_save rejectedRow_def)
  next
    case (place x r t t')
    then show ?thesis by (intro trades_mono [OF d]) (auto simp: limitOrderOK_def)
  qed (intro trades_mono [OF d]; auto)+
qed (simp add: tradesOK_def emptyDB_def)

end
