(* ===== verification/Liquidation.thy ===== *)
theory Liquidation
  imports Invariants Matching
begin

text \<open>
  Closing a position in full, and the liquidation of a stopped account: what \<^verbatim>\<open>closeAt\<close> does to the
  tables when it is asked for everything, and that \<^verbatim>\<open>liquidateMaxDD\<close> leaves exactly the positions
  without a quote behind when it reports no error.
\<close>

text \<open>A row a position can have in the table, with a leverage that compares equal to itself.\<close>

definition closable :: "position \<Rightarrow> bool" where
  "closable p = (positionOK p \<and> posLeverage p \<noteq> NaN)"

lemma within_epsilon: "positionOK p \<Longrightarrow> \<not> posQuantity p + qtyEpsilon < posQuantity p"
proof -
  assume p: "positionOK p"
  have "posQuantity p \<le> posQuantity p + qtyEpsilon"
    using p qtyEpsilon_pos by (intro fadd_ge) (auto simp: positionOK_def fless_imp_le)
  then show ?thesis by (metis fle_less_trans fless_irrefl)
qed

lemma closeOrder_terms [simp]:
  "ordAccountID (closeOrder i p q s t) = posAccountID p" "ordMarket (closeOrder i p q s t) = posMarket p"
  "ordSymbol (closeOrder i p q s t) = posSymbol p" "ordProduct (closeOrder i p q s t) = posProduct p"
  "ordSide (closeOrder i p q s t) = closingSide p" "ordQuantity (closeOrder i p q s t) = q"
  "ordLeverage (closeOrder i p q s t) = posLeverage p" "ordReduceOnly (closeOrder i p q s t)"
  "ordTrigger (closeOrder i p q s t) = t"
  by (simp_all add: closeOrder_def closingSide_def)

lemma find_position:
  assumes "keysOK d" "p \<in> set (positions d)"
  shows "find (\<lambda>q. posKey q = (posAccountID p, posMarket p, posSymbol p, posProduct p)) (positions d) = Some p"
  using find_key [OF keysOKD(4) [OF assms(1)] assms(2)] by (simp add: posKey_def)

text \<open>The rules never refuse to close a whole position of a stopped account.\<close>

lemma close_all_accepted:
  assumes "keysOK d" "p \<in> set (positions d)" "closable p"
  shows "\<not> settleRejects e (closeOrder i p (posQuantity p) s TriggerMaxDD) price role d x"
proof -
  let ?o = "closeOrder i p (posQuantity p) s TriggerMaxDD"
  have ok: "positionOK p" "posLeverage p \<noteq> NaN" using assms(3) by (auto simp: closable_def)
  have sys: "systemMaxDD ?o" by (simp add: systemMaxDD_def)
  note pos = find_position [OF assms(1,2)]
  have red: "checkReduceOnly (Some p) ?o = Inr ()"
    using within_epsilon [OF ok(1)] by (simp add: checkReduceOnly_def)
  have spot: "checkSpotShort (posProduct p) (closingSide p) (Some p) (posQuantity p) = Inr ()"
    using within_epsilon [OF ok(1)] ok(1)
    by (auto simp: checkSpotShort_def closingSide_def positionOK_def Let_def)
  have lev: "checkLeverage (Some p) ?o = Inr ()" using ok(2) by (simp add: checkLeverage_def feq_def)
  show ?thesis
    unfolding settleRejects_def closeOrder_terms pos spot red lev by (simp add: sys)
qed

lemma settled_close_all:
  assumes "keysOK d" "p \<in> set (positions d)" "positionOK p"
    and "settled e (closeOrder i p (posQuantity p) s t) price role d x' d1"
  shows "positions d1 = filter (\<lambda>q. posID q \<noteq> posID p) (positions d)"
  using assms(4)
proof (rule settledE)
  fix r :: account and tk h upd filled realized tid t1 t2 ps fee b
  let ?o = "closeOrder i p (posQuantity p) s t"
  assume s: "applyFill (positionOf d ?o) (ordSide ?o) (ordQuantity ?o) price (ordLeverage ?o) = (filled, realized)"
    "persisted ?o (positionOf d ?o) filled (positions d) upd ps"
    "d1 = logged (d\<lparr>positions := ps,
       accounts := tbl_put accID (r\<lparr>accBalance := b, accToken := tk, accTokenHash := h\<rparr>) (accounts d),
       trades := trades d @ [(fillTrade ?o tid role price fee realized)\<lparr>trdCreatedAt := t1\<rparr>]\<rparr>)
       [(fillEntry ?o tid (positionIDOf (positionOf d ?o) upd) price fee realized b, t2)]"
  note pos = find_position [OF assms(1,2)]
  have "filled = None"
    using s(1) close_all [OF assms(3), of price "posLeverage p"] by (simp add: pos)
  then show ?thesis using s(2,3) by (simp add: pos persisted_def)
qed

lemma settled_row:
  assumes "keysOK d" "settled e x price role d x' d1" "accountRow d i = Some r"
  shows "\<exists>r'. accountRow d1 i = Some r' \<and> accMaxDDStoppedAt r' = accMaxDDStoppedAt r"
  using assms(2)
proof (rule settled_accounts)
  fix r0 :: account and b t h
  let ?a = "r0\<lparr>accBalance := b, accToken := t, accTokenHash := h\<rparr>"
  assume r0: "accountRow d (ordAccountID x) = Some r0" "accounts d1 = tbl_put accID ?a (accounts d)"
  show ?thesis
  proof (cases "i = accID r0")
    case True
    then have "ordAccountID x = i" using accountRow_ID [OF r0(1)] by simp
    then have "r = r0" using r0(1) assms(3) by simp
    moreover have "accID r0 \<in> accID ` set (accounts d)" using accountRow_in [OF r0(1)] by blast
    then have "accountRow d1 i = Some ?a"
      using find_tbl_put [of accID ?a "accounts d"] r0(2) True by simp
    ultimately show ?thesis by simp
  next
    case False
    then show ?thesis using find_tbl_put_other [of i accID ?a "accounts d"] r0(2) assms(3) by simp
  qed
qed

section \<open>Closing everything\<close>

definition stoppedRow :: "db \<Rightarrow> string \<Rightarrow> bool" where
  "stoppedRow d acc = (\<exists>r. accountRow d acc = Some r \<and> accMaxDDStoppedAt r \<noteq> None)"

lemma wp_closeAt_all:
  assumes k: "keysOK (wdb w)" and st: "stoppedRow (wdb w) acc"
    and p: "p \<in> set (positions (wdb w))" "posAccountID p = acc" "closable p"
    and Q: "\<And>x w'. keysOK (wdb w') \<Longrightarrow> stoppedRow (wdb w') acc \<Longrightarrow>
      positions (wdb w') = filter (\<lambda>q. posID q \<noteq> posID p) (positions (wdb w)) \<Longrightarrow> Q x w'"
    and E: "\<And>x w'. \<not> isBusinessRejection x \<Longrightarrow> wdb w' = wdb w \<or> (keysOK (wdb w') \<and> stoppedRow (wdb w') acc \<and>
      positions (wdb w') = filter (\<lambda>q. posID q \<noteq> posID p) (positions (wdb w))) \<Longrightarrow> E x w'"
  shows "wp e (closeAt acc (posID p) 0 price noSource TriggerMaxDD) Q E w"
proof -
  obtain r where r: "accountRow (wdb w) acc = Some r" "accMaxDDStoppedAt r \<noteq> None"
    using st by (auto simp: stoppedRow_def)
  have found: "find (\<lambda>q. posAccountID q = acc \<and> posID q = posID p) (positions (wdb w)) = Some p"
    using p(1,2) distinct_key_eq [OF keysOKD(3) [OF k]] by (intro find_unique) auto
  have src: "closeSource a p price noSource TriggerMaxDD = Inr noSource" if "accMaxDDStoppedAt a \<noteq> None" for a
    using that by (simp add: closeSource_def)
  have ok: "positionOK p" using p(3) by (simp add: closable_def)
  let ?Q = "\<lambda>_ w'. keysOK (wdb w') \<and> stoppedRow (wdb w') acc \<and>
      positions (wdb w') = filter (\<lambda>q. posID q \<noteq> posID p) (positions (wdb w))"
  have main: "wp e (settle (closeOrder i p (posQuantity p) noSource TriggerMaxDD) price RoleTaker)
      (\<lambda>filled. wp e (CreateOrder filled) ?Q (\<lambda>x _. \<not> isBusinessRejection x)) (\<lambda>x _. \<not> isBusinessRejection x) w2"
    if w2: "wdb w2 = wdb w" for i w2
  proof (rule wp_settle, goal_cases)
    case (1 x' w3)
    have s: "keysOK (wdb w3)" "positions (wdb w3) = filter (\<lambda>q. posID q \<noteq> posID p) (positions (wdb w))"
      "\<exists>r'. accountRow (wdb w3) acc = Some r' \<and> accMaxDDStoppedAt r' = accMaxDDStoppedAt r"
      using keysOK_settled settled_close_all settled_row k p(1) ok r(1) 1 w2 by metis+
    show ?case
    proof (rule wp_CreateOrderI, goal_cases)
      case (1 t w4)
      then have "ordID x' \<notin> ordID ` set (orders (wdb w3))" by (metis imageE)
      with 1 s r(2) show ?case
        by (auto simp: stoppedRow_def intro!: keysOK_orders keysOKD(2))
    qed auto
  next
    case (2 x w3)
    then show ?case using close_all_accepted [OF k p(1,3)] w2 by simp
  qed simp
  have body: "wp e (closeAtTx i acc (posID p) 0 price noSource TriggerMaxDD) ?Q (\<lambda>x _. \<not> isBusinessRejection x) w1"
    if w1: "wdb w1 = wdb w" for i w1
    unfolding closeAtTx_def wp_andThen
  proof (rule wp_LockAccount, goal_cases)
    case (1 w2)
    then show ?case
      unfolding wp_bind wp_AccountByID wp_if wp_raise wp_closedIfMissing wp_PositionByID wp_liftE Let_def
      using w1 r found src within_epsilon [OF ok] decryptAccount_Inl [of e r]
      by (auto dest!: decryptAccount_Inr simp: fle_refl zero_float64_def intro!: main)
  qed auto
  show ?thesis
    unfolding closeAt_def wp_bind
  proof (rule wp_newIDI, goal_cases)
    case (1 i w1)
    note b = body [of w1]
    show ?case
      unfolding wp_Tx
      by (intro conjI impI, rule E, simp_all add: 1, rule wp_mono [OF body]) (auto simp: 1 intro: Q E)
  qed (auto intro: E)
qed

text \<open>\<open>quoted\<close> positions are the ones a round can close; the rest waits for the next round.\<close>

definition quoted :: "marks \<Rightarrow> position \<Rightarrow> bool" where
  "quoted marks p = (marks (key (posMarket p) (posSymbol p)) \<noteq> None)"

text \<open>The loop removes some of the quoted positions, and all of them when it reports no error.\<close>

definition liquidated :: "marks \<Rightarrow> position list \<Rightarrow> db \<Rightarrow> int \<Rightarrow> err option \<Rightarrow> int \<times> err option \<Rightarrow> db \<Rightarrow> bool" where
  "liquidated marks ps d n fe r d' = (\<exists>K. K \<subseteq> {p \<in> set ps. quoted marks p} \<and>
     positions d' = filter (\<lambda>q. posID q \<notin> posID ` K) (positions d) \<and>
     (snd r = None \<longrightarrow> fe = None \<and> K = {p \<in> set ps. quoted marks p} \<and>
        fst r = n + int (length (filter (quoted marks) ps))))"

lemma liquidated_skip: "\<not> quoted marks p \<Longrightarrow> liquidated marks ps d n fe r d' \<Longrightarrow> liquidated marks (p # ps) d n fe r d'"
proof -
  assume p: "\<not> quoted marks p"
  then have "{q \<in> set (p # ps). quoted marks q} = {q \<in> set ps. quoted marks q}" by auto
  then show "liquidated marks ps d n fe r d' \<Longrightarrow> ?thesis" using p by (simp add: liquidated_def)
qed

lemma liquidated_close:
  assumes "quoted marks p" "positions d1 = filter (\<lambda>q. posID q \<noteq> posID p) (positions d)"
    and "liquidated marks ps d1 m fe' r d'" "m = n + 1 \<and> fe' = fe \<or> fe' \<noteq> None"
  shows "liquidated marks (p # ps) d n fe r d'"
proof -
  from assms(3) obtain K where K: "K \<subseteq> {q \<in> set ps. quoted marks q}"
    "positions d' = filter (\<lambda>q. posID q \<notin> posID ` K) (positions d1)"
    "snd r = None \<longrightarrow> fe' = None \<and> K = {q \<in> set ps. quoted marks q} \<and> fst r = m + int (length (filter (quoted marks) ps))"
    by (auto simp: liquidated_def)
  have "positions d' = filter (\<lambda>q. posID q \<notin> posID ` insert p K) (positions d)"
    by (simp add: K(2) assms(2))
  moreover have "insert p K \<subseteq> {q \<in> set (p # ps). quoted marks q}" using K(1) assms(1) by auto
  moreover have "{q \<in> set (p # ps). quoted marks q} = insert p {q \<in> set ps. quoted marks q}" using assms(1) by auto
  ultimately show ?thesis unfolding liquidated_def using K(3) assms(1,4) by (intro exI [of _ "insert p K"]) auto
qed

lemma liquidated_failed:
  assumes "liquidated marks ps d m fe' r d'" "fe' \<noteq> None"
  shows "liquidated marks (p # ps) d n fe r d'"
proof -
  from assms obtain K where "K \<subseteq> {q \<in> set ps. quoted marks q}" "snd r \<noteq> None"
    "positions d' = filter (\<lambda>q. posID q \<notin> posID ` K) (positions d)" by (auto simp: liquidated_def)
  then show ?thesis unfolding liquidated_def by (intro exI [of _ K]) auto
qed

lemma liquidation_loop:
  assumes "\<forall>p \<in> set ps. p \<in> set (positions (wdb w)) \<and> posAccountID p = acc \<and> (quoted marks p \<longrightarrow> closable p)"
    and "distinct (map posID ps)" "keysOK (wdb w)" "stoppedRow (wdb w) acc"
  shows "wp e (loopM ps (liquidateOne acc marks) (n, fe))
    (\<lambda>r w'. liquidated marks ps (wdb w) n fe r (wdb w')) (\<lambda>_ _. False) w"
  using assms
proof (induction ps arbitrary: w n fe)
  case Nil
  then show ?case by (simp add: wp_ret liquidated_def)
next
  case (Cons p ps)
  let ?I = "\<lambda>r w'. liquidated marks (p # ps) (wdb w) n fe r (wdb w')"
  have p: "p \<in> set (positions (wdb w))" "posAccountID p = acc" "quoted marks p \<longrightarrow> closable p" using Cons.prems(1) by auto
  have other: "posID q \<noteq> posID p" if "q \<in> set ps" for q
    using Cons.prems(2) that by (auto simp: image_iff)
  have same: "wp e (loopM ps (liquidateOne acc marks) (m, fe')) (\<lambda>r w'. liquidated marks ps (wdb w) m fe' r (wdb w'))
      (\<lambda>_ _. False) w1" if "wdb w1 = wdb w" for m fe' w1
    using Cons.IH [of w1 m fe'] Cons.prems that by simp
  have closed: "wp e (loopM ps (liquidateOne acc marks) (m, fe')) (\<lambda>r w'. liquidated marks ps (wdb w1) m fe' r (wdb w'))
      (\<lambda>_ _. False) w1"
    if "keysOK (wdb w1)" "stoppedRow (wdb w1) acc" "positions (wdb w1) = filter (\<lambda>q. posID q \<noteq> posID p) (positions (wdb w))"
    for m fe' w1
    by (rule Cons.IH) (use Cons.prems(1,2) other that in simp_all)
  show ?case
  proof (cases "marks (key (posMarket p) (posSymbol p))")
    case None
    show ?thesis
      unfolding loopM.simps wp_bind liquidateOne_def [of acc marks p] prod.case None option.case wp_ret
      by (rule wp_mono [OF same [OF refl]]) (simp_all add: liquidated_skip quoted_def None)
  next
    case (Some price)
    then have q: "quoted marks p" by (simp add: quoted_def)
    have h: "wp e (closeAt acc (posID p) 0 price noSource TriggerMaxDD)
        (\<lambda>_. wp e (loopM ps (liquidateOne acc marks) (n + 1, fe)) ?I (\<lambda>_ _. False))
        (\<lambda>x w'. \<not> isBusinessRejection x \<and>
          wp e (loopM ps (liquidateOne acc marks) (n, if fe = None then Some x else fe)) ?I (\<lambda>_ _. False) w') w"
    proof (rule wp_closeAt_all [OF Cons.prems(3,4) p(1,2)], goal_cases)
      case (2 x w1)
      show ?case by (rule wp_mono [OF closed [OF 2]]) (auto intro: liquidated_close [OF q 2(3)])
    next
      case (3 x w1)
      let ?fe = "if fe = None then Some x else fe"
      have "wp e (loopM ps (liquidateOne acc marks) (n, ?fe)) ?I (\<lambda>_ _. False) w1"
        using 3(2)
      proof
        assume "wdb w1 = wdb w"
        then show ?thesis by (rule wp_mono [OF same]) (auto intro: liquidated_failed)
      next
        assume c: "keysOK (wdb w1) \<and> stoppedRow (wdb w1) acc \<and>
          positions (wdb w1) = filter (\<lambda>q. posID q \<noteq> posID p) (positions (wdb w))"
        then have c3: "positions (wdb w1) = filter (\<lambda>q. posID q \<noteq> posID p) (positions (wdb w))" by simp
        show ?thesis
          by (rule wp_mono [OF closed], use c in simp, use c in simp, rule c3, erule liquidated_close [OF q c3]) simp_all
      qed
      then show ?case using 3(1) by simp
    qed (use p q in auto)
    show ?thesis
      unfolding loopM.simps wp_bind liquidateOne_def [of acc marks p] prod.case Some option.case wp_attempt
      by (rule wp_mono [OF h]) (auto simp: wp_rules)
  qed
qed

lemma liquidated_openPositions:
  assumes "liquidated marks (openPositions acc d) d 0 None r d'" "keysOK d"
  shows "set (openPositions acc d') \<subseteq> set (openPositions acc d)"
    "p \<in> set (openPositions acc d) \<Longrightarrow> \<not> quoted marks p \<Longrightarrow> p \<in> set (openPositions acc d')"
    "snd r = None \<Longrightarrow> openPositions acc d' = filter (\<lambda>p. \<not> quoted marks p) (openPositions acc d) \<and>
       fst r = int (length (filter (quoted marks) (openPositions acc d)))"
proof -
  from assms(1) obtain K where K: "K \<subseteq> {p \<in> set (openPositions acc d). quoted marks p}"
    "positions d' = filter (\<lambda>q. posID q \<notin> posID ` K) (positions d)"
    "snd r = None \<longrightarrow> K = {p \<in> set (openPositions acc d). quoted marks p} \<and>
       fst r = int (length (filter (quoted marks) (openPositions acc d)))"
    by (auto simp: liquidated_def)
  have left: "openPositions acc d' = filter (\<lambda>q. posID q \<notin> posID ` K) (openPositions acc d)"
    by (simp add: openPositions_def K(2) filter_sort conj_commute)
  then show "set (openPositions acc d') \<subseteq> set (openPositions acc d)" by simp
  have inj: "posID q \<in> posID ` K \<longleftrightarrow> q \<in> K" if "q \<in> set (openPositions acc d)" for q
    using that K(1) distinct_key_eq [OF keysOKD(3) [OF assms(2)]] by (auto simp: set_openPositions) 
  show "p \<in> set (openPositions acc d) \<Longrightarrow> \<not> quoted marks p \<Longrightarrow> p \<in> set (openPositions acc d')"
    using K(1) inj by (auto simp: left)
  show "snd r = None \<Longrightarrow> openPositions acc d' = filter (\<lambda>p. \<not> quoted marks p) (openPositions acc d) \<and>
       fst r = int (length (filter (quoted marks) (openPositions acc d)))"
    using K(3) inj unfolding left by (auto intro!: filter_cong)
qed

lemma liquidateMaxDD_wp:
  assumes "keysOK (wdb w)" "stoppedRow (wdb w) acc"
    and "\<forall>p \<in> set (openPositions acc (wdb w)). quoted marks p \<longrightarrow> closable p"
  shows "wp e (liquidateMaxDD acc marks)
    (\<lambda>r w'. liquidated marks (openPositions acc (wdb w)) (wdb w) 0 None r (wdb w')) (\<lambda>_ _. False) w"
proof -
  have "distinct (map posID (openPositions acc (wdb w)))"
    using keysOKD(3) [OF assms(1)] by (auto simp: openPositions_def distinct_map inj_on_def)
  then have loop: "wp e (loopM (openPositions acc (wdb w)) (liquidateOne acc marks) (0, None))
      (\<lambda>r w'. liquidated marks (openPositions acc (wdb w)) (wdb w) 0 None r (wdb w')) (\<lambda>_ _. False) (bump w)"
    using liquidation_loop [of "openPositions acc (wdb w)" "bump w"] assms by (simp add: set_openPositions)
  have failed: "liquidated marks ps d 0 None (0, Some x) d" for ps d x
    by (auto simp: liquidated_def intro!: exI [of _ "{}"])
  have "sort_key posCreatedAt (filter (\<lambda>p. posAccountID p = acc) (positions (wdb w))) = openPositions acc (wdb w)"
    by (simp add: openPositions_def)
  then show ?thesis
    unfolding liquidateMaxDD_def wp_bind wp_attempt wp_ListPositions
    using loop failed by (auto simp: wp_rules)
qed

text \<open>
  (C32) Liquidation of a stopped account closes every position it can and no other, each in a transaction of
  its own: \<^verbatim>\<open>liquidateMaxDD\<close> returns; a position without a quote stays for the next round, and no position
  appears; when it reports no error, exactly the positions without a quote are left, so none at all when
  every one has a quote, and the count it returns is the number of the quoted ones.  The quoted positions
  are well-formed rows.
\<close>

theorem liquidation_completes:
  assumes "keysOK (wdb w)" "stoppedRow (wdb w) acc"
    and "\<forall>p \<in> set (openPositions acc (wdb w)). quoted marks p \<longrightarrow> closable p"
  shows "\<exists>n err w'. liquidateMaxDD acc marks e w = (Inr (n, err), w') \<and>
    set (openPositions acc (wdb w')) \<subseteq> set (openPositions acc (wdb w)) \<and>
    (\<forall>p \<in> set (openPositions acc (wdb w)). \<not> quoted marks p \<longrightarrow> p \<in> set (openPositions acc (wdb w'))) \<and>
    (err = None \<longrightarrow> openPositions acc (wdb w') = filter (\<lambda>p. \<not> quoted marks p) (openPositions acc (wdb w)) \<and>
       n = int (length (filter (quoted marks) (openPositions acc (wdb w)))))"
proof -
  from liquidateMaxDD_wp [OF assms, of e] obtain n err w' where
    r: "liquidateMaxDD acc marks e w = (Inr (n, err), w')"
    and l: "liquidated marks (openPositions acc (wdb w)) (wdb w) 0 None (n, err) (wdb w')"
    unfolding wp_def by (auto split: prod.splits sum.splits)
  show ?thesis
    using r liquidated_openPositions [OF l assms(1)] by auto
qed

section \<open>A stopped account does not trade\<close>

lemma readOnly_basics:
  "readOnly (AccountByID i)" "readOnly (ListPositions a pr)" "readOnly (PositionByID a i)" "readOnly (GetPrice m s)"
  by (simp_all add: readOnly_def AccountByID_def accountWhere_def ListPositions_def PositionByID_def keeps_dbread keeps_GetPrice)

lemma readOnly_collectMarks: "readOnly (collectMarks ps marks)"
  unfolding readOnly_def
proof
  fix d0
  show "keeps (\<lambda>d. d = d0) (collectMarks ps marks)"
    by (induction ps arbitrary: marks) (auto simp: Let_def intro!: keeps_ret keeps_bind keeps_GetPrice)
qed

lemma readOnly_riskMarks: "readOnly (riskMarks i)"
proof -
  have "readOnly (if b then ret Map.empty else bind (ListPositions i []) (\<lambda>ps. collectMarks ps Map.empty))" for b
    using readOnly_basics(2) [of i "[]"] readOnly_collectMarks
    by (auto simp: readOnly_def intro!: keeps_ret keeps_bind)
  then show ?thesis using readOnly_basics(1) [of i]
    unfolding riskMarks_def readOnly_def by (auto intro!: keeps_bind)
qed

lemma stopped_Tx:
  assumes "stoppedRow (wdb w) acc" and "\<And>w1. wdb w1 = wdb w \<Longrightarrow> wp e m (\<lambda>_ _. False) (\<lambda>_ _. True) w1"
  shows "wp e (Tx m) (\<lambda>_ _. False) (\<lambda>_ w'. wdb w' = wdb w) w"
proof -
  have "wp e m (\<lambda>_ _. False) (\<lambda>_ _. True) (bump w)" by (rule assms(2)) simp
  then show ?thesis by (auto simp: wp_Tx intro: wp_mono)
qed

lemma stopped_AccountByID:
  assumes "stoppedRow (wdb w) acc"
    and "\<And>a w'. wdb w' = wdb w \<Longrightarrow> accMaxDDStoppedAt a \<noteq> None \<Longrightarrow> Q a w'" "\<And>x w'. wdb w' = wdb w \<Longrightarrow> E x w'"
  shows "wp e (AccountByID acc) Q E w"
  using assms(1) by (auto simp: wp_AccountByID stoppedRow_def dest!: decryptAccount_Inr intro!: assms(2,3))

lemma stopped_place:
  assumes "stoppedRow (wdb w) (ordAccountID x)"
  shows "wp e (placeLimitTx x marks) (\<lambda>_ _. False) (\<lambda>_ _. True) w"
    "wp e (executeTx x price role marks) (\<lambda>_ _. False) (\<lambda>_ _. True) w"
  unfolding placeLimitTx_def executeTx_def wp_andThen wp_bind
  by (rule wp_LockAccount, rule stopped_AccountByID, use assms in \<open>auto simp: wp_rules\<close>)+

lemma stopped_PlaceOrder_wp:
  assumes "stoppedRow (wdb w) acc"
  shows "wp e (PlaceOrder acc i) (\<lambda>_ _. False) (\<lambda>_ w'. wdb w' = wdb w) w"
proof -
  let ?o = "\<lambda>oid n. orderFromInput oid acc n"
  have id: "ordAccountID (?o oid n) = acc" for oid n by (simp add: orderFromInput_def)
  have lim: "wp e (bind (riskMarks acc) (\<lambda>marks. bind (Tx (placeLimitTx (?o oid n) marks)) unblocked))
      (\<lambda>_ _. False) (\<lambda>_ w'. wdb w' = wdb w) w1"
    "wp e (execute (?o oid n) price RoleTaker) (\<lambda>_ _. False) (\<lambda>_ w'. wdb w' = wdb w) w1"
    if "wdb w1 = wdb w" for oid n price w1
    unfolding execute_def wp_bind id
    by (rule wp_readOnly [OF readOnly_riskMarks], rule wp_mono, rule stopped_Tx [where acc = acc],
        use assms that in \<open>auto intro!: stopped_place simp: id\<close>)+
  show ?thesis
    unfolding PlaceOrder_def Let_def
    using lim by (auto simp: wp_rules wp_bind wp_newID wp_GetPrice wp_liftE wp_asks wp_andThen)
qed

lemma wp_fails: "wp e m (\<lambda>_ _. False) E w \<Longrightarrow> \<exists>x w'. m e w = (Inl x, w') \<and> E x w'"
  by (auto simp: wp_def split: prod.splits sum.splits)

lemma stopped_ClosePosition_wp:
  assumes "stoppedRow (wdb w) acc"
  shows "wp e (ClosePosition acc pid q src) (\<lambda>_ _. False) (\<lambda>_ w'. wdb w' = wdb w) w"
  unfolding ClosePosition_def wp_bind
  by (rule stopped_AccountByID [OF assms]) (auto simp: wp_rules)

lemma stopped_SetStops_wp:
  assumes "stoppedRow (wdb w) acc"
  shows "wp e (SetStops acc pid si) (\<lambda>_ _. False) (\<lambda>_ w'. wdb w' = wdb w) w"
  unfolding SetStops_def wp_if wp_bind
  by (intro conjI impI, simp add: wp_rules) (rule stopped_AccountByID [OF assms], auto simp: wp_rules)

text \<open>
  An account that the drawdown check has stopped cannot trade: placing an order, closing a position
  and changing stops all return an error and leave the database untouched, for every request and
  every quote.
\<close>

theorem stopped_account_cannot_trade:
  assumes "stoppedRow (wdb w) acc"
  shows "(\<exists>x w'. PlaceOrder acc i e w = (Inl x, w') \<and> wdb w' = wdb w) \<and>
    (\<exists>x w'. ClosePosition acc pid q src e w = (Inl x, w') \<and> wdb w' = wdb w) \<and>
    (\<exists>x w'. SetStops acc pid si e w = (Inl x, w') \<and> wdb w' = wdb w)"
  by (intro conjI wp_fails stopped_PlaceOrder_wp stopped_ClosePosition_wp stopped_SetStops_wp assms)

text \<open>An account stopped by the check that still holds a position, for the witnesses.\<close>

definition stoppedAccount :: account where
  "stoppedAccount = account0\<lparr>accID := ''acc_1'', accUserName := ''agent'', accToken := ''at_1'',
     accInitialBalance := Fin 1000, accBalance := Fin 800, accStatus := AccountActive,
     accMaxDD := Some (Fin 20), accMaxDDBaselineEquity := Some (Fin 1000), accMaxDDStoppedAt := Some 1\<rparr>"

definition stoppedDB :: db where
  "stoppedDB = emptyDB\<lparr>accounts := [stoppedAccount], positions := [longTwo]\<rparr>"

lemma stoppedDB_ok: "keysOK stoppedDB" "stoppedRow stoppedDB ''acc_1''"
  by (simp_all add: keysOK_def stoppedDB_def emptyDB_def stoppedRow_def stoppedAccount_def)

theorem stopped_account_cannot_trade_witness:
  "\<exists>x w'. ClosePosition ''acc_1'' ''pos_1'' 0 noSource plainEnv (worldOf stoppedDB) = (Inl x, w') \<and>
     wdb w' = stoppedDB"
  using stopped_account_cannot_trade [of "worldOf stoppedDB" "''acc_1''"] stoppedDB_ok(2) by auto

text \<open>The stopped account with a second position, for which there is no quote.\<close>

definition mixedDB :: db where
  "mixedDB = stoppedDB\<lparr>positions := [longTwo, longTwo\<lparr>posID := ''pos_2'', posSymbol := ''ETHUSDT''\<rparr>]\<rparr>"

theorem liquidation_completes_witness:
  "\<exists>n err w'. liquidateMaxDD ''acc_1'' [''crypto:BTCUSDT'' \<mapsto> Fin 110] plainEnv (worldOf mixedDB) = (Inr (n, err), w') \<and>
     longTwo\<lparr>posID := ''pos_2'', posSymbol := ''ETHUSDT''\<rparr> \<in> set (openPositions ''acc_1'' (wdb w')) \<and>
     (err = None \<longrightarrow> map posID (openPositions ''acc_1'' (wdb w')) = [''pos_2''] \<and> n = 1)"
proof -
  let ?m = "[''crypto:BTCUSDT'' \<mapsto> Fin 110]" and ?other = "longTwo\<lparr>posID := ''pos_2'', posSymbol := ''ETHUSDT''\<rparr>"
  have held: "openPositions ''acc_1'' mixedDB = [longTwo, ?other]"
    by (simp add: openPositions_def mixedDB_def longTwo_def)
  have q: "quoted ?m longTwo" "\<not> quoted ?m ?other" by (simp_all add: quoted_def key_def longTwo_def)
  have "keysOK mixedDB" "stoppedRow mixedDB ''acc_1''"
    by (simp_all add: keysOK_def mixedDB_def stoppedDB_def emptyDB_def stoppedRow_def stoppedAccount_def longTwo_def posKey_def)
  moreover have "closable longTwo" using longTwo_OK by (simp add: closable_def longTwo_def)
  ultimately show ?thesis
    using liquidation_completes [of "worldOf mixedDB" "''acc_1''" ?m plainEnv] held q by (auto simp: longTwo_def)
qed

end
