(* ===== verification/LedgerAudit.thy ===== *)
theory LedgerAudit
  imports Invariants
begin

text \<open>
  The ledger as an audit trail: the balance of every account is its initial balance plus the
  recorded balance changes of its fills, added in order in floating point, and the drawdown events
  of an account alternate in step with its stop mark.

  Account identifiers are random; the ledger of a deleted account stays.  The statement is therefore
  about histories in which a new account never gets an identifier the ledger already mentions.
\<close>

definition fillDeltas :: "string \<Rightarrow> ledgerEntry list \<Rightarrow> float64 list" where
  "fillDeltas acc ls =
     map ledBalanceDelta (filter (\<lambda>l. ledAccountID l = acc \<and> ledEvent l = LedgerFill) ls)"

definition riskEvents :: "string \<Rightarrow> ledgerEntry list \<Rightarrow> string list" where
  "riskEvents acc ls =
     map ledEvent (filter (\<lambda>l. ledAccountID l = acc \<and> ledEvent l \<in> {LedgerMaxDDTriggered, LedgerMaxDDResumed}) ls)"

text \<open>Running the drawdown events: triggered stops a running account, resumed starts a stopped one.\<close>

fun runRisk :: "bool \<Rightarrow> string list \<Rightarrow> bool option" where
  "runRisk stopped [] = Some stopped"
| "runRisk stopped (ev # evs) =
     (if \<not> stopped \<and> ev = LedgerMaxDDTriggered then runRisk True evs
      else if stopped \<and> ev = LedgerMaxDDResumed then runRisk False evs
      else None)"

definition auditOK :: "db \<Rightarrow> bool" where
  "auditOK d = (\<forall>r \<in> set (accounts d).
     accBalance r = foldl (+) (accInitialBalance r) (fillDeltas (accID r) (ledger d)) \<and>
     runRisk False (riskEvents (accID r) (ledger d)) = Some (accMaxDDStoppedAt r \<noteq> None))"

definition freshIDs :: "db \<Rightarrow> db \<Rightarrow> bool" where
  "freshIDs d d' = (\<forall>a \<in> set (accounts d'). accID a \<notin> accID ` set (accounts d) \<longrightarrow>
     accID a \<notin> ledAccountID ` set (ledger d))"

inductive audited :: "db \<Rightarrow> bool" where
  start: "audited emptyDB"
| onward: "audited d \<Longrightarrow> dbstep d d' \<Longrightarrow> freshIDs d d' \<Longrightarrow> audited d'"

lemma fillDeltas_append [simp]: "fillDeltas acc (xs @ ys) = fillDeltas acc xs @ fillDeltas acc ys"
  by (simp add: fillDeltas_def)

lemma riskEvents_append [simp]: "riskEvents acc (xs @ ys) = riskEvents acc xs @ riskEvents acc ys"
  by (simp add: riskEvents_def)

lemma fillDeltas_stamp [simp]: "fillDeltas acc (stamp n es) = fillDeltas acc (map fst es)"
  by (induction n es rule: stamp.induct) (auto simp: fillDeltas_def)

lemma riskEvents_stamp [simp]: "riskEvents acc (stamp n es) = riskEvents acc (map fst es)"
  by (induction n es rule: stamp.induct) (auto simp: riskEvents_def)

lemma foreign_entries:
  "\<forall>l \<in> set ls. ledAccountID l = i \<Longrightarrow> j \<noteq> i \<Longrightarrow> fillDeltas j ls = [] \<and> riskEvents j ls = []"
  by (auto simp: fillDeltas_def riskEvents_def filter_empty_conv)

lemma quiet_entries:
  "\<forall>l \<in> set ls. ledEvent l \<notin> {LedgerFill, LedgerMaxDDTriggered, LedgerMaxDDResumed} \<Longrightarrow>
     fillDeltas j ls = [] \<and> riskEvents j ls = []"
  by (auto simp: fillDeltas_def riskEvents_def filter_empty_conv)

lemma runRisk_append: "runRisk s (xs @ ys) = (case runRisk s xs of None \<Rightarrow> None | Some s' \<Rightarrow> runRisk s' ys)"
  by (induction s xs rule: runRisk.induct) auto

text \<open>A step that only writes entries the audit does not look at.\<close>

lemma audit_quiet:
  assumes "auditOK d" "set (accounts d') \<subseteq> set (accounts d)" "ledger d' = ledger d @ stamp n es"
    and "\<forall>l \<in> set (map fst es). ledEvent l \<notin> {LedgerFill, LedgerMaxDDTriggered, LedgerMaxDDResumed}"
  shows "auditOK d'"
  using assms(1,2) quiet_entries [OF assms(4)] by (auto simp: auditOK_def assms(3))

text \<open>A step that rewrites one account and writes entries for it.\<close>

lemma audit_put:
  assumes d: "auditOK d" "accountRow d i = Some r"
    and a: "accID a = i" "accInitialBalance a = accInitialBalance r"
      "accounts d' = tbl_put accID a (accounts d)"
    and l: "ledger d' = ledger d @ stamp n es" "\<forall>l \<in> set (map fst es). ledAccountID l = i"
    and bal: "accBalance a = foldl (+) (accBalance r) (fillDeltas i (map fst es))"
    and risk: "runRisk (accMaxDDStoppedAt r \<noteq> None) (riskEvents i (map fst es)) = Some (accMaxDDStoppedAt a \<noteq> None)"
  shows "auditOK d'"
  unfolding auditOK_def
proof
  fix b assume "b \<in> set (accounts d')"
  then consider "b = a" | "b \<in> set (accounts d)" "accID b \<noteq> i" using a in_tbl_put by metis
  then show "accBalance b = foldl (+) (accInitialBalance b) (fillDeltas (accID b) (ledger d')) \<and>
      runRisk False (riskEvents (accID b) (ledger d')) = Some (accMaxDDStoppedAt b \<noteq> None)"
  proof cases
    case 1
    have "r \<in> set (accounts d)" "accID r = i" using accountRow_in [OF d(2)] by auto
    with d(1) have "accBalance r = foldl (+) (accInitialBalance r) (fillDeltas i (ledger d))"
      "runRisk False (riskEvents i (ledger d)) = Some (accMaxDDStoppedAt r \<noteq> None)"
      by (auto simp: auditOK_def)
    with 1 a l(1) bal risk show ?thesis by (simp add: runRisk_append)
  next
    case 2
    with d(1) foreign_entries [OF l(2), of "accID b"] l(1) show ?thesis by (auto simp: auditOK_def)
  qed
qed

lemma settled_audit:
  assumes "auditOK d" "settled e x price role d x' d1"
  shows "auditOK d1"
  using assms(2)
proof (rule settledE)
  fix r :: account and t h upd filled realized tid t1 t2 ps fee b
  assume s: "settleAccepts e x price role d r" "b = accBalance r + (realized - fee)"
    "d1 = logged (d\<lparr>positions := ps,
       accounts := tbl_put accID (r\<lparr>accBalance := b, accToken := t, accTokenHash := h\<rparr>) (accounts d),
       trades := trades d @ [(fillTrade x tid role price fee realized)\<lparr>trdCreatedAt := t1\<rparr>]\<rparr>)
       [(fillEntry x tid (positionIDOf (positionOf d x) upd) price fee realized b, t2)]"
  have r: "accountRow d (ordAccountID x) = Some r" using s(1) by (simp add: settleAccepts_def)
  show ?thesis
    by (rule audit_put [OF assms(1) r, where a = "r\<lparr>accBalance := b, accToken := t, accTokenHash := h\<rparr>"
          and n = "ledgerSeq d"
          and es = "[(fillEntry x tid (positionIDOf (positionOf d x) upd) price fee realized b, t2)]"])
      (use accountRow_in [OF r] s(2,3) in \<open>simp_all add: fillEntry_def fillDeltas_def riskEvents_def\<close>)
qed

lemma auditOK_orders: "auditOK (d\<lparr>orders := os\<rparr>) = auditOK d"
  by (simp add: auditOK_def)

lemma auditOK_step:
  assumes "auditOK d" "dbstep d d'" "freshIDs d d'"
  shows "auditOK d'"
  using assms(2)
proof (cases rule: dbstep.cases)
  case (fill_new e x price role x' d1 r t)
  then show ?thesis using settled_audit [OF assms(1) fill_new(2)] by (simp add: auditOK_orders)
next
  case (fill_open acc i x e price role x' d1 r)
  then show ?thesis using settled_audit [OF assms(1) fill_open(4)] by (simp add: auditOK_orders)
next
  case (stop acc r marks eq)
  from stop(4) show ?thesis
  proof (rule stoppedNowE)
    fix now :: time and t :: string and h :: "string option" and ts :: "time list" and t' :: time
    let ?a = "r\<lparr>accMaxDDStoppedAt := Some now, accToken := t, accTokenHash := h\<rparr>"
    let ?es = "zip (map (\<lambda>x. canceledEntry acc x noSource) (openOrders acc d)) ts @
        [(riskEntry acc LedgerMaxDDTriggered eq, t')]"
    assume d': "d' = logged (d\<lparr>accounts := tbl_save accID ?a (accounts d),
         orders := cancelAll (openOrders acc d) (orders d)\<rparr>) ?es"
      and len: "length ts = length (openOrders acc d)"
    have fst: "map fst ?es = map (\<lambda>x. canceledEntry acc x noSource) (openOrders acc d) @
        [riskEntry acc LedgerMaxDDTriggered eq]"
      using len by simp
    have q: "fillDeltas acc (map (\<lambda>x. canceledEntry acc x noSource) (openOrders acc d)) = []"
      "riskEvents acc (map (\<lambda>x. canceledEntry acc x noSource) (openOrders acc d)) = []"
      using quiet_entries [of "map (\<lambda>x. canceledEntry acc x noSource) (openOrders acc d)" acc]
      by (auto simp: canceledEntry_def)
    show ?thesis
      by (rule audit_put [OF assms(1) stop(1), where a = ?a and n = "ledgerSeq d" and es = ?es])
        (use accountRow_in [OF stop(1)] accountRow_save [OF stop(1), of ?a] d' stop(2) fst q in
          \<open>auto simp: fst riskEntry_def canceledEntry_def fillDeltas_def riskEvents_def simp del: map_append\<close>)
  qed
next
  case (create a)
  have new: "accID a \<notin> ledAccountID ` set (ledger d)" if "accID a \<notin> accID ` set (accounts d)"
    using assms(3) create(1) that by (auto simp: freshIDs_def)
  have "accID a \<notin> accID ` set (accounts d)" using create(3) by (metis imageE)
  then have "fillDeltas (accID a) (ledger d) = []" "riskEvents (accID a) (ledger d) = []"
    using new by (auto simp: fillDeltas_def riskEvents_def filter_empty_conv image_iff)
  with create(1,2) assms(1) show ?thesis by (auto simp: auditOK_def newAccountOK_def)
next
  case (amend i r a)
  show ?thesis
    by (rule audit_put [OF assms(1) amend(2), where a = a and n = 0 and es = "[]"])
      (use accountRow_in [OF amend(2)] amend in \<open>simp_all add: sameFunds_def fillDeltas_def riskEvents_def\<close>)
next
  case (resume i r h t t')
  let ?a = "r\<lparr>accMaxDDBaselineEquity := Some (accBalance r), accMaxDDStoppedAt := None,
            accStatus := AccountActive, accToken := t, accTokenHash := h\<rparr>"
  show ?thesis
    by (rule audit_put [OF assms(1) resume(2), where a = ?a and n = "ledgerSeq d"
          and es = "[(riskEntry i LedgerMaxDDResumed (accBalance r), t')]"])
      (use accountRow_in [OF resume(2)] accountRow_save [OF resume(2), of ?a] resume in
        \<open>simp_all add: riskEntry_def fillDeltas_def riskEvents_def\<close>)
next
  case (place x r t t')
  show ?thesis by (rule audit_quiet [OF assms(1), where n = "ledgerSeq d" and es = "[(placedEntry x, t')]"])
      (simp_all add: place(1) placedEntry_def)
next
  case (cancel acc i x src t)
  show ?thesis by (rule audit_quiet [OF assms(1), where n = "ledgerSeq d" and es = "[(canceledEntry acc x src, t)]"])
      (simp_all add: cancel(1) canceledEntry_def)
next
  case (reject acc i x e price role why reason t)
  show ?thesis by (rule audit_quiet [OF assms(1), where n = "ledgerSeq d" and es = "[(rejectedEntry x, t)]"])
      (simp_all add: reject(1) rejectedEntry_def)
next
  case (set_stops acc r i p q ts ss tp sl src t)
  show ?thesis
    by (rule audit_quiet [OF assms(1), where n = "ledgerSeq d"
          and es = "[(stopsEntry (p\<lparr>posStopLoss := sl, posTakeProfit := tp\<rparr>) src, t)]"])
      (simp_all add: set_stops(1) stopsEntry_def)
next
  case (remove i)
  show ?thesis by (rule audit_quiet [OF assms(1), where n = 0 and es = "[]"]) (auto simp: remove(1))
next
  case (chat ms mts)
  show ?thesis by (rule audit_quiet [OF assms(1), where n = 0 and es = "[]"]) (auto simp: chat)
qed

lemma audited_OK: "audited d \<Longrightarrow> auditOK d"
proof (induction rule: audited.induct)
  case start
  show ?case by (simp add: auditOK_def emptyDB_def)
next
  case (onward d d')
  then show ?case by (blast intro: auditOK_step)
qed

lemma audited_reachable: "audited d \<Longrightarrow> reachable d"
  by (induction rule: audited.induct) (auto intro: reachable_init reachable_step)

end
