(* ===== verification/ApiSafety.thy ===== *)
theory ApiSafety
  imports Api Chat Safety Liquidation LedgerAudit
begin

text \<open>
  What the HTTP interface promises: every request is answered and moves the database along the steps of
  the state machine only; endpoints of the USER are closed to everyone else; account tokens are shown
  to the USER and to the agent service only; an error of a trading endpoint means that nothing was
  executed, unless it is a 500, which leaves the outcome open; lists have bounded length.
\<close>

section \<open>Requests follow the steps\<close>

lemma follows_answer: "follows m \<Longrightarrow> (\<And>a. follows (k a)) \<Longrightarrow> follows (answer f m k)"
  unfolding answer_def by (intro follows_intros)

lemma follows_orFail: "(\<And>a. follows (k a)) \<Longrightarrow> follows (orFail r k)"
  unfolding orFail_def by (intro follows_intros)

lemma follows_viewAccount: "follows (viewAccount a b)" "follows (viewAccounts as)" "follows (ok c bd)"
  "follows (errorText x)"
proof -
  show view: "follows (viewAccount a b)" for a b unfolding viewAccount_def by (intro follows_intros)
  show "follows (viewAccounts as)" by (induction as) (auto intro!: follows_intros view)
  show "follows (ok c bd)" unfolding ok_def by (rule follows_basic)
  show "follows (errorText x)" by (simp add: follows_def keeps_def errorText_def)
qed

lemma accounts_follow: "follows List" "follows (Get i)"
  unfolding List_def Get_def by (intro follows_intros)+

lemmas service_follows = Create_follows Update_follows Delete_follows MuteChat_follows UnmuteChat_follows
  ResetToken_follows ResumeTrading_follows accounts_follow PlaceOrder_follows ClosePosition_follows
  SetStops_follows CancelOrder_follows queries_follow Post_follows ListChat_follows DeleteChat_follows
  ClearChat_follows Resolve_follows

lemmas api_follows = follows_answer follows_orFail follows_viewAccount service_follows follows_intros

lemma handle_follows: "follows (handle ps ep who)"
  by (cases ep)
    (auto simp: health_def me_def getAccount_def createAccount_def listAccounts_def updateAccount_def
      muteAccountChat_def unmuteAccountChat_def deleteAccount_def resetAccountToken_def resumeAccountTrading_def
      userListPositions_def userListOrders_def userListTrades_def userListLedger_def selfAccount_def marketPrice_def
      placeOrder_def listOrders_def getOrder_def cancelOrder_def listPositions_def closePosition_def setStops_def
      listTrades_def listLedger_def listMessages_def postMessage_def clearMessages_def deleteMessage_def
      positionsFor_def ordersFor_def tradesFor_def ledgerFor_def withAccount_def Ping_def markedPosition_def Let_def
      intro!: api_follows split: option.splits prod.splits)

lemma authenticate_follows: "follows (authenticate anon header)"
  unfolding authenticate_def by (intro follows_intros Resolve_follows)

lemma serve_follows: "follows (serve header ps ep)"
  unfolding serve_def guarded_def requireAny_def requireUser_def optionalAuth_def allowAgentService_def
  by (cases "guardOf ep")
    (auto intro!: follows_intros follows_orFail authenticate_follows handle_follows split: option.splits)

section \<open>Requests are answered\<close>

lemma errorFree_answer: "(\<And>a. errorFree (k a)) \<Longrightarrow> errorFree (answer f m k)"
  unfolding answer_def by (intro errorFree_intros)

lemma errorFree_orFail: "(\<And>a. errorFree (k a)) \<Longrightarrow> errorFree (orFail r k)"
  unfolding orFail_def by (intro errorFree_intros)

lemma errorFree_simple: "errorFree Now" "errorFree (asks f)" "errorFree (ok c bd)" "errorFree (errorText x)"
  by (auto simp: errorFree_def Now_def asks_def ok_def ret_def errorText_def)

lemma errorFree_view: "errorFree (viewAccount a b)" "errorFree (viewAccounts as)" "errorFree (markedPosition p)"
proof -
  show view: "errorFree (viewAccount a b)" for a b
    unfolding viewAccount_def by (intro errorFree_intros errorFree_simple)
  show "errorFree (viewAccounts as)" by (induction as) (auto intro!: errorFree_intros view)
  show "errorFree (markedPosition p)" unfolding markedPosition_def by (intro errorFree_intros)
qed

lemmas api_errorFree = errorFree_answer errorFree_orFail errorFree_simple errorFree_view errorFree_intros

lemma handle_errorFree: "errorFree (handle ps ep who)"
  by (cases ep)
    (auto simp: health_def me_def getAccount_def createAccount_def listAccounts_def updateAccount_def
      muteAccountChat_def unmuteAccountChat_def deleteAccount_def resetAccountToken_def resumeAccountTrading_def
      userListPositions_def userListOrders_def userListTrades_def userListLedger_def selfAccount_def marketPrice_def
      placeOrder_def listOrders_def getOrder_def cancelOrder_def listPositions_def closePosition_def setStops_def
      listTrades_def listLedger_def listMessages_def postMessage_def clearMessages_def deleteMessage_def
      positionsFor_def ordersFor_def tradesFor_def ledgerFor_def withAccount_def Let_def
      intro!: api_errorFree split: option.splits prod.splits)

lemma authenticate_errorFree: "errorFree (authenticate anon header)"
  unfolding authenticate_def by (intro errorFree_intros)

lemma serve_errorFree: "errorFree (serve header ps ep)"
  unfolding serve_def guarded_def requireAny_def requireUser_def optionalAuth_def allowAgentService_def
  by (cases "guardOf ep")
    (auto intro!: api_errorFree authenticate_errorFree handle_errorFree split: option.splits)

text \<open>
  Every request is answered, whatever fails while it is served, and takes the database from a
  reachable state to a reachable state: no request, authenticated or not, well formed or not, can reach a
  state outside the state machine.
\<close>

theorem serve_refines:
  "(\<exists>resp. fst (serve header ps ep e w) = Inr resp) \<and>
   dbstep\<^sup>*\<^sup>* (wdb w) (wdb (snd (serve header ps ep e w)))"
proof
  show "\<exists>resp. fst (serve header ps ep e w) = Inr resp"
    using serve_errorFree by (metis errorFree_def fst_conv)
  show "dbstep\<^sup>*\<^sup>* (wdb w) (wdb (snd (serve header ps ep e w)))"
    using serve_follows by (simp add: follows_def keeps_def)
qed

section \<open>Endpoints of the USER\<close>

lemma BearerToken_trimmed [simp]: "TrimSpace (BearerToken header) = BearerToken header"
  by (simp add: BearerToken_def Let_def)

lemma wp_Resolve:
  assumes "\<And>i w'. idle w w' \<Longrightarrow> (IsUser i \<Longrightarrow> TrimSpace raw = cfgUserToken e) \<Longrightarrow> Q i w'"
    and "\<And>x w'. idle w w' \<Longrightarrow> E x w'"
  shows "wp e (Resolve raw) Q E w"
  unfolding Resolve_def Let_def AccountByToken_def accountWhere_def
  by (auto simp: wp_rules IsUser_def intro!: assms split: option.splits)

definition isUserToken :: "env \<Rightarrow> string \<Rightarrow> bool" where
  "isUserToken e header = (BearerToken header = cfgUserToken e)"

text \<open>A refusal before any handler ran.\<close>

definition refused :: "world \<Rightarrow> response \<Rightarrow> world \<Rightarrow> bool" where
  "refused w resp w' = (resp \<in> {fail 401 ''unauthorized'', fail 403 ''forbidden'', fail 500 ''internal_error''} \<and> idle w w')"

lemma wp_orFail: "wp e (orFail r k) Q E w =
    ((\<forall>resp. r = Inl resp \<longrightarrow> Q resp w) \<and> (\<forall>a. r = Inr a \<longrightarrow> wp e (k a) Q E w))"
  by (simp add: orFail_def wp_rules)

lemma wp_requireUser:
  assumes "\<not> isUserToken e header" "\<And>resp w'. refused w resp w' \<Longrightarrow> Q resp w'"
  shows "wp e (requireUser header k) Q E w"
  unfolding requireUser_def authenticate_def wp_bind wp_attempt
  by (rule wp_Resolve)
    (use assms in \<open>auto simp: wp_rules wp_orFail isUserToken_def refused_def\<close>)

text \<open>
  (C6) The endpoints for managing accounts, for reading other accounts and for clearing the chat are closed to every
  token but the USER's: the request is refused with 401, 403 or 500, and neither the database nor the
  subscribers of the chat see anything of it.
\<close>

theorem user_endpoints_closed:
  assumes "guardOf ep = UserOnly" "BearerToken header \<noteq> cfgUserToken e"
  shows "\<exists>resp w'. serve header ps ep e w = (Inr resp, w') \<and> status resp \<in> {401, 403, 500} \<and>
    (\<exists>code. rbody resp = ErrorBody code) \<and> wdb w' = wdb w \<and> hub w' = hub w"
proof -
  have "wp e (serve header ps ep) (\<lambda>resp w'. refused w resp w') (\<lambda>_ _. True) w"
    unfolding serve_def guarded_def assms(1) guard.case
    by (rule wp_requireUser) (simp add: isUserToken_def assms(2))
  moreover obtain resp w' where "serve header ps ep e w = (Inr resp, w')"
    using serve_errorFree by (metis errorFree_def)
  ultimately show ?thesis using wp_Inr by (fastforce simp: refused_def fail_def dest!: idleD)
qed

theorem user_endpoints_closed_witness:
  "\<exists>resp w'. serve ''Bearer at_1'' [] (DeleteAccountAt ''acc_1'') plainEnv (worldOf demoDB) = (Inr resp, w') \<and>
     status resp \<in> {401, 403, 500} \<and> wdb w' = demoDB"
proof -
  have "guardOf (DeleteAccountAt ''acc_1'') = UserOnly" by simp
  moreover have "BearerToken ''Bearer at_1'' \<noteq> cfgUserToken plainEnv" unfolding plainEnv_def by code_simp
  ultimately show ?thesis
    using user_endpoints_closed [of "DeleteAccountAt ''acc_1''" "''Bearer at_1''" plainEnv "[]" "worldOf demoDB"]
    by (auto simp: worldOf_def)
qed

section \<open>Account tokens\<close>

fun tokensIn :: "body \<Rightarrow> string set" where
  "tokensIn (AccountBody v) = {avToken v} - {[]}"
| "tokensIn (AccountsBody vs) = avToken ` set vs - {[]}"
| "tokensIn (SelfBody v) = {avToken (savAccount v)} - {[]}"
| "tokensIn _ = {}"

text \<open>Every result of a computation has a property.\<close>

definition yields :: "('a \<Rightarrow> bool) \<Rightarrow> 'a M \<Rightarrow> bool" where
  "yields P m = (\<forall>e w. wp e m (\<lambda>a _. P a) (\<lambda>_ _. True) w)"

lemma yields_ret: "P a \<Longrightarrow> yields P (ret a)"
  by (simp add: yields_def wp_rules)

lemma wp_any: "wp e m (\<lambda>_ _. True) (\<lambda>_ _. True) w"
  by (auto simp: wp_def split: sum.splits prod.splits)

lemma yields_any: "yields (\<lambda>_. True) m"
  by (simp add: yields_def wp_any)

lemma yields_bind:
  assumes "yields P m" "\<And>a. P a \<Longrightarrow> yields Q (f a)"
  shows "yields Q (bind m f)"
  using assms unfolding yields_def wp_bind by (blast intro: wp_mono)

lemmas yields_seq = yields_bind [OF yields_any]

lemma yields_answer:
  assumes "yields P m" "\<And>x. Q (f x)" "\<And>a. P a \<Longrightarrow> yields Q (k a)"
  shows "yields Q (answer f m k)"
  unfolding yields_def answer_def wp_bind wp_attempt
proof (intro allI)
  fix e w
  have "wp e m (\<lambda>a _. P a) (\<lambda>_ _. True) w" using assms(1) by (simp add: yields_def)
  then show "wp e m (\<lambda>a. wp e (case Inr a of Inl x \<Rightarrow> ret (f x) | Inr a \<Rightarrow> k a) (\<lambda>a _. Q a) (\<lambda>_ _. True))
      (\<lambda>x. wp e (case Inl x of Inl x \<Rightarrow> ret (f x) | Inr a \<Rightarrow> k a) (\<lambda>a _. Q a) (\<lambda>_ _. True)) w"
    by (rule wp_mono) (use assms(2,3) in \<open>auto simp: wp_ret yields_def\<close>)
qed

lemmas yields_reply = yields_answer [OF yields_any]

lemma yields_orFail: "(\<And>resp. r = Inl resp \<Longrightarrow> Q resp) \<Longrightarrow> (\<And>a. r = Inr a \<Longrightarrow> yields Q (k a)) \<Longrightarrow> yields Q (orFail r k)"
  by (auto simp: yields_def wp_orFail)

lemma yields_ok: "P \<lparr>status = c, rbody = b\<rparr> \<Longrightarrow> yields P (ok c b)"
  by (simp add: ok_def yields_ret)

abbreviation tokenFree :: "response \<Rightarrow> bool" where
  "tokenFree resp \<equiv> tokensIn (rbody resp) = {}"

lemma yields_viewAccount: "yields (\<lambda>v. avToken v = []) (viewAccount a False)"
  by (auto simp: viewAccount_def accountViewAt_def yields_def wp_rules Let_def)

text \<open>
  A property of answers that error answers have; the ways a handler builds an answer then need no further
  argument.
\<close>

locale reply_property =
  fixes P :: "response \<Rightarrow> bool"
  assumes error: "P (fail c code)" and aborted: "P \<lparr>status = 200, rbody = Empty\<rparr>"
begin

lemma errors: "P (writeAccountError x)" "P (writeTradingError x)" "P (writeMessageError x)" "P (writeMarketError x)"
  by (simp_all add: error aborted writeAccountError_def writeTradingError_def writeMessageError_def writeMarketError_def)

lemma refused_with:
  "ownAccount who = Inl resp \<Longrightarrow> P resp" "parseSource s = Inl resp \<Longrightarrow> P resp"
  "optionalPositiveQuery ps n = Inl resp \<Longrightarrow> P resp" "positiveParam ps n d = Inl resp \<Longrightarrow> P resp"
  using error by (auto simp: ownAccount_def parseSource_def optionalPositiveQuery_def positiveParam_def Let_def
      split: option.splits if_splits)

lemma refusals:
  "(\<And>a. yields P (k a)) \<Longrightarrow> yields P (orFail (ownAccount who) k)"
  "(\<And>a. yields P (k' a)) \<Longrightarrow> yields P (orFail (parseSource src) k')"
  "(\<And>a. yields P (k'' a)) \<Longrightarrow> yields P (orFail (optionalPositiveQuery ps n) k'')"
  "(\<And>a. yields P (k'' a)) \<Longrightarrow> yields P (orFail (positiveParam ps n d) k'')"
  using refused_with by (blast intro: yields_orFail)+

lemma guarded_yields:
  assumes "\<And>who. yields P (k who)"
  shows "yields P (guarded g header k)"
proof -
  have a: "yields (\<lambda>r. \<forall>resp. r = Inl resp \<longrightarrow> P resp) (authenticate anon header)" for anon
    unfolding authenticate_def
    by (rule yields_seq) (auto intro!: yields_ret error split: sum.splits)
  have b: "yields P (requireAny header k)" "yields P (optionalAuth header k)" "yields P (requireUser header k)"
    unfolding requireAny_def optionalAuth_def requireUser_def
    by (auto intro!: yields_bind [OF a] yields_orFail yields_ret assms error split: option.splits)
  then show ?thesis
    unfolding guarded_def allowAgentService_def
    by (cases g) (auto intro!: yields_seq assms)
qed

lemmas intros = yields_reply refusals yields_ok yields_ret yields_seq

end

interpretation secret: reply_property tokenFree
  by unfold_locales (simp_all add: fail_def)

lemma handle_tokenFree:
  assumes "guardOf ep \<noteq> UserOnly" "\<And>i. ep \<noteq> GetAccount i"
  shows "yields tokenFree (handle ps ep who)"
proof (cases ep)
  case SelfAccount
  show ?thesis
    unfolding SelfAccount handle.simps selfAccount_def
    by (intro secret.intros secret.errors yields_bind [OF yields_viewAccount]) auto
qed (use assms in \<open>auto simp: health_def me_def marketPrice_def
      placeOrder_def listOrders_def getOrder_def cancelOrder_def listPositions_def closePosition_def setStops_def
      listTrades_def listLedger_def listMessages_def postMessage_def deleteMessage_def
      positionsFor_def ordersFor_def tradesFor_def ledgerFor_def Let_def
      intro!: secret.intros secret.error secret.errors split: option.splits prod.splits sum.splits\<close>)

text \<open>
  (C7) The token of an account leaves the backend only in answers to the USER, or to the agent service
  asking for one account: any other caller, an account asking for itself included, never receives a token.
\<close>

theorem tokens_stay_secret:
  assumes "serve header ps ep e w = (Inr resp, w')" "t \<in> tokensIn (rbody resp)"
  shows "BearerToken header = cfgUserToken e \<or> (isAgentService e header \<and> (\<exists>i. ep = GetAccount i))"
proof (rule ccontr)
  assume not: "\<not> ?thesis"
  have "wp e (serve header ps ep) (\<lambda>resp _. tokenFree resp) (\<lambda>_ _. True) w"
  proof (cases "guardOf ep = UserOnly \<or> (\<exists>i. ep = GetAccount i)")
    case True
    then have "wp e (requireUser header (handle ps ep)) (\<lambda>resp _. tokenFree resp) (\<lambda>_ _. True) w"
      using not by (intro wp_requireUser) (auto simp: isUserToken_def refused_def fail_def)
    then show ?thesis
      using True not by (auto simp: serve_def guarded_def allowAgentService_def wp_rules)
  next
    case False
    then have "yields tokenFree (serve header ps ep)"
      unfolding serve_def by (intro secret.guarded_yields handle_tokenFree) auto
    then show ?thesis by (simp add: yields_def)
  qed
  from wp_Inr [OF this assms(1)] assms(2) show False by simp
qed

definition tokenShown :: "response \<Rightarrow> bool" where
  "tokenShown resp = (case rbody resp of AccountBody v \<Rightarrow> avToken v = ''at_1'' | _ \<Rightarrow> False)"

lemma tokenShown_in: "tokenShown resp \<Longrightarrow> ''at_1'' \<in> tokensIn (rbody resp)"
  by (auto simp: tokenShown_def split: body.splits)

lemma demo_shown:
  "case serve ''Bearer user-token'' [] (GetAccount ''acc_1'') plainEnv (worldOf demoDB) of
     (Inr resp, w') \<Rightarrow> tokenShown resp | _ \<Rightarrow> False"
  by code_simp

theorem tokens_stay_secret_witness:
  "BearerToken ''Bearer user-token'' = cfgUserToken plainEnv \<or> isAgentService plainEnv ''Bearer user-token''"
proof -
  obtain resp w' where r: "serve ''Bearer user-token'' [] (GetAccount ''acc_1'') plainEnv (worldOf demoDB) = (Inr resp, w')"
    "tokenShown resp"
    using demo_shown by (auto split: prod.splits sum.splits)
  from tokens_stay_secret [OF r(1) tokenShown_in [OF r(2)]] show ?thesis by blast
qed

section \<open>Errors of trading endpoints\<close>

text \<open>
  A computation that leaves the database alone when it returns an error, unless that error is the one of a
  commit that was carried out.
\<close>

definition unchangedOr :: "env \<Rightarrow> db \<Rightarrow> err \<Rightarrow> world \<Rightarrow> bool" where
  "unchangedOr e d x w' = (wdb w' = d \<or> (x = ErrStore \<and> unknownCommit e w'))"

definition atomicM :: "'a M \<Rightarrow> bool" where
  "atomicM m = (\<forall>e w. wp e m (\<lambda>_ _. True) (unchangedOr e (wdb w)) w)"

lemma unchangedOr_same [simp]: "wdb w' = d \<Longrightarrow> unchangedOr e d x w'"
  by (simp add: unchangedOr_def)

lemma atomicM_Tx: "atomicM (Tx m)"
  by (auto simp: atomicM_def unchangedOr_def wp_def split: sum.splits prod.splits dest: Tx_atomic)

lemma atomicM_raise: "atomicM (raise x)"
  by (simp add: atomicM_def wp_rules)

lemma atomicM_bind:
  assumes "readOnly m" "\<And>a. atomicM (f a)"
  shows "atomicM (bind m f)"
  unfolding atomicM_def wp_bind
proof (intro allI)
  fix e and w :: world
  have "wp e (f a) (\<lambda>_ _. True) (unchangedOr e (wdb w)) w'" if "wdb w' = wdb w" for a and w' :: world
    using assms(2) [of a] by (simp add: atomicM_def that [symmetric])
  then show "wp e m (\<lambda>a. wp e (f a) (\<lambda>_ _. True) (unchangedOr e (wdb w))) (unchangedOr e (wdb w)) w"
    by (intro wp_readOnly [OF assms(1)]) auto
qed

lemma atomicM_cases: "atomicM m \<Longrightarrow> atomicM n \<Longrightarrow> atomicM (if b then m else n)"
  "(\<And>x y. atomicM (g x y)) \<Longrightarrow> atomicM (case p of (x, y) \<Rightarrow> g x y)"
  by (auto split: prod.splits)

lemma readOnly_more: "readOnly (newID p)" "readOnly (ret a)" "readOnly (liftE r)" "readOnly m \<Longrightarrow> readOnly (closedIfMissing m)"
  "readOnly k \<Longrightarrow> (\<And>a. readOnly (f a)) \<Longrightarrow> readOnly (bind k f)" "readOnly k \<Longrightarrow> readOnly n \<Longrightarrow> readOnly (andThen k n)"
  "readOnly n \<Longrightarrow> readOnly n' \<Longrightarrow> readOnly (if b then n else n')"
  by (simp_all add: readOnly_def keeps_newID keeps_ret keeps_liftE closedIfMissing_def keeps_mapErr keeps_bind keeps_andThen)

lemma trading_atomic: "atomicM (CancelOrder acc i src)" "atomicM (ClosePosition acc i q src)" "atomicM (SetStops acc i si)"
  unfolding CancelOrder_def ClosePosition_def closeAt_def SetStops_def
  by (intro atomicM_Tx atomicM_raise atomicM_bind atomicM_cases readOnly_more readOnly_basics)+

text \<open>The one committed change behind an error: the drawdown limit was crossed, and the account is now stopped.\<close>

definition stopCommitted :: "string \<Rightarrow> db \<Rightarrow> db \<Rightarrow> bool" where
  "stopCommitted acc d d' = (\<exists>r eq marks. accountRow d acc = Some r \<and> crossed marks d r eq \<and> stoppedNow acc r eq d d')"

lemma wp_precheck_stop:
  assumes "accountRow (wdb w) acc = Some r" "accMaxDDStoppedAt r = None"
    and "\<And>w'. wdb w' = wdb w \<Longrightarrow> Q False w'" "\<And>w'. stopCommitted acc (wdb w) (wdb w') \<Longrightarrow> Q True w'" "\<And>x w'. E x w'"
  shows "wp e (precheck acc a marks) Q E w"
proof -
  have "wp e (checkMaxDD acc marks) Q E w"
    by (rule wp_checkMaxDD) (use assms in \<open>auto simp: stopCommitted_def\<close>)
  then show ?thesis using assms(3) by (auto simp: precheck_def wp_rules)
qed

lemma wp_yields: "yields P m \<Longrightarrow> (\<And>a w'. P a \<Longrightarrow> Q a w') \<Longrightarrow> wp e m Q (\<lambda>_ _. True) w"
  by (rule wp_mono [of e m "\<lambda>a _. P a"]) (auto simp: yields_def)

lemma yields_done: "yields (\<lambda>r. r \<noteq> None) (andThen n (ret (Some a)))"
  unfolding andThen_def by (intro yields_seq yields_ret) simp

lemma blocked_place:
  "wp e (placeLimitTx x marks) (\<lambda>r w'. r = None \<longrightarrow> stopCommitted (ordAccountID x) (wdb w) (wdb w')) (\<lambda>_ _. True) w"
  "wp e (executeTx x price role marks) (\<lambda>r w'. r = None \<longrightarrow> stopCommitted (ordAccountID x) (wdb w) (wdb w')) (\<lambda>_ _. True) w"
proof -
  let ?Q = "\<lambda>r w'. r = None \<longrightarrow> stopCommitted (ordAccountID x) (wdb w) (wdb w')"
  have check: "wp e (precheck (ordAccountID x) a marks) (\<lambda>stopped. wp e (if stopped then ret None else m) ?Q (\<lambda>_ _. True))
      (\<lambda>_ _. True) w1"
    if "accountRow (wdb w) (ordAccountID x) = Some r" "accMaxDDStoppedAt r = None" "wdb w1 = wdb w"
      "yields (\<lambda>r. r \<noteq> None) m" for a r w1 and m :: "order option M"
    by (rule wp_precheck_stop [of _ _ r]) (use that in \<open>auto simp: wp_ret intro!: wp_yields [OF that(4)]\<close>)
  note last = yields_seq [OF yields_done]
  show "wp e (placeLimitTx x marks) ?Q (\<lambda>_ _. True) w"
    unfolding placeLimitTx_def wp_andThen
    by (rule wp_LockAccount)
      (auto simp: wp_bind wp_AccountByID wp_if [of _ _ "raise _"] wp_raise dest!: decryptAccount_Inr intro!: check last)
  show "wp e (executeTx x price role marks) ?Q (\<lambda>_ _. True) w"
    unfolding executeTx_def wp_andThen
    by (rule wp_LockAccount)
      (auto simp: wp_bind wp_AccountByID wp_if [of _ _ "raise _"] wp_raise dest!: decryptAccount_Inr
        intro!: check yields_seq [OF last])
qed

lemma wp_blocked:
  assumes "\<And>w. wp e m (\<lambda>r w'. r = None \<longrightarrow> stopCommitted acc (wdb w) (wdb w')) (\<lambda>_ _. True) w" "wdb w1 = wdb w"
  shows "wp e (Tx m) (\<lambda>r. wp e (unblocked r) (\<lambda>_ _. True)
      (\<lambda>y w'. unchangedOr e (wdb w) y w' \<or> (y = ErrMaxDDStopped \<and> stopCommitted acc (wdb w) (wdb w'))))
      (\<lambda>y w'. unchangedOr e (wdb w) y w' \<or> (y = ErrMaxDDStopped \<and> stopCommitted acc (wdb w) (wdb w'))) w1"
  using assms(1) [of "bump w1"] assms(2)
  by (auto simp: wp_Tx unblocked_def wp_rules unchangedOr_def elim!: wp_mono)

lemma PlaceOrder_errors:
  "wp e (PlaceOrder acc i) (\<lambda>_ _. True)
     (\<lambda>y w'. unchangedOr e (wdb w) y w' \<or> (y = ErrMaxDDStopped \<and> stopCommitted acc (wdb w) (wdb w'))) w"
proof -
  have id: "ordAccountID (orderFromInput oid acc n) = acc" for oid n by (simp add: orderFromInput_def)
  let ?E = "\<lambda>y w'. unchangedOr e (wdb w) y w' \<or> (y = ErrMaxDDStopped \<and> stopCommitted acc (wdb w) (wdb w'))"
  have "wp e (bind (riskMarks acc) (\<lambda>marks. bind (Tx (placeLimitTx (orderFromInput oid acc n) marks)) unblocked))
      (\<lambda>_ _. True) ?E w1"
    "wp e (execute (orderFromInput oid acc n) price RoleTaker) (\<lambda>_ _. True) ?E w1"
    if "wdb w1 = wdb w" for oid n price w1
    unfolding execute_def wp_bind id
    by (rule wp_readOnly [OF readOnly_riskMarks], rule wp_blocked,
        use blocked_place [of e "orderFromInput oid acc n"] that in \<open>auto simp: id\<close>)+
  then show ?thesis
    unfolding PlaceOrder_def Let_def by (auto simp: wp_rules)
qed

lemma wp_answer:
  assumes "wp e m (\<lambda>_ _. True) E w" "\<And>a. yields (\<lambda>resp. status resp < 400) (k a)"
    and "\<And>x w'. E x w' \<Longrightarrow> Q (f x) w'" "\<And>resp w'. status resp < 400 \<Longrightarrow> Q resp w'"
  shows "wp e (answer f m k) Q (\<lambda>_ _. True) w"
  unfolding answer_def wp_bind wp_attempt
  by (rule wp_mono [OF assms(1)]) (auto simp: wp_ret assms(3) intro!: wp_yields [OF assms(2)] assms(4))

fun tradingEndpoint :: "endpoint \<Rightarrow> bool" where
  "tradingEndpoint (PlaceOrderAt _) = True"
| "tradingEndpoint (CancelOrderAt _ _) = True"
| "tradingEndpoint (ClosePositionAt _ _) = True"
| "tradingEndpoint (SetStopsAt _ _) = True"
| "tradingEndpoint _ = False"

definition nothingDone :: "env \<Rightarrow> endpoint \<Rightarrow> db \<Rightarrow> response \<Rightarrow> world \<Rightarrow> bool" where
  "nothingDone e ep d resp w' = (400 \<le> status resp \<longrightarrow> wdb w' = d \<or>
     (resp = fail 500 ''internal_error'' \<and> unknownCommit e w') \<or>
     (resp = fail 409 ''max_dd_stopped'' \<and> (\<exists>p acc. ep = PlaceOrderAt p \<and> stopCommitted acc d (wdb w'))))"

lemma atomic_answer:
  assumes "atomicM m" "\<And>a. yields (\<lambda>resp. status resp < 400) (k a)"
  shows "wp e (answer writeTradingError m k) (nothingDone e ep (wdb w)) (\<lambda>_ _. True) w"
proof (rule wp_answer)
  show "wp e m (\<lambda>_ _. True) (unchangedOr e (wdb w)) w" using assms(1) by (simp add: atomicM_def)
qed (use assms(2) in \<open>auto simp: nothingDone_def unchangedOr_def writeTradingError_def isValidationError_def\<close>)

lemma place_answer:
  assumes "\<And>a. yields (\<lambda>resp. status resp < 400) (k a)"
  shows "wp e (answer writeTradingError (PlaceOrder acc i) k) (nothingDone e (PlaceOrderAt p) (wdb w)) (\<lambda>_ _. True) w"
  by (rule wp_answer [OF PlaceOrder_errors])
    (use assms in \<open>auto simp: nothingDone_def unchangedOr_def writeTradingError_def isValidationError_def\<close>)

lemma yields_done_ok: "c < 400 \<Longrightarrow> yields (\<lambda>resp. status resp < 400) (ok c b)"
  by (simp add: yields_ok)

lemma refusal_done: "nothingDone e ep (wdb w) resp w"
  by (simp add: nothingDone_def)

lemma handle_nothingDone:
  assumes "tradingEndpoint ep"
  shows "wp e (handle ps ep who) (nothingDone e ep (wdb w)) (\<lambda>_ _. True) w"
  by (cases ep)
    (use assms in \<open>auto simp: placeOrder_def cancelOrder_def closePosition_def setStops_def wp_orFail wp_ret refusal_done
      split: option.splits prod.splits
      intro!: place_answer atomic_answer trading_atomic yields_done_ok yields_seq\<close>)

text \<open>
  (C5) An error answer of a trading endpoint other than 500 means that nothing was executed: the tables are
  exactly as before.  The only exception is an order that was blocked because the drawdown limit is crossed: the
  stop of the account and the cancellation of its open orders are committed, and the answer is
  \<^verbatim>\<open>409 max_dd_stopped\<close>.  After a 500 the outcome is open, but only in one way: either nothing was
  executed, or the last thing the request did was a commit that the driver reported as failed although it
  was carried out, and then the tables moved along the steps of the state machine.
\<close>

theorem failed_request_did_nothing:
  assumes "tradingEndpoint ep" "serve header ps ep e w = (Inr resp, w')" "400 \<le> status resp"
  shows "(status resp \<noteq> 500 \<longrightarrow> wdb w' = wdb w \<or>
      (resp = fail 409 ''max_dd_stopped'' \<and> (\<exists>p acc. ep = PlaceOrderAt p \<and> stopCommitted acc (wdb w) (wdb w')))) \<and>
    (status resp = 500 \<longrightarrow> wdb w' = wdb w \<or> (unknownCommit e w' \<and> dbstep\<^sup>*\<^sup>* (wdb w) (wdb w')))"
proof -
  have any: "guardOf ep = AnyToken" using assms(1) by (cases ep) auto
  have h: "wp e (handle ps ep who) (nothingDone e ep (wdb w)) (\<lambda>_ _. True) w1" if "idle w w1" for who w1
    using handle_nothingDone [OF assms(1), of e ps who w1] idleD [OF that] by simp
  have n: "nothingDone e ep (wdb w) r w1" if "idle w w1" for r w1
    using idleD [OF that] by (simp add: nothingDone_def)
  have "wp e (serve header ps ep) (nothingDone e ep (wdb w)) (\<lambda>_ _. True) w"
    unfolding serve_def guarded_def any guard.case requireAny_def authenticate_def wp_bind wp_attempt
    by (rule wp_Resolve) (auto simp: wp_rules wp_orFail intro!: h n)
  from wp_Inr [OF this assms(2)] assms(3) have outcome: "wdb w' = wdb w \<or>
      (resp = fail 500 ''internal_error'' \<and> unknownCommit e w') \<or>
      (resp = fail 409 ''max_dd_stopped'' \<and> (\<exists>p acc. ep = PlaceOrderAt p \<and> stopCommitted acc (wdb w) (wdb w')))"
    by (simp add: nothingDone_def)
  have "dbstep\<^sup>*\<^sup>* (wdb w) (wdb w')"
    using serve_refines [of header ps ep e w] assms(2) by simp
  with outcome show ?thesis by (auto simp: fail_def)
qed

definition badOrder :: placeOrderRequest where
  "badOrder = \<lparr>porMarket = ''crypto'', porSymbol = ''BTCUSDT'', porProduct = ''spot'', porSide = ''buy'', porType = ''market'',
     porQuantity = 0, porPrice = 0, porLeverage = 0, porStopLoss = 0, porTakeProfit = 0, porSource = None\<rparr>"

lemma bad_order_refused:
  "case serve ''Bearer at_1'' [] (PlaceOrderAt (Json badOrder)) plainEnv (worldOf demoDB) of
     (Inr resp, w') \<Rightarrow> status resp = 400 | _ \<Rightarrow> False"
  by code_simp

theorem failed_request_did_nothing_witness:
  "\<exists>resp w'. serve ''Bearer at_1'' [] (PlaceOrderAt (Json badOrder)) plainEnv (worldOf demoDB) = (Inr resp, w') \<and>
     status resp = 400 \<and> wdb w' = demoDB"
proof -
  obtain resp w' where r: "serve ''Bearer at_1'' [] (PlaceOrderAt (Json badOrder)) plainEnv (worldOf demoDB) = (Inr resp, w')"
    "status resp = 400"
    using bad_order_refused by (auto split: prod.splits sum.splits)
  from failed_request_did_nothing [OF _ r(1)] r(2) have "wdb w' = demoDB" by (auto simp: fail_def)
  with r show ?thesis by blast
qed

section \<open>Lengths of lists\<close>

lemma listLimit_range: "0 < listLimit ps \<and> listLimit ps \<le> 200"
  by (auto simp: listLimit_def split: option.splits)

text \<open>Rows of a paged list: a chat page has at most 50 messages, the other lists at most 200 rows.\<close>

fun pageOK :: "body \<Rightarrow> bool" where
  "pageOK (OrdersBody xs) = (length xs \<le> 200)"
| "pageOK (TradesBody xs) = (length xs \<le> 200)"
| "pageOK (EntriesBody xs) = (length xs \<le> 200)"
| "pageOK (MessagesBody xs _ _) = (length xs \<le> 50)"
| "pageOK _ = True"

abbreviation bounded :: "response \<Rightarrow> bool" where
  "bounded resp \<equiv> pageOK (rbody resp)"

lemma limit_rows: "n \<le> nat (listLimit ps) \<Longrightarrow> n \<le> 200"
  using listLimit_range [of ps] by linarith

lemma yields_lists: "yields (\<lambda>xs. length xs \<le> n) (Orders a st n)" "yields (\<lambda>xs. length xs \<le> n) (Trades a n)"
  "yields (\<lambda>xs. length xs \<le> lfLimit f) (ListLedger a f)"
  by (auto simp: yields_def Orders_def ListOrders_def Trades_def ListTrades_def ListLedger_def wp_rules)

lemma yields_flow: "yields P (raise x)" "yields P n \<Longrightarrow> yields P n' \<Longrightarrow> yields P (if b then n else n')"
  by (simp_all add: yields_def wp_rules)

lemma yields_chat: "yields (\<lambda>p. length (fst p) \<le> 50) (ListChat q who)"
proof -
  have page: "yields (\<lambda>p. length (fst p) \<le> 50) (showPage limit who ms)" if "limit \<le> MaxLimit" "1 \<le> limit" for limit ms
    using that by (auto simp: showPage_def yields_def wp_rules AccountNames_def Let_def)
  have limit: "yields (\<lambda>lp. fst lp \<le> MaxLimit \<and> 1 \<le> fst lp) (liftE (pageOf q))"
    by (auto simp: yields_def wp_rules pageOf_def Let_def split: if_splits)
  show ?thesis
    unfolding ListChat_def Let_def andThen_def
    by (rule yields_seq, rule yields_bind [OF limit], unfold case_prod_beta)
      (intro yields_flow yields_seq page; simp)
qed

interpretation paged: reply_property bounded
  by unfold_locales (simp_all add: fail_def)

lemma lists_bounded_for: "yields bounded (ordersFor ps i)" "yields bounded (tradesFor ps i)" "yields bounded (ledgerFor ps i)"
  "yields bounded (listMessages who ps)"
  unfolding ordersFor_def tradesFor_def ledgerFor_def listMessages_def
  by (auto intro!: paged.refusals paged.error paged.errors yields_answer [OF yields_lists(1)] yields_answer [OF yields_lists(2)]
      yields_answer [OF yields_lists(3)] yields_answer [OF yields_chat] yields_ok yields_ret limit_rows [of _ ps])

lemma handle_bounded: "yields bounded (handle ps ep who)"
  by (cases ep)
    (auto simp: health_def me_def getAccount_def createAccount_def listAccounts_def updateAccount_def
      muteAccountChat_def unmuteAccountChat_def deleteAccount_def resetAccountToken_def resumeAccountTrading_def
      userListPositions_def userListOrders_def userListTrades_def userListLedger_def selfAccount_def marketPrice_def
      placeOrder_def listOrders_def getOrder_def cancelOrder_def listPositions_def closePosition_def setStops_def
      listTrades_def listLedger_def postMessage_def clearMessages_def deleteMessage_def
      positionsFor_def withAccount_def Let_def
      intro!: lists_bounded_for paged.intros paged.error paged.errors
      split: option.splits prod.splits sum.splits)

text \<open>
  Whatever \<^verbatim>\<open>limit\<close> a client asks for, and however it is spelled, an answer carries at most 200 orders,
  trades or ledger entries and at most 50 messages.
\<close>

theorem lists_are_bounded:
  "\<exists>resp w'. serve header ps ep e w = (Inr resp, w') \<and> pageOK (rbody resp)"
proof -
  obtain resp w' where r: "serve header ps ep e w = (Inr resp, w')"
    using serve_errorFree by (metis errorFree_def)
  have "wp e (serve header ps ep) (\<lambda>resp _. bounded resp) (\<lambda>_ _. True) w"
    using paged.guarded_yields [of "handle ps ep" "guardOf ep" header] handle_bounded
    by (simp add: yields_def serve_def)
  from wp_Inr [OF this r] r show ?thesis by blast
qed

end
