(* ===== verification/Tokens.thy ===== *)
theory Tokens
  imports Messages Accounts
begin

text \<open>
  The life of an account token: \<^verbatim>\<open>protectToken\<close> and \<^verbatim>\<open>decryptAccount\<close> are inverse to each other, the token
  \<^verbatim>\<open>Create\<close> and \<^verbatim>\<open>ResetToken\<close> return authenticates its account, and \<^verbatim>\<open>migrateAccountTokens\<close>
  (\<^verbatim>\<open>backend/internal/database/account.go\<close>) encrypts the tokens of an older database at start-up.

  AES-GCM, base64 and the random reader are parameters of the environment; \<open>cryptoOK\<close> is what the code
  relies on: \<^verbatim>\<open>DecodeString\<close> inverts \<^verbatim>\<open>EncodeToString\<close>, \<^verbatim>\<open>Open\<close> inverts \<^verbatim>\<open>Seal\<close> under the same key and
  nonce, and \<^verbatim>\<open>io.ReadFull\<close> fills its buffer or fails.
\<close>

definition cryptoOK :: "env \<Rightarrow> bool" where
  "cryptoOK e =
     ((\<forall>s. rawStdDecode e (rawStdEncode e s) = Some s) \<and>
      (\<forall>n t. aeadOpen e (tokenKey e) n (aeadSeal e (tokenKey e) n t) = Some t) \<and>
      (\<forall>k n b. entropy e k n = Some b \<longrightarrow> n \<le> length b))"

section \<open>Migration\<close>

text \<open>The plaintext of a row, as the first loop finds it; it writes nothing.\<close>

definition plaintextOf :: "env \<Rightarrow> account \<Rightarrow> err + string" where
  "plaintextOf e a =
     (if accTokenHash a \<noteq> None then
        if \<not> starts_with encryptedTokenPrefix (accToken a) then Inl ErrTokenKey
        else (case decryptAccount e a of Inl x \<Rightarrow> Inl x | Inr b \<Rightarrow> Inr (accToken b))
      else Inr (accToken a))"

fun plaintexts :: "env \<Rightarrow> account list \<Rightarrow> err + string list" where
  "plaintexts e [] = Inr []"
| "plaintexts e (a # as) =
     (case plaintextOf e a of Inl x \<Rightarrow> Inl x
      | Inr t \<Rightarrow> (case plaintexts e as of Inl x \<Rightarrow> Inl x | Inr ts \<Rightarrow> Inr (t # ts)))"

text \<open>\<^verbatim>\<open>Updates\<close> without a look at the number of rows; the driver's error is not translated.\<close>

definition updateTokens :: "string \<Rightarrow> string \<Rightarrow> string \<Rightarrow> unit M" where
  "updateTokens i protected hash = Tx (dbcall (\<lambda>e n d.
     case find (\<lambda>a. accID a = i) (accounts d) of
       None \<Rightarrow> (Inr (), d)
     | Some a \<Rightarrow>
         let a' = a\<lparr>accToken := protected, accTokenHash := Some hash\<rparr>
         in if list_ex (\<lambda>b. accID b \<noteq> i \<and> accountClash a' b) (accounts d) then (Inl ErrStore, d)
            else (Inr (), d\<lparr>accounts := tbl_put accID a' (accounts d)\<rparr>)))"

definition migrateRow :: "account \<times> string \<Rightarrow> unit M" where
  "migrateRow row =
     (case row of (a, plaintext) \<Rightarrow>
       bind (if accTokenHash a = None then protectToken plaintext else ret (accToken a)) (\<lambda>protected.
       bind (asks (\<lambda>e. hashToken e plaintext)) (\<lambda>hash.
       updateTokens (accID a) protected hash)))"

definition vacuum :: "unit M" where
  "vacuum = dbread (\<lambda>e d. Inr ())"

definition migrateAccountTokens :: "unit M" where
  "migrateAccountTokens =
     bind (asks tokenKey) (\<lambda>k.
     if k = [] then
       bind (dbread (\<lambda>e d. Inr (length (filter (\<lambda>a. accTokenHash a \<noteq> None) (accounts d))))) (\<lambda>protectedRows.
       if protectedRows > 0 then raise ErrTokenKey else ret ())
     else
       bind (dbread (\<lambda>e d. Inr (accounts d))) (\<lambda>rows.
       bind (asks (\<lambda>e. plaintexts e rows)) (\<lambda>r.
       bind (liftE r) (\<lambda>texts.
       andThen (forM (zip rows texts) migrateRow) (
       if list_ex (\<lambda>a. accTokenHash a = None) rows then vacuum else ret ())))))"

section \<open>The envelope\<close>

lemma wp_protectToken_open:
  assumes "cryptoOK e"
    and "\<And>p w'. idle w w' \<Longrightarrow> (tokenKey e = [] \<Longrightarrow> p = token) \<Longrightarrow>
      (\<And>a. accToken a = p \<Longrightarrow> accTokenHash a = (if tokenKey e = [] then None else Some h) \<Longrightarrow>
         decryptAccount e a = Inr (a\<lparr>accToken := token\<rparr>)) \<Longrightarrow>
      (tokenKey e \<noteq> [] \<Longrightarrow> starts_with encryptedTokenPrefix p) \<Longrightarrow> Q p w'"
    and "\<And>x w'. idle w w' \<Longrightarrow> E x w'"
  shows "wp e (protectToken token) Q E w"
  unfolding protectToken_def wp_bind wp_asks wp_if wp_ret wp_raise wp_mapErr wp_readEntropy Let_def
proof (intro conjI impI allI)
  assume k: "tokenKey e = []"
  show "Q token w" by (rule assms(2)) (auto simp: k decryptAccount_def)
next
  fix b assume k: "tokenKey e \<noteq> []" "\<not> \<not> validKey (tokenKey e)" "entropy e (calls w) nonceSize = Some b"
  then have len: "length (take nonceSize b) = nonceSize" using assms(1) by (auto simp: cryptoOK_def)
  show "Q (encryptedTokenPrefix @ rawStdEncode e (map (char_of \<circ> unat) (take nonceSize b) @
      aeadSeal e (tokenKey e) (map (char_of \<circ> unat) (take nonceSize b)) token)) (bump w)"
    by (rule assms(2)) (use k len assms(1) in \<open>auto simp: decryptAccount_def cryptoOK_def starts_with_def\<close>)
qed (auto intro!: assms(3))

lemma decrypt_hash:
  assumes "decryptAccount e a = Inr b" "tokenKey e \<noteq> []"
  shows "decryptAccount e (a\<lparr>accTokenHash := h\<rparr>) = Inr (b\<lparr>accTokenHash := h\<rparr>)"
  using assms by (auto simp: decryptAccount_def split: if_splits option.splits)

section \<open>What the migration does\<close>

text \<open>A row and its migrated version: the same row, with the same token in an envelope and its hash.\<close>

definition migrated :: "env \<Rightarrow> account \<Rightarrow> account \<Rightarrow> bool" where
  "migrated e a b = (\<exists>t. plaintextOf e a = Inr t \<and> starts_with encryptedTokenPrefix (accToken b) \<and>
     decryptAccount e b = Inr (a\<lparr>accToken := t, accTokenHash := Some (hashToken e t)\<rparr>))"

lemma migrated_id: "migrated e a b \<Longrightarrow> accID b = accID a"
  by (auto simp: migrated_def dest!: decryptAccount_Inr dest: arg_cong [of _ _ accID])

lemma tbl_put_at:
  fixes a b :: account
  assumes "distinct (map accID (xs @ a # ys))"
  shows "accID b = accID a \<Longrightarrow> tbl_put accID b (xs @ a # ys) = xs @ b # ys"
    "find (\<lambda>c. accID c = accID a) (xs @ a # ys) = Some a"
proof -
  assume b: "accID b = accID a"
  have "tbl_put accID b xs = xs" "tbl_put accID b ys = ys" using assms b by (simp_all add: tbl_put_notin)
  then show "tbl_put accID b (xs @ a # ys) = xs @ b # ys" using b by (simp add: tbl_put_def)
next
  show "find (\<lambda>c. accID c = accID a) (xs @ a # ys) = Some a"
    using find_key [OF assms, of a] by simp
qed

lemma wp_updateTokens:
  assumes "distinct (map accID (xs @ a # ys))" "accounts (wdb w) = xs @ a # ys"
    and "\<And>w'. wdb w' = (wdb w)\<lparr>accounts := xs @ a\<lparr>accToken := p, accTokenHash := Some h\<rparr> # ys\<rparr> \<Longrightarrow> Q () w'"
    and "\<And>x w'. E x w'"
  shows "wp e (updateTokens (accID a) p h) Q E w"
  using tbl_put_at(1) [OF assms(1), where b = "a\<lparr>accToken := p, accTokenHash := Some h\<rparr>"] tbl_put_at(2) [OF assms(1)]
  by (auto simp: updateTokens_def wp_Tx wp_dbcall assms(2) Let_def intro!: assms(3,4) split: if_splits)

lemma wp_migrateRow:
  assumes c: "cryptoOK e" "tokenKey e \<noteq> []" and t: "plaintextOf e a = Inr t"
    and d: "distinct (map accID (xs @ a # ys))" "accounts (wdb w) = xs @ a # ys"
    and Q: "\<And>b w'. migrated e a b \<Longrightarrow> (accTokenHash a = Some (hashToken e t) \<Longrightarrow> b = a) \<Longrightarrow>
      wdb w' = (wdb w)\<lparr>accounts := xs @ b # ys\<rparr> \<Longrightarrow> Q () w'"
    and E: "\<And>x w'. E x w'"
  shows "wp e (migrateRow (a, t)) Q E w"
proof (cases "accTokenHash a")
  case None
  then have t': "t = accToken a" using t by (simp add: plaintextOf_def)
  let ?b = "\<lambda>p. a\<lparr>accToken := p, accTokenHash := Some (hashToken e t)\<rparr>"
  have main: "wp e (updateTokens (accID a) p (hashToken e t)) Q E w1"
    if w1: "idle w w1" and p: "starts_with encryptedTokenPrefix p"
      "decryptAccount e (?b p) = Inr (?b t)" for p w1
  proof (rule wp_updateTokens [OF d(1)])
    show "accounts (wdb w1) = xs @ a # ys" using d(2) idleD [OF w1] by simp
    have "migrated e a (?b p)" using t p by (auto simp: migrated_def)
    then show "Q () w2" if "wdb w2 = (wdb w1)\<lparr>accounts := xs @ ?b p # ys\<rparr>" for w2
      using that idleD [OF w1] None by (intro Q [of "?b p"]) auto
  qed (use idleD [OF w1] in \<open>auto intro: E\<close>)
  have "wp e (protectToken t) (\<lambda>p. wp e (updateTokens (accID a) p (hashToken e t)) Q E) E w"
  proof (rule wp_protectToken_open [OF c(1), where h = "hashToken e t"])
    fix p w1
    assume p: "idle w w1" "tokenKey e \<noteq> [] \<Longrightarrow> starts_with encryptedTokenPrefix p"
      "\<And>a. accToken a = p \<Longrightarrow> accTokenHash a = (if tokenKey e = [] then None else Some (hashToken e t)) \<Longrightarrow>
         decryptAccount e a = Inr (a\<lparr>accToken := t\<rparr>)"
    show "wp e (updateTokens (accID a) p (hashToken e t)) Q E w1"
      by (rule main [OF p(1) p(2) [OF c(2)]]) (use p(3) [of "?b p"] c(2) in simp)
  qed (auto dest: idleD intro: E)
  then show ?thesis by (auto simp: migrateRow_def None wp_bind wp_asks elim!: wp_mono)
next
  case (Some h)
  then obtain b where b: "starts_with encryptedTokenPrefix (accToken a)" "decryptAccount e a = Inr b" "t = accToken b"
    using t by (auto simp: plaintextOf_def split: if_splits sum.splits)
  let ?b = "a\<lparr>accTokenHash := Some (hashToken e t)\<rparr>"
  have "b = a\<lparr>accToken := t\<rparr>" using decryptAccount_Inr [OF b(2)] b(3) by auto
  then have "migrated e a ?b" using t b(1) decrypt_hash [OF b(2) c(2)] by (auto simp: migrated_def)
  then have "Q () w'" if "wdb w' = (wdb w)\<lparr>accounts := xs @ ?b # ys\<rparr>" for w'
    using that by (intro Q [of ?b]) (auto simp: Some)
  then show ?thesis
    unfolding migrateRow_def prod.case wp_bind wp_asks
    by (simp add: Some wp_ret) (rule wp_updateTokens [OF d], auto intro: E)
qed

lemma plaintexts_ok: "plaintexts e as = Inr ts \<Longrightarrow> length ts = length as \<and> (\<forall>(a, t) \<in> set (zip as ts). plaintextOf e a = Inr t)"
  by (induction as arbitrary: ts) (auto split: sum.splits)

lemma plaintexts_fail: "a \<in> set as \<Longrightarrow> plaintextOf e a = Inl x \<Longrightarrow> \<exists>y. plaintexts e as = Inl y"
  by (induction as) (auto split: sum.splits)

text \<open>The second loop, with the rows before the current one already rewritten.\<close>

lemma wp_migrateRows:
  assumes "cryptoOK e" "tokenKey e \<noteq> []" "distinct (map accID (rows @ todo))" "list_all2 (migrated e) rows new"
    and "length texts = length todo" "\<forall>(a, t) \<in> set (zip todo texts). plaintextOf e a = Inr t"
    and "accounts (wdb w) = new @ todo"
    and "\<And>bs w'. list_all2 (migrated e) (rows @ todo) bs \<Longrightarrow> wdb w' = (wdb w)\<lparr>accounts := bs\<rparr> \<Longrightarrow>
      ((\<forall>(a, t) \<in> set (zip todo texts). accTokenHash a = Some (hashToken e t)) \<Longrightarrow> bs = new @ todo) \<Longrightarrow> Q () w'"
    and "\<And>x w'. E x w'"
  shows "wp e (forM (zip todo texts) migrateRow) Q E w"
  using assms(3-8)
proof (induction todo arbitrary: rows new texts w)
  case Nil
  then show ?case by (simp add: wp_ret)
next
  case (Cons a todo)
  then obtain t ts where ts: "texts = t # ts" by (cases texts) auto
  have ids: "map accID new = map accID rows"
    using Cons.prems(2) by (induction rule: list_all2_induct) (auto dest: migrated_id)
  have "wp e (migrateRow (a, t)) (\<lambda>_. wp e (forM (zip todo ts) migrateRow) Q E) E w"
  proof (rule wp_migrateRow [OF assms(1,2)])
    show "plaintextOf e a = Inr t" using Cons.prems(4) ts by simp
    show "distinct (map accID (new @ a # todo))" using Cons.prems(1) ids by simp
    show "accounts (wdb w) = new @ a # todo" by (rule Cons.prems(5))
    fix b and w1 :: world
    assume b: "migrated e a b" "accTokenHash a = Some (hashToken e t) \<Longrightarrow> b = a" "wdb w1 = (wdb w)\<lparr>accounts := new @ b # todo\<rparr>"
    show "wp e (forM (zip todo ts) migrateRow) Q E w1"
    proof (rule Cons.IH [of "rows @ [a]" "new @ [b]"])
      fix bs and w' :: world
      assume w': "list_all2 (migrated e) ((rows @ [a]) @ todo) bs" "wdb w' = (wdb w1)\<lparr>accounts := bs\<rparr>"
        "(\<forall>(a, t) \<in> set (zip todo ts). accTokenHash a = Some (hashToken e t)) \<Longrightarrow> bs = (new @ [b]) @ todo"
      show "Q () w'" by (rule Cons.prems(6) [of bs]) (use w' b(2,3) ts in auto)
    qed (use Cons.prems ts b in \<open>auto intro: list_all2_appendI\<close>)
  qed (auto intro: assms(9))
  then show ?case by (simp add: ts wp_andThen)
qed

lemma wp_migrate:
  assumes "cryptoOK e" "tokenKey e \<noteq> []" "distinct (map accID (accounts (wdb w)))"
    and "\<And>bs w'. list_all2 (migrated e) (accounts (wdb w)) bs \<Longrightarrow> wdb w' = (wdb w)\<lparr>accounts := bs\<rparr> \<Longrightarrow>
      ((\<forall>a \<in> set (accounts (wdb w)). \<exists>t. plaintextOf e a = Inr t \<and> accTokenHash a = Some (hashToken e t)) \<Longrightarrow>
         bs = accounts (wdb w)) \<Longrightarrow> Q () w'"
    and "\<And>x w'. E x w'"
  shows "wp e migrateAccountTokens Q E w"
proof -
  let ?rows = "accounts (wdb w)"
  have "wp e (forM (zip ?rows texts) migrateRow)
      (\<lambda>_. wp e (if list_ex (\<lambda>a. accTokenHash a = None) ?rows then vacuum else ret ()) Q E) E (bump w)"
    if texts: "plaintexts e ?rows = Inr texts" for texts
  proof (rule wp_migrateRows [OF assms(1,2), of "[]" ?rows "[]"], goal_cases)
    case (6 bs w1)
    have "Q () w'" if "wdb w' = wdb w1" for w'
    proof (rule assms(4) [of bs])
      assume "\<forall>a \<in> set ?rows. \<exists>t. plaintextOf e a = Inr t \<and> accTokenHash a = Some (hashToken e t)"
      then have "\<forall>(a, t) \<in> set (zip ?rows texts). accTokenHash a = Some (hashToken e t)"
        using plaintexts_ok [OF texts] by (force dest: set_zip_leftD)
      with 6(3) show "bs = ?rows" by simp
    qed (use 6 that in auto)
    then show ?case by (auto simp: wp_if vacuum_def wp_rules intro: assms(5))
  qed (use plaintexts_ok [OF texts] assms(3,5) in auto)
  then show ?thesis
    using assms(2) by (auto simp: migrateAccountTokens_def wp_bind wp_asks wp_if wp_dbread wp_liftE wp_andThen intro: assms(5))
qed

lemma migrated_again:
  assumes "migrated e a b"
  shows "\<exists>t. plaintextOf e b = Inr t \<and> accTokenHash b = Some (hashToken e t)"
proof -
  from assms obtain t where t: "starts_with encryptedTokenPrefix (accToken b)"
    "decryptAccount e b = Inr (a\<lparr>accToken := t, accTokenHash := Some (hashToken e t)\<rparr>)"
    by (auto simp: migrated_def)
  from decryptAccount_Inr [OF t(2)] have "accTokenHash b = Some (hashToken e t)"
    by (auto dest: arg_cong [of _ _ accTokenHash])
  with t show ?thesis by (auto simp: plaintextOf_def)
qed

text \<open>
  (C36) A start-up migration that reports success has put every token into an envelope that decrypts to the token
  the row had, next to the hash of that token, and has changed no other column of any account and no
  other table; running it again changes nothing.
\<close>

theorem migration_protects_tokens:
  assumes "cryptoOK e" "tokenKey e \<noteq> []" "distinct (map accID (accounts (wdb w)))"
    and "migrateAccountTokens e w = (Inr (), w')"
  shows "(\<exists>bs. wdb w' = (wdb w)\<lparr>accounts := bs\<rparr> \<and> list_all2 (migrated e) (accounts (wdb w)) bs) \<and>
    (\<forall>w''. migrateAccountTokens e w' = (Inr (), w'') \<longrightarrow> wdb w'' = wdb w')"
proof -
  have "wp e migrateAccountTokens (\<lambda>_ w'. \<exists>bs. wdb w' = (wdb w)\<lparr>accounts := bs\<rparr> \<and>
      list_all2 (migrated e) (accounts (wdb w)) bs) (\<lambda>_ _. True) w"
  proof (rule wp_migrate [OF assms(1-3)])
    fix bs and w' :: world
    assume "list_all2 (migrated e) (accounts (wdb w)) bs" "wdb w' = (wdb w)\<lparr>accounts := bs\<rparr>"
    then show "\<exists>bs. wdb w' = (wdb w)\<lparr>accounts := bs\<rparr> \<and> list_all2 (migrated e) (accounts (wdb w)) bs" by (intro exI conjI)
  qed simp
  from wp_Inr [OF this assms(4)] obtain bs where
    one: "wdb w' = (wdb w)\<lparr>accounts := bs\<rparr>" "list_all2 (migrated e) (accounts (wdb w)) bs" by blast
  have ids: "map accID bs = map accID (accounts (wdb w))"
    using one(2) by (induction rule: list_all2_induct) (auto dest: migrated_id)
  have "\<exists>t. plaintextOf e b = Inr t \<and> accTokenHash b = Some (hashToken e t)" if "b \<in> set bs" for b
    using that one(2) migrated_again by (metis in_set_conv_nth list_all2_conv_all_nth)
  then have again: "\<forall>b \<in> set (accounts (wdb w')). \<exists>t. plaintextOf e b = Inr t \<and> accTokenHash b = Some (hashToken e t)"
    by (simp add: one(1))
  have two: "wp e migrateAccountTokens (\<lambda>_ w''. wdb w'' = wdb w') (\<lambda>_ _. True) w'"
  proof (rule wp_migrate [OF assms(1,2)])
    show "distinct (map accID (accounts (wdb w')))" using assms(3) by (simp add: one(1) ids)
    fix cs and w'' :: world
    assume w'': "wdb w'' = (wdb w')\<lparr>accounts := cs\<rparr>"
      "(\<forall>b \<in> set (accounts (wdb w')). \<exists>t. plaintextOf e b = Inr t \<and> accTokenHash b = Some (hashToken e t)) \<Longrightarrow> cs = accounts (wdb w')"
    from w''(2) [OF again] w''(1) show "wdb w'' = wdb w'" by simp
  qed simp
  show ?thesis
    using one by (intro conjI exI [of _ bs] allI impI) (auto dest: wp_Inr [OF two])
qed

text \<open>
  A key that does not fit leaves the database alone: when any stored envelope does not decrypt, the migration
  reports an error and not a single row is written, whichever row it is.
\<close>

theorem migration_checks_first:
  assumes "tokenKey e \<noteq> []" "a \<in> set (accounts (wdb w))" "plaintextOf e a = Inl x"
  shows "\<exists>y w'. migrateAccountTokens e w = (Inl y, w') \<and> wdb w' = wdb w"
proof -
  obtain y where "plaintexts e (accounts (wdb w)) = Inl y" using plaintexts_fail [OF assms(2,3)] by blast
  then have "wp e migrateAccountTokens (\<lambda>_ _. False) (\<lambda>_ w'. wdb w' = wdb w) w"
    using assms(1) by (auto simp: migrateAccountTokens_def wp_bind wp_asks wp_if wp_dbread wp_liftE)
  then show ?thesis by (auto simp: wp_def split: prod.splits sum.splits)
qed

section \<open>Tokens and accounts\<close>

lemma hex_char: "c \<in> set (EncodeToString bs) \<Longrightarrow> 48 \<le> (of_char c :: nat) \<and> (of_char c :: nat) < 128"
proof -
  assume "c \<in> set (EncodeToString bs)"
  then obtain n where "c = hex_digit n" "n < 16"
  proof (auto simp: EncodeToString_def hex_byte_def, goal_cases)
    case (1 b)
    have "unat b < 256" using unsigned_less [of b, where 'a = nat] by simp
    then show ?case using 1(1) [of "unat b div 16"] by (simp add: less_mult_imp_div_less 1)
  qed
  then show ?thesis
    using of_char_char_of_small [of "48 + n"] of_char_char_of_small [of "87 + n"] by (auto simp: hex_digit_def)
qed

lemma TrimSpace_plain:
  assumes "\<forall>c \<in> set s. 48 \<le> (of_char c :: nat) \<and> (of_char c :: nat) < 128"
  shows "TrimSpace s = s"
proof -
  have front: "trim_front rs t = t" if "\<forall>r \<in> set rs. \<forall>c \<in> set (take 1 r). (of_char c :: nat) < 48 \<or> 128 \<le> (of_char c :: nat)"
    "\<forall>c \<in> set t. 48 \<le> (of_char c :: nat) \<and> (of_char c :: nat) < 128" for rs t
  proof (unfold trim_front_id_iff, intro ballI impI notI)
    fix r assume r: "r \<in> set rs" "r \<noteq> []" "starts_with r t"
    then obtain c r' where c: "r = c # r'" by (meson neq_Nil_conv)
    then have "c \<in> set t" using r(3) by (cases t) (auto simp: starts_with_def)
    with that r(1) c show False by fastforce
  qed
  have "\<forall>r \<in> set space_runes. \<forall>c \<in> set (take 1 r). (of_char c :: nat) < 48 \<or> 128 \<le> (of_char c :: nat)"
    "\<forall>r \<in> set (map rev space_runes). \<forall>c \<in> set (take 1 r). (of_char c :: nat) < 48 \<or> 128 \<le> (of_char c :: nat)"
    by code_simp+
  then show ?thesis using assms by (simp add: TrimSpace_def front)
qed

text \<open>The row a token selects.\<close>

definition authRow :: "env \<Rightarrow> string \<Rightarrow> account \<Rightarrow> bool" where
  "authRow e token a = (if tokenKey e = [] then accToken a = token else accTokenHash a = Some (hashToken e token))"

lemma Resolve_row:
  assumes "TrimSpace token = token" "token \<noteq> []" "token \<noteq> cfgUserToken e" "\<not> fault e (calls w)"
  shows "find (authRow e token) (accounts (wdb w)) = Some b \<Longrightarrow> decryptAccount e b = Inr c \<Longrightarrow> Active c \<Longrightarrow>
      Resolve token e w = (Inr \<lparr>idKind = KindAccount, idAccountID = accID c, idUserName = accUserName c\<rparr>, bump w)"
    "find (authRow e token) (accounts (wdb w)) = None \<Longrightarrow> Resolve token e w = (Inl ErrInvalidToken, bump w)"
proof -
  have q: "(\<lambda>a. if tokenKey e = [] then accToken a = token else accTokenHash a = Some (hashToken e token)) = authRow e token"
    by (auto simp: authRow_def)
  show "find (authRow e token) (accounts (wdb w)) = Some b \<Longrightarrow> decryptAccount e b = Inr c \<Longrightarrow> Active c \<Longrightarrow>
      Resolve token e w = (Inr \<lparr>idKind = KindAccount, idAccountID = accID c, idUserName = accUserName c\<rparr>, bump w)"
    "find (authRow e token) (accounts (wdb w)) = None \<Longrightarrow> Resolve token e w = (Inl ErrInvalidToken, bump w)"
    using assms
    by (simp_all add: Resolve_def Let_def bind_def asks_def ret_def raise_def mapErr_def AccountByToken_def accountWhere_def
        dbread_def dbcall_def q)
qed

lemma secret_token: "TrimSpace (''at_'' @ EncodeToString bs) = ''at_'' @ EncodeToString bs"
  by (rule TrimSpace_plain) (auto dest: hex_char)

lemma find_snoc: "find P xs = None \<Longrightarrow> find P (xs @ [x]) = (if P x then Some x else None)"
  by (induction xs) (auto split: if_splits)

lemma insert_row:
  assumes "cryptoOK e"
    and "\<And>b w'. accounts (wdb w') = accounts (wdb w) @ [b] \<Longrightarrow> find (authRow e (accToken a)) (accounts (wdb w)) = None \<Longrightarrow>
      authRow e (accToken a) b \<Longrightarrow> decryptAccount e b = Inr (b\<lparr>accToken := accToken a\<rparr>) \<Longrightarrow>
      accID b = accID a \<Longrightarrow> accUserName b = accUserName a \<Longrightarrow> accStatus b = accStatus a \<Longrightarrow> Q () w'"
    and "\<And>x w'. E x w'"
  shows "wp e (CreateAccount a) Q E w"
  unfolding CreateAccount_def storedAccount_def wp_bind
proof (rule wp_protectToken_open [OF assms(1), where h = "hashToken e (accToken a)"], goal_cases)
  case (1 p w1)
  let ?s = "a\<lparr>accToken := p, accTokenHash := (if tokenKey e \<noteq> [] then Some (hashToken e (accToken a)) else None)\<rparr>"
  let ?b = "\<lambda>c. (accountDefaults ?s)\<lparr>accCreatedAt := c\<rparr>"
  have b: "decryptAccount e (?b c) = Inr ((?b c)\<lparr>accToken := accToken a\<rparr>)" "authRow e (accToken a) (?b c)" for c
    using 1(2) 1(3) [of "?b c"] by (auto simp: accountDefaults_def authRow_def)
  have none: "find (authRow e (accToken a)) (accounts (wdb w)) = None"
    if "\<not> list_ex (\<lambda>b. accID b = accID a \<or> accountClash ?s b) (accounts (wdb w))"
    using that 1(2) by (auto simp: find_None_iff_all list_ex_iff authRow_def accountClash_def split: if_splits)
  have w1: "accounts (wdb w1) = accounts (wdb w)" using idleD [OF 1(1)] by simp
  have "Q () (bump (bump (bump (w1\<lparr>wdb := (wdb w)\<lparr>accounts := accounts (wdb w) @ [?b c]\<rparr>\<rparr>))))"
    if "\<not> list_ex (\<lambda>b. accID b = accID a \<or> accountClash ?s b) (accounts (wdb w))" for c
    by (rule assms(2) [OF _ none [OF that] b(2,1)]) (simp_all add: accountDefaults_def)
  then have "wp e (Tx (insertAccount ?s)) Q E w1"
    using idleD [OF 1(1)] by (auto simp: insertAccount_def wp_Tx wp_dbcall assms(3) split del: if_split split: if_split_asm)
  then show ?case by (simp add: wp_asks wp_ret wp_bind)
qed (rule assms(3))

text \<open>What makes the token of an account its credential: it selects its row, and the row decrypts to it.\<close>

definition credential :: "env \<Rightarrow> account \<Rightarrow> db \<Rightarrow> bool" where
  "credential e a d = (\<exists>b bs. accToken a = ''at_'' @ EncodeToString bs \<and> accStatus b = accStatus a \<and>
      find (authRow e (accToken a)) (accounts d) = Some b \<and> decryptAccount e b = Inr (b\<lparr>accToken := accToken a\<rparr>) \<and>
      accID b = accID a \<and> accUserName b = accUserName a)"

lemma credential_resolves:
  assumes "credential e a (wdb w)" "accStatus a = AccountActive" "accToken a \<noteq> cfgUserToken e" "\<not> fault e (calls w)"
  shows "Resolve (accToken a) e w =
    (Inr \<lparr>idKind = KindAccount, idAccountID = accID a, idUserName = accUserName a\<rparr>, bump w)"
proof -
  from assms(1) obtain b bs where b: "accToken a = ''at_'' @ EncodeToString bs" "accStatus b = accStatus a"
    "find (authRow e (accToken a)) (accounts (wdb w)) = Some b" "decryptAccount e b = Inr (b\<lparr>accToken := accToken a\<rparr>)"
    "accID b = accID a" "accUserName b = accUserName a" unfolding credential_def by blast
  have "TrimSpace (accToken a) = accToken a" "accToken a \<noteq> []" using b(1) secret_token by auto
  from Resolve_row(1) [OF this assms(3,4), of b "b\<lparr>accToken := accToken a\<rparr>"] b assms(2) show ?thesis
    by (simp add: Active_def)
qed

lemma wp_ret_eta: "wp e (ret a) Q E = Q a"
  by (rule ext) (simp add: wp_ret)

lemma wp_Create:
  assumes "cryptoOK e"
  shows "wp e (Create inp) (\<lambda>a w'. credential e a (wdb w') \<and> accStatus a = AccountActive) (\<lambda>_ _. True) w"
proof -
  have "wp e (CreateAccount (newAccount i n (''at_'' @ EncodeToString bs) inp l))
      (\<lambda>_ w'. credential e (newAccount i n (''at_'' @ EncodeToString bs) inp l) (wdb w')) (\<lambda>_ _. True) w1" for i n bs l w1
    by (rule insert_row [OF assms(1)]) (auto simp: find_snoc newAccount_def credential_def)
  moreover have "accStatus (newAccount i n t inp l) = AccountActive" for i n t l by (simp add: newAccount_def)
  ultimately show ?thesis
    unfolding Create_def Let_def by (simp add: wp_rules wp_ret_eta)
qed

text \<open>
  The token an account is created with is its credential from then on: presented in any later request, as
  long as the account is not changed, it authenticates exactly this account, whether tokens are stored in
  the clear or in envelopes.
\<close>

theorem created_token_authenticates:
  assumes "cryptoOK e" "Create inp e w = (Inr a, w')" "accToken a \<noteq> cfgUserToken e"
    and "wdb w'' = wdb w'" "\<not> fault e (calls w'')"
  shows "Resolve (accToken a) e w'' =
    (Inr \<lparr>idKind = KindAccount, idAccountID = accID a, idUserName = accUserName a\<rparr>, bump w'')"
  using credential_resolves [of e a w''] wp_Inr [OF wp_Create [OF assms(1)] assms(2)] assms(3-5) by simp

lemma wp_updateAccountRow_row:
  assumes "accountRow (wdb w) i = Some r" "accID (f r) = i"
    and "\<And>w'. \<not> list_ex (\<lambda>b. accID b \<noteq> i \<and> accountClash (f r) b) (accounts (wdb w)) \<Longrightarrow>
      wdb w' = (wdb w)\<lparr>accounts := tbl_put accID (f r) (accounts (wdb w))\<rparr> \<Longrightarrow> Q () w'"
    and "\<And>x w'. E x w'"
  shows "wp e (updateAccountRow i f) Q E w"
  using assms(1) by (auto simp: updateAccountRow_def wp_dbcall assms(4) intro!: assms(3) split: if_splits)

text \<open>After \<^verbatim>\<open>UpdateAccountToken\<close> the new token selects the row of the account and the old one selects nothing.\<close>

lemma wp_rotate:
  assumes c: "cryptoOK e" and r: "accountRow (wdb w) i = Some r"
    and Q: "\<And>b w'. wdb w' = (wdb w)\<lparr>accounts := tbl_put accID b (accounts (wdb w))\<rparr> \<Longrightarrow> accID b = i \<Longrightarrow> authRow e token b \<Longrightarrow>
      (\<forall>x \<in> set (accounts (wdb w)). accID x \<noteq> i \<longrightarrow> \<not> authRow e token x) \<Longrightarrow>
      decryptAccount e b = Inr (b\<lparr>accToken := token\<rparr>) \<Longrightarrow> Q () w'"
    and E: "\<And>x w'. E x w'"
  shows "wp e (UpdateAccountToken i token) Q E w"
  unfolding UpdateAccountToken_def wp_bind
proof (rule wp_protectToken_open [OF c, where h = "hashToken e token"], goal_cases)
  case (1 p w1)
  let ?b = "r\<lparr>accToken := p, accTokenHash := (if tokenKey e \<noteq> [] then Some (hashToken e token) else None)\<rparr>"
  have b: "decryptAccount e ?b = Inr (?b\<lparr>accToken := token\<rparr>)" "authRow e token ?b" "accID ?b = i"
    using 1(2) 1(3) [of ?b] accountRow_ID [OF r] by (auto simp: authRow_def)
  have w1: "wdb w1 = wdb w" using idleD [OF 1(1)] by simp
  have "wp e (updateAccountRow i (\<lambda>a. a\<lparr>accToken := p,
      accTokenHash := (if tokenKey e \<noteq> [] then Some (hashToken e token) else None)\<rparr>)) Q E w1"
  proof (rule wp_updateAccountRow_row [of _ _ r])
    fix w' :: world
    assume clash: "\<not> list_ex (\<lambda>b. accID b \<noteq> i \<and> accountClash ?b b) (accounts (wdb w1))"
      and w': "wdb w' = (wdb w1)\<lparr>accounts := tbl_put accID ?b (accounts (wdb w1))\<rparr>"
    have "\<forall>x \<in> set (accounts (wdb w)). accID x \<noteq> i \<longrightarrow> \<not> authRow e token x"
      using clash w1 1(2) by (auto simp: list_ex_iff authRow_def accountClash_def)
    then show "Q () w'" by (intro Q [OF _ b(3,2) _ b(1)]) (use w' w1 in auto)
  qed (use r w1 b(3) in \<open>auto intro: E\<close>)
  then show ?case by (simp add: wp_asks)
qed (rule E)

lemma wp_ResetToken:
  assumes "cryptoOK e"
  shows "wp e (ResetToken i) (\<lambda>a w'. credential e a (wdb w') \<and> (\<exists>b. accID b = i \<and> authRow e (accToken a) b \<and>
      accounts (wdb w') = tbl_put accID b (accounts (wdb w)))) (\<lambda>_ _. True) w"
proof -
  let ?Q = "\<lambda>a w'. credential e a (wdb w') \<and> (\<exists>b. accID b = i \<and> authRow e (accToken a) b \<and>
      accounts (wdb w') = tbl_put accID b (accounts (wdb w)))"
  have put: "wp e (UpdateAccountToken i (''at_'' @ EncodeToString bs)) (\<lambda>_. wp e (AccountByID i) ?Q (\<lambda>_ _. True)) (\<lambda>_ _. True) w1"
    if "accountRow (wdb w) i = Some r" "wdb w1 = wdb w" for bs r w1
  proof (rule wp_rotate [OF assms, of _ _ r])
    fix b and w' :: world
    let ?t = "''at_'' @ EncodeToString bs"
    assume b: "wdb w' = (wdb w1)\<lparr>accounts := tbl_put accID b (accounts (wdb w1))\<rparr>" "accID b = i" "authRow e ?t b"
      "\<forall>x \<in> set (accounts (wdb w1)). accID x \<noteq> i \<longrightarrow> \<not> authRow e ?t x" "decryptAccount e b = Inr (b\<lparr>accToken := ?t\<rparr>)"
    have i: "accID b \<in> accID ` set (accounts (wdb w))" using find_SomeD [OF that(1)] b(2) by (metis imageI)
    have "b \<in> set (tbl_put accID b (accounts (wdb w)))" using i by (auto simp: set_tbl_put)
    then have "find (authRow e ?t) (tbl_put accID b (accounts (wdb w))) = Some b"
      using b(2-4) that(2) by (intro find_unique) (auto dest!: in_tbl_put)
    moreover have "accountRow (wdb w') i = Some b" using find_tbl_put [OF i] b(1,2) that(2) by simp
    ultimately show "wp e (AccountByID i) ?Q (\<lambda>_ _. True) w'"
      using b that(2) by (auto simp: wp_AccountByID credential_def)
  qed (use that in auto)
  have tx: "wp e (resetTokenTx i (''at_'' @ EncodeToString bs)) ?Q (\<lambda>_ _. True) w1" if "wdb w1 = wdb w" for bs w1
    unfolding resetTokenTx_def wp_andThen
    by (rule wp_LockAccount) (auto simp: wp_AccountByID [where Q = "\<lambda>_. wp e (UpdateAccountToken _ _) _ _"] that intro!: put [simplified])
  have "wp e (Tx (resetTokenTx i (''at_'' @ EncodeToString bs))) ?Q (\<lambda>_ _. True) w1" if "wdb w1 = wdb w" for bs w1
    unfolding wp_Tx using tx [of "bump w1" bs] that by (auto elim!: wp_mono)
  then show ?thesis
    unfolding ResetToken_def wp_bind wp_Secret by simp
qed

text \<open>
  Resetting a token revokes the old one: afterwards the old token is refused as invalid, and the new one
  authenticates the account if it is active.  (The hashes of the two must differ, and no other account
  may share the old token, which the unique indexes ensure.)
\<close>

theorem reset_revokes_token:
  assumes "cryptoOK e" "ResetToken i e w = (Inr a, w')"
    and w'': "wdb w'' = wdb w'" "\<not> fault e (calls w'')"
    and old: "TrimSpace old = old" "old \<noteq> []" "old \<noteq> cfgUserToken e"
      "\<forall>b \<in> set (accounts (wdb w)). authRow e old b \<longrightarrow> accID b = i"
      "if tokenKey e = [] then old \<noteq> accToken a else hashToken e old \<noteq> hashToken e (accToken a)"
    and new: "accToken a \<noteq> cfgUserToken e"
  shows "Resolve old e w'' = (Inl ErrInvalidToken, bump w'') \<and>
    (accStatus a = AccountActive \<longrightarrow> Resolve (accToken a) e w'' =
       (Inr \<lparr>idKind = KindAccount, idAccountID = accID a, idUserName = accUserName a\<rparr>, bump w''))"
proof
  from wp_Inr [OF wp_ResetToken [OF assms(1)] assms(2)] obtain b where b: "credential e a (wdb w')" "accID b = i"
    "authRow e (accToken a) b" "accounts (wdb w') = tbl_put accID b (accounts (wdb w))" by auto
  have "\<not> authRow e old b" using b(3) old(5) by (auto simp: authRow_def split: if_splits)
  then have "find (authRow e old) (accounts (wdb w'')) = None"
    using b(2,4) old(4) w''(1) by (auto simp: find_None_iff_all dest!: in_tbl_put)
  from Resolve_row(2) [OF old(1-3) w''(2) this] show "Resolve old e w'' = (Inl ErrInvalidToken, bump w'')" .
  show "accStatus a = AccountActive \<longrightarrow> Resolve (accToken a) e w'' =
       (Inr \<lparr>idKind = KindAccount, idAccountID = accID a, idUserName = accUserName a\<rparr>, bump w'')"
    using credential_resolves [of e a w''] b(1) w'' new by simp
qed

section \<open>A configured key\<close>

definition keyedEnv :: env where
  "keyedEnv = plainEnv\<lparr>tokenKey := ''0123456789abcdef''\<rparr>"

lemma keyedEnv_ok: "cryptoOK keyedEnv" "tokenKey keyedEnv \<noteq> []" "cryptoOK plainEnv"
  by (simp_all add: cryptoOK_def keyedEnv_def plainEnv_def)

lemma run_Inr: "(case r of (Inr a, w') \<Rightarrow> P a | _ \<Rightarrow> False) \<Longrightarrow> \<exists>a w'. r = (Inr a, w') \<and> P a"
  by (auto split: prod.splits sum.splits)

lemma demo_migrates: "case migrateAccountTokens keyedEnv (worldOf demoDB) of (Inr u, w') \<Rightarrow> True | _ \<Rightarrow> False"
  by code_simp

theorem migration_protects_tokens_witness:
  "\<exists>w' bs. migrateAccountTokens keyedEnv (worldOf demoDB) = (Inr (), w') \<and> wdb w' = demoDB\<lparr>accounts := bs\<rparr> \<and>
     list_all2 (migrated keyedEnv) (accounts demoDB) bs"
proof -
  obtain w' where w': "migrateAccountTokens keyedEnv (worldOf demoDB) = (Inr (), w')"
    using run_Inr [OF demo_migrates] by auto
  have "distinct (map accID (accounts (wdb (worldOf demoDB))))" by (simp add: demoDB_def)
  from migration_protects_tokens [OF keyedEnv_ok(1,2) this w'] w' show ?thesis by (auto simp: worldOf_def)
qed

definition brokenDB :: db where
  "brokenDB = emptyDB\<lparr>accounts := [demoAccount, demoAccount\<lparr>accID := ''acc_2'', accTokenHash := Some ''h''\<rparr>]\<rparr>"

theorem migration_checks_first_witness:
  "\<exists>y w'. migrateAccountTokens keyedEnv (worldOf brokenDB) = (Inl y, w') \<and> wdb w' = brokenDB"
proof -
  have "plaintextOf keyedEnv (demoAccount\<lparr>accID := ''acc_2'', accTokenHash := Some ''h''\<rparr>) = Inl ErrTokenKey" by code_simp
  moreover have "demoAccount\<lparr>accID := ''acc_2'', accTokenHash := Some ''h''\<rparr> \<in> set (accounts (wdb (worldOf brokenDB)))"
    by (simp add: brokenDB_def)
  ultimately show ?thesis using migration_checks_first [OF keyedEnv_ok(2)] by fastforce
qed

definition demoInput :: createInput where
  "demoInput = \<lparr>ciUserName = ''trader'', ciInitialBalance = Fin 10000, ciMaxDD = Some (Fin 20)\<rparr>"

lemma demo_creates: "case Create demoInput keyedEnv (worldOf emptyDB) of (Inr a, w') \<Rightarrow> accToken a \<noteq> cfgUserToken keyedEnv | _ \<Rightarrow> False"
  by code_simp

theorem created_token_authenticates_witness:
  "\<exists>a w'. Create demoInput keyedEnv (worldOf emptyDB) = (Inr a, w') \<and>
     fst (Resolve (accToken a) keyedEnv w') = Inr \<lparr>idKind = KindAccount, idAccountID = accID a, idUserName = accUserName a\<rparr>"
proof -
  obtain a w' where a: "Create demoInput keyedEnv (worldOf emptyDB) = (Inr a, w')" "accToken a \<noteq> cfgUserToken keyedEnv"
    using run_Inr [OF demo_creates] by auto
  have "\<not> fault keyedEnv n" for n by (simp add: keyedEnv_def plainEnv_def)
  with created_token_authenticates [OF keyedEnv_ok(1) a refl] a show ?thesis by auto
qed

lemma demo_resets: "case ResetToken ''acc_1'' plainEnv (worldOf demoDB) of
    (Inr a, w') \<Rightarrow> accToken a \<noteq> cfgUserToken plainEnv \<and> accToken a \<noteq> ''at_1'' | _ \<Rightarrow> False"
  by code_simp

theorem reset_revokes_token_witness:
  "\<exists>a w'. ResetToken ''acc_1'' plainEnv (worldOf demoDB) = (Inr a, w') \<and> fst (Resolve ''at_1'' plainEnv w') = Inl ErrInvalidToken"
proof -
  obtain a w' where a: "ResetToken ''acc_1'' plainEnv (worldOf demoDB) = (Inr a, w')" "accToken a \<noteq> cfgUserToken plainEnv"
    "accToken a \<noteq> ''at_1''"
    using run_Inr [OF demo_resets] by auto
  have "\<not> fault plainEnv n" "''at_1'' \<noteq> cfgUserToken plainEnv" "tokenKey plainEnv = []" for n by (simp_all add: plainEnv_def)
  moreover have "\<forall>b \<in> set (accounts (wdb (worldOf demoDB))). authRow plainEnv ''at_1'' b \<longrightarrow> accID b = ''acc_1''"
    by (simp add: demoDB_def demoAccount_def)
  ultimately have "Resolve ''at_1'' plainEnv w' = (Inl ErrInvalidToken, bump w')"
    using reset_revokes_token [OF keyedEnv_ok(3) a(1) refl, of "''at_1''"] demo_token a(2,3) by auto
  with a(1) show ?thesis by auto
qed

end
