(* ===== verification/AccountEffects.thy ===== *)
theory AccountEffects
  imports Tokens Safety
begin

text \<open>
  What the administration of accounts does to the books: releasing a stopped account starts a new drawdown
  cycle, deleting an account removes its trading state and keeps its history, and amending one leaves its
  funds alone.
\<close>

section \<open>Releasing a stopped account\<close>

definition released :: "account \<Rightarrow> account" where
  "released r = r\<lparr>accMaxDDBaselineEquity := Some (accBalance r), accMaxDDStoppedAt := None, accStatus := AccountActive\<rparr>"

definition releasable :: "db \<Rightarrow> string \<Rightarrow> account \<Rightarrow> bool" where
  "releasable d i r = (accountRow d i = Some r \<and> accMaxDD r \<noteq> None \<and> accMaxDDBaselineEquity r \<noteq> None \<and>
     accMaxDDStoppedAt r \<noteq> None \<and> openPositions i d = [] \<and> openOrders i d = [])"

text \<open>The account returned and the row stored, up to the envelope of the token.\<close>

definition resumed :: "db \<Rightarrow> string \<Rightarrow> account \<Rightarrow> db \<Rightarrow> bool" where
  "resumed d i a d' = (\<exists>r t t' h. releasable d i r \<and> a = released (r\<lparr>accToken := t\<rparr>) \<and>
      accountRow d' i = Some (released r\<lparr>accToken := t', accTokenHash := h\<rparr>))"

lemma released_token:
  "r\<lparr>accToken := t, accMaxDDBaselineEquity := Some (accBalance r), accMaxDDStoppedAt := None, accStatus := AccountActive\<rparr> =
   released (r\<lparr>accToken := t\<rparr>)"
  by (simp add: released_def)

lemma wp_resume_save:
  assumes r: "releasable (wdb w) i r"
  shows "wp e (SaveAccount (released (r\<lparr>accToken := t\<rparr>))) (\<lambda>_. wp e (CreateLedgerEntry x)
      (\<lambda>_ w'. resumed (wdb w) i (released (r\<lparr>accToken := t\<rparr>)) (wdb w')) (\<lambda>_ _. True)) (\<lambda>_ _. True) w"
proof (rule wp_SaveAccount, rule wp_CreateLedgerEntryI, goal_cases)
  case (1 t1 h w3 t2 w4)
  have row: "accountRow (wdb w) i = Some r" using r by (simp add: releasable_def)
  let ?b = "released (r\<lparr>accToken := t\<rparr>)\<lparr>accToken := t1, accTokenHash := h\<rparr>"
  have "r \<in> set (accounts (wdb w))" using find_SomeD [OF row] by simp
  then have id: "accID ?b \<in> accID ` set (accounts (wdb w))" by (simp add: released_def)
  then have "tbl_save accID ?b (accounts (wdb w)) = tbl_put accID ?b (accounts (wdb w))" by (simp add: tbl_save_def)
  moreover have "accID ?b = i" using accountRow_ID [OF row] by (simp add: released_def)
  ultimately have "accountRow (wdb w4) i = Some ?b" using 1 find_tbl_put [OF id] by simp
  then show ?case using r by (auto simp: resumed_def released_def)
qed auto

lemma wp_resume: "wp e (ResumeTrading i) (\<lambda>a w'. resumed (wdb w) i a (wdb w'))
    (\<lambda>_ w'. wdb w' = wdb w \<or> (\<exists>a. resumed (wdb w) i a (wdb w'))) w"
proof -
  have "wp e (resumeTradingTx i) (\<lambda>a w'. resumed (wdb w1) i a (wdb w')) (\<lambda>_ _. True) w1" for w1
    unfolding resumeTradingTx_def wp_andThen
  proof (rule wp_LockAccount, goal_cases)
    case (1 w2)
    have save: "wp e (SaveAccount (released (r\<lparr>accToken := t\<rparr>))) (\<lambda>_. wp e (andThen (CreateLedgerEntry x) (ret (released (r\<lparr>accToken := t\<rparr>))))
        (\<lambda>a w'. resumed (wdb w1) i a (wdb w')) (\<lambda>_ _. True)) (\<lambda>_ _. True) w3"
      if "releasable (wdb w1) i r" "wdb w3 = wdb w1" for r t x w3
      using wp_resume_save [of w3 i r e t x] that by (simp add: wp_andThen [abs_def] wp_ret_eta)
    from 1 show ?case
      by (auto simp: wp_rules Let_def openPositions_def openOrders_def releasable_def released_token
          dest!: decryptAccount_Inr intro!: save)
  qed simp
  from this [of "bump w"] show ?thesis
    unfolding ResumeTrading_def wp_Tx by (auto elim!: wp_mono)
qed

lemma released_row: "accountRow d i = Some (released r\<lparr>accToken := t, accTokenHash := h\<rparr>) \<Longrightarrow> \<not> releasable d i r'"
  by (auto simp: releasable_def released_def)

text \<open>
  Only a stopped account with nothing left to close is released.  The release keeps the balance, makes it the
  baseline of the next drawdown cycle, clears the stop mark and reactivates the account, in the row and in
  the value returned; releasing once more is an error that changes nothing.
\<close>

theorem resume_restarts_cycle:
  assumes "ResumeTrading i e w = (Inr a, w')"
  shows "\<exists>r. accountRow (wdb w) i = Some r \<and> accMaxDDStoppedAt r \<noteq> None \<and> openPositions i (wdb w) = [] \<and> openOrders i (wdb w) = [] \<and>
    (\<exists>b. accountRow (wdb w') i = Some b \<and> (\<forall>x \<in> {a, b}. accBalance x = accBalance r \<and> accMaxDD x = accMaxDD r \<and>
       accMaxDDBaselineEquity x = Some (accBalance r) \<and> accMaxDDStoppedAt x = None \<and> accStatus x = AccountActive)) \<and>
    (\<forall>e'. \<exists>x w''. ResumeTrading i e' w' = (Inl x, w'') \<and> wdb w'' = wdb w')"
proof -
  from wp_Inr [OF wp_resume assms] obtain r t t' h where r: "releasable (wdb w) i r" "a = released (r\<lparr>accToken := t\<rparr>)"
    "accountRow (wdb w') i = Some (released r\<lparr>accToken := t', accTokenHash := h\<rparr>)" by (auto simp: resumed_def)
  have "\<exists>x w''. ResumeTrading i e' w' = (Inl x, w'') \<and> wdb w'' = wdb w'" for e'
    using wp_resume [of e' i w'] released_row [OF r(3)] by (auto simp: wp_def resumed_def split: prod.splits sum.splits)
  with r show ?thesis by (auto simp: releasable_def released_def)
qed

text \<open>
  A stopped account whose positions and orders are gone can always be released: when the database answers,
  \<^verbatim>\<open>ResumeTrading\<close> succeeds and returns the account ready to trade.
\<close>

theorem resume_succeeds:
  assumes "\<And>n. \<not> fault e n" "tokenKey e = []" "keysOK (wdb w)" "releasable (wdb w) i r" "accTokenHash r = None"
  shows "\<exists>w'. ResumeTrading i e w = (Inr (released r), w')"
proof -
  have r: "accountRow (wdb w) i = Some r" and held: "openPositions i (wdb w) = []" "openOrders i (wdb w) = []"
    "accMaxDD r \<noteq> None" "accMaxDDBaselineEquity r \<noteq> None" "accMaxDDStoppedAt r \<noteq> None"
    using assms(4) by (auto simp: releasable_def)
  have "\<not> accountClash (released r) b" if "b \<in> set (accounts (wdb w))" "accID b \<noteq> accID r" for b
    using assms(3,5) accountRow_in [OF r] that distinct_key_eq [of accUserName "accounts (wdb w)" r b]
      distinct_key_eq [of accToken "accounts (wdb w)" r b]
    by (auto simp: accountClash_def keysOK_def released_def)
  then have save: "\<not> list_ex (\<lambda>b. accID b \<noteq> accID (released r) \<and> accountClash (released r) b) (accounts (wdb w))"
    by (auto simp: list_ex_iff released_def)
  have row: "list_ex (\<lambda>a. accID a = i) (accounts (wdb w))" using find_SomeD [OF r] by (auto simp: list_ex_iff)
  have stored: "released r\<lparr>accTokenHash := None\<rparr> = released r"
    using assms(5) by (simp add: released_def)
  have dec: "decryptAccount e r = Inr r" using assms(2,5) by (simp add: decryptAccount_def)
  have "wp e (ResumeTrading i) (\<lambda>a _. a = released r) (\<lambda>_ _. False) w"
    using r held save row
    by (simp add: ResumeTrading_def resumeTradingTx_def wp_rules LockAccount_def assms(1,2) dec Let_def stored
        openPositions_def openOrders_def released_def [symmetric] SaveAccount_def storedAccount_def protectToken_def
        upsertAccount_def CreateLedgerEntry_def)
  then show ?thesis by (auto simp: wp_def split: prod.splits sum.splits)
qed

section \<open>Deleting an account\<close>

text \<open>
  Deleting an account takes its row, its positions and its open orders with it and nothing else: trades, ledger,
  chat, finished orders and everything of other accounts stay, so the history can still be audited.
\<close>

theorem delete_keeps_history:
  assumes "Delete i e w = (Inr (), w')"
  shows "(\<exists>a \<in> set (accounts (wdb w)). accID a = i) \<and>
    wdb w' = (wdb w)\<lparr>accounts := filter (\<lambda>a. accID a \<noteq> i) (accounts (wdb w)),
      positions := filter (\<lambda>p. posAccountID p \<noteq> i) (positions (wdb w)),
      orders := filter (\<lambda>x. \<not> (ordAccountID x = i \<and> ordStatus x = OrderOpen)) (orders (wdb w))\<rparr>"
proof -
  let ?Q = "\<lambda>w'. (\<exists>a \<in> set (accounts (wdb w)). accID a = i) \<and>
    wdb w' = (wdb w)\<lparr>accounts := filter (\<lambda>a. accID a \<noteq> i) (accounts (wdb w)),
      positions := filter (\<lambda>p. posAccountID p \<noteq> i) (positions (wdb w)),
      orders := filter (\<lambda>x. \<not> (ordAccountID x = i \<and> ordStatus x = OrderOpen)) (orders (wdb w))\<rparr>"
  have "wp e (deleteTx i) (\<lambda>_. ?Q) (\<lambda>_ _. True) (bump w)"
    unfolding deleteTx_def wp_andThen DeleteAccountTradingState_def DeleteAccount_def
    by (rule wp_LockAccount) (auto simp: wp_dbcall list_ex_iff split: if_splits)
  then have "wp e (Delete i) (\<lambda>_. ?Q) (\<lambda>_ _. True) w"
    unfolding Delete_def wp_Tx by (auto elim!: wp_mono)
  from wp_Inr [OF this assms] show ?thesis .
qed

section \<open>A stopped account\<close>

definition haltedAccount :: account where
  "haltedAccount = demoAccount\<lparr>accInitialBalance := Fin 10000, accBalance := Fin 7000, accMaxDD := Some (Fin 20),
     accMaxDDBaselineEquity := Some (Fin 10000), accMaxDDStoppedAt := Some 5\<rparr>"

definition haltedDB :: db where
  "haltedDB = emptyDB\<lparr>accounts := [haltedAccount]\<rparr>"

lemma halted_releasable: "releasable haltedDB ''acc_1'' haltedAccount" "keysOK haltedDB" "accTokenHash haltedAccount = None"
  by (simp_all add: releasable_def haltedDB_def haltedAccount_def demoAccount_def emptyDB_def keysOK_def openPositions_def
      openOrders_def account0_def)

theorem resume_succeeds_witness:
  "\<exists>w'. ResumeTrading ''acc_1'' plainEnv (worldOf haltedDB) = (Inr (released haltedAccount), w')"
  by (rule resume_succeeds) (use halted_releasable in \<open>simp_all add: plainEnv_def\<close>)

lemma halted_resumes: "case ResumeTrading ''acc_1'' plainEnv (worldOf haltedDB) of (Inr a, w') \<Rightarrow> True | _ \<Rightarrow> False"
  by code_simp

theorem resume_restarts_cycle_witness:
  "\<exists>a w'. ResumeTrading ''acc_1'' plainEnv (worldOf haltedDB) = (Inr a, w') \<and> accMaxDDStoppedAt a = None"
proof -
  obtain a w' where a: "ResumeTrading ''acc_1'' plainEnv (worldOf haltedDB) = (Inr a, w')"
    using run_Inr [OF halted_resumes] by auto
  from resume_restarts_cycle [OF a] a show ?thesis by auto
qed

lemma demo_deletes: "case Delete ''acc_1'' plainEnv (worldOf demoDB) of (Inr u, w') \<Rightarrow> True | _ \<Rightarrow> False"
  by code_simp

theorem delete_keeps_history_witness:
  "\<exists>w'. Delete ''acc_1'' plainEnv (worldOf demoDB) = (Inr (), w') \<and> accounts (wdb w') = []"
proof -
  obtain w' where w': "Delete ''acc_1'' plainEnv (worldOf demoDB) = (Inr (), w')"
    using run_Inr [OF demo_deletes] by auto
  from delete_keeps_history [OF w'] w' show ?thesis by (auto simp: demoDB_def demoAccount_def)
qed

end
