(* ===== verification/MatchingCounts.thy ===== *)
theory MatchingCounts
  imports Liquidation
begin

text \<open>
  What the counters of a round of the matching engine say about the books: \<open>truthful\<close> compares them with
  the rows a round has added to \<^verbatim>\<open>trades\<close>, by role, and with the rejections in the ledger.  Each transaction of the
  engine adds as many rows as the engine counts for it; a commit that was carried out although it was
  reported as failed is the only thing the counters can miss.
\<close>

section \<open>Counting rows\<close>

text \<open>Resting orders are filled as maker, positions are closed as taker.\<close>

definition fillCount :: "string \<Rightarrow> db \<Rightarrow> int" where
  "fillCount role d = int (length (filter (\<lambda>t. trdRole t = role) (trades d)))"

definition rejectCount :: "db \<Rightarrow> int" where
  "rejectCount d = int (length (filter (\<lambda>l. ledEvent l = LedgerOrderRejected) (ledger d)))"

lemma rejects_stamped:
  "length (filter (\<lambda>l. ledEvent l = ev) (stamp n es)) = length (filter (\<lambda>p. ledEvent (fst p) = ev) es)"
  by (induction n es rule: stamp.induct) auto

lemma counts_logged [simp]:
  "fillCount role (logged d es) = fillCount role d"
  "rejectCount (logged d es) = rejectCount d + int (length (filter (\<lambda>p. ledEvent (fst p) = LedgerOrderRejected) es))"
  by (simp_all add: fillCount_def rejectCount_def logged_def rejects_stamped)

lemma counts_update [simp]:
  "fillCount role (d\<lparr>orders := os\<rparr>) = fillCount role d" "rejectCount (d\<lparr>orders := os\<rparr>) = rejectCount d"
  "fillCount role (d\<lparr>accounts := as\<rparr>) = fillCount role d" "rejectCount (d\<lparr>accounts := as\<rparr>) = rejectCount d"
  "rejectCount (d\<lparr>positions := ps, accounts := as, trades := ts\<rparr>) = rejectCount d"
  "fillCount role (d\<lparr>positions := ps, accounts := as, trades := ts\<rparr>) = int (length (filter (\<lambda>t. trdRole t = role) ts))"
  by (simp_all add: fillCount_def rejectCount_def)

lemma events [simp]:
  "ledEvent (canceledEntry a x s) = LedgerOrderCanceled" "ledEvent (riskEntry a ev b) = ev"
  "ledEvent (rejectedEntry x) = LedgerOrderRejected" "ledEvent (fillEntry x tid pid p f r b) = LedgerFill"
  by (simp_all add: canceledEntry_def riskEntry_def rejectedEntry_def fillEntry_def ledgerEntry0_def)

text \<open>How far a computation moves the counts: fills, closes, rejections.\<close>

definition moved :: "int \<Rightarrow> int \<Rightarrow> int \<Rightarrow> db \<Rightarrow> db \<Rightarrow> bool" where
  "moved f c r d d' = (fillCount RoleMaker d' = fillCount RoleMaker d + f \<and>
     fillCount RoleTaker d' = fillCount RoleTaker d + c \<and> rejectCount d' = rejectCount d + r)"

lemma moved_canceled [simp]:
  "moved 0 0 0 d d" "moved 0 0 0 d (logged (d\<lparr>orders := os\<rparr>) [(canceledEntry a x s, t)])"
  by (simp_all add: moved_def)

lemma moved_settled:
  "settled e x price role d x' d' \<Longrightarrow> moved (if role = RoleMaker then 1 else 0) (if role = RoleTaker then 1 else 0) 0 d d'"
  by (erule settledE) (simp add: moved_def fillCount_def [of _ d] fillTrade_def)

lemma moved_stop: "stoppedNow acc r eq d d' \<Longrightarrow> moved 0 0 0 d d'"
  by (auto simp: moved_def stoppedNow_def filter_empty_conv dest!: set_zip_leftD)

section \<open>Transactions of the engine\<close>

lemma precheck_moved:
  assumes "\<And>b w'. moved 0 0 0 (wdb w) (wdb w') \<Longrightarrow> Q b w'" and "\<And>x w'. E x w'"
  shows "wp e (precheck acc a marks) Q E w"
proof -
  have same: "moved 0 0 0 (wdb w) (wdb w')" if "wdb w' = wdb w" for w' :: world using that by (simp add: moved_def)
  have "wp e (checkMaxDD acc marks) Q E w"
    by (rule wp_checkMaxDD) (auto intro: assms same moved_stop)
  then show ?thesis using assms(1) same by (auto simp: precheck_def wp_rules)
qed

lemma closeAtTx_moved:
  "wp e (closeAtTx orderID accountID positionID quantity price source trigger)
     (\<lambda>_ w'. moved 0 1 0 (wdb w) (wdb w')) (\<lambda>_ _. True) w"
  unfolding closeAtTx_def wp_andThen
proof (rule wp_LockAccount, goal_cases)
  case (1 w1)
  have main: "wp e (settle x price RoleTaker) (\<lambda>filled. wp e (CreateOrder filled) (\<lambda>_ w'. moved 0 1 0 (wdb w) (wdb w')) (\<lambda>_ _. True))
      (\<lambda>_ _. True) w2" if "wdb w2 = wdb w" for x w2
    by (rule wp_settle, rule wp_CreateOrderI) (auto simp: that moved_def dest!: moved_settled)
  show ?case
    unfolding wp_bind wp_AccountByID wp_if wp_raise wp_closedIfMissing wp_PositionByID wp_liftE Let_def
    using 1 by (auto intro!: main)
qed auto

text \<open>What the engine counts for the result of \<^verbatim>\<open>fillOpenOrder\<close>.\<close>

definition countedFill :: "order option \<Rightarrow> int" where
  "countedFill r = (case r of None \<Rightarrow> 0 | Some x \<Rightarrow> if ordStatus x \<in> {OrderCanceled, OrderRejected} then 0 else 1)"

definition countedReject :: "order option \<Rightarrow> int" where
  "countedReject r = (case r of None \<Rightarrow> 0 | Some x \<Rightarrow> if ordStatus x = OrderRejected then 1 else 0)"

lemma fillOpenOrderTx_moved:
  "wp e (fillOpenOrderTx accountID orderID price marks)
     (\<lambda>r w'. moved (countedFill r) 0 (countedReject r) (wdb w) (wdb w')) (\<lambda>_ _. True) w"
  unfolding fillOpenOrderTx_def wp_andThen
proof (rule wp_LockAccount, goal_cases)
  case (1 w1)
  let ?Q = "\<lambda>r w'. moved (countedFill r) 0 (countedReject r) (wdb w) (wdb w')"
  have settle: "wp e (settle x price RoleMaker)
      (\<lambda>filled. wp e (andThen (SaveOrder filled) (andThen (precheck accountID a marks) (ret (Some filled)))) ?Q (\<lambda>_ _. True))
      (\<lambda>y. wp e (if \<not> isBusinessRejection y then raise y
           else bind (rejectOpen x y) (\<lambda>rejected. andThen (SaveOrder rejected) (ret (Some rejected)))) ?Q (\<lambda>_ _. True)) w2"
    if w2: "moved 0 0 0 (wdb w) (wdb w2)" for x a w2
  proof (rule wp_settle, goal_cases)
    case (1 x' w3)
    then have "ordStatus x' = OrderFilled" by (elim settledE) (simp add: filledOrder_def)
    then show ?case
      unfolding wp_andThen using moved_settled [OF 1] w2
      by (intro wp_SaveOrderI precheck_moved) (auto simp: wp_ret moved_def countedFill_def countedReject_def)
  next
    case (2 y w3)
    then show ?case using w2
      by (auto simp: wp_rules rejectOpen_def moved_def countedFill_def countedReject_def intro!: wp_SaveOrderI wp_CreateLedgerEntryI)
  qed (auto simp: wp_rules)
  have main: "wp e (precheck accountID a marks)
      (\<lambda>stopped. wp e (if stopped then ret (Some (x\<lparr>ordStatus := OrderCanceled\<rparr>)) else
       bind (attempt (settle x price RoleMaker)) (\<lambda>r. case r of
         Inl y \<Rightarrow> if \<not> isBusinessRejection y then raise y
           else bind (rejectOpen x y) (\<lambda>rejected. andThen (SaveOrder rejected) (ret (Some rejected)))
       | Inr filled \<Rightarrow> andThen (SaveOrder filled) (andThen (precheck accountID a marks) (ret (Some filled)))))
        ?Q (\<lambda>_ _. True)) (\<lambda>_ _. True) w2"
    if w2: "wdb w2 = wdb w" for x a w2
  proof (rule precheck_moved, goal_cases)
    case (1 b w3)
    then have m: "moved 0 0 0 (wdb w) (wdb w3)" using w2 by simp
    show ?case
    proof (cases b)
      case True
      then show ?thesis using m by (simp add: wp_ret countedFill_def countedReject_def)
    next
      case False
      then show ?thesis using settle [OF m, of x a] by (simp only: if_False wp_bind wp_attempt sum.case)
    qed
  qed simp
  have none: "?Q None w'" if "moved 0 0 0 (wdb w) (wdb w')" for w'
    using that by (simp add: countedFill_def countedReject_def)
  show ?case
    unfolding wp_bind wp_OrderByID wp_AccountByID wp_if wp_ret wp_raise wp_andThen
    using 1 by (auto intro!: wp_SaveOrderI wp_CreateLedgerEntryI main [unfolded wp_bind wp_if wp_ret wp_raise wp_andThen] none)
qed auto

lemma enforceMaxDDTx_moved:
  "wp e (enforceMaxDDTx accountID marks) (\<lambda>_ w'. moved 0 0 0 (wdb w) (wdb w')) (\<lambda>_ _. True) w"
  unfolding enforceMaxDDTx_def wp_andThen
  by (rule wp_LockAccount, rule wp_checkMaxDD) (auto simp: moved_def dest: moved_stop)

section \<open>Truthful counters\<close>

text \<open>The environment in which a commit that is reported as failed has failed.\<close>

definition honestCommits :: "env \<Rightarrow> bool" where
  "honestCommits e = (\<forall>n. fault e n \<longrightarrow> \<not> unreported e n)"

text \<open>\<open>f\<close> fills, \<open>c\<close> closes and \<open>r\<close> rejections were counted since \<open>d0\<close>.\<close>

definition truthful :: "env \<Rightarrow> db \<Rightarrow> int \<Rightarrow> int \<Rightarrow> int \<Rightarrow> world \<Rightarrow> bool" where
  "truthful e d0 f c r w = (fillCount RoleMaker d0 + f \<le> fillCount RoleMaker (wdb w) \<and>
     fillCount RoleTaker d0 + c \<le> fillCount RoleTaker (wdb w) \<and> rejectCount d0 + r \<le> rejectCount (wdb w) \<and>
     (honestCommits e \<longrightarrow> moved f c r d0 (wdb w)))"

lemma truthful_same: "wdb w' = wdb w \<Longrightarrow> truthful e d0 f c r w \<Longrightarrow> truthful e d0 f c r w'"
  by (simp add: truthful_def)

lemma truthful_moved:
  "truthful e d0 f c r w \<Longrightarrow> moved f' c' r' (wdb w) (wdb w') \<Longrightarrow> truthful e d0 (f + f') (c + c') (r + r') w'"
  by (auto simp: truthful_def moved_def)

lemma truthful_missed:
  assumes "truthful e d0 f c r w" "moved f' c' r' (wdb w) (wdb w')" "0 \<le> f'" "0 \<le> c'" "0 \<le> r'" "\<not> honestCommits e"
  shows "truthful e d0 f c r w'"
  using assms by (auto simp: truthful_def moved_def)

lemma truthful_Tx:
  assumes "\<And>w. wp e m (\<lambda>a w'. moved (f' a) (c' a) (r' a) (wdb w) (wdb w')) (\<lambda>_ _. True) w"
    and "\<And>a. 0 \<le> f' a \<and> 0 \<le> c' a \<and> 0 \<le> r' a" "truthful e d0 f c r w"
  shows "wp e (Tx m) (\<lambda>a w'. truthful e d0 (f + f' a) (c + c' a) (r + r' a) w') (\<lambda>_ w'. truthful e d0 f c r w') w"
proof -
  have missed: "truthful e d0 f c r w'"
    if "moved (f' a) (c' a) (r' a) (wdb w) (wdb w')" "fault e i" "unreported e i" for a w' i
    using truthful_missed [OF assms(3) that(1)] assms(2) [of a] that(2,3) by (auto simp: honestCommits_def)
  have "wp e m (\<lambda>a w'. moved (f' a) (c' a) (r' a) (wdb w) (wdb w')) (\<lambda>_ _. True) (bump w)"
    using assms(1) [of "bump w"] by simp
  then show ?thesis
    unfolding wp_Tx
    by (auto elim!: wp_mono intro: truthful_same [OF _ assms(3)] missed truthful_same [OF _ truthful_moved [OF assms(3)]])
qed

lemma wp_loopM_inv:
  assumes "I s w" "\<And>x s w. I s w \<Longrightarrow> wp e (f x s) I E w"
  shows "wp e (loopM xs f s) I E w"
  using assms(1)
proof (induction xs arbitrary: s w)
  case (Cons x xs)
  show ?case unfolding loopM.simps wp_bind by (rule wp_mono [OF assms(2) [OF Cons.prems]]) (auto intro: Cons.IH)
qed (simp add: wp_ret)

lemma truthful_closeAt:
  assumes "truthful e d0 f c r w"
  shows "wp e (closeAt acc i q price src trg) (\<lambda>_ w'. truthful e d0 f (c + 1) r w') (\<lambda>_ w'. truthful e d0 f c r w') w"
  unfolding closeAt_def wp_bind
proof (rule wp_newIDI, goal_cases)
  case (1 oid w1)
  then have "truthful e d0 f c r w1" using truthful_same [OF _ assms] by simp
  from truthful_Tx [OF closeAtTx_moved _ this] show ?case by simp
qed (auto intro: truthful_same [OF _ assms])

lemma truthful_fillOpenOrder:
  assumes "truthful e d0 f c r w"
  shows "wp e (fillOpenOrder acc i price marks) (\<lambda>x w'. truthful e d0 (f + countedFill x) c (r + countedReject x) w')
    (\<lambda>_ w'. truthful e d0 f c r w') w"
proof -
  have "0 \<le> countedFill a \<and> 0 \<le> (0 :: int) \<and> 0 \<le> countedReject a" for a
    by (auto simp: countedFill_def countedReject_def split: option.splits)
  from truthful_Tx [OF fillOpenOrderTx_moved this assms] show ?thesis by (simp add: fillOpenOrder_def)
qed

section \<open>The phases of a round\<close>

lemma truthful_liquidateOne:
  assumes "truthful e d0 f (c + fst s) r w"
  shows "wp e (liquidateOne acc marks p s) (\<lambda>s' w'. truthful e d0 f (c + fst s') r w') (\<lambda>_ _. False) w"
  unfolding liquidateOne_def wp_case_prod wp_case_option wp_bind wp_attempt wp_ret
  using assms by (auto simp: wp_rules add.assoc intro!: wp_mono [OF truthful_closeAt [OF assms]])

lemma truthful_liquidate:
  assumes "truthful e d0 f c r w"
  shows "wp e (liquidateMaxDD acc marks) (\<lambda>s w'. truthful e d0 f (c + fst s) r w') (\<lambda>_ _. False) w"
proof -
  have "wp e (loopM ps (liquidateOne acc marks) (0, None)) (\<lambda>s w'. truthful e d0 f (c + fst s) r w') (\<lambda>_ _. False) w1"
    if "wdb w1 = wdb w" for ps w1
    by (rule wp_loopM_inv) (use truthful_same [OF that assms] truthful_liquidateOne in auto)
  then show ?thesis
    unfolding liquidateMaxDD_def wp_bind wp_attempt wp_ListPositions
    by (auto simp: wp_ret intro: truthful_same [OF _ assms])
qed

lemma truthful_enforce:
  assumes "truthful e d0 f c r w"
  shows "wp e (enforceMaxDD acc marks) (\<lambda>s w'. truthful e d0 f (c + fst s) r w') (\<lambda>_ _. False) w"
proof -
  have "wp e (Tx (enforceMaxDDTx acc marks)) (\<lambda>_ w'. truthful e d0 f c r w') (\<lambda>_ w'. truthful e d0 f c r w') w"
    using truthful_Tx [OF enforceMaxDDTx_moved _ assms] by simp
  then show ?thesis
    unfolding enforceMaxDD_def wp_bind wp_attempt
    by (rule wp_mono) (auto simp: wp_if wp_ret intro: truthful_liquidate)
qed

abbreviation counted :: "env \<Rightarrow> db \<Rightarrow> tickResult \<Rightarrow> world \<Rightarrow> bool" where
  "counted e d0 res \<equiv> truthful e d0 (Filled res) (Closed res) (Rejected res)"

lemma counted_sweep: "counted e d0 res w \<Longrightarrow> wp e (sweepOne prices a res) (counted e d0) (\<lambda>_ _. False) w"
  unfolding sweepOne_def wp_bind Let_def
  by (rule wp_mono [OF truthful_enforce]) (auto simp: wp_ret split: option.splits)

lemma counted_fill: "counted e d0 res w \<Longrightarrow> wp e (fillOne prices x res) (counted e d0) (\<lambda>_ _. False) w"
  unfolding fillOne_def wp_case_option wp_if wp_ret wp_bind wp_attempt
  by (auto intro!: wp_mono [OF truthful_fillOpenOrder] simp: wp_rules countedFill_def countedReject_def split: option.splits if_splits)

lemma counted_stop: "counted e d0 res w \<Longrightarrow> wp e (stopOne prices p res) (counted e d0) (\<lambda>_ _. False) w"
  unfolding stopOne_def wp_case_option wp_ret wp_bind wp_attempt
  by (auto intro!: wp_mono [OF truthful_closeAt] simp: wp_rules)

lemma counted_cleanup: "counted e d0 res w \<Longrightarrow> wp e (cleanupOne prices m a res) (counted e d0) (\<lambda>_ _. False) w"
proof -
  assume c: "counted e d0 res w"
  have "wp e (liquidateMaxDD (accID a) prices) (\<lambda>q. wp e (case q of (n, err) \<Rightarrow>
      let res1 = res\<lparr>Closed := Closed res + n\<rparr> in ret (if err = None then res1 else failed res1)) (counted e d0) (\<lambda>_ _. False))
      (\<lambda>_ _. False) w1" if "wdb w1 = wdb w" for w1
    by (rule wp_mono [OF truthful_liquidate [OF truthful_same [OF that c]]]) (auto simp: wp_ret Let_def)
  then show ?thesis
    unfolding cleanupOne_def wp_if wp_ret wp_bind wp_attempt wp_AccountByID
    using truthful_same [OF _ c] by (auto simp: wp_ret wp_if wp_bind c)
qed

section \<open>A round\<close>

lemma truthful_load:
  assumes "counted e d0 (snd s) w"
  shows "wp e (loadCandidate a s) (\<lambda>s'. counted e d0 (snd s')) (\<lambda>_ _. False) w"
  unfolding loadCandidate_def wp_case_prod wp_bind wp_attempt wp_ListPositions
  using assms by (auto simp: wp_rules intro: truthful_same)

lemma truthful_prices:
  assumes "counted e d0 res w"
  shows "wp e (collectPrices os ps) (\<lambda>_. counted e d0 res) (\<lambda>_ _. False) w"
  unfolding collectPrices_def
  by (rule wp_loopM_inv) (use assms in \<open>auto simp: collectPrice_def wp_rules intro: truthful_same\<close>)

lemma truthful_note:
  assumes "counted e d0 res w"
  shows "wp e (noteStopped a m) (\<lambda>_. counted e d0 res) (\<lambda>_ _. False) w"
  unfolding noteStopped_def wp_bind wp_attempt wp_AccountByID
  using assms by (auto simp: wp_rules intro: truthful_same)

lemma wp_bind_eta: "wp e (bind m f) Q E = wp e m (\<lambda>a. wp e (f a) Q E) E"
  by (rule ext) (rule wp_bind)

lemma counted_tickLoaded:
  assumes "counted e d0 tickResult0 w"
  shows "wp e (tickLoaded os ps cs) (counted e d0) (\<lambda>_ _. False) w"
proof -
  have last: "wp e (loopM ps (stopOne prices) res) (\<lambda>res3. wp e (loopM cs (cleanupOne prices m) res3) (counted e d0) (\<lambda>_ _. False))
      (\<lambda>_ _. False) w1" if "counted e d0 res w1" for prices m res w1
    by (rule wp_mono, rule wp_loopM_inv [OF that counted_stop]) (auto intro: wp_loopM_inv counted_cleanup)
  have fills: "wp e (loopM os (fillOne prices) res) (\<lambda>res2. wp e (loopM ps (stopOne prices) res2)
      (\<lambda>res3. wp e (loopM cs (cleanupOne prices m) res3) (counted e d0) (\<lambda>_ _. False)) (\<lambda>_ _. False)) (\<lambda>_ _. False) w1"
    if "counted e d0 res w1" for prices m res w1
    by (rule wp_mono, rule wp_loopM_inv [OF that counted_fill]) (auto intro: last)
  have noted: "wp e (loopM cs noteStopped (\<lambda>_. False)) (\<lambda>m. wp e (loopM os (fillOne prices) res) (\<lambda>res2. wp e (loopM ps (stopOne prices) res2)
      (\<lambda>res3. wp e (loopM cs (cleanupOne prices m) res3) (counted e d0) (\<lambda>_ _. False)) (\<lambda>_ _. False)) (\<lambda>_ _. False)) (\<lambda>_ _. False) w1"
    if "counted e d0 res w1" for prices res w1
    by (rule wp_mono, rule wp_loopM_inv [where I = "\<lambda>_. counted e d0 res", OF that truthful_note]) (auto intro: fills)
  have sweep: "wp e (loopM cs (sweepOne prices) res) (\<lambda>res1. wp e (loopM cs noteStopped (\<lambda>_. False)) (\<lambda>m. wp e (loopM os (fillOne prices) res1)
      (\<lambda>res2. wp e (loopM ps (stopOne prices) res2)
      (\<lambda>res3. wp e (loopM cs (cleanupOne prices m) res3) (counted e d0) (\<lambda>_ _. False)) (\<lambda>_ _. False)) (\<lambda>_ _. False)) (\<lambda>_ _. False)) (\<lambda>_ _. False) w1"
    if "counted e d0 res w1" for prices res w1
    by (rule wp_mono, rule wp_loopM_inv [OF that counted_sweep]) (auto intro: noted)
  have load: "wp e (loopM cs loadCandidate (ps, tickResult0)) (\<lambda>s. counted e d0 (snd s)) (\<lambda>_ _. False) w"
    by (rule wp_loopM_inv) (use assms truthful_load in auto)
  show ?thesis
    unfolding tickLoaded_def wp_bind
  proof (rule wp_mono [OF load], goal_cases)
    case (1 s w1)
    obtain held res where s: "s = (held, res)" by (cases s)
    show ?case
      unfolding s prod.case wp_bind wp_bind_eta
      by (rule wp_mono [OF truthful_prices]) (use 1 s in \<open>auto intro: sweep\<close>)
  qed simp
qed

lemma counted_Tick: "wp e Tick (counted e (wdb w)) (\<lambda>_ _. False) w"
proof -
  have start: "counted e (wdb w) tickResult0 w'" "counted e (wdb w) (failed tickResult0) w'" if "wdb w' = wdb w" for w'
    using that by (simp_all add: truthful_def moved_def tickResult0_def)
  show ?thesis
    unfolding Tick_def wp_bind wp_attempt OpenLimitOrders_def PositionsWithStops_def ListMaxDDAccounts_def
    by (auto simp: wp_rules intro!: start counted_tickLoaded)
qed

text \<open>
  (C40) The counters of a round of the matching engine are the truth about the books.  Whatever database call,
  quote or transaction fails in it, \<^verbatim>\<open>Tick\<close> returns counters; every fill it counts is a new row of
  \<^verbatim>\<open>trades\<close> as maker, every close one as taker, every rejection one in the ledger, and unless a commit
  was carried out although it was reported as failed these are all the rows there are: nothing is executed
  without being counted, in the drawdown sweep, the limit orders, the stops and the clean-up together.
\<close>

theorem Tick_counts:
  "\<exists>res w'. Tick e w = (Inr res, w') \<and>
     fillCount RoleMaker (wdb w) + Filled res \<le> fillCount RoleMaker (wdb w') \<and>
     fillCount RoleTaker (wdb w) + Closed res \<le> fillCount RoleTaker (wdb w') \<and>
     rejectCount (wdb w) + Rejected res \<le> rejectCount (wdb w') \<and>
     (honestCommits e \<longrightarrow> fillCount RoleMaker (wdb w') = fillCount RoleMaker (wdb w) + Filled res \<and>
        fillCount RoleTaker (wdb w') = fillCount RoleTaker (wdb w) + Closed res \<and>
        rejectCount (wdb w') = rejectCount (wdb w) + Rejected res)"
  using counted_Tick [of e w] unfolding wp_def
  by (auto simp: truthful_def moved_def split: prod.splits sum.splits)

text \<open>An account with a buy order above the market, in an environment with fees that are powers of two.\<close>

definition busyOrder :: order where
  "busyOrder = order0\<lparr>ordID := ''ord_1'', ordAccountID := ''acc_1'', ordMarket := Crypto, ordSymbol := ''ETHUSDT'',
     ordProduct := ProductFutures, ordSide := SideBuy, ordType := OrderLimit, ordQuantity := Fin 1, ordPrice := Fin 101,
     ordLeverage := Fin 1, ordStatus := OrderOpen\<rparr>"

definition busyDB :: db where
  "busyDB = emptyDB\<lparr>accounts := [stoppedAccount\<lparr>accBalance := Fin 10000, accMaxDD := None, accMaxDDStoppedAt := None\<rparr>],
     orders := [busyOrder]\<rparr>"

definition dyadicEnv :: env where
  "dyadicEnv = plainEnv\<lparr>makerFee := Fin (1 / 1024), takerFee := Fin (1 / 512)\<rparr>"

lemma busy_round: "case Tick dyadicEnv (worldOf busyDB) of (Inr res, w') \<Rightarrow> Filled res = 1 | _ \<Rightarrow> False"
  by code_simp

theorem Tick_counts_witness:
  "\<exists>res w'. Tick dyadicEnv (worldOf busyDB) = (Inr res, w') \<and> Filled res = 1 \<and> fillCount RoleMaker (wdb w') = 1 \<and>
     fillCount RoleTaker (wdb w') = Closed res \<and> rejectCount (wdb w') = Rejected res"
proof -
  have "honestCommits dyadicEnv" by (simp add: honestCommits_def dyadicEnv_def plainEnv_def)
  moreover have "fillCount role busyDB = 0" "rejectCount busyDB = 0" for role
    by (simp_all add: fillCount_def rejectCount_def busyDB_def emptyDB_def)
  ultimately show ?thesis
    using Tick_counts [of dyadicEnv "worldOf busyDB"] busy_round by auto
qed

end
