(* ===== verification/EventSystem.thy ===== *)
theory EventSystem
  imports Main
begin

text \<open>
  Programs whose goroutines interleave at critical sections, as event systems: \<open>fire e s\<close> performs the event \<open>e\<close> in the
  state \<open>s\<close>, or says that it cannot happen there or that it panics; \<open>run\<close> performs a sequence.  The locales are the contract
  of an invariant; the market runtime and the event loop of the agent server are their instances.
\<close>

datatype 's outcome = Blocked | Panics | Next 's

fun run :: "('e \<Rightarrow> 's \<Rightarrow> 's outcome) \<Rightarrow> 'e list \<Rightarrow> 's \<Rightarrow> 's outcome" where
  "run fire [] s = Next s"
| "run fire (e # es) s = (case fire e s of Next s' \<Rightarrow> run fire es s' | Blocked \<Rightarrow> Blocked | Panics \<Rightarrow> Panics)"

lemma run_append:
  "run fire (es @ fs) s = (case run fire es s of Next s' \<Rightarrow> run fire fs s' | Blocked \<Rightarrow> Blocked | Panics \<Rightarrow> Panics)"
  by (induction es arbitrary: s) (auto split: outcome.splits)

text \<open>A property every event keeps, and an event that panics only outside of it.\<close>

locale event_invariant =
  fixes fire :: "'e \<Rightarrow> 's \<Rightarrow> 's outcome" and inv :: "'s \<Rightarrow> bool"
  assumes fire_inv: "inv s \<Longrightarrow> fire e s = Next s' \<Longrightarrow> inv s'"
begin

lemma run_inv: "inv s \<Longrightarrow> run fire es s = Next s' \<Longrightarrow> inv s'"
  by (induction es arbitrary: s) (auto split: outcome.splits intro: fire_inv)

end

locale safe_event_system = event_invariant +
  assumes fire_safe: "inv s \<Longrightarrow> fire e s \<noteq> Panics"
begin

lemma run_safe: "inv s \<Longrightarrow> run fire es s \<noteq> Panics"
  using fire_safe by (induction es arbitrary: s) (auto split: outcome.splits intro: fire_inv)

end

end
