(* ===== verification/MarketRuntime.thy ===== *)
theory MarketRuntime
  imports Models EventSystem
begin

text \<open>
  \<^verbatim>\<open>backend/internal/market\<close>: \<^verbatim>\<open>market.go\<close>, \<^verbatim>\<open>runtime.go\<close> and \<^verbatim>\<open>subscription.go\<close>, the price cache with
  its on-demand subscriptions.

  Everything between \<^verbatim>\<open>r.mu.Lock()\<close> and \<^verbatim>\<open>r.mu.Unlock()\<close> is one function of the \<open>runtime\<close>.  The
  goroutines interleave at these critical sections, so the program is an event system: \<open>fire\<close> performs one
  event (a caller enters the loop of \<^verbatim>\<open>GetPrice\<close>, wakes up, times out; a source sends a price or
  returns; the sweeper runs; the runtime is closed) and \<open>run\<close> a sequence of them.  What a source does
  is not constrained beyond its contract: it sends prices while it runs and returns once, with any error.

  A Go channel and a cancellation context are numbers: \<open>rChans\<close> records which channels are closed and
  \<open>rStreams\<close> has one row for every \<^verbatim>\<open>stream\<close> goroutine that was started, with the state of its context.
  Closing a closed channel panics.  \<open>published\<close> is not part of the program: it is the log of the prices the
  sources sent, which the statements about the cache refer to.
\<close>

section \<open>Durations\<close>

text \<open>\<^verbatim>\<open>Time.Sub\<close>: a \<^verbatim>\<open>Duration\<close> is a 64-bit number of nanoseconds and the difference saturates.\<close>

definition Sub :: "time \<Rightarrow> time \<Rightarrow> int" where
  "Sub t u = max (- (2 ^ 63)) (min (2 ^ 63 - 1) (t - u))"

definition firstDuration :: "int \<Rightarrow> int \<Rightarrow> int" where
  "firstDuration value fallback = (if value > 0 then value else fallback)"

definition DefaultFreshTTL :: int where "DefaultFreshTTL = 1500 * 1000000"
definition DefaultIdleTimeout :: int where "DefaultIdleTimeout = 60 * 1000000000"
definition DefaultWaitTimeout :: int where "DefaultWaitTimeout = 5 * 1000000000"

section \<open>Names\<close>

definition normalizePair :: "(string \<Rightarrow> string) \<Rightarrow> (string \<Rightarrow> string) \<Rightarrow> string \<Rightarrow> string \<Rightarrow> err + string \<times> string" where
  "normalizePair lo up market symbol =
     (let market = ToLower lo (TrimSpace market); symbol = ToUpper up (TrimSpace symbol)
      in if symbol = [] then Inl ErrEmptySymbol
         else if market = [] then Inl ErrUnknownMarket
         else Inr (market, symbol))"

definition quoteKey :: "string \<Rightarrow> string \<Rightarrow> string" where
  "quoteKey market symbol = market @ '':'' @ symbol"

definition normalizeMarket :: "(string \<Rightarrow> string) \<Rightarrow> (string \<Rightarrow> string) \<Rightarrow> string \<Rightarrow> string" where
  "normalizeMarket lo up name =
     (case normalizePair lo up name ''X'' of Inl _ \<Rightarrow> name | Inr (m, _) \<Rightarrow> m)"

section \<open>State\<close>

datatype subState = StateInactive | StateActivating | StateActive

record price =
  prMarket :: string
  prSymbol :: string
  prPrice :: float64
  prUpdatedAt :: time

record entry =
  eMarket :: string
  eSymbol :: string
  ePrice :: float64
  eUpdatedAt :: time
  eHasPrice :: bool
  eLastRequestedAt :: time
  eState :: subState
  eCancel :: "nat option"
  eLastErr :: "err option"
  eUpdated :: nat

definition eKey :: "entry \<Rightarrow> string" where
  "eKey e = quoteKey (eMarket e) (eSymbol e)"

text \<open>A \<^verbatim>\<open>stream\<close> goroutine: the entry it feeds, whether its context was cancelled, whether it has returned.\<close>

record stream =
  sKey :: string
  sCanceled :: bool
  sReturned :: bool

record runtime =
  rEntries :: "entry list"
  rSources :: "string list"
  rClosed :: bool
  rFreshTTL :: int
  rIdleTimeout :: int
  rWaitTimeout :: int
  rSweeping :: bool
  rChans :: "bool list"
  rStreams :: "stream list"

record options =
  oFreshTTL :: int
  oIdleTimeout :: int
  oWaitTimeout :: int

definition New :: "(string \<Rightarrow> string) \<Rightarrow> (string \<Rightarrow> string) \<Rightarrow> string list \<Rightarrow> options \<Rightarrow> runtime" where
  "New lo up sources opts =
     \<lparr>rEntries = [], rSources = map (normalizeMarket lo up) sources, rClosed = False,
      rFreshTTL = firstDuration (oFreshTTL opts) DefaultFreshTTL,
      rIdleTimeout = firstDuration (oIdleTimeout opts) DefaultIdleTimeout,
      rWaitTimeout = firstDuration (oWaitTimeout opts) DefaultWaitTimeout,
      rSweeping = True, rChans = [], rStreams = []\<rparr>"

definition snapshot :: "entry \<Rightarrow> price" where
  "snapshot e = \<lparr>prMarket = eMarket e, prSymbol = eSymbol e, prPrice = ePrice e, prUpdatedAt = eUpdatedAt e\<rparr>"

definition entryAt :: "string \<Rightarrow> runtime \<Rightarrow> entry option" where
  "entryAt k rt = find (\<lambda>e. eKey e = k) (rEntries rt)"

definition putEntry :: "entry \<Rightarrow> runtime \<Rightarrow> runtime" where
  "putEntry e rt = rt\<lparr>rEntries := tbl_put eKey e (rEntries rt)\<rparr>"

section \<open>Critical sections\<close>

text \<open>The entry of a market and symbol, created on its first use.\<close>

definition entryLocked :: "string \<Rightarrow> string \<Rightarrow> runtime \<Rightarrow> err + entry \<times> runtime" where
  "entryLocked market symbol rt =
     (if market \<notin> set (rSources rt) then Inl ErrUnknownMarket
      else case entryAt (quoteKey market symbol) rt of
             Some e \<Rightarrow> Inr (e, rt)
           | None \<Rightarrow>
               let e = \<lparr>eMarket = market, eSymbol = symbol, ePrice = 0, eUpdatedAt = zeroTime, eHasPrice = False,
                        eLastRequestedAt = zeroTime, eState = StateInactive, eCancel = None, eLastErr = None,
                        eUpdated = length (rChans rt)\<rparr>
               in Inr (e, rt\<lparr>rEntries := rEntries rt @ [e], rChans := rChans rt @ [False]\<rparr>))"

text \<open>Wake the waiters: the channel is closed and replaced; \<^const>\<open>None\<close> is the panic of a second close.\<close>

definition broadcast :: "entry \<Rightarrow> runtime \<Rightarrow> runtime option" where
  "broadcast e rt =
     (if eUpdated e < length (rChans rt) \<and> \<not> rChans rt ! eUpdated e
      then Some (putEntry (e\<lparr>eUpdated := length (rChans rt)\<rparr>)
                   (rt\<lparr>rChans := (rChans rt)[eUpdated e := True] @ [False]\<rparr>))
      else None)"

definition activateLocked :: "entry \<Rightarrow> runtime \<Rightarrow> runtime" where
  "activateLocked e rt =
     putEntry (e\<lparr>eCancel := Some (length (rStreams rt)), eState := StateActivating, eLastErr := None\<rparr>)
       (rt\<lparr>rStreams := rStreams rt @ [\<lparr>sKey = eKey e, sCanceled = False, sReturned = False\<rparr>]\<rparr>)"

definition cancelCtx :: "nat \<Rightarrow> runtime \<Rightarrow> runtime" where
  "cancelCtx c rt = rt\<lparr>rStreams := (rStreams rt)[c := (rStreams rt ! c)\<lparr>sCanceled := True\<rparr>]\<rparr>"

definition deactivateLocked :: "entry \<Rightarrow> runtime \<Rightarrow> runtime" where
  "deactivateLocked e rt =
     (case eCancel e of None \<Rightarrow> rt | Some c \<Rightarrow> putEntry (e\<lparr>eCancel := None\<rparr>) (cancelCtx c rt))"

text \<open>
  One round of the loop of \<^verbatim>\<open>GetPrice\<close> under the lock; \<open>now1\<close> and \<open>now2\<close> are its two readings of the
  clock.  The call returns a result, or waits for a channel.
\<close>

datatype attemptResult = Return "err + price" | Wait nat

definition getPriceLocked :: "time \<Rightarrow> time \<Rightarrow> string \<Rightarrow> string \<Rightarrow> bool \<Rightarrow> runtime \<Rightarrow> attemptResult \<times> runtime" where
  "getPriceLocked now1 now2 market symbol waited rt =
     (if rClosed rt then (Return (Inl ErrClosed), rt)
      else case entryLocked market symbol rt of
             Inl x \<Rightarrow> (Return (Inl x), rt)
           | Inr (e0, rt0) \<Rightarrow>
               let e = e0\<lparr>eLastRequestedAt := now1\<rparr>; rt1 = putEntry e rt0
               in if eHasPrice e \<and> Sub now2 (eUpdatedAt e) < rFreshTTL rt
                  then (Return (Inr (snapshot e)), rt1)
                  else if waited \<and> eLastErr e \<noteq> None then (Return (Inl (the (eLastErr e))), rt1)
                  else (Wait (eUpdated e), if eState e = StateInactive then activateLocked e rt1 else rt1))"

definition publishLocked :: "time \<Rightarrow> float64 \<Rightarrow> entry \<Rightarrow> runtime \<Rightarrow> runtime option" where
  "publishLocked now p e rt =
     broadcast (e\<lparr>ePrice := p, eUpdatedAt := now, eHasPrice := True, eLastErr := None, eState := StateActive\<rparr>) rt"

definition ctxCanceled :: "err \<Rightarrow> bool" where
  "ctxCanceled x = (x = ErrCanceled \<or> x = ErrDeadlineExceeded)"

definition finishLocked :: "err option \<Rightarrow> entry \<Rightarrow> runtime \<Rightarrow> runtime option" where
  "finishLocked failure e rt =
     broadcast (e\<lparr>eState := StateInactive, eCancel := None,
                  eLastErr := (case failure of Some x \<Rightarrow> if ctxCanceled x then eLastErr e else Some x | None \<Rightarrow> eLastErr e)\<rparr>) rt"

text \<open>Loops over the map of entries; \<open>ks\<close> is the order in which this run of the loop visits the keys.\<close>

definition sweepEntry :: "time \<Rightarrow> string \<Rightarrow> runtime \<Rightarrow> runtime" where
  "sweepEntry now k rt =
     (case entryAt k rt of
        None \<Rightarrow> rt
      | Some e \<Rightarrow> if eState e = StateInactive \<or> eCancel e = None then rt
                  else if Sub now (eLastRequestedAt e) \<le> rIdleTimeout rt then rt
                  else deactivateLocked e rt)"

definition sweep :: "time \<Rightarrow> string list \<Rightarrow> runtime \<Rightarrow> runtime" where
  "sweep now ks rt = fold (sweepEntry now) ks rt"

definition closeEntry :: "string \<Rightarrow> runtime \<Rightarrow> runtime" where
  "closeEntry k rt = (case entryAt k rt of None \<Rightarrow> rt | Some e \<Rightarrow> deactivateLocked e rt)"

definition Close :: "string list \<Rightarrow> runtime \<Rightarrow> runtime" where
  "Close ks rt = (if rClosed rt then rt else fold closeEntry ks (rt\<lparr>rClosed := True\<rparr>))"

definition Snapshot :: "runtime \<Rightarrow> (string \<times> subState) list" where
  "Snapshot rt = map (\<lambda>e. (eKey e, eState e)) (rEntries rt)"

section \<open>The goroutines\<close>

text \<open>Where a call of \<^verbatim>\<open>GetPrice\<close> stands: before the lock (and whether it has waited), in the \<^verbatim>\<open>select\<close>, or done.\<close>

datatype callState = Trying bool | Waiting nat | Done "err + price"

record pcall =
  cMarket :: string
  cSymbol :: string
  cDeadline :: time
  cState :: callState
  cDoneAt :: time

record system =
  sysRt :: runtime
  sysClk :: time
  pcalls :: "pcall list"
  published :: "(string \<times> float64 \<times> time) list"

definition start :: "(string \<Rightarrow> string) \<Rightarrow> (string \<Rightarrow> string) \<Rightarrow> string list \<Rightarrow> options \<Rightarrow> time \<Rightarrow> system" where
  "start lo up sources opts now = \<lparr>sysRt = New lo up sources opts, sysClk = now, pcalls = [], published = []\<rparr>"

datatype marketEvent =
    Call string string      \<comment> \<open>\<^verbatim>\<open>GetPrice\<close> is called\<close>
  | Attempt nat time time   \<comment> \<open>a call runs the locked part of its loop\<close>
  | Wake nat                \<comment> \<open>\<^verbatim>\<open>case <-wait\<close>\<close>
  | Timer nat time          \<comment> \<open>\<^verbatim>\<open>case <-deadline.C\<close>\<close>
  | CtxDone nat err         \<comment> \<open>\<^verbatim>\<open>case <-ctx.Done()\<close>\<close>
  | Send nat float64 time   \<comment> \<open>a stream receives a price from its source\<close>
  | Finish nat "err option" \<comment> \<open>the source of a stream returns\<close>
  | SweepTick time "string list" \<comment> \<open>the ticker of \<^verbatim>\<open>sweepLoop\<close>\<close>
  | Shutdown "string list"  \<comment> \<open>\<^verbatim>\<open>Close\<close>\<close>
  | SweeperStops            \<comment> \<open>\<^verbatim>\<open>case <-r.stopped\<close> of \<^verbatim>\<open>sweepLoop\<close>\<close>

definition setCall :: "nat \<Rightarrow> callState \<Rightarrow> time \<Rightarrow> system \<Rightarrow> system" where
  "setCall i st now s = s\<lparr>pcalls := (pcalls s)[i := (pcalls s ! i)\<lparr>cState := st, cDoneAt := now\<rparr>], sysClk := now\<rparr>"

definition running :: "runtime \<Rightarrow> nat \<Rightarrow> bool" where
  "running r i = (i < length (rStreams r) \<and> \<not> sReturned (rStreams r ! i))"

definition waitingOn :: "system \<Rightarrow> nat \<Rightarrow> nat option" where
  "waitingOn s i = (if i < length (pcalls s) then case cState (pcalls s ! i) of Waiting ch \<Rightarrow> Some ch | _ \<Rightarrow> None else None)"

definition keyOrder :: "string list \<Rightarrow> runtime \<Rightarrow> bool" where
  "keyOrder ks r = (distinct ks \<and> set ks = eKey ` set (rEntries r))"

definition fromOption :: "'a option \<Rightarrow> ('a \<Rightarrow> 's) \<Rightarrow> 's outcome" where
  "fromOption r f = (case r of None \<Rightarrow> Panics | Some a \<Rightarrow> Next (f a))"

fun fire :: "(string \<Rightarrow> string) \<Rightarrow> (string \<Rightarrow> string) \<Rightarrow> marketEvent \<Rightarrow> system \<Rightarrow> system outcome" where
  "fire lo up (Call market symbol) s =
     (case normalizePair lo up market symbol of
        Inl x \<Rightarrow> Next (s\<lparr>pcalls := pcalls s @ [\<lparr>cMarket = market, cSymbol = symbol, cDeadline = sysClk s,
                                              cState = Done (Inl x), cDoneAt = sysClk s\<rparr>]\<rparr>)
      | Inr (m, y) \<Rightarrow> Next (s\<lparr>pcalls := pcalls s @ [\<lparr>cMarket = m, cSymbol = y, cDeadline = sysClk s + rWaitTimeout (sysRt s),
                                                   cState = Trying False, cDoneAt = sysClk s\<rparr>]\<rparr>))"
| "fire lo up (Attempt i now1 now2) s =
     (if i < length (pcalls s) \<and> sysClk s \<le> now1 \<and> now1 \<le> now2
      then let c = pcalls s ! i
           in case cState c of
                Trying waited \<Rightarrow>
                  (case getPriceLocked now1 now2 (cMarket c) (cSymbol c) waited (sysRt s) of
                     (Return r, rt') \<Rightarrow> Next (setCall i (Done r) now2 (s\<lparr>sysRt := rt'\<rparr>))
                   | (Wait ch, rt') \<Rightarrow> Next (setCall i (Waiting ch) now2 (s\<lparr>sysRt := rt'\<rparr>)))
              | _ \<Rightarrow> Blocked
      else Blocked)"
| "fire lo up (Wake i) s =
     (case waitingOn s i of
        None \<Rightarrow> Blocked
      | Some ch \<Rightarrow> if rChans (sysRt s) ! ch then Next (setCall i (Trying True) (sysClk s) s) else Blocked)"
| "fire lo up (Timer i now) s =
     (if waitingOn s i \<noteq> None \<and> sysClk s \<le> now \<and> cDeadline (pcalls s ! i) \<le> now
      then Next (setCall i (Done (Inl ErrTimeout)) now s) else Blocked)"
| "fire lo up (CtxDone i x) s =
     (if waitingOn s i \<noteq> None \<and> ctxCanceled x then Next (setCall i (Done (Inl x)) (sysClk s) s) else Blocked)"
| "fire lo up (Send i p now) s =
     (if running (sysRt s) i \<and> sysClk s \<le> now
      then let k = sKey (rStreams (sysRt s) ! i)
           in case entryAt k (sysRt s) of
                None \<Rightarrow> Panics
              | Some e \<Rightarrow> fromOption (publishLocked now p e (sysRt s))
                            (\<lambda>rt'. s\<lparr>sysRt := rt', sysClk := now, published := (k, p, now) # published s\<rparr>)
      else Blocked)"
| "fire lo up (Finish i failure) s =
     (if running (sysRt s) i
      then case entryAt (sKey (rStreams (sysRt s) ! i)) (sysRt s) of
             None \<Rightarrow> Panics
           | Some e \<Rightarrow> fromOption (finishLocked failure e (sysRt s))
                         (\<lambda>rt'. s\<lparr>sysRt := rt'\<lparr>rStreams := (rStreams rt')[i := (rStreams rt' ! i)\<lparr>sReturned := True\<rparr>]\<rparr>\<rparr>)
      else Blocked)"
| "fire lo up (SweepTick now ks) s =
     (if rSweeping (sysRt s) \<and> now \<le> sysClk s \<and> keyOrder ks (sysRt s) then Next (s\<lparr>sysRt := sweep now ks (sysRt s)\<rparr>) else Blocked)"
| "fire lo up (Shutdown ks) s =
     (if keyOrder ks (sysRt s) then Next (s\<lparr>sysRt := Close ks (sysRt s)\<rparr>) else Blocked)"
| "fire lo up SweeperStops s =
     (if rClosed (sysRt s) \<and> rSweeping (sysRt s) then Next (s\<lparr>sysRt := (sysRt s)\<lparr>rSweeping := False\<rparr>\<rparr>) else Blocked)"

text \<open>\<^verbatim>\<open>r.wg\<close>: the goroutines of the runtime that have not ended.  \<^verbatim>\<open>Close\<close> returns when there are none.\<close>

definition wgCount :: "runtime \<Rightarrow> nat" where
  "wgCount r = length (filter (\<lambda>st. \<not> sReturned st) (rStreams r)) + (if rSweeping r then 1 else 0)"

end
