(* ===== verification/MarketSafety.thy ===== *)
theory MarketSafety
  imports MarketRuntime
begin

text \<open>
  The invariant of the market runtime and what follows from it: one subscription for every market and symbol, no
  waiter that nobody will wake, cached prices that come from the source and are fresh, and a shutdown that ends.
\<close>

section \<open>The invariant of the runtime\<close>

definition liveOn :: "stream list \<Rightarrow> string \<Rightarrow> nat \<Rightarrow> bool" where
  "liveOn ss k i = (i < length ss \<and> \<not> sReturned (ss ! i) \<and> sKey (ss ! i) = k)"

text \<open>An entry and the goroutine that feeds it: its state says whether there is one, \<open>eCancel\<close> whether it was not yet cancelled.\<close>

definition subOK :: "stream list \<Rightarrow> entry \<Rightarrow> bool" where
  "subOK ss e =
     ((eState e = StateInactive \<longrightarrow> (\<forall>i. \<not> liveOn ss (eKey e) i)) \<and>
      (eState e \<noteq> StateInactive \<longrightarrow> (\<exists>i. liveOn ss (eKey e) i)) \<and>
      (\<forall>c. eCancel e = Some c \<longrightarrow> liveOn ss (eKey e) c \<and> \<not> sCanceled (ss ! c)) \<and>
      (\<forall>i. liveOn ss (eKey e) i \<and> \<not> sCanceled (ss ! i) \<longrightarrow> eCancel e = Some i))"

text \<open>What the definition says of the states and of the cancel function, as separate rules (the two directions of \<open>eCancel\<close> loop as rewrite rules).\<close>

lemma subOK_cong:
  "eKey e' = eKey e \<Longrightarrow> eCancel e' = eCancel e \<Longrightarrow> (eState e' = StateInactive) = (eState e = StateInactive) \<Longrightarrow> subOK ss e' = subOK ss e"
  by (simp only: subOK_def)

lemma subOKD:
  assumes "subOK ss e"
  shows "eState e = StateInactive \<Longrightarrow> \<not> liveOn ss (eKey e) i"
    and "eState e \<noteq> StateInactive \<Longrightarrow> \<exists>i. liveOn ss (eKey e) i"
    and "eCancel e = Some c \<Longrightarrow> liveOn ss (eKey e) c \<and> \<not> sCanceled (ss ! c)"
    and "liveOn ss (eKey e) i \<Longrightarrow> \<not> sCanceled (ss ! i) \<Longrightarrow> eCancel e = Some i"
  using assms unfolding subOK_def by blast+

lemma subOKI:
  assumes "eState e \<noteq> StateInactive" "liveOn ss (eKey e) i"
    and "\<And>c. eCancel e = Some c \<Longrightarrow> liveOn ss (eKey e) c \<and> \<not> sCanceled (ss ! c)"
    and "\<And>i. liveOn ss (eKey e) i \<Longrightarrow> \<not> sCanceled (ss ! i) \<Longrightarrow> eCancel e = Some i"
  shows "subOK ss e"
  unfolding subOK_def using assms by blast

definition chanOK :: "bool list \<Rightarrow> entry list \<Rightarrow> bool" where
  "chanOK cs es = (distinct (map eUpdated es) \<and> (\<forall>e \<in> set es. eUpdated e < length cs \<and> \<not> cs ! eUpdated e))"

definition rtCore :: "runtime \<Rightarrow> bool" where
  "rtCore r =
     (distinct (map eKey (rEntries r)) \<and> (\<forall>e \<in> set (rEntries r). eMarket e \<in> set (rSources r)) \<and>
      chanOK (rChans r) (rEntries r) \<and> (\<forall>e \<in> set (rEntries r). subOK (rStreams r) e) \<and>
      (\<forall>k i. liveOn (rStreams r) k i \<longrightarrow> k \<in> eKey ` set (rEntries r)) \<and>
      (\<forall>k i j. liveOn (rStreams r) k i \<and> liveOn (rStreams r) k j \<longrightarrow> i = j))"

definition rtOK :: "runtime \<Rightarrow> bool" where
  "rtOK r = (rtCore r \<and> (rClosed r \<longrightarrow> (\<forall>e \<in> set (rEntries r). eCancel e = None)))"

lemma rtOK_New: "rtOK (New lo up sources opts)"
  by (simp add: rtOK_def rtCore_def New_def chanOK_def liveOn_def)

text \<open>The settings never change, and a waiter that is not woken keeps a subscription that will wake it.\<close>

definition later :: "runtime \<Rightarrow> runtime \<Rightarrow> bool" where
  "later r r' =
     (rSources r' = rSources r \<and> rFreshTTL r' = rFreshTTL r \<and> rIdleTimeout r' = rIdleTimeout r \<and>
      rWaitTimeout r' = rWaitTimeout r \<and> length (rChans r) \<le> length (rChans r') \<and>
      (\<forall>c < length (rChans r). rChans r ! c \<longrightarrow> rChans r' ! c) \<and>
      (\<forall>e \<in> set (rEntries r). eState e \<noteq> StateInactive \<and> eUpdated e < length (rChans r) \<longrightarrow>
         rChans r' ! eUpdated e \<or>
         (\<exists>e' \<in> set (rEntries r'). eKey e' = eKey e \<and> eUpdated e' = eUpdated e \<and> eState e' \<noteq> StateInactive)))"

lemma later_refl [simp]: "later r r"
  by (auto simp: later_def)

lemma later_trans: "later r1 r2 \<Longrightarrow> later r2 r3 \<Longrightarrow> later r1 r3"
  unfolding later_def
  by (intro conjI) (simp, simp, simp, simp, simp, metis order_less_le_trans, metis order_less_le_trans)

section \<open>One entry changes\<close>

text \<open>
  Every critical section replaces one entry \<open>e\<close> by \<open>e'\<close>, perhaps closes its channel and makes a new one, and touches
  only the goroutine of this entry.
\<close>

definition streamChange :: "string \<Rightarrow> stream list \<Rightarrow> stream list \<Rightarrow> bool" where
  "streamChange k0 ss ss' =
     ((\<forall>k i. k \<noteq> k0 \<longrightarrow> liveOn ss' k i = liveOn ss k i \<and> (liveOn ss k i \<longrightarrow> sCanceled (ss' ! i) = sCanceled (ss ! i))) \<and>
      (\<forall>i j. liveOn ss' k0 i \<and> liveOn ss' k0 j \<longrightarrow> i = j))"

lemma streamChangeI:
  assumes "\<And>k i. k \<noteq> k0 \<Longrightarrow> liveOn ss' k i = liveOn ss k i"
    and "\<And>k i. k \<noteq> k0 \<Longrightarrow> liveOn ss k i \<Longrightarrow> sCanceled (ss' ! i) = sCanceled (ss ! i)"
    and "\<And>i. liveOn ss' k0 i \<Longrightarrow> i = j"
  shows "streamChange k0 ss ss'"
  unfolding streamChange_def by (simp add: assms(1,2)) (metis assms(3))

definition entryChange :: "entry \<Rightarrow> entry \<Rightarrow> runtime \<Rightarrow> runtime \<Rightarrow> bool" where
  "entryChange e e' r r' =
     (e \<in> set (rEntries r) \<and> eMarket e' = eMarket e \<and> eSymbol e' = eSymbol e \<and>
      rEntries r' = tbl_put eKey e' (rEntries r) \<and>
      rSources r' = rSources r \<and> rFreshTTL r' = rFreshTTL r \<and> rIdleTimeout r' = rIdleTimeout r \<and>
      rWaitTimeout r' = rWaitTimeout r \<and> rClosed r' = rClosed r \<and> rSweeping r' = rSweeping r \<and>
      (eUpdated e' = eUpdated e \<and> rChans r' = rChans r \<and> (eState e \<noteq> StateInactive \<longrightarrow> eState e' \<noteq> StateInactive) \<or>
       eUpdated e' = length (rChans r) \<and> rChans r' = (rChans r)[eUpdated e := True] @ [False]) \<and>
      streamChange (eKey e) (rStreams r) (rStreams r') \<and> subOK (rStreams r') e')"

lemma eKey_cong: "eMarket e' = eMarket e \<Longrightarrow> eSymbol e' = eSymbol e \<Longrightarrow> eKey e' = eKey e"
  by (simp add: eKey_def)

lemma entryChange_chans:
  "entryChange e e' r r' \<Longrightarrow>
     eUpdated e' = eUpdated e \<and> rChans r' = rChans r \<and> (eState e \<noteq> StateInactive \<longrightarrow> eState e' \<noteq> StateInactive) \<or>
     eUpdated e' = length (rChans r) \<and> rChans r' = (rChans r)[eUpdated e := True] @ [False]"
  by (simp add: entryChange_def)

lemma still_closed: "c < length cs \<Longrightarrow> cs ! c \<Longrightarrow> cs[u := True] ! c"
  by (cases "c = u") auto

lemma set_entryChange:
  assumes "entryChange e e' r r'"
  shows "set (rEntries r') = insert e' {f \<in> set (rEntries r). eKey f \<noteq> eKey e}" and "eKey e' = eKey e"
proof -
  show k: "eKey e' = eKey e" using assms by (auto simp: entryChange_def intro: eKey_cong)
  then have "eKey e' \<in> eKey ` set (rEntries r)" "rEntries r' = tbl_put eKey e' (rEntries r)"
    using assms by (auto simp: entryChange_def)
  then show "set (rEntries r') = insert e' {f \<in> set (rEntries r). eKey f \<noteq> eKey e}" by (simp add: set_tbl_put k)
qed

lemma chanOK_entryChange:
  assumes "rtCore r" "entryChange e e' r r'"
  shows "chanOK (rChans r') (rEntries r')"
proof -
  have e: "e \<in> set (rEntries r)" and d: "distinct (map eKey (rEntries r))" "distinct (map eUpdated (rEntries r))"
    and es': "rEntries r' = tbl_put eKey e' (rEntries r)"
    and opn: "\<And>f. f \<in> set (rEntries r) \<Longrightarrow> eUpdated f < length (rChans r) \<and> \<not> rChans r ! eUpdated f"
    using assms by (auto simp: rtCore_def chanOK_def entryChange_def)
  have other: "eUpdated f \<noteq> eUpdated e" if "f \<in> set (rEntries r)" "eKey f \<noteq> eKey e" for f
    using d(2) e that distinct_key_eq by metis
  have fresh: "eUpdated f \<noteq> eUpdated e'" if "f \<in> set (rEntries r)" "eKey f \<noteq> eKey e'" for f
  proof -
    have "eUpdated e' = eUpdated e \<or> eUpdated e' = length (rChans r)" using entryChange_chans [OF assms(2)] by auto
    then show ?thesis using other opn that set_entryChange(2) [OF assms(2)] by fastforce
  qed
  have "eUpdated f < length (rChans r') \<and> \<not> rChans r' ! eUpdated f" if "f \<in> set (rEntries r')" for f
  proof (cases "f = e'")
    case True
    then show ?thesis using entryChange_chans [OF assms(2)] opn [OF e] by (auto simp: nth_append)
  next
    case False
    then have f: "f \<in> set (rEntries r)" "eKey f \<noteq> eKey e" using that set_entryChange [OF assms(2)] by auto
    then show ?thesis using entryChange_chans [OF assms(2)] opn [OF f(1)] other [OF f] by (auto simp: nth_append)
  qed
  moreover have "distinct (map eUpdated (rEntries r'))"
    unfolding es' by (rule distinct_map_put [OF d]) (rule fresh)
  ultimately show ?thesis by (simp add: chanOK_def)
qed

lemma rtCore_entryChange:
  assumes core: "rtCore r" and c: "entryChange e e' r r'"
  shows "rtCore r'"
proof -
  let ?ss = "rStreams r" and ?ss' = "rStreams r'"
  note es = set_entryChange [OF c]
  have other: "liveOn ?ss' k i = liveOn ?ss k i"
    "liveOn ?ss k i \<Longrightarrow> sCanceled (?ss' ! i) = sCanceled (?ss ! i)" if "k \<noteq> eKey e" for k i
    using c that by (auto simp: entryChange_def streamChange_def)
  have self: "e \<in> set (rEntries r)" "\<And>i j. liveOn ?ss' (eKey e) i \<Longrightarrow> liveOn ?ss' (eKey e) j \<Longrightarrow> i = j" "subOK ?ss' e'"
    using c by (auto simp: entryChange_def streamChange_def)
  have "subOK ?ss' f" if f: "f \<in> set (rEntries r')" for f
  proof (cases "f = e'")
    case False
    then have f: "f \<in> set (rEntries r)" "eKey f \<noteq> eKey e" using f es by auto
    then have "subOK ?ss f" using core by (auto simp: rtCore_def)
    then show ?thesis unfolding subOK_def using other [OF f(2)] by metis
  qed (simp add: self)
  moreover have "k \<in> eKey ` set (rEntries r')" if "liveOn ?ss' k i" for k i
  proof (cases "k = eKey e")
    case False
    then have "k \<in> eKey ` set (rEntries r)" using that other(1) core by (auto simp: rtCore_def)
    then show ?thesis using False es by auto
  qed (simp add: es)
  moreover have "i = j" if "liveOn ?ss' k i" "liveOn ?ss' k j" for k i j
    using that self(2) other(1) core unfolding rtCore_def by metis
  moreover have "distinct (map eKey (rEntries r'))" "\<forall>f \<in> set (rEntries r'). eMarket f \<in> set (rSources r')"
    using core c es by (auto simp: rtCore_def entryChange_def)
  ultimately show ?thesis using chanOK_entryChange [OF core c] unfolding rtCore_def by blast
qed

lemma later_entryChange:
  assumes "rtCore r" "entryChange e e' r r'"
  shows "later r r'"
proof -
  have grow: "length (rChans r) \<le> length (rChans r')" "\<And>c. c < length (rChans r) \<Longrightarrow> rChans r ! c \<Longrightarrow> rChans r' ! c"
    using entryChange_chans [OF assms(2)] by (auto simp: nth_append intro: still_closed)
  have kept: "rChans r' ! eUpdated f \<or>
      (\<exists>f' \<in> set (rEntries r'). eKey f' = eKey f \<and> eUpdated f' = eUpdated f \<and> eState f' \<noteq> StateInactive)"
    if f: "f \<in> set (rEntries r)" "eState f \<noteq> StateInactive" "eUpdated f < length (rChans r)" for f
  proof (cases "eKey f = eKey e")
    case True
    then have "f = e" using assms f(1) by (auto simp: rtCore_def entryChange_def dest: distinct_key_eq)
    then show ?thesis using entryChange_chans [OF assms(2)] f set_entryChange [OF assms(2)]
      by (auto simp: nth_append)
  next
    case False
    then show ?thesis using f set_entryChange [OF assms(2)] by auto
  qed
  show ?thesis using assms(2) grow kept unfolding later_def entryChange_def by blast
qed

section \<open>Each critical section is such a change\<close>

lemma eKey_simps [simp]:
  "eKey (e\<lparr>eLastRequestedAt := t\<rparr>) = eKey e" "eKey (e\<lparr>eCancel := c\<rparr>) = eKey e" "eKey (e\<lparr>eState := st\<rparr>) = eKey e"
  "eKey (e\<lparr>eLastErr := x\<rparr>) = eKey e" "eKey (e\<lparr>eUpdated := u\<rparr>) = eKey e" "eKey (e\<lparr>ePrice := p\<rparr>) = eKey e"
  "eKey (e\<lparr>eUpdatedAt := t\<rparr>) = eKey e" "eKey (e\<lparr>eHasPrice := b\<rparr>) = eKey e"
  by (simp_all add: eKey_def)

lemma list_update_self: "f (g (ss ! c)) = f (ss ! c) \<Longrightarrow> f (ss[c := g (ss ! c)] ! i) = f (ss ! i)"
  by (cases "c < length ss") (auto simp: nth_list_update not_less list_update_beyond)

lemma stream_update [simp]:
  "sReturned (ss[c := (ss ! c)\<lparr>sCanceled := b\<rparr>] ! i) = sReturned (ss ! i)"
  "sKey (ss[c := (ss ! c)\<lparr>sCanceled := b\<rparr>] ! i) = sKey (ss ! i)"
  "sCanceled (ss[c := (ss ! c)\<lparr>sReturned := b\<rparr>] ! i) = sCanceled (ss ! i)"
  "sKey (ss[c := (ss ! c)\<lparr>sReturned := b\<rparr>] ! i) = sKey (ss ! i)"
  by (rule list_update_self, simp)+

lemma stream_returned:
  "i < length ss \<Longrightarrow> sReturned (ss[c := (ss ! c)\<lparr>sReturned := True\<rparr>] ! i) = (sReturned (ss ! i) \<or> i = c)"
  by (cases "c < length ss") (auto simp: nth_list_update)

lemma liveOn_simps [simp]:
  "liveOn (ss @ [\<lparr>sKey = k', sCanceled = b, sReturned = False\<rparr>]) k i = (liveOn ss k i \<or> i = length ss \<and> k = k')"
  "liveOn (ss[c := (ss ! c)\<lparr>sCanceled := b\<rparr>]) k i = liveOn ss k i"
  "liveOn (ss[c := (ss ! c)\<lparr>sReturned := True\<rparr>]) k i = (liveOn ss k i \<and> i \<noteq> c)"
  by (auto simp: liveOn_def nth_append stream_returned)

lemma liveOn_length: "liveOn ss k i \<Longrightarrow> i < length ss"
  by (simp add: liveOn_def)

lemma rtCoreD:
  assumes "rtCore r"
  shows "e \<in> set (rEntries r) \<Longrightarrow> subOK (rStreams r) e"
    and "liveOn (rStreams r) k i \<Longrightarrow> liveOn (rStreams r) k j \<Longrightarrow> i = j"
    and "e \<in> set (rEntries r) \<Longrightarrow> eUpdated e < length (rChans r) \<and> \<not> rChans r ! eUpdated e"
    and "liveOn (rStreams r) k i \<Longrightarrow> k \<in> eKey ` set (rEntries r)"
    and "e \<in> set (rEntries r) \<Longrightarrow> eMarket e \<in> set (rSources r)"
  using assms unfolding rtCore_def chanOK_def by blast+

lemma entryAt_Some: "entryAt k r = Some e \<Longrightarrow> e \<in> set (rEntries r) \<and> eKey e = k"
  by (auto simp: entryAt_def dest: find_SomeD)

lemma entryAt_in: "rtCore r \<Longrightarrow> e \<in> set (rEntries r) \<Longrightarrow> entryAt (eKey e) r = Some e"
  by (auto simp: entryAt_def rtCore_def intro: find_key)

lemma entryAt_live: "rtCore r \<Longrightarrow> liveOn (rStreams r) k i \<Longrightarrow> \<exists>e. entryAt k r = Some e"
  using rtCoreD(4) entryAt_in by fastforce

lemma streamChange_same: "rtCore r \<Longrightarrow> streamChange k (rStreams r) (rStreams r)"
  unfolding streamChange_def using rtCoreD(2) by blast

lemma touch_change:
  assumes "rtCore r" "e \<in> set (rEntries r)"
  shows "entryChange e (e\<lparr>eLastRequestedAt := t\<rparr>) r (putEntry (e\<lparr>eLastRequestedAt := t\<rparr>) r)"
proof -
  have "subOK (rStreams r) (e\<lparr>eLastRequestedAt := t\<rparr>)" using rtCoreD(1) [OF assms] by (subst subOK_cong [of _ e]) simp_all
  then show ?thesis using assms(2) streamChange_same [OF assms(1)] by (simp add: entryChange_def putEntry_def)
qed

lemma activate_change:
  assumes "rtCore r" "e \<in> set (rEntries r)" "eState e = StateInactive"
  shows "entryChange e (e\<lparr>eCancel := Some (length (rStreams r)), eState := StateActivating, eLastErr := None\<rparr>) r (activateLocked e r)"
proof -
  let ?ss' = "rStreams r @ [\<lparr>sKey = eKey e, sCanceled = False, sReturned = False\<rparr>]"
  have dead: "\<And>i. \<not> liveOn (rStreams r) (eKey e) i" using subOKD(1) [OF rtCoreD(1) [OF assms(1,2)] assms(3)] .
  have "streamChange (eKey e) (rStreams r) ?ss'"
  proof (rule streamChangeI [where j = "length (rStreams r)"])
    show "sCanceled (?ss' ! i) = sCanceled (rStreams r ! i)" if "liveOn (rStreams r) k i" for k i
      using liveOn_length [OF that] by (simp add: nth_append)
  qed (simp_all add: dead)
  moreover have "subOK ?ss' (e\<lparr>eCancel := Some (length (rStreams r)), eState := StateActivating, eLastErr := None\<rparr>)"
    using dead by (auto simp: subOK_def)
  ultimately show ?thesis using assms(2,3) by (simp add: entryChange_def activateLocked_def putEntry_def)
qed

lemma deactivate_change:
  assumes "rtCore r" "e \<in> set (rEntries r)" "eCancel e = Some c"
  shows "entryChange e (e\<lparr>eCancel := None\<rparr>) r (deactivateLocked e r)"
proof -
  let ?ss' = "(rStreams r)[c := (rStreams r ! c)\<lparr>sCanceled := True\<rparr>]"
  have c: "liveOn (rStreams r) (eKey e) c" using subOKD(3) [OF rtCoreD(1) [OF assms(1,2)] assms(3)] by simp
  have only: "i = c" if "liveOn (rStreams r) (eKey e) i" for i using rtCoreD(2) [OF assms(1) that c] .
  have "streamChange (eKey e) (rStreams r) ?ss'"
  proof (rule streamChangeI [where j = c])
    show "sCanceled (?ss' ! i) = sCanceled (rStreams r ! i)" if "k \<noteq> eKey e" "liveOn (rStreams r) k i" for k i
      using c that by (cases "i = c") (auto simp: liveOn_def)
  qed (simp_all add: only)
  moreover have "subOK ?ss' (e\<lparr>eCancel := None\<rparr>)"
  proof (rule subOKI)
    show "eState (e\<lparr>eCancel := None\<rparr>) \<noteq> StateInactive" using subOKD(1) [OF rtCoreD(1) [OF assms(1,2)]] c by auto
    show "liveOn ?ss' (eKey (e\<lparr>eCancel := None\<rparr>)) c" using c by simp
    show "eCancel (e\<lparr>eCancel := None\<rparr>) = Some i"
      if "liveOn ?ss' (eKey (e\<lparr>eCancel := None\<rparr>)) i" "\<not> sCanceled (?ss' ! i)" for i
      using that only [of i] liveOn_length [OF c] by simp
  qed simp
  ultimately show ?thesis using assms(2,3)
    by (simp add: entryChange_def deactivateLocked_def putEntry_def cancelCtx_def)
qed

lemma broadcast_some:
  assumes "rtCore r" "e \<in> set (rEntries r)" "eUpdated e' = eUpdated e"
  shows "broadcast e' r = Some (putEntry (e'\<lparr>eUpdated := length (rChans r)\<rparr>)
           (r\<lparr>rChans := (rChans r)[eUpdated e := True] @ [False]\<rparr>))"
  using rtCoreD(3) [OF assms(1,2)] assms(3) by (simp add: broadcast_def)

definition published_entry :: "time \<Rightarrow> float64 \<Rightarrow> nat \<Rightarrow> entry \<Rightarrow> entry" where
  "published_entry now p u e =
     e\<lparr>ePrice := p, eUpdatedAt := now, eHasPrice := True, eLastErr := None, eState := StateActive, eUpdated := u\<rparr>"

definition finished_entry :: "err option \<Rightarrow> nat \<Rightarrow> entry \<Rightarrow> entry" where
  "finished_entry failure u e =
     e\<lparr>eState := StateInactive, eCancel := None,
       eLastErr := (case failure of Some x \<Rightarrow> if ctxCanceled x then eLastErr e else Some x | None \<Rightarrow> eLastErr e), eUpdated := u\<rparr>"

lemma publish_change:
  assumes "rtCore r" "e \<in> set (rEntries r)" "liveOn (rStreams r) (eKey e) i"
  shows "\<exists>r'. publishLocked now p e r = Some r' \<and> rStreams r' = rStreams r \<and>
           entryChange e (published_entry now p (length (rChans r)) e) r r'"
proof -
  have "eState e \<noteq> StateInactive" using subOKD(1) [OF rtCoreD(1) [OF assms(1,2)]] assms(3) by auto
  then have "subOK (rStreams r) (published_entry now p (length (rChans r)) e)"
    using rtCoreD(1) [OF assms(1,2)] by (subst subOK_cong [of _ e]) (simp_all add: published_entry_def)
  then show ?thesis using assms(2) streamChange_same [OF assms(1)]
    by (simp add: publishLocked_def broadcast_some [OF assms(1,2)] putEntry_def entryChange_def published_entry_def)
qed

definition markReturned :: "nat \<Rightarrow> runtime \<Rightarrow> runtime" where
  "markReturned i r = r\<lparr>rStreams := (rStreams r)[i := (rStreams r ! i)\<lparr>sReturned := True\<rparr>]\<rparr>"

lemma finish_change:
  assumes "rtCore r" "e \<in> set (rEntries r)" "liveOn (rStreams r) (eKey e) i"
  shows "\<exists>r'. finishLocked failure e r = Some r' \<and> rStreams r' = rStreams r \<and>
           entryChange e (finished_entry failure (length (rChans r)) e) r (markReturned i r')"
proof -
  let ?ss' = "(rStreams r)[i := (rStreams r ! i)\<lparr>sReturned := True\<rparr>]"
  have only: "j = i" if "liveOn (rStreams r) (eKey e) j" for j using rtCoreD(2) [OF assms(1) that assms(3)] .
  then have "subOK ?ss' (finished_entry failure (length (rChans r)) e)"
    by (auto simp: subOK_def finished_entry_def)
  moreover have "streamChange (eKey e) (rStreams r) ?ss'"
  proof (rule streamChangeI [where j = i])
    show "liveOn ?ss' k j = liveOn (rStreams r) k j" if "k \<noteq> eKey e" for k j
      using assms(3) that by (cases "j = i") (simp_all add: liveOn_def)
  qed (auto dest: only)
  ultimately show ?thesis using assms(2)
    by (simp add: finishLocked_def broadcast_some [OF assms(1,2)] putEntry_def entryChange_def finished_entry_def markReturned_def)
qed

text \<open>A new entry: no goroutine can feed a key that has no entry.\<close>

lemma entryLocked_ok:
  assumes core: "rtCore r" and el: "entryLocked m y r = Inr (e, r')"
  shows "rtCore r' \<and> later r r' \<and> e \<in> set (rEntries r') \<and> eKey e = quoteKey m y \<and> rStreams r' = rStreams r \<and>
    rClosed r' = rClosed r \<and> rSweeping r' = rSweeping r \<and>
    (\<forall>f \<in> set (rEntries r'). f \<in> set (rEntries r) \<or> \<not> eHasPrice f \<and> eCancel f = None)"
proof (cases "entryAt (quoteKey m y) r")
  case (Some f)
  then show ?thesis using core el entryAt_Some by (auto simp: entryLocked_def split: if_splits)
next
  case None
  then have new: "eKey f \<noteq> quoteKey m y" if "f \<in> set (rEntries r)" for f
    using entryAt_in [OF core that] by auto
  then have dead: "\<not> liveOn (rStreams r) (quoteKey m y) i" for i using rtCoreD(4) [OF core] by force
  have m: "m \<in> set (rSources r)" using el by (auto simp: entryLocked_def split: if_splits)
  have e: "eMarket e = m" "eSymbol e = y" "eUpdated e = length (rChans r)" "eState e = StateInactive" "eCancel e = None"
    "\<not> eHasPrice e" and r': "r' = r\<lparr>rEntries := rEntries r @ [e], rChans := rChans r @ [False]\<rparr>"
    using el None m by (auto simp: entryLocked_def Let_def)
  have k: "eKey e = quoteKey m y" using e by (simp add: eKey_def)
  have "chanOK (rChans r') (rEntries r')"
    using core rtCoreD(3) [OF core] e by (fastforce simp: r' chanOK_def rtCore_def nth_append)
  moreover have "subOK (rStreams r) e" using e k dead by (simp add: subOK_def)
  moreover have "eKey e \<notin> eKey ` set (rEntries r)" using new k by force
  ultimately have "rtCore r'" using core e(1) m unfolding rtCore_def by (simp add: r')
  then show ?thesis using k e r' by (auto simp: later_def nth_append)
qed

section \<open>The critical sections keep the invariant\<close>

definition samePrices :: "runtime \<Rightarrow> runtime \<Rightarrow> bool" where
  "samePrices r r' =
     (\<forall>f \<in> set (rEntries r'). eHasPrice f \<longrightarrow>
        (\<exists>g \<in> set (rEntries r). eHasPrice g \<and> eKey g = eKey f \<and> ePrice g = ePrice f \<and> eUpdatedAt g = eUpdatedAt f))"

definition stepOK :: "runtime \<Rightarrow> runtime \<Rightarrow> bool" where
  "stepOK r r' = (rtOK r' \<and> later r r' \<and> samePrices r r' \<and> rClosed r' = rClosed r \<and> rSweeping r' = rSweeping r)"

lemma stepOK_refl [simp]: "rtOK r \<Longrightarrow> stepOK r r"
  by (auto simp: stepOK_def samePrices_def)

lemma samePrices_trans: "samePrices r1 r2 \<Longrightarrow> samePrices r2 r3 \<Longrightarrow> samePrices r1 r3"
  unfolding samePrices_def by metis

lemma stepOK_trans: "stepOK r1 r2 \<Longrightarrow> stepOK r2 r3 \<Longrightarrow> stepOK r1 r3"
  using later_trans samePrices_trans by (auto simp: stepOK_def)

lemma rtOK_core [simp]: "rtOK r \<Longrightarrow> rtCore r"
  by (simp add: rtOK_def)

lemma rtOK_entryChange:
  assumes "rtOK r" "entryChange e e' r r'" "rClosed r \<longrightarrow> eCancel e' = None"
  shows "rtOK r'"
proof -
  have "rClosed r' = rClosed r" using assms(2) by (simp add: entryChange_def)
  moreover have "rClosed r \<Longrightarrow> \<forall>f \<in> set (rEntries r'). eCancel f = None"
    using assms(1,3) set_entryChange(1) [OF assms(2)] by (simp add: rtOK_def)
  ultimately show ?thesis using rtCore_entryChange [OF rtOK_core [OF assms(1)] assms(2)] by (simp add: rtOK_def)
qed

lemma stepOK_entryChange:
  assumes "rtOK r" "entryChange e e' r r'" "rClosed r \<longrightarrow> eCancel e' = None"
    and "eHasPrice e' = eHasPrice e" "ePrice e' = ePrice e" "eUpdatedAt e' = eUpdatedAt e"
  shows "stepOK r r'"
proof -
  have "e \<in> set (rEntries r)" "rClosed r' = rClosed r" "rSweeping r' = rSweeping r" using assms(2) by (simp_all add: entryChange_def)
  moreover from this(1) have "samePrices r r'"
    using assms(4-6) set_entryChange [OF assms(2)] unfolding samePrices_def by auto
  ultimately show ?thesis
    using rtOK_entryChange [OF assms(1-3)] later_entryChange [OF rtOK_core [OF assms(1)] assms(2)] by (simp add: stepOK_def)
qed

lemma deactivate_ok:
  assumes "rtOK r" "e \<in> set (rEntries r)"
  shows "stepOK r (deactivateLocked e r)"
proof (cases "eCancel e")
  case None
  then show ?thesis using assms(1) by (simp add: deactivateLocked_def)
next
  case (Some c)
  show ?thesis
    by (rule stepOK_entryChange [OF assms(1) deactivate_change [OF rtOK_core [OF assms(1)] assms(2) Some]]) simp_all
qed

lemma sweepEntry_ok: "rtOK r \<Longrightarrow> stepOK r (sweepEntry now k r)"
  using deactivate_ok entryAt_Some by (auto simp: sweepEntry_def split: option.splits)

lemma sweep_ok: "rtOK r \<Longrightarrow> stepOK r (sweep now ks r)"
proof (induction ks arbitrary: r)
  case (Cons k ks)
  have "stepOK r (sweepEntry now k r)" by (rule sweepEntry_ok [OF Cons.prems])
  moreover from this have "stepOK (sweepEntry now k r) (sweep now ks (sweepEntry now k r))"
    by (intro Cons.IH) (simp add: stepOK_def)
  ultimately show ?case using stepOK_trans by (simp add: sweep_def)
qed (simp add: sweep_def)

text \<open>A round of \<^verbatim>\<open>GetPrice\<close>: a returned price is in the cache and fresh, a wait is on the channel of a running subscription.\<close>

definition waitOK :: "runtime \<Rightarrow> string \<Rightarrow> nat \<Rightarrow> bool" where
  "waitOK r k ch =
     (ch < length (rChans r) \<and>
      (rChans r ! ch \<or> (\<exists>e \<in> set (rEntries r). eKey e = k \<and> eUpdated e = ch \<and> eState e \<noteq> StateInactive)))"

lemma waitOK_later:
  assumes "later r r'" "waitOK r k ch"
  shows "waitOK r' k ch"
  using assms unfolding later_def waitOK_def by (metis order_less_le_trans)

lemma set_putEntry: "e \<in> set (rEntries r) \<Longrightarrow> eKey e' = eKey e \<Longrightarrow> e' \<in> set (rEntries (putEntry e' r))"
  by (auto simp: putEntry_def set_tbl_put)

lemma getPriceLocked_ok:
  assumes ok: "rtOK r" and g: "getPriceLocked now1 now2 m y waited r = (res, r')"
  shows "stepOK r r'"
    and "res = Wait ch \<Longrightarrow> waitOK r' (quoteKey m y) ch"
    and "res = Return (Inr p) \<Longrightarrow> m \<in> set (rSources r) \<and>
      (\<exists>e \<in> set (rEntries r'). p = snapshot e \<and> eKey e = quoteKey m y \<and> eHasPrice e \<and> Sub now2 (eUpdatedAt e) < rFreshTTL r)"
proof (atomize (full), cases "rClosed r \<or> (\<exists>x. entryLocked m y r = Inl x)", goal_cases)
  case 1
  then show ?case using ok g by (auto simp: getPriceLocked_def split: if_splits)
next
  case 2
  then obtain e0 r0 where open_: "\<not> rClosed r" and el: "entryLocked m y r = Inr (e0, r0)"
    by (metis old.sum.exhaust surj_pair)
  let ?e = "e0\<lparr>eLastRequestedAt := now1\<rparr>" let ?r1 = "putEntry ?e r0"
  note e0 = entryLocked_ok [OF rtOK_core [OF ok] el]
  have ok0: "rtOK r0" "stepOK r r0" using e0 open_ unfolding stepOK_def samePrices_def rtOK_def by auto
  have "stepOK r0 ?r1"
    by (rule stepOK_entryChange [OF ok0(1) touch_change [OF rtOK_core [OF ok0(1)]]]) (use e0 open_ in simp_all)
  with ok0(2) have ok1: "stepOK r ?r1" by (rule stepOK_trans)
  have e1: "?e \<in> set (rEntries ?r1)" "eKey ?e = quoteKey m y" using e0 set_putEntry [of e0 r0 ?e] by simp_all
  have src: "m \<in> set (rSources r)" using el by (auto simp: entryLocked_def split: if_splits)
  have ok2: "stepOK ?r1 (activateLocked ?e ?r1)" if "eState ?e = StateInactive"
    by (rule stepOK_entryChange [OF _ activate_change [OF _ e1(1) that]]) (use ok1 open_ in \<open>simp_all add: stepOK_def\<close>)
  have opn: "eUpdated ?e < length (rChans ?r1)" using rtCoreD(3) [of ?r1 ?e] e1(1) ok1 by (simp add: stepOK_def)
  have w: "waitOK ?r1 (quoteKey m y) (eUpdated ?e)" if "eState ?e \<noteq> StateInactive"
    using that e1 opn unfolding waitOK_def by blast
  have w2: "waitOK (activateLocked ?e ?r1) (quoteKey m y) (eUpdated ?e)" if "eState ?e = StateInactive"
  proof -
    let ?e' = "?e\<lparr>eCancel := Some (length (rStreams ?r1)), eState := StateActivating, eLastErr := None\<rparr>"
    have "?e' \<in> set (rEntries (activateLocked ?e ?r1))"
      unfolding activateLocked_def by (rule set_putEntry [of ?e]) (use e1 in simp_all)
    moreover have "rChans (activateLocked ?e ?r1) = rChans ?r1" by (simp add: activateLocked_def putEntry_def)
    ultimately show ?thesis using opn e1(2) unfolding waitOK_def by (intro conjI disjI2 bexI [of _ ?e']) simp_all
  qed
  have "(res, r') = (if eHasPrice ?e \<and> Sub now2 (eUpdatedAt ?e) < rFreshTTL r then (Return (Inr (snapshot ?e)), ?r1)
      else if waited \<and> eLastErr ?e \<noteq> None then (Return (Inl (the (eLastErr ?e))), ?r1)
      else (Wait (eUpdated ?e), if eState ?e = StateInactive then activateLocked ?e ?r1 else ?r1))"
    using g open_ el by (simp add: getPriceLocked_def Let_def)
  then show ?case using ok1 ok2 w w2 e1 src stepOK_trans [OF ok1] by (auto split: if_splits)
qed

section \<open>Closing\<close>

text \<open>Closing visits every entry; \<open>cancelledFrom r r'\<close> says that a cancelled subscription stays cancelled.\<close>

definition cancelMono :: "runtime \<Rightarrow> runtime \<Rightarrow> bool" where
  "cancelMono r r' = (\<forall>f \<in> set (rEntries r'). \<exists>g \<in> set (rEntries r). eKey g = eKey f \<and> (eCancel g = None \<longrightarrow> eCancel f = None))"

definition cancelledFrom :: "runtime \<Rightarrow> runtime \<Rightarrow> bool" where
  "cancelledFrom r r' =
     (rtCore r' \<and> later r r' \<and> samePrices r r' \<and> rClosed r' = rClosed r \<and> rSweeping r' = rSweeping r \<and>
      length (rStreams r') = length (rStreams r) \<and> map sReturned (rStreams r') = map sReturned (rStreams r) \<and> cancelMono r r')"

lemma rtCore_of_cancelled: "cancelledFrom r r' \<Longrightarrow> rtCore r'"
  by (simp only: cancelledFrom_def)

lemma closed_irrelevant [simp]:
  "later (r\<lparr>rClosed := b\<rparr>) r' = later r r'" "samePrices (r\<lparr>rClosed := b\<rparr>) r' = samePrices r r'"
  "rtCore (r\<lparr>rClosed := b\<rparr>) = rtCore r"
  by (simp_all add: later_def samePrices_def rtCore_def)

lemma cancelledFromE:
  assumes "cancelledFrom r r'" "f \<in> set (rEntries r')"
  obtains g where "g \<in> set (rEntries r)" "eKey g = eKey f" "eCancel g = None \<longrightarrow> eCancel f = None"
proof -
  have "cancelMono r r'" using assms(1) by (simp only: cancelledFrom_def)
  then show ?thesis using assms(2) that unfolding cancelMono_def by metis
qed

lemma cancelledFrom_refl [simp]: "rtCore r \<Longrightarrow> cancelledFrom r r"
  by (auto simp: cancelledFrom_def samePrices_def cancelMono_def)

lemma cancelledFrom_trans:
  assumes "cancelledFrom r1 r2" "cancelledFrom r2 r3"
  shows "cancelledFrom r1 r3"
proof -
  have "cancelMono r1 r3" unfolding cancelMono_def
  proof
    fix f assume "f \<in> set (rEntries r3)"
    then obtain h where h: "h \<in> set (rEntries r2)" "eKey h = eKey f" "eCancel h = None \<longrightarrow> eCancel f = None"
      using cancelledFromE [OF assms(2)] by blast
    then obtain g where "g \<in> set (rEntries r1)" "eKey g = eKey h" "eCancel g = None \<longrightarrow> eCancel h = None"
      using cancelledFromE [OF assms(1)] by blast
    with h show "\<exists>g \<in> set (rEntries r1). eKey g = eKey f \<and> (eCancel g = None \<longrightarrow> eCancel f = None)" by auto
  qed
  moreover have "later r1 r3" using assms later_trans [of r1 r2 r3] by (simp add: cancelledFrom_def)
  moreover have "samePrices r1 r3" using assms samePrices_trans [of r1 r2 r3] by (simp add: cancelledFrom_def)
  ultimately show ?thesis using assms by (simp add: cancelledFrom_def)
qed

lemma map_update_self: "f (g (ss ! c)) = f (ss ! c) \<Longrightarrow> map f (ss[c := g (ss ! c)]) = map f ss"
  by (rule nth_equalityI) (simp_all add: list_update_self)

lemma closeEntry_ok:
  assumes core: "rtCore r"
  shows "cancelledFrom r (closeEntry k r) \<and> (\<forall>f \<in> set (rEntries (closeEntry k r)). eKey f = k \<longrightarrow> eCancel f = None)"
proof (cases "\<exists>e c. entryAt k r = Some e \<and> eCancel e = Some c")
  case False
  then have "closeEntry k r = r" by (auto simp: closeEntry_def deactivateLocked_def split: option.splits)
  moreover have "eCancel f = None" if "f \<in> set (rEntries r)" "eKey f = k" for f
    using entryAt_in [OF core that(1)] that(2) False by (cases "eCancel f") auto
  ultimately show ?thesis using core by simp
next
  case True
  then obtain e c where e: "entryAt k r = Some e" "eCancel e = Some c" by auto
  note in_e = entryAt_Some [OF e(1)]
  then have ch: "entryChange e (e\<lparr>eCancel := None\<rparr>) r (closeEntry k r)"
    using deactivate_change [OF core _ e(2)] e(1) by (simp add: closeEntry_def)
  note es = set_entryChange [OF ch]
  have "samePrices r (closeEntry k r)" unfolding samePrices_def es(1) using in_e by auto
  moreover have "cancelMono r (closeEntry k r)" unfolding cancelMono_def es(1) using in_e by auto
  moreover have "rStreams (closeEntry k r) = (rStreams r)[c := (rStreams r ! c)\<lparr>sCanceled := True\<rparr>]"
    using e by (simp add: closeEntry_def deactivateLocked_def putEntry_def cancelCtx_def)
  ultimately have "cancelledFrom r (closeEntry k r)"
    using ch rtCore_entryChange [OF core ch] later_entryChange [OF core ch]
    by (simp add: cancelledFrom_def entryChange_def map_update_self)
  then show ?thesis unfolding es(1) using in_e by simp
qed

lemma closeEntries_ok:
  "rtCore r \<Longrightarrow> cancelledFrom r (fold closeEntry ks r) \<and>
     (\<forall>f \<in> set (rEntries (fold closeEntry ks r)). eKey f \<in> set ks \<longrightarrow> eCancel f = None)"
proof (induction ks arbitrary: r)
  case (Cons k ks)
  let ?r = "closeEntry k r"
  note k = closeEntry_ok [OF Cons.prems, of k]
  then have IH: "cancelledFrom ?r (fold closeEntry ks ?r)"
    "\<forall>f \<in> set (rEntries (fold closeEntry ks ?r)). eKey f \<in> set ks \<longrightarrow> eCancel f = None"
    using Cons.IH [of ?r] rtCore_of_cancelled by blast+
  have "eCancel f = None" if f: "f \<in> set (rEntries (fold closeEntry ks ?r))" "eKey f = k" for f
  proof -
    obtain g where "g \<in> set (rEntries ?r)" "eKey g = eKey f" "eCancel g = None \<longrightarrow> eCancel f = None"
      by (rule cancelledFromE [OF IH(1) f(1)])
    then show ?thesis using conjunct2 [OF k] f(2) by simp
  qed
  then have "\<forall>f \<in> set (rEntries (fold closeEntry ks ?r)). eKey f \<in> set (k # ks) \<longrightarrow> eCancel f = None" using IH(2) by auto
  then show ?case using cancelledFrom_trans [OF conjunct1 [OF k] IH(1)] by simp
qed simp

lemma Close_ok:
  assumes "rtOK r" "keyOrder ks r"
  shows "rtOK (Close ks r) \<and> later r (Close ks r) \<and> samePrices r (Close ks r) \<and> rClosed (Close ks r) \<and>
    rSweeping (Close ks r) = rSweeping r \<and> map sReturned (rStreams (Close ks r)) = map sReturned (rStreams r)"
proof (cases "rClosed r")
  case True
  then show ?thesis using assms(1) by (simp add: Close_def samePrices_def) blast
next
  case False
  let ?r = "r\<lparr>rClosed := True\<rparr>"
  have "rtCore ?r" using assms(1) by simp
  note c = closeEntries_ok [OF this, of ks]
  have "eKey f \<in> set ks" if f: "f \<in> set (rEntries (fold closeEntry ks ?r))" for f
  proof -
    obtain g where "g \<in> set (rEntries ?r)" "eKey g = eKey f"
      by (rule cancelledFromE [OF conjunct1 [OF c] f])
    then have "eKey f \<in> eKey ` set (rEntries r)" by (intro image_eqI [where x = g]) simp_all
    then show ?thesis using assms(2) by (simp add: keyOrder_def)
  qed
  then have "\<forall>f \<in> set (rEntries (fold closeEntry ks ?r)). eCancel f = None" using conjunct2 [OF c] by blast
  then show ?thesis using conjunct1 [OF c] False by (simp add: Close_def rtOK_def cancelledFrom_def)
qed

section \<open>The invariant of the system\<close>

definition priceFrom :: "(string \<times> float64 \<times> time) list \<Rightarrow> time \<Rightarrow> entry \<Rightarrow> bool" where
  "priceFrom pub now e = (eHasPrice e \<longrightarrow> (eKey e, ePrice e, eUpdatedAt e) \<in> set pub \<and> eUpdatedAt e \<le> now)"

definition callOK :: "runtime \<Rightarrow> (string \<times> float64 \<times> time) list \<Rightarrow> pcall \<Rightarrow> bool" where
  "callOK r pub c =
     (case cState c of
        Trying w \<Rightarrow> True
      | Waiting ch \<Rightarrow> waitOK r (quoteKey (cMarket c) (cSymbol c)) ch
      | Done (Inl x) \<Rightarrow> True
      | Done (Inr p) \<Rightarrow>
          cMarket c \<in> set (rSources r) \<and> prMarket p \<in> set (rSources r) \<and>
          quoteKey (prMarket p) (prSymbol p) = quoteKey (cMarket c) (cSymbol c) \<and>
          (quoteKey (cMarket c) (cSymbol c), prPrice p, prUpdatedAt p) \<in> set pub \<and>
          prUpdatedAt p \<le> cDoneAt c \<and> Sub (cDoneAt c) (prUpdatedAt p) < rFreshTTL r)"

definition sysOK :: "system \<Rightarrow> bool" where
  "sysOK s =
     (rtOK (sysRt s) \<and> (\<forall>e \<in> set (rEntries (sysRt s)). priceFrom (published s) (sysClk s) e) \<and>
      (\<forall>c \<in> set (pcalls s). callOK (sysRt s) (published s) c))"

lemma sysOK_start: "sysOK (start lo up sources opts now)"
  by (simp add: sysOK_def start_def rtOK_New) (simp add: New_def)

lemma callOK_later: "later r r' \<Longrightarrow> set pub \<subseteq> set pub' \<Longrightarrow> callOK r pub c \<Longrightarrow> callOK r' pub' c"
  using waitOK_later by (auto simp: callOK_def later_def split: callState.splits sum.splits)

lemma priceFrom_same:
  assumes "samePrices r r'" "\<forall>e \<in> set (rEntries r). priceFrom pub now e" "now \<le> now'"
  shows "\<forall>e \<in> set (rEntries r'). priceFrom pub now' e"
  using assms unfolding samePrices_def priceFrom_def by (metis order_trans)

lemma sysOK_rt:
  assumes "sysOK s" "rtOK r'" "later (sysRt s) r'" "samePrices (sysRt s) r'"
  shows "sysOK (s\<lparr>sysRt := r'\<rparr>)"
proof -
  have "\<forall>e \<in> set (rEntries r'). priceFrom (published s) (sysClk s) e"
    using assms(1) by (intro priceFrom_same [OF assms(4), where now = "sysClk s"]) (simp_all add: sysOK_def)
  moreover have "callOK r' (published s) c" if "c \<in> set (pcalls s)" for c
    using assms(1) that by (intro callOK_later [OF assms(3) subset_refl]) (simp add: sysOK_def)
  ultimately show ?thesis using assms(2) by (simp add: sysOK_def)
qed

lemma sysOK_setCall:
  assumes "sysOK s" "sysClk s \<le> now" "i < length (pcalls s)" "callOK (sysRt s) (published s) ((pcalls s ! i)\<lparr>cState := st, cDoneAt := now\<rparr>)"
  shows "sysOK (setCall i st now s)"
proof -
  have "\<forall>e \<in> set (rEntries (sysRt s)). priceFrom (published s) now e"
    using assms(1,2) unfolding sysOK_def priceFrom_def by (meson order_trans)
  then show ?thesis using assms(1,4) set_update_subset_insert unfolding sysOK_def setCall_def by fastforce
qed

lemma sysOK_attempt:
  assumes ok: "sysOK s" and i: "i < length (pcalls s)" "sysClk s \<le> now1" "now1 \<le> now2"
    and g: "getPriceLocked now1 now2 (cMarket (pcalls s ! i)) (cSymbol (pcalls s ! i)) waited (sysRt s) = (res, r')"
    and st: "st = (case res of Return r \<Rightarrow> Done r | Wait ch \<Rightarrow> Waiting ch)"
  shows "sysOK (setCall i st now2 (s\<lparr>sysRt := r'\<rparr>))"
proof (rule sysOK_setCall)
  let ?c = "pcalls s ! i"
  have rt: "rtOK (sysRt s)" using ok by (simp add: sysOK_def)
  have step: "stepOK (sysRt s) r'" by (rule getPriceLocked_ok(1) [OF rt g])
  show s': "sysOK (s\<lparr>sysRt := r'\<rparr>)" using step by (intro sysOK_rt [OF ok]) (simp_all add: stepOK_def)
  show "sysClk (s\<lparr>sysRt := r'\<rparr>) \<le> now2" "i < length (pcalls (s\<lparr>sysRt := r'\<rparr>))" using i by simp_all
  have src: "rSources r' = rSources (sysRt s)" "rFreshTTL r' = rFreshTTL (sysRt s)" using step by (simp_all add: stepOK_def later_def)
  have "callOK r' (published s) (?c\<lparr>cState := st, cDoneAt := now2\<rparr>)"
  proof (cases res)
    case (Wait ch)
    then show ?thesis using getPriceLocked_ok(2) [OF rt g Wait] st by (simp add: callOK_def)
  next
    case (Return r)
    show ?thesis
    proof (cases r)
      case (Inl x)
      then show ?thesis using Return st by (simp add: callOK_def)
    next
      case (Inr p)
      with Return have res: "res = Return (Inr p)" by simp
      from getPriceLocked_ok(3) [OF rt g res] obtain e where
        e: "cMarket ?c \<in> set (rSources (sysRt s))" "e \<in> set (rEntries r')" "p = snapshot e"
          "eKey e = quoteKey (cMarket ?c) (cSymbol ?c)" "eHasPrice e" "Sub now2 (eUpdatedAt e) < rFreshTTL (sysRt s)" by auto
      then have "priceFrom (published s) (sysClk s) e" "eMarket e \<in> set (rSources r')"
        using s' step rtCoreD(5) [OF rtOK_core, of r' e] by (simp_all add: sysOK_def stepOK_def)
      then show ?thesis using e res st src i by (simp add: callOK_def snapshot_def priceFrom_def eKey_def)
    qed
  qed
  then show "callOK (sysRt (s\<lparr>sysRt := r'\<rparr>)) (published (s\<lparr>sysRt := r'\<rparr>)) ((pcalls (s\<lparr>sysRt := r'\<rparr>) ! i)\<lparr>cState := st, cDoneAt := now2\<rparr>)"
    by simp
qed

lemma rtOK_cancel: "rtOK r \<Longrightarrow> e \<in> set (rEntries r) \<Longrightarrow> rClosed r \<longrightarrow> eCancel e = None"
  by (simp add: rtOK_def)

text \<open>The entry of a running goroutine, and that the two broadcasts of the goroutine find its channel open.\<close>

lemma running_entry:
  assumes "rtOK r" "running r i"
  obtains e where "entryAt (sKey (rStreams r ! i)) r = Some e" "e \<in> set (rEntries r)" "liveOn (rStreams r) (eKey e) i"
proof -
  have live: "liveOn (rStreams r) (sKey (rStreams r ! i)) i" using assms(2) by (simp add: running_def liveOn_def)
  obtain e where e: "entryAt (sKey (rStreams r ! i)) r = Some e" using entryAt_live [OF rtOK_core [OF assms(1)] live] by auto
  then show ?thesis using that live entryAt_Some [OF e] by simp
qed

lemma sysOK_send:
  assumes ok: "sysOK s" and i: "running (sysRt s) i" "sysClk s \<le> now"
  obtains s' where "fire lo up (Send i p now) s = Next s'" "sysOK s'"
proof -
  let ?r = "sysRt s"
  have rt: "rtOK ?r" using ok by (simp add: sysOK_def)
  obtain e where e: "entryAt (sKey (rStreams ?r ! i)) ?r = Some e" "e \<in> set (rEntries ?r)" "liveOn (rStreams ?r) (eKey e) i"
    by (rule running_entry [OF rt i(1)])
  obtain r' where r': "publishLocked now p e ?r = Some r'"
    and ch: "entryChange e (published_entry now p (length (rChans ?r)) e) ?r r'"
    using publish_change [OF rtOK_core [OF rt] e(2,3)] by blast
  let ?pub = "(eKey e, p, now) # published s"
  have k: "sKey (rStreams ?r ! i) = eKey e" using entryAt_Some [OF e(1)] by simp
  have "rtOK r'" by (rule rtOK_entryChange [OF rt ch]) (use rtOK_cancel [OF rt e(2)] in \<open>simp add: published_entry_def\<close>)
  moreover have "priceFrom ?pub now f" if "f \<in> set (rEntries r')" for f
  proof (cases "f = published_entry now p (length (rChans ?r)) e")
    case True
    then show ?thesis by (simp add: priceFrom_def published_entry_def)
  next
    case False
    then have "f \<in> set (rEntries ?r)" using that set_entryChange [OF ch] by auto
    then have "priceFrom (published s) (sysClk s) f" using ok by (simp add: sysOK_def)
    then show ?thesis using i(2) by (auto simp: priceFrom_def)
  qed
  moreover have "callOK r' ?pub c" if "c \<in> set (pcalls s)" for c
    using ok that by (intro callOK_later [OF later_entryChange [OF rtOK_core [OF rt] ch]]) (auto simp: sysOK_def)
  ultimately show ?thesis using that i e(1) r' by (simp add: fromOption_def sysOK_def k)
qed

lemma sysOK_finish:
  assumes ok: "sysOK s" and i: "running (sysRt s) i"
  obtains s' where "fire lo up (Finish i failure) s = Next s'" "sysOK s'"
proof -
  let ?r = "sysRt s"
  have rt: "rtOK ?r" using ok by (simp add: sysOK_def)
  obtain e where e: "entryAt (sKey (rStreams ?r ! i)) ?r = Some e" "e \<in> set (rEntries ?r)" "liveOn (rStreams ?r) (eKey e) i"
    by (rule running_entry [OF rt i(1)])
  obtain r' where r': "finishLocked failure e ?r = Some r'"
    and ch: "entryChange e (finished_entry failure (length (rChans ?r)) e) ?r (markReturned i r')"
    using finish_change [OF rtOK_core [OF rt] e(2,3)] by blast
  have "stepOK ?r (markReturned i r')"
    by (rule stepOK_entryChange [OF rt ch]) (simp_all add: finished_entry_def)
  then have "sysOK (s\<lparr>sysRt := markReturned i r'\<rparr>)" by (intro sysOK_rt [OF ok]) (simp_all add: stepOK_def)
  then show ?thesis using that i e(1) r' by (simp add: fromOption_def markReturned_def)
qed

section \<open>Every event keeps the invariant\<close>

lemma waitingOn_Some: "waitingOn s i = Some ch \<Longrightarrow> i < length (pcalls s) \<and> cState (pcalls s ! i) = Waiting ch"
  by (auto simp: waitingOn_def split: if_splits callState.splits)

lemma callOK_fresh: "cState c = Trying w \<Longrightarrow> callOK r pub c" "cState c = Done (Inl x) \<Longrightarrow> callOK r pub c"
  by (simp_all add: callOK_def)

lemma sysOK_answer:
  assumes "sysOK s" "waitingOn s i \<noteq> None" "sysClk s \<le> now" "st = Trying w \<or> st = Done (Inl x)"
  shows "sysOK (setCall i st now s)"
  using assms waitingOn_Some by (intro sysOK_setCall) (auto simp: callOK_def)

lemma fire_outcome:
  assumes ok: "sysOK s"
  shows "fire lo up ev s \<noteq> Panics \<and> (\<forall>s'. fire lo up ev s = Next s' \<longrightarrow> sysOK s')"
proof (cases ev)
  case (Call m y)
  then show ?thesis using ok by (auto simp: sysOK_def callOK_fresh split: sum.splits)
next
  case (Attempt i now1 now2)
  show ?thesis
  proof (cases "\<exists>w. cState (pcalls s ! i) = Trying w")
    case True
    then obtain w where w: "cState (pcalls s ! i) = Trying w" ..
    obtain res r' where g: "getPriceLocked now1 now2 (cMarket (pcalls s ! i)) (cSymbol (pcalls s ! i)) w (sysRt s) = (res, r')"
      by (metis surj_pair)
    show ?thesis using sysOK_attempt [OF ok _ _ _ g refl] by (cases res) (auto simp: Attempt w g Let_def)
  next
    case False
    then show ?thesis by (auto simp: Attempt Let_def split: callState.splits)
  qed
next
  case (Wake i)
  then show ?thesis using sysOK_answer [OF ok] by (auto split: option.splits)
next
  case (Timer i now)
  then show ?thesis using sysOK_answer [OF ok] by auto
next
  case (CtxDone i x)
  then show ?thesis using sysOK_answer [OF ok] by auto
next
  case (Send i p now)
  show ?thesis
  proof (cases "running (sysRt s) i \<and> sysClk s \<le> now")
    case True
    then show ?thesis using sysOK_send [OF ok, of i now lo up p] unfolding Send by (metis outcome.distinct(5) outcome.inject)
  qed (auto simp: Send)
next
  case (Finish i failure)
  show ?thesis
  proof (cases "running (sysRt s) i")
    case True
    then show ?thesis using sysOK_finish [OF ok, of i lo up failure] unfolding Finish by (metis outcome.distinct(5) outcome.inject)
  qed (simp add: Finish)
next
  case (SweepTick now ks)
  have "stepOK (sysRt s) (sweep now ks (sysRt s))" using ok by (intro sweep_ok) (simp add: sysOK_def)
  then show ?thesis using sysOK_rt [OF ok] by (simp add: SweepTick stepOK_def)
next
  case (Shutdown ks)
  have "rtOK (sysRt s)" using ok by (simp add: sysOK_def)
  then show ?thesis using sysOK_rt [OF ok] Close_ok [of "sysRt s" ks] by (simp add: Shutdown)
next
  case SweeperStops
  have "rtOK ((sysRt s)\<lparr>rSweeping := False\<rparr>)" using ok by (simp add: sysOK_def rtOK_def rtCore_def)
  moreover have "later (sysRt s) ((sysRt s)\<lparr>rSweeping := False\<rparr>)" "samePrices (sysRt s) ((sysRt s)\<lparr>rSweeping := False\<rparr>)"
    by (auto simp: later_def samePrices_def)
  ultimately show ?thesis using sysOK_rt [OF ok] by (simp add: SweeperStops)
qed

interpretation market: safe_event_system "fire lo up" sysOK for lo up
proof unfold_locales
  show "sysOK s'" if "sysOK s" "fire lo up e s = Next s'" for s e s' using fire_outcome [OF that(1)] that(2) by blast
  show "fire lo up e s \<noteq> Panics" if "sysOK s" for s e using fire_outcome [OF that] by blast
qed

lemma reachable_ok: "run (fire lo up) es (start lo up sources opts now) = Next s \<Longrightarrow> sysOK s"
  by (rule market.run_inv [OF sysOK_start])

end
