(* ===== verification/MarketProps.thy ===== *)
theory MarketProps
  imports MarketSafety
begin

text \<open>
  What the invariant of \<^verbatim>\<open>MarketSafety\<close> gives the users of the market runtime: one subscription for every symbol, waiters
  that are woken, fresh prices, a clean shutdown and the reclaiming of idle subscriptions.
\<close>

section \<open>What never changes, and what only shrinks after closing\<close>

definition settings :: "runtime \<Rightarrow> string list \<times> int \<times> int \<times> int" where
  "settings r = (rSources r, rFreshTTL r, rIdleTimeout r, rWaitTimeout r)"

text \<open>The goroutines of the runtime, and whether it is closed.\<close>

definition goroutines :: "runtime \<Rightarrow> bool \<times> bool list \<times> bool" where
  "goroutines r = (rClosed r, map sReturned (rStreams r), rSweeping r)"

lemma settings_simps [simp]:
  "settings (r\<lparr>rEntries := es\<rparr>) = settings r" "settings (r\<lparr>rChans := cs\<rparr>) = settings r"
  "settings (r\<lparr>rStreams := ss\<rparr>) = settings r" "settings (r\<lparr>rClosed := b\<rparr>) = settings r"
  "settings (r\<lparr>rSweeping := b\<rparr>) = settings r"
  "goroutines (r\<lparr>rEntries := es\<rparr>) = goroutines r" "goroutines (r\<lparr>rChans := cs\<rparr>) = goroutines r"
  by (simp_all add: settings_def goroutines_def)

lemma settings_ops [simp]:
  "settings (putEntry e r) = settings r" "settings (cancelCtx c r) = settings r" "settings (activateLocked e r) = settings r"
  "settings (deactivateLocked e r) = settings r" "settings (sweepEntry now k r) = settings r" "settings (closeEntry k r) = settings r"
  by (simp_all add: putEntry_def cancelCtx_def activateLocked_def deactivateLocked_def sweepEntry_def closeEntry_def split: option.splits)

lemma goroutines_ops [simp]:
  "goroutines (putEntry e r) = goroutines r" "goroutines (cancelCtx c r) = goroutines r"
  "goroutines (deactivateLocked e r) = goroutines r" "goroutines (sweepEntry now k r) = goroutines r" "goroutines (closeEntry k r) = goroutines r"
  by (simp_all add: putEntry_def cancelCtx_def goroutines_def map_update_self deactivateLocked_def sweepEntry_def closeEntry_def split: option.splits)

lemma fold_kept: "(\<And>k r. f (g k r) = f r) \<Longrightarrow> f (fold g ks r) = f r"
  by (induction ks arbitrary: r) simp_all

lemma settings_loops [simp]: "settings (sweep now ks r) = settings r" "settings (Close ks r) = settings r"
  by (simp_all add: sweep_def Close_def fold_kept)

lemma goroutines_loops: "goroutines (sweep now ks r) = goroutines r" "goroutines (Close ks r) = goroutines (r\<lparr>rClosed := True\<rparr>)"
  by (simp_all add: sweep_def Close_def fold_kept) (simp add: goroutines_def)

lemma settings_broadcast: "broadcast e r = Some r' \<Longrightarrow> settings r' = settings r \<and> goroutines r' = goroutines r"
  by (auto simp: broadcast_def split: if_splits)

lemma settings_getPriceLocked: "getPriceLocked now1 now2 m y w r = (res, r') \<Longrightarrow> settings r' = settings r"
  by (auto simp: getPriceLocked_def entryLocked_def Let_def split: if_splits sum.splits option.splits)

lemma settings_setCall [simp]: "sysRt (setCall i st now s) = sysRt s"
  by (simp add: setCall_def)

lemma fire_settings: "fire lo up ev s = Next s' \<Longrightarrow> settings (sysRt s') = settings (sysRt s)"
  by (cases ev)
    (auto simp: Let_def fromOption_def publishLocked_def finishLocked_def
      dest: settings_broadcast settings_getPriceLocked
      split: sum.splits if_splits callState.splits attemptResult.splits prod.splits option.splits)

interpretation fixed: event_invariant "fire lo up" "\<lambda>s. settings (sysRt s) = c" for lo up c
  by unfold_locales (simp add: fire_settings)

section \<open>A sample run\<close>

text \<open>One market, the default limits; a caller asks for a symbol, the source sends a price, the caller gets it.\<close>

definition demoStart :: system where
  "demoStart = start id id [''crypto''] \<lparr>oFreshTTL = 0, oIdleTimeout = 0, oWaitTimeout = 0\<rparr> 0"

definition demoAsk :: "marketEvent list" where
  "demoAsk = [Call ''Crypto'' '' btc'', Attempt 0 1 2]"

definition demoQuote :: "marketEvent list" where
  "demoQuote = demoAsk @ [Send 0 (Fin 100) 3, Wake 0, Attempt 0 4 5]"

definition demoAfter :: "marketEvent list \<Rightarrow> system" where
  "demoAfter es = (case run (fire id id) es demoStart of Next s \<Rightarrow> s | _ \<Rightarrow> demoStart)"

definition demoRuns :: "marketEvent list \<Rightarrow> bool" where
  "demoRuns es = (case run (fire id id) es demoStart of Next s \<Rightarrow> True | _ \<Rightarrow> False)"

lemma demo_run:
  "demoRuns es \<Longrightarrow> run (fire id id) es (start id id [''crypto''] \<lparr>oFreshTTL = 0, oIdleTimeout = 0, oWaitTimeout = 0\<rparr> 0) = Next (demoAfter es)"
  unfolding demoStart_def [symmetric] by (simp add: demoRuns_def demoAfter_def split: outcome.splits)

lemma demoRuns_ask: "demoRuns demoAsk" by code_simp
lemma demoRuns_quote: "demoRuns demoQuote" by code_simp

section \<open>Properties\<close>

definition runningFor :: "runtime \<Rightarrow> string \<Rightarrow> nat list" where
  "runningFor r k = filter (\<lambda>i. \<not> sReturned (rStreams r ! i) \<and> sKey (rStreams r ! i) = k) [0..<length (rStreams r)]"

lemma runningFor_live: "set (runningFor r k) = {i. liveOn (rStreams r) k i}"
  by (auto simp: runningFor_def liveOn_def)

lemma runningFor_length:
  assumes "rtCore r" "e \<in> set (rEntries r)"
  shows "length (runningFor r (eKey e)) = (if eState e = StateInactive then 0 else 1)"
proof -
  have d: "distinct (runningFor r (eKey e))" by (simp add: runningFor_def)
  show ?thesis
  proof (cases "eState e = StateInactive")
    case True
    then have "set (runningFor r (eKey e)) = {}"
      using subOKD(1) [OF rtCoreD(1) [OF assms]] by (auto simp: runningFor_live)
    then show ?thesis using True by simp
  next
    case False
    then obtain i where "liveOn (rStreams r) (eKey e) i" using subOKD(2) [OF rtCoreD(1) [OF assms]] by auto
    then have "set (runningFor r (eKey e)) = {i}" using rtCoreD(2) [OF assms(1)] by (auto simp: runningFor_live)
    then have "card (set (runningFor r (eKey e))) = 1" by simp
    then show ?thesis using False d by (simp add: distinct_card)
  qed
qed

text \<open>
  (C9) Whatever the callers, the sources and the clock do, the runtime never closes a channel twice, and
  every market and symbol has one entry with exactly one goroutine while its state is activating or active and
  none while it is inactive; no goroutine runs for a key without an entry.
\<close>

theorem one_subscription_per_symbol:
  assumes "run (fire lo up) es (start lo up sources opts now) = Next s"
  shows "fire lo up ev s \<noteq> Panics \<and> distinct (map fst (Snapshot (sysRt s))) \<and>
    (\<forall>(k, st) \<in> set (Snapshot (sysRt s)). length (runningFor (sysRt s) k) = (if st = StateInactive then 0 else 1)) \<and>
    (\<forall>i. running (sysRt s) i \<longrightarrow> sKey (rStreams (sysRt s) ! i) \<in> fst ` set (Snapshot (sysRt s)))"
proof -
  have ok: "sysOK s" by (rule reachable_ok [OF assms])
  then have core: "rtCore (sysRt s)" by (simp add: sysOK_def)
  have "distinct (map eKey (rEntries (sysRt s)))" using core by (simp add: rtCore_def)
  then have "distinct (map fst (Snapshot (sysRt s)))" by (simp add: Snapshot_def comp_def)
  moreover have "\<forall>(k, st) \<in> set (Snapshot (sysRt s)). length (runningFor (sysRt s) k) = (if st = StateInactive then 0 else 1)"
    using runningFor_length [OF core] by (auto simp: Snapshot_def)
  moreover have "sKey (rStreams (sysRt s) ! i) \<in> fst ` set (Snapshot (sysRt s))" if "running (sysRt s) i" for i
    using rtCoreD(4) [OF core, of "sKey (rStreams (sysRt s) ! i)" i] that
    by (auto simp: running_def liveOn_def Snapshot_def image_image)
  ultimately show ?thesis using market.fire_safe [OF ok] by blast
qed

theorem one_subscription_per_symbol_witness:
  "fire id id (Finish 0 None) (demoAfter demoQuote) \<noteq> Panics \<and> length (runningFor (sysRt (demoAfter demoQuote)) ''crypto:BTC'') = 1"
proof -
  have "(''crypto:BTC'', StateActive) \<in> set (Snapshot (sysRt (demoAfter demoQuote)))" by code_simp
  then show ?thesis using one_subscription_per_symbol [OF demo_run [OF demoRuns_quote], of "Finish 0 None"] by (fastforce simp del: fire.simps)
qed

text \<open>The caller of the entry is woken by a price and by the end of the subscription.\<close>

lemma waiting_entry:
  assumes "sysOK s" "waitingOn s j = Some ch" "\<not> rChans (sysRt s) ! ch"
  obtains i e where "running (sysRt s) i" "entryAt (sKey (rStreams (sysRt s) ! i)) (sysRt s) = Some e" "e \<in> set (rEntries (sysRt s))"
    "eUpdated e = ch" "liveOn (rStreams (sysRt s)) (eKey e) i"
    "sKey (rStreams (sysRt s) ! i) = quoteKey (cMarket (pcalls s ! j)) (cSymbol (pcalls s ! j))"
proof -
  let ?r = "sysRt s" and ?c = "pcalls s ! j"
  have core: "rtCore ?r" using assms(1) by (simp add: sysOK_def)
  have "callOK ?r (published s) ?c" using assms(1) waitingOn_Some [OF assms(2)] by (simp add: sysOK_def)
  then obtain e where e: "e \<in> set (rEntries ?r)" "eKey e = quoteKey (cMarket ?c) (cSymbol ?c)" "eUpdated e = ch" "eState e \<noteq> StateInactive"
    using waitingOn_Some [OF assms(2)] assms(3) by (auto simp: callOK_def waitOK_def)
  then obtain i where i: "liveOn (rStreams ?r) (eKey e) i" using subOKD(2) [OF rtCoreD(1) [OF core]] by blast
  then have "running ?r i" "sKey (rStreams ?r ! i) = eKey e" by (simp_all add: running_def liveOn_def)
  then show ?thesis using that e entryAt_in [OF core e(1)] i by simp
qed

text \<open>
  (C10) No lost wake-up: a caller in the \<^verbatim>\<open>select\<close> of \<^verbatim>\<open>GetPrice\<close> either can go on, or a source is running for its market
  and symbol, and the next price this source sends, as well as its end, lets the caller go on.
\<close>

theorem waiters_are_woken:
  assumes "run (fire lo up) es (start lo up sources opts now) = Next s" "waitingOn s j = Some ch"
    and "fire lo up (Wake j) s = Blocked"
  shows "\<exists>i. running (sysRt s) i \<and>
    sKey (rStreams (sysRt s) ! i) = quoteKey (cMarket (pcalls s ! j)) (cSymbol (pcalls s ! j)) \<and>
    (\<forall>p t failure. sysClk s \<le> t \<longrightarrow>
       (\<exists>s1 s2. run (fire lo up) [Send i p t, Wake j] s = Next s1 \<and> run (fire lo up) [Finish i failure, Wake j] s = Next s2))"
proof -
  have ok: "sysOK s" by (rule reachable_ok [OF assms(1)])
  then have core: "rtCore (sysRt s)" by (simp add: sysOK_def)
  have "\<not> rChans (sysRt s) ! ch" using assms(2,3) by (auto split: if_splits)
  then obtain i e where i: "running (sysRt s) i" "entryAt (sKey (rStreams (sysRt s) ! i)) (sysRt s) = Some e" "e \<in> set (rEntries (sysRt s))"
    "eUpdated e = ch" "liveOn (rStreams (sysRt s)) (eKey e) i"
    "sKey (rStreams (sysRt s) ! i) = quoteKey (cMarket (pcalls s ! j)) (cSymbol (pcalls s ! j))"
    by (rule waiting_entry [OF ok assms(2)])
  have ch: "ch < length (rChans (sysRt s))" "\<not> rChans (sysRt s) ! ch" using rtCoreD(3) [OF core i(3)] i(4) by auto
  have w: "waitingOn (s\<lparr>sysRt := r, sysClk := t, published := b\<rparr>) j = Some ch" "waitingOn (s\<lparr>sysRt := r\<rparr>) j = Some ch" for r t b
    using assms(2) by (auto simp: waitingOn_def split: if_splits)
  have "\<exists>s1. run (fire lo up) [Send i p t, Wake j] s = Next s1" if "sysClk s \<le> t" for p t
    using that i ch w by (simp add: publishLocked_def broadcast_def fromOption_def putEntry_def nth_append)
  moreover have "\<exists>s2. run (fire lo up) [Finish i failure, Wake j] s = Next s2" for failure
    using i ch w by (simp add: finishLocked_def broadcast_def fromOption_def putEntry_def nth_append)
  ultimately show ?thesis using i(1,6) by blast
qed

theorem waiters_are_woken_witness:
  "\<exists>i. running (sysRt (demoAfter demoAsk)) i \<and>
     (\<exists>s1. run (fire id id) [Send i (Fin 7) 2, Wake 0] (demoAfter demoAsk) = Next s1)"
proof -
  have "waitingOn (demoAfter demoAsk) 0 = Some 0" "fire id id (Wake 0) (demoAfter demoAsk) = Blocked" "sysClk (demoAfter demoAsk) \<le> 2"
    by code_simp+
  then show ?thesis using waiters_are_woken [OF demo_run [OF demoRuns_ask]] by blast
qed

text \<open>A registered market name without a colon is determined by the key.\<close>

lemma quoteKey_inj:
  "CHR '':'' \<notin> set m \<Longrightarrow> CHR '':'' \<notin> set m' \<Longrightarrow> quoteKey m y = quoteKey m' y' \<Longrightarrow> m = m' \<and> y = y'"
proof (induction m arbitrary: m')
  case Nil
  then show ?case by (cases m') (auto simp: quoteKey_def)
next
  case (Cons a m)
  then show ?case by (cases m') (auto simp: quoteKey_def)
qed

lemma Sub_less: "d \<le> 2 ^ 63 - 1 \<Longrightarrow> Sub t u < d \<Longrightarrow> t - u < d"
  by (auto simp: Sub_def max_def min_def split: if_splits)

lemma settings_kept:
  assumes "run (fire lo up) es (start lo up sources opts now) = Next s"
  shows "settings (sysRt s) = settings (New lo up sources opts)"
  using fixed.run_inv [where c = "settings (New lo up sources opts)", OF _ assms] by (simp add: start_def)

text \<open>
  (C8) A price \<^verbatim>\<open>GetPrice\<close> returns is for the market and symbol that were asked for, was sent by the source of this
  market for this symbol at the time the answer states, and was younger than the freshness limit when it was returned.
\<close>

theorem quotes_are_fresh:
  assumes "run (fire lo up) es (start lo up sources opts now) = Next s"
    and "c \<in> set (pcalls s)" "cState c = Done (Inr p)"
    and "oFreshTTL opts < 2 ^ 63" "\<forall>src \<in> set sources. CHR '':'' \<notin> set (normalizeMarket lo up src)"
  shows "prMarket p = cMarket c \<and> prSymbol p = cSymbol c \<and>
    (quoteKey (cMarket c) (cSymbol c), prPrice p, prUpdatedAt p) \<in> set (published s) \<and>
    prUpdatedAt p \<le> cDoneAt c \<and> cDoneAt c - prUpdatedAt p < firstDuration (oFreshTTL opts) DefaultFreshTTL"
proof -
  have "callOK (sysRt s) (published s) c" using reachable_ok [OF assms(1)] assms(2) by (simp add: sysOK_def)
  moreover have "firstDuration (oFreshTTL opts) DefaultFreshTTL \<le> 2 ^ 63 - 1"
    using assms(4) by (simp add: firstDuration_def DefaultFreshTTL_def)
  moreover have "rSources (sysRt s) = map (normalizeMarket lo up) sources"
    "rFreshTTL (sysRt s) = firstDuration (oFreshTTL opts) DefaultFreshTTL"
    using settings_kept [OF assms(1)] by (simp_all add: settings_def New_def)
  ultimately have c: "cMarket c \<in> normalizeMarket lo up ` set sources" "prMarket p \<in> normalizeMarket lo up ` set sources"
    "quoteKey (prMarket p) (prSymbol p) = quoteKey (cMarket c) (cSymbol c)"
    "(quoteKey (cMarket c) (cSymbol c), prPrice p, prUpdatedAt p) \<in> set (published s)" "prUpdatedAt p \<le> cDoneAt c"
    "cDoneAt c - prUpdatedAt p < firstDuration (oFreshTTL opts) DefaultFreshTTL"
    using assms(3) Sub_less by (simp_all add: callOK_def)
  then have "prMarket p = cMarket c \<and> prSymbol p = cSymbol c" using assms(5) by (intro quoteKey_inj) auto
  with c show ?thesis by simp
qed

theorem quotes_are_fresh_witness:
  "(''crypto:BTC'', Fin 100, 3) \<in> set (published (demoAfter demoQuote)) \<and> (5 :: int) - 3 < DefaultFreshTTL"
proof -
  let ?c = "\<lparr>cMarket = ''crypto'', cSymbol = ''BTC'', cDeadline = 5000000000,
      cState = Done (Inr \<lparr>prMarket = ''crypto'', prSymbol = ''BTC'', prPrice = Fin 100, prUpdatedAt = 3\<rparr>), cDoneAt = 5\<rparr>"
  have "?c \<in> set (pcalls (demoAfter demoQuote))" by code_simp
  moreover have "\<forall>src \<in> set [''crypto'']. CHR '':'' \<notin> set (normalizeMarket id id src)" by code_simp
  ultimately show ?thesis using quotes_are_fresh [OF demo_run [OF demoRuns_quote], of ?c]
    by (simp add: quoteKey_def firstDuration_def)
qed

section \<open>Shutting down\<close>

lemma wgCount_goroutines: "wgCount r = length (filter Not (map sReturned (rStreams r))) + (if rSweeping r then 1 else 0)"
  by (simp add: wgCount_def filter_map comp_def)

lemma filter_returned:
  "i < length ss \<Longrightarrow> \<not> sReturned (ss ! i) \<Longrightarrow>
     length (filter Not (map sReturned ss)) = Suc (length (filter Not (map sReturned (ss[i := (ss ! i)\<lparr>sReturned := True\<rparr>]))))"
proof (induction ss arbitrary: i)
  case (Cons a ss)
  then show ?case by (cases i) auto
qed simp

text \<open>After closing nothing starts any more: \<open>n\<close> goroutines were ever started and at most \<open>k\<close> are left.\<close>

definition closedWith :: "nat \<Rightarrow> nat \<Rightarrow> system \<Rightarrow> bool" where
  "closedWith n k s = (rClosed (sysRt s) \<and> length (rStreams (sysRt s)) = n \<and> wgCount (sysRt s) \<le> k)"

lemma closedWith_goroutines:
  assumes "goroutines (sysRt s') = goroutines ((sysRt s)\<lparr>rClosed := True\<rparr>)" "closedWith n k s"
  shows "closedWith n k s'"
proof -
  have g: "rClosed (sysRt s')" "map sReturned (rStreams (sysRt s')) = map sReturned (rStreams (sysRt s))" "rSweeping (sysRt s') = rSweeping (sysRt s)"
    using assms(1) by (simp_all add: goroutines_def)
  then have "length (rStreams (sysRt s')) = length (rStreams (sysRt s))" by (metis length_map)
  then show ?thesis using assms(2) g by (simp add: closedWith_def wgCount_goroutines)
qed

lemma goroutines_closed: "rClosed r \<Longrightarrow> goroutines (r\<lparr>rClosed := True\<rparr>) = goroutines r"
  by (simp add: goroutines_def)

lemma finish_goroutines:
  assumes "fire lo up (Finish i failure) s = Next s'"
  shows "rClosed (sysRt s') = rClosed (sysRt s) \<and> length (rStreams (sysRt s')) = length (rStreams (sysRt s)) \<and>
    wgCount (sysRt s) = Suc (wgCount (sysRt s'))"
proof -
  obtain e r' where i: "running (sysRt s) i" and b: "finishLocked failure e (sysRt s) = Some r'"
    and s': "s' = s\<lparr>sysRt := r'\<lparr>rStreams := (rStreams r')[i := (rStreams r' ! i)\<lparr>sReturned := True\<rparr>]\<rparr>\<rparr>"
    using assms by (auto simp: fromOption_def split: if_splits option.splits)
  have "rStreams r' = rStreams (sysRt s)" "rClosed r' = rClosed (sysRt s)" "rSweeping r' = rSweeping (sysRt s)"
    using b by (auto simp: finishLocked_def broadcast_def putEntry_def split: if_splits)
  then show ?thesis using i s' filter_returned [of i "rStreams (sysRt s)"]
    by (simp add: running_def wgCount_goroutines)
qed

lemma getPriceLocked_closed: "rClosed r \<Longrightarrow> getPriceLocked now1 now2 m y w r = (Return (Inl ErrClosed), r)"
  by (simp add: getPriceLocked_def)

lemma send_goroutines:
  "fire lo up (Send i p now) s = Next s' \<Longrightarrow> goroutines (sysRt s') = goroutines (sysRt s)"
  by (auto simp: Let_def fromOption_def publishLocked_def dest!: settings_broadcast split: if_splits option.splits)

lemma closedWith_fire:
  assumes "closedWith n k s" "fire lo up ev s = Next s'"
  shows "closedWith n k s'"
proof (cases "\<exists>i failure. ev = Finish i failure")
  case True
  then show ?thesis using assms finish_goroutines by (fastforce simp: closedWith_def simp del: fire.simps)
next
  case False
  have cl: "rClosed (sysRt s)" using assms(1) by (simp add: closedWith_def)
  show ?thesis
  proof (cases "ev = SweeperStops")
    case True
    then show ?thesis using assms by (auto simp: closedWith_def wgCount_def split: if_splits)
  next
    case other: False
    have "goroutines (sysRt s') = goroutines ((sysRt s)\<lparr>rClosed := True\<rparr>)"
    proof (cases ev)
      case (Send i p now)
      then show ?thesis using send_goroutines assms(2) goroutines_closed [OF cl] by metis
    qed (use False other assms(2) cl in \<open>auto simp: Let_def goroutines_loops goroutines_closed getPriceLocked_closed
          split: if_splits sum.splits callState.splits option.splits\<close>)
    then show ?thesis by (rule closedWith_goroutines [OF _ assms(1)])
  qed
qed

interpretation closing: event_invariant "fire lo up" "closedWith n k" for lo up n k
  by unfold_locales (rule closedWith_fire)

lemma some_running: "length (filter (\<lambda>st. \<not> sReturned st) (rStreams r)) > 0 \<Longrightarrow> \<exists>i. running r i"
  by (auto simp: running_def length_greater_0_conv filter_empty_conv in_set_conv_nth)

text \<open>Each goroutine that is left can end, and ending it leaves one less.\<close>

lemma can_drain:
  assumes "sysOK s" "rClosed (sysRt s)"
  shows "\<exists>es s'. run (fire lo up) es s = Next s' \<and> wgCount (sysRt s') = 0"
  using assms
proof (induction "wgCount (sysRt s)" arbitrary: s)
  case 0
  then show ?case by (intro exI [of _ "[]"]) simp
next
  case (Suc n)
  obtain e s1 where s1: "fire lo up e s = Next s1" "wgCount (sysRt s1) = n" "rClosed (sysRt s1)"
  proof (cases "rSweeping (sysRt s)")
    case True
    show ?thesis
    proof (rule that)
      show "fire lo up SweeperStops s = Next (s\<lparr>sysRt := (sysRt s)\<lparr>rSweeping := False\<rparr>\<rparr>)" using Suc.prems True by simp
    qed (use Suc.hyps(2) Suc.prems True in \<open>simp_all add: wgCount_def\<close>)
  next
    case False
    then obtain i where "running (sysRt s) i" using Suc.hyps(2) some_running by (force simp: wgCount_def)
    then obtain s1 where "fire lo up (Finish i None) s = Next s1" using sysOK_finish [OF Suc.prems(1)] by blast
    then show ?thesis using that finish_goroutines Suc by (metis Suc_inject)
  qed
  from Suc.hyps(1) [OF s1(2) [symmetric] market.fire_inv [OF Suc.prems(1) s1(1)] s1(3)]
  obtain es s' where "run (fire lo up) es s1 = Next s'" "wgCount (sysRt s') = 0" by blast
  then show ?case using s1(1) by (intro exI [of _ "e # es"]) (simp del: fire.simps)
qed

text \<open>
  (C13) After \<^verbatim>\<open>Close\<close> no subscription is started any more, those that still run have been cancelled, a call of \<^verbatim>\<open>GetPrice\<close>
  gets \<^verbatim>\<open>ErrClosed\<close>, and the wait group reaches zero, so that \<^verbatim>\<open>Close\<close> can return, as soon as the remaining
  sources have returned; from then on it stays at zero.
\<close>

theorem shutdown_is_final:
  assumes "run (fire lo up) es (start lo up sources opts now) = Next s" "rClosed (sysRt s)"
  shows "(\<forall>i. running (sysRt s) i \<longrightarrow> sCanceled (rStreams (sysRt s) ! i)) \<and>
    (\<forall>now1 now2 m y w. getPriceLocked now1 now2 m y w (sysRt s) = (Return (Inl ErrClosed), sysRt s)) \<and>
    (\<forall>fs s'. run (fire lo up) fs s = Next s' \<longrightarrow>
       rClosed (sysRt s') \<and> length (rStreams (sysRt s')) = length (rStreams (sysRt s)) \<and> wgCount (sysRt s') \<le> wgCount (sysRt s)) \<and>
    (\<exists>fs s'. run (fire lo up) fs s = Next s' \<and> wgCount (sysRt s') = 0)"
proof -
  have ok: "sysOK s" by (rule reachable_ok [OF assms(1)])
  then have rt: "rtOK (sysRt s)" by (simp add: sysOK_def)
  have "sCanceled (rStreams (sysRt s) ! i)" if i: "running (sysRt s) i" for i
  proof -
    obtain e where e: "e \<in> set (rEntries (sysRt s))" "liveOn (rStreams (sysRt s)) (eKey e) i"
      by (rule running_entry [OF rt i])
    then show ?thesis using rtOK_cancel [OF rt e(1)] assms(2) subOKD(4) [OF rtCoreD(1) [OF rtOK_core [OF rt] e(1)] e(2)] by auto
  qed
  moreover have "closedWith (length (rStreams (sysRt s))) (wgCount (sysRt s)) s" using assms(2) by (simp add: closedWith_def)
  then have "closedWith (length (rStreams (sysRt s))) (wgCount (sysRt s)) s'" if "run (fire lo up) fs s = Next s'" for fs s'
    using closing.run_inv that by blast
  ultimately show ?thesis using can_drain [OF ok assms(2)] getPriceLocked_closed [OF assms(2)] by (auto simp: closedWith_def)
qed

definition demoClosed :: "marketEvent list" where
  "demoClosed = demoQuote @ [Shutdown [''crypto:BTC'']]"

lemma demoRuns_closed: "demoRuns demoClosed" by code_simp

theorem shutdown_is_final_witness:
  "wgCount (sysRt (demoAfter demoClosed)) = 2 \<and> sCanceled (rStreams (sysRt (demoAfter demoClosed)) ! 0) \<and>
   (\<exists>fs s'. run (fire id id) fs (demoAfter demoClosed) = Next s' \<and> wgCount (sysRt s') = 0)"
proof -
  have "rClosed (sysRt (demoAfter demoClosed))" "running (sysRt (demoAfter demoClosed)) 0" "wgCount (sysRt (demoAfter demoClosed)) = 2"
    by code_simp+
  then show ?thesis using shutdown_is_final [OF demo_run [OF demoRuns_closed]] by blast
qed

section \<open>Idle subscriptions\<close>

lemma streamKeys_sweep: "map sKey (rStreams (sweep now ks r)) = map sKey (rStreams r)"
proof -
  have "map sKey (rStreams (sweepEntry now k r)) = map sKey (rStreams r)" for k r
    by (simp add: sweepEntry_def deactivateLocked_def putEntry_def cancelCtx_def map_update_self split: option.splits)
  then show ?thesis unfolding sweep_def by (rule fold_kept [where f = "\<lambda>r. map sKey (rStreams r)"])
qed

text \<open>The context of a running goroutine is not cancelled exactly while its entry holds the cancel function.\<close>

lemma canceled_iff:
  assumes "rtCore r" "e \<in> set (rEntries r)" "liveOn (rStreams r) (eKey e) i"
  shows "sCanceled (rStreams r ! i) \<longleftrightarrow> eCancel e \<noteq> Some i"
  using subOKD(3,4) [OF rtCoreD(1) [OF assms(1,2)]] assms(3) by blast

text \<open>What the sweep does to an entry: the cancel function of an idle subscription is called and cleared.\<close>

definition idle :: "time \<Rightarrow> runtime \<Rightarrow> entry \<Rightarrow> bool" where
  "idle now r e = (eState e \<noteq> StateInactive \<and> eCancel e \<noteq> None \<and> Sub now (eLastRequestedAt e) > rIdleTimeout r)"

definition sweptEntry :: "time \<Rightarrow> runtime \<Rightarrow> entry \<Rightarrow> entry" where
  "sweptEntry now r e = (if idle now r e then e\<lparr>eCancel := None\<rparr> else e)"

lemma sweepEntry_entries:
  assumes "distinct (map eKey (rEntries r))"
  shows "rEntries (sweepEntry now k r) = map (\<lambda>e. if eKey e = k then sweptEntry now r e else e) (rEntries r)"
proof (cases "entryAt k r")
  case None
  then have "\<forall>e \<in> set (rEntries r). eKey e \<noteq> k" by (auto simp: entryAt_def find_None_iff_all)
  then show ?thesis using None by (simp add: sweepEntry_def map_idI)
next
  case (Some e)
  note e = entryAt_Some [OF Some]
  have only: "f = e" if "f \<in> set (rEntries r)" "eKey f = k" for f using distinct_key_eq [OF assms, of f e] that e by simp
  show ?thesis
  proof (cases "idle now r e")
    case True
    then obtain c where c: "eCancel e = Some c" by (auto simp: idle_def)
    have "sweepEntry now k r = deactivateLocked e r" using Some True c by (simp add: sweepEntry_def idle_def)
    then have "rEntries (sweepEntry now k r) = tbl_put eKey (e\<lparr>eCancel := None\<rparr>) (rEntries r)"
      by (simp add: c deactivateLocked_def putEntry_def cancelCtx_def)
    moreover have "(if eKey f = k then e\<lparr>eCancel := None\<rparr> else f) = (if eKey f = k then sweptEntry now r f else f)"
      if "f \<in> set (rEntries r)" for f using True only [OF that] by (auto simp: sweptEntry_def)
    ultimately show ?thesis using e by (simp add: tbl_put_def)
  next
    case False
    then have "sweepEntry now k r = r" using Some by (auto simp: sweepEntry_def idle_def)
    moreover have "(if eKey f = k then sweptEntry now r f else f) = f" if "f \<in> set (rEntries r)" for f
      using False only [OF that] by (auto simp: sweptEntry_def)
    ultimately show ?thesis by (simp add: map_idI)
  qed
qed

lemma sweepEntry_idle [simp]: "idle now (sweepEntry now k r) = idle now r"
  using settings_ops(5) [of now k r] by (auto simp: idle_def settings_def fun_eq_iff)

lemma eKey_swept [simp]: "eKey (sweptEntry now r e) = eKey e"
  by (simp add: sweptEntry_def)

lemma sweptEntry_swept: "idle now r' = idle now r \<Longrightarrow> sweptEntry now r' e = sweptEntry now r e"
  by (simp add: sweptEntry_def)

lemma sweep_entries:
  assumes "distinct (map eKey (rEntries r))" "distinct ks"
  shows "rEntries (sweep now ks r) = map (\<lambda>e. if eKey e \<in> set ks then sweptEntry now r e else e) (rEntries r)"
  using assms
proof (induction ks arbitrary: r)
  case (Cons k ks)
  let ?r = "sweepEntry now k r"
  have es: "rEntries ?r = map (\<lambda>e. if eKey e = k then sweptEntry now r e else e) (rEntries r)"
    by (rule sweepEntry_entries [OF Cons.prems(1)])
  have "map eKey (rEntries ?r) = map eKey (rEntries r)" unfolding es by (simp add: comp_def)
  then have "rEntries (sweep now ks ?r) = map (\<lambda>e. if eKey e \<in> set ks then sweptEntry now ?r e else e) (rEntries ?r)"
    using Cons.prems by (intro Cons.IH) simp_all
  moreover have "sweptEntry now ?r = sweptEntry now r" by (simp add: sweptEntry_swept fun_eq_iff)
  ultimately show ?case using Cons.prems(2) unfolding es by (auto simp: sweep_def comp_def)
qed (simp add: sweep_def)

text \<open>
  A round of the sweeper cancels exactly the subscriptions whose last request is older than the idle limit: every entry
  keeps its price, and a subscription that was asked for within the limit keeps running.
\<close>

theorem sweep_cancels_idle:
  assumes "run (fire lo up) es (start lo up sources opts now) = Next s" "fire lo up (SweepTick t ks) s = Next s'"
  shows "rEntries (sysRt s') = map (sweptEntry t (sysRt s)) (rEntries (sysRt s)) \<and>
    (\<forall>i. running (sysRt s) i \<longrightarrow> running (sysRt s') i \<and>
       (sCanceled (rStreams (sysRt s') ! i) \<longleftrightarrow> sCanceled (rStreams (sysRt s) ! i) \<or>
          (\<exists>e \<in> set (rEntries (sysRt s)). eCancel e = Some i \<and> idle t (sysRt s) e)))"
proof -
  let ?r = "sysRt s" and ?r' = "sysRt s'"
  have ok: "sysOK s" "sysOK s'" using reachable_ok [OF assms(1)] market.fire_inv assms(2) by blast+
  then have rt: "rtOK ?r" and core: "rtCore ?r" "rtCore ?r'" by (simp_all add: sysOK_def)
  have r': "?r' = sweep t ks ?r" and ks: "distinct ks" "set ks = eKey ` set (rEntries ?r)"
    using assms(2) by (auto simp: keyOrder_def split: if_splits)
  have es: "rEntries ?r' = map (sweptEntry t ?r) (rEntries ?r)"
    using sweep_entries [of ?r ks t] ks core(1) by (simp add: r' rtCore_def)
  have ret: "map sReturned (rStreams ?r') = map sReturned (rStreams ?r)" and keys: "map sKey (rStreams ?r') = map sKey (rStreams ?r)"
    using goroutines_loops(1) [of t ks ?r] streamKeys_sweep [of t ks ?r] by (simp_all add: r' goroutines_def)
  have same: "liveOn (rStreams ?r') k i = liveOn (rStreams ?r) k i" for k i
    unfolding liveOn_def using ret keys by (metis length_map nth_map)
  have run': "running ?r' i" if "running ?r i" for i
    using that same [of "sKey (rStreams ?r ! i)" i] by (simp add: running_def liveOn_def)
  moreover have "sCanceled (rStreams ?r' ! i) \<longleftrightarrow> sCanceled (rStreams ?r ! i) \<or>
      (\<exists>e \<in> set (rEntries ?r). eCancel e = Some i \<and> idle t ?r e)" if i: "running ?r i" for i
  proof -
    obtain e where e: "e \<in> set (rEntries ?r)" "liveOn (rStreams ?r) (eKey e) i"
      by (rule running_entry [OF rt i])
    have e': "sweptEntry t ?r e \<in> set (rEntries ?r')" using e(1) es by simp
    have owner: "f = e" if "f \<in> set (rEntries ?r)" "eCancel f = Some i" for f
    proof (rule distinct_key_eq [OF _ that(1) e(1)])
      show "distinct (map eKey (rEntries ?r))" using core(1) by (simp add: rtCore_def)
      show "eKey f = eKey e" using subOKD(3) [OF rtCoreD(1) [OF core(1) that(1)] that(2)] e(2) by (simp add: liveOn_def)
    qed
    have "sCanceled (rStreams ?r' ! i) \<longleftrightarrow> eCancel (sweptEntry t ?r e) \<noteq> Some i"
      by (rule canceled_iff [OF core(2) e']) (simp add: same e(2))
    also have "\<dots> \<longleftrightarrow> eCancel e \<noteq> Some i \<or> idle t ?r e" by (simp add: sweptEntry_def)
    also have "\<dots> \<longleftrightarrow> sCanceled (rStreams ?r ! i) \<or> (\<exists>e \<in> set (rEntries ?r). eCancel e = Some i \<and> idle t ?r e)"
      using canceled_iff [OF core(1) e] owner e(1) by metis
    finally show ?thesis .
  qed
  ultimately show ?thesis using es by blast
qed

definition demoIdle :: "marketEvent list" where
  "demoIdle = demoQuote @ [Send 0 (Fin 100) 70000000000]"

lemma demoRuns_idle: "demoRuns demoIdle" by code_simp

theorem sweep_cancels_idle_witness:
  "\<exists>s'. fire id id (SweepTick 65000000000 [''crypto:BTC'']) (demoAfter demoIdle) = Next s' \<and> sCanceled (rStreams (sysRt s') ! 0)"
proof -
  let ?s = "demoAfter demoIdle" and ?ev = "SweepTick 65000000000 [''crypto:BTC'']"
  have "(case fire id id ?ev ?s of Next s \<Rightarrow> True | _ \<Rightarrow> False)" by code_simp
  then obtain s' where s': "fire id id ?ev ?s = Next s'" by (cases "fire id id ?ev ?s") (simp_all del: fire.simps)
  have "running (sysRt ?s) 0" "\<exists>e \<in> set (rEntries (sysRt ?s)). eCancel e = Some 0 \<and> idle 65000000000 (sysRt ?s) e"
    by code_simp+
  then have "sCanceled (rStreams (sysRt s') ! 0)" using sweep_cancels_idle [OF demo_run [OF demoRuns_idle] s'] by blast
  with s' show ?thesis by blast
qed

end
