(* ===== verification/MarketRead.thy ===== *)
theory MarketRead
  imports MarketRuntime "HOL-Library.Multiset"
begin

text \<open>
  \<^verbatim>\<open>backend/internal/market/read.go\<close>, the candle and market-info queries of the runtime.

  What a registered source can do besides streaming is a \<open>reader\<close>: its name and, when its Go type implements
  \<^verbatim>\<open>OHLCVSource\<close> or \<^verbatim>\<open>MarketInfoSource\<close>, the two queries.  \<^verbatim>\<open>sort.Slice\<close> orders candles with the same open time
  as it likes, so the sorting function is the parameter \<open>srt\<close>; the statements only use that it returns a
  permutation ordered by open time.
\<close>

section \<open>Data\<close>

definition DefaultOHLCVLimit :: int where "DefaultOHLCVLimit = 100"
definition MaxOHLCVLimit :: int where "MaxOHLCVLimit = 500"

definition intervalDurations :: "(string \<times> int) list" where
  "intervalDurations =
     [(''1m'', 60 * 1000000000), (''5m'', 5 * 60 * 1000000000), (''15m'', 15 * 60 * 1000000000),
      (''1h'', 3600 * 1000000000), (''4h'', 4 * 3600 * 1000000000), (''1d'', 24 * 3600 * 1000000000)]"

definition supportedOHLCVIntervals :: "string list" where
  "supportedOHLCVIntervals = [''1m'', ''5m'', ''15m'', ''1h'', ''4h'', ''1d'']"

text \<open>Reading a missing key of a Go map gives zero.\<close>

definition durationOf :: "string \<Rightarrow> int" where
  "durationOf interval = (case map_of intervalDurations interval of None \<Rightarrow> 0 | Some d \<Rightarrow> d)"

record candle =
  cdOpenTime :: time
  cdCloseTime :: time
  cdOpen :: float64
  cdHigh :: float64
  cdLow :: float64
  cdClose :: float64
  cdVolume :: float64

record ohlcvResult =
  orMarket :: string
  orSymbol :: string
  orInterval :: string
  orStartTime :: time
  orEndTime :: time
  orCurrentTime :: time
  orTimeZone :: string
  orIncludesIncomplete :: bool
  orCandles :: "candle list"

record priceFilter =
  pfMinPrice :: string
  pfMaxPrice :: string
  pfTickSize :: string

record quantityFilter =
  qfMinQuantity :: string
  qfMaxQuantity :: string
  qfStepSize :: string

record marketInfo =
  miSymbol :: string
  miStatus :: string
  miBaseAsset :: string
  miQuoteAsset :: string
  miOrderTypes :: "string list"
  miSpotTradingAllowed :: bool
  miMarginTradingAllowed :: bool
  miPriceFilter :: "priceFilter option"
  miQuantityFilter :: "quantityFilter option"
  miMinNotional :: "string option"

record marketInfoResult =
  mrMarket :: string
  mrSymbol :: string
  mrSource :: string
  mrUpdatedAt :: time
  mrSourceRules :: marketInfo
  mrMode :: string
  mrSourceRulesEnforced :: bool

record reader =
  rdName :: string
  rdOHLCV :: "(string \<Rightarrow> string \<Rightarrow> time \<Rightarrow> time \<Rightarrow> int \<Rightarrow> err + candle list) option"
  rdInfo :: "(string \<Rightarrow> err + marketInfo) option"

section \<open>Queries\<close>

definition readSource :: "(string \<Rightarrow> string) \<Rightarrow> (string \<Rightarrow> string) \<Rightarrow> runtime \<Rightarrow> string \<Rightarrow> string \<Rightarrow> err + string \<times> string" where
  "readSource lo up r market symbol =
     (case normalizePair lo up market symbol of
        Inl x \<Rightarrow> Inl x
      | Inr (m, y) \<Rightarrow> if rClosed r then Inl ErrClosed else if m \<notin> set (rSources r) then Inl ErrUnknownMarket else Inr (m, y))"

definition validCandle :: "candle \<Rightarrow> bool" where
  "validCandle c =
     (cdOpenTime c \<noteq> zeroTime \<and> cdOpenTime c < cdCloseTime c \<and>
      finite64 (cdOpen c) \<and> finite64 (cdHigh c) \<and> finite64 (cdLow c) \<and> finite64 (cdClose c) \<and> finite64 (cdVolume c) \<and>
      cdOpen c > 0 \<and> cdHigh c > 0 \<and> cdLow c > 0 \<and> cdClose c > 0 \<and> cdVolume c \<ge> 0 \<and>
      cdHigh c \<ge> cdOpen c \<and> cdHigh c \<ge> cdClose c \<and> cdLow c \<le> cdOpen c \<and> cdLow c \<le> cdClose c \<and> cdLow c \<le> cdHigh c)"

text \<open>\<^verbatim>\<open>Time.Truncate\<close> rounds down to a multiple of the duration since the zero time.\<close>

definition Truncate :: "time \<Rightarrow> int \<Rightarrow> time" where
  "Truncate t d = (if d \<le> 0 then t else t - (t - zeroTime) mod d)"

definition outsideWindow :: "time \<Rightarrow> time \<Rightarrow> time \<Rightarrow> candle \<Rightarrow> bool" where
  "outsideWindow s e now c = (cdOpenTime c < s \<or> \<not> cdOpenTime c < e \<or> \<not> cdCloseTime c < now)"

text \<open>The loop that keeps the completed candles of the window.\<close>

fun collectCandles :: "time \<Rightarrow> time \<Rightarrow> time \<Rightarrow> int \<Rightarrow> candle list \<Rightarrow> candle list \<Rightarrow> err + candle list" where
  "collectCandles s e now limit completed [] = Inr completed"
| "collectCandles s e now limit completed (c # cs) =
     (if outsideWindow s e now c then collectCandles s e now limit completed cs
      else if \<not> validCandle c then Inl ErrInvalidSourceData
      else if int (length (completed @ [c])) = limit then Inr (completed @ [c])
      else collectCandles s e now limit (completed @ [c]) cs)"

definition windowEnd :: "time \<Rightarrow> time \<Rightarrow> time" where
  "windowEnd now e = (if e = zeroTime \<or> e > now then now else e)"

definition windowStart :: "string \<Rightarrow> int \<Rightarrow> time \<Rightarrow> time \<Rightarrow> time" where
  "windowStart interval limit e s =
     (if s = zeroTime then let duration = durationOf interval in Truncate (e - duration * limit) duration else s)"

definition GetOHLCV ::
  "(candle list \<Rightarrow> candle list) \<Rightarrow> (string \<Rightarrow> reader) \<Rightarrow> (string \<Rightarrow> string) \<Rightarrow> (string \<Rightarrow> string) \<Rightarrow> runtime \<Rightarrow> time \<Rightarrow>
   string \<Rightarrow> string \<Rightarrow> string \<Rightarrow> time \<Rightarrow> time \<Rightarrow> int \<Rightarrow> err + ohlcvResult" where
  "GetOHLCV srt readers lo up r now market symbol interval s0 e0 limit =
     (case readSource lo up r market symbol of
        Inl x \<Rightarrow> Inl x
      | Inr (m, y) \<Rightarrow>
          if interval \<notin> set supportedOHLCVIntervals then Inl ErrUnsupportedInterval
          else if limit < 1 \<or> limit > MaxOHLCVLimit then Inl ErrInvalidOHLCVLimit
          else let e = windowEnd now e0; s = windowStart interval limit e s0
               in if \<not> s < e then Inl ErrInvalidTimeRange
                  else case rdOHLCV (readers m) of
                         None \<Rightarrow> Inl ErrReadUnsupported
                       | Some query \<Rightarrow>
                           (case query y interval s e limit of
                              Inl x \<Rightarrow> Inl x
                            | Inr candles \<Rightarrow>
                                (case collectCandles s e now limit [] (srt candles) of
                                   Inl x \<Rightarrow> Inl x
                                 | Inr completed \<Rightarrow>
                                     Inr \<lparr>orMarket = m, orSymbol = y, orInterval = interval, orStartTime = s, orEndTime = e,
                                          orCurrentTime = now, orTimeZone = ''UTC'', orIncludesIncomplete = False,
                                          orCandles = completed\<rparr>)))"

definition GetMarketInfo ::
  "(string \<Rightarrow> reader) \<Rightarrow> (string \<Rightarrow> string) \<Rightarrow> (string \<Rightarrow> string) \<Rightarrow> runtime \<Rightarrow> time \<Rightarrow> string \<Rightarrow> string \<Rightarrow> err + marketInfoResult" where
  "GetMarketInfo readers lo up r now market symbol =
     (case readSource lo up r market symbol of
        Inl x \<Rightarrow> Inl x
      | Inr (m, y) \<Rightarrow>
          (case rdInfo (readers m) of
             None \<Rightarrow> Inl ErrReadUnsupported
           | Some query \<Rightarrow>
               (case query y of
                  Inl x \<Rightarrow> Inl x
                | Inr info \<Rightarrow>
                    if miSymbol info \<noteq> [] \<and> miSymbol info \<noteq> y then Inl ErrInvalidSourceData
                    else Inr \<lparr>mrMarket = m, mrSymbol = y, mrSource = rdName (readers m), mrUpdatedAt = now,
                              mrSourceRules = info\<lparr>miSymbol := []\<rparr>, mrMode = ''virtual'', mrSourceRulesEnforced = False\<rparr>)))"

section \<open>The loop\<close>

definition inWindow :: "time \<Rightarrow> time \<Rightarrow> time \<Rightarrow> candle \<Rightarrow> bool" where
  "inWindow s e now c = (s \<le> cdOpenTime c \<and> cdOpenTime c < e \<and> cdCloseTime c < now)"

lemma outsideWindow_iff: "outsideWindow s e now c \<longleftrightarrow> \<not> inWindow s e now c"
  by (auto simp: outsideWindow_def inWindow_def)

text \<open>What the loop computes: the first \<open>limit\<close> candles of the window, if they are all valid.\<close>

definition windowSpec :: "time \<Rightarrow> time \<Rightarrow> time \<Rightarrow> nat \<Rightarrow> candle list \<Rightarrow> err + candle list" where
  "windowSpec s e now n cs =
     (let chosen = take n (filter (inWindow s e now) cs)
      in if list_all validCandle chosen then Inr chosen else Inl ErrInvalidSourceData)"

lemma collectCandles_acc:
  assumes "int (length done) < limit"
  shows "collectCandles s e now limit done cs =
    (case windowSpec s e now (nat limit - length done) cs of Inl x \<Rightarrow> Inl x | Inr new \<Rightarrow> Inr (done @ new))"
  using assms
proof (induction cs arbitrary: "done")
  case (Cons c cs)
  show ?case
  proof (cases "inWindow s e now c \<and> validCandle c")
    case True
    have n: "nat limit - length done = Suc (nat limit - length (done @ [c]))" using Cons.prems by auto
    show ?thesis
    proof (cases "int (length (done @ [c])) = limit")
      case True
      then have "nat limit - length done = 1" by auto
      then show ?thesis using True \<open>inWindow s e now c \<and> validCandle c\<close>
        by (simp add: outsideWindow_iff windowSpec_def Let_def)
    next
      case False
      then have "int (length (done @ [c])) < limit" using Cons.prems by simp
      then show ?thesis using Cons.IH [of "done @ [c]"] True False unfolding n
        by (auto simp: outsideWindow_iff windowSpec_def Let_def split: sum.splits)
    qed
  next
    case False
    moreover have "nat limit - length done \<noteq> 0" using Cons.prems by auto
    ultimately show ?thesis using Cons
      by (cases "nat limit - length done") (auto simp: outsideWindow_iff windowSpec_def Let_def)
  qed
qed (simp add: windowSpec_def)

lemma collectCandles_spec: "0 < limit \<Longrightarrow> collectCandles s e now limit [] cs = windowSpec s e now (nat limit) cs"
  using collectCandles_acc [of "[]" limit] by (simp split: sum.splits)

section \<open>Properties\<close>

definition sortsByTime :: "(candle list \<Rightarrow> candle list) \<Rightarrow> bool" where
  "sortsByTime srt = (\<forall>cs. mset (srt cs) = mset cs \<and> sorted (map cdOpenTime (srt cs)))"

lemma GetOHLCV_Inr:
  assumes "GetOHLCV srt readers lo up r now market symbol interval s0 e0 limit = Inr res"
  obtains m y query cs where
    "readSource lo up r market symbol = Inr (m, y)" "interval \<in> set supportedOHLCVIntervals" "1 \<le> limit" "limit \<le> MaxOHLCVLimit"
    "orStartTime res < orEndTime res" "rdOHLCV (readers m) = Some query"
    "query y interval (orStartTime res) (orEndTime res) limit = Inr cs"
    "orCandles res = take (nat limit) (filter (inWindow (orStartTime res) (orEndTime res) now) (srt cs))"
    "\<forall>c \<in> set (orCandles res). validCandle c"
    "orMarket res = m" "orSymbol res = y" "orCurrentTime res = now" "orInterval res = interval"
    "orEndTime res = windowEnd now e0" "orStartTime res = windowStart interval limit (windowEnd now e0) s0"
proof -
  obtain m y where m: "readSource lo up r market symbol = Inr (m, y)"
    using assms by (auto simp: GetOHLCV_def split: sum.splits)
  define e where "e = windowEnd now e0"
  define s where "s = windowStart interval limit e s0"
  have chk: "interval \<in> set supportedOHLCVIntervals" "1 \<le> limit" "limit \<le> MaxOHLCVLimit" "s < e"
    using assms m by (auto simp: GetOHLCV_def Let_def s_def e_def split: if_splits)
  then obtain query where q: "rdOHLCV (readers m) = Some query"
    using assms m by (auto simp: GetOHLCV_def Let_def s_def e_def split: option.splits)
  obtain cs where cs: "query y interval s e limit = Inr cs"
    using assms m chk q by (auto simp: GetOHLCV_def Let_def s_def e_def split: sum.splits)
  obtain kept where d: "collectCandles s e now limit [] (srt cs) = Inr kept"
    and res: "orMarket res = m" "orSymbol res = y" "orInterval res = interval" "orStartTime res = s" "orEndTime res = e"
      "orCurrentTime res = now" "orCandles res = kept"
    using assms m chk q cs by (auto simp: GetOHLCV_def Let_def s_def [symmetric] e_def [symmetric] split: sum.splits)
  have "kept = take (nat limit) (filter (inWindow s e now) (srt cs))" "\<forall>c \<in> set kept. validCandle c"
    using d chk(2) by (auto simp: collectCandles_spec windowSpec_def Let_def list_all_iff split: if_splits)
  then show ?thesis using that m chk q cs res by (simp add: s_def e_def)
qed

lemma take_filter_facts:
  assumes "sorted (map f xs)"
  shows "sorted (map f (take n (filter P xs)))"
    and "d \<in> set (take n (filter P xs)) \<Longrightarrow> d \<in> set xs \<and> P d"
    and "length (take n (filter P xs)) < n \<Longrightarrow> d \<in> set xs \<Longrightarrow> P d \<Longrightarrow> d \<in> set (take n (filter P xs))"
proof -
  show "sorted (map f (take n (filter P xs)))"
    unfolding take_map [symmetric] by (intro sorted_wrt_take sorted_filter assms)
  show "d \<in> set (take n (filter P xs)) \<Longrightarrow> d \<in> set xs \<and> P d" by (auto dest: in_set_takeD)
  assume "length (take n (filter P xs)) < n"
  then have "take n (filter P xs) = filter P xs" by simp
  then show "d \<in> set xs \<Longrightarrow> P d \<Longrightarrow> d \<in> set (take n (filter P xs))" by simp
qed

text \<open>
  (C14) A candle answer has at most \<open>limit\<close> candles in the order of their open times; each of them is a candle the source
  returned, is well formed, starts inside the requested window and was complete at the time of the query; and when the answer
  is not full, every complete candle of the window that the source returned is in it.
\<close>

theorem candles_are_complete_and_ordered:
  assumes "GetOHLCV srt readers lo up r now market symbol interval s0 e0 limit = Inr res" "sortsByTime srt"
  shows "\<exists>query cs. rdOHLCV (readers (orMarket res)) = Some query \<and>
    query (orSymbol res) interval (orStartTime res) (orEndTime res) limit = Inr cs \<and>
    sorted (map cdOpenTime (orCandles res)) \<and> int (length (orCandles res)) \<le> limit \<and> limit \<le> 500 \<and>
    orStartTime res < orEndTime res \<and> orEndTime res \<le> now \<and>
    (\<forall>c \<in> set (orCandles res). c \<in> set cs \<and> validCandle c \<and> orStartTime res \<le> cdOpenTime c \<and> cdOpenTime c < orEndTime res \<and> cdCloseTime c < now) \<and>
    (int (length (orCandles res)) < limit \<longrightarrow>
       (\<forall>c \<in> set cs. inWindow (orStartTime res) (orEndTime res) now c \<longrightarrow> c \<in> set (orCandles res)))"
proof -
  obtain m y query cs where m: "readSource lo up r market symbol = Inr (m, y)" "interval \<in> set supportedOHLCVIntervals"
    and v1: "1 \<le> limit" "limit \<le> MaxOHLCVLimit" "orStartTime res < orEndTime res"
    and q1: "rdOHLCV (readers m) = Some query" "query y interval (orStartTime res) (orEndTime res) limit = Inr cs"
    and c: "orCandles res = take (nat limit) (filter (inWindow (orStartTime res) (orEndTime res) now) (srt cs))"
    and v2: "\<forall>c \<in> set (orCandles res). validCandle c"
    and n: "orMarket res = m" "orSymbol res = y" "orCurrentTime res = now" "orInterval res = interval"
    and v3: "orEndTime res = windowEnd now e0" "orStartTime res = windowStart interval limit (windowEnd now e0) s0"
    by (rule GetOHLCV_Inr [OF assms(1)])
  note v = v2 v1 v3(1) and q = q1 [folded n(1,2)]
  have srt: "set (srt cs) = set cs" "sorted (map cdOpenTime (srt cs))"
    using assms(2) by (auto simp: sortsByTime_def dest: mset_eq_setD)
  note facts = take_filter_facts [OF srt(2), where n = "nat limit" and P = "inWindow (orStartTime res) (orEndTime res) now", folded c, unfolded srt(1)]
  have "c \<in> set cs \<and> validCandle c \<and> orStartTime res \<le> cdOpenTime c \<and> cdOpenTime c < orEndTime res \<and> cdCloseTime c < now"
    if "c \<in> set (orCandles res)" for c using facts(2) [OF that] bspec [OF v(1) that] by (simp add: inWindow_def)
  moreover have "d \<in> set (orCandles res)" if "int (length (orCandles res)) < limit" "d \<in> set cs" "inWindow (orStartTime res) (orEndTime res) now d" for d
    by (rule facts(3)) (use that in simp_all)
  moreover have "length (orCandles res) \<le> nat limit" unfolding c by simp
  then have "int (length (orCandles res)) \<le> limit" using v(2) by linarith
  moreover have "orEndTime res \<le> now" unfolding v(5) by (simp add: windowEnd_def)
  moreover have "limit \<le> 500" using v(3) by (simp add: MaxOHLCVLimit_def)
  ultimately show ?thesis using q v(4) facts(1) by (intro exI [of _ query] exI [of _ cs] conjI ballI impI) simp_all
qed

text \<open>A source with one candle a minute that answers, as an exchange does, with the oldest ones of the asked range.\<close>

definition minuteCandle :: "int \<Rightarrow> candle" where
  "minuteCandle k = \<lparr>cdOpenTime = k * 60000000000, cdCloseTime = k * 60000000000 + 59999000000,
     cdOpen = Fin 2, cdHigh = Fin 3, cdLow = Fin 1, cdClose = Fin 2, cdVolume = Fin 5\<rparr>"

definition minuteReader :: reader where
  "minuteReader = \<lparr>rdName = ''minutes'',
     rdOHLCV = Some (\<lambda>y interval s e limit.
       Inr (take (nat limit) (filter (\<lambda>c. s \<le> cdOpenTime c \<and> cdOpenTime c < e) (map minuteCandle (map int [0..<10]))))),
     rdInfo = None\<rparr>"

definition minuteRuntime :: runtime where
  "minuteRuntime = New id id [''crypto''] \<lparr>oFreshTTL = 0, oIdleTimeout = 0, oWaitTimeout = 0\<rparr>"

definition askMinutes :: "time \<Rightarrow> int \<Rightarrow> err + ohlcvResult" where
  "askMinutes e limit = GetOHLCV (sort_key cdOpenTime) (\<lambda>_. minuteReader) id id minuteRuntime 590000000000
     ''crypto'' ''btc'' ''1m'' zeroTime e limit"

lemma sortsByTime_sort_key: "sortsByTime (sort_key cdOpenTime)"
  by (simp add: sortsByTime_def)

theorem candles_are_complete_and_ordered_witness:
  "\<exists>res. askMinutes zeroTime 3 = Inr res \<and> sorted (map cdOpenTime (orCandles res)) \<and> map cdOpenTime (orCandles res) = map (\<lambda>k. k * 60000000000) [6, 7, 8]"
proof -
  have "case askMinutes zeroTime 3 of Inr res \<Rightarrow> map cdOpenTime (orCandles res) = map (\<lambda>k. k * 60000000000) [6, 7, 8] | Inl x \<Rightarrow> False"
    by code_simp
  then obtain res where res: "askMinutes zeroTime 3 = Inr res" "map cdOpenTime (orCandles res) = map (\<lambda>k. k * 60000000000) [6, 7, 8]"
    by (auto split: sum.splits)
  then show ?thesis using candles_are_complete_and_ordered [OF res(1) [unfolded askMinutes_def] sortsByTime_sort_key] by blast
qed

text \<open>
  Without a start time the window begins at most one interval before \<open>limit\<close> intervals back, on a boundary of the interval.
\<close>

lemma window_is_aligned:
  assumes "interval \<in> set supportedOHLCVIntervals"
  shows "0 < durationOf interval"
    and "(windowStart interval limit e zeroTime - zeroTime) mod durationOf interval = 0"
    and "windowStart interval limit e zeroTime \<le> e - durationOf interval * limit"
    and "e - durationOf interval * (limit + 1) < windowStart interval limit e zeroTime"
proof -
  show d: "0 < durationOf interval" using assms by (auto simp: supportedOHLCVIntervals_def durationOf_def intervalDurations_def)
  let ?d = "durationOf interval" let ?t = "e - ?d * limit"
  have w: "windowStart interval limit e zeroTime = ?t - (?t - zeroTime) mod ?d"
    using d by (simp add: windowStart_def Truncate_def Let_def)
  have "?t - (?t - zeroTime) mod ?d - zeroTime = ?d * ((?t - zeroTime) div ?d)"
    by (simp add: minus_mod_eq_mult_div [symmetric] algebra_simps)
  then show "(windowStart interval limit e zeroTime - zeroTime) mod ?d = 0" by (simp add: w)
  show "windowStart interval limit e zeroTime \<le> ?t" "e - ?d * (limit + 1) < windowStart interval limit e zeroTime"
    using d pos_mod_bound [OF d, of "?t - zeroTime"] pos_mod_sign [OF d, of "?t - zeroTime"]
    by (simp_all add: w algebra_simps)
qed

text \<open>
  With an end time in the past that is not on a boundary the window holds one candle more than \<open>limit\<close>, and it is the newest
  one that is missing from the answer: asked for two candles before 4:30, the minutes 2 and 3 come back although minute 4 had
  long been complete.
\<close>

lemma past_end_misses_latest:
  "case askMinutes 270000000000 2 of Inr res \<Rightarrow> map cdOpenTime (orCandles res) = map (\<lambda>k. k * 60000000000) [2, 3] | Inl x \<Rightarrow> False"
  "inWindow (windowStart ''1m'' 2 270000000000 zeroTime) 270000000000 590000000000 (minuteCandle 4)"
  by code_simp+

end
