(* ===== verification/Json.thy ===== *)
theory Json
  imports Float64 GoText
begin

text \<open>
  JSON values as the two services see them.  The text level of \<^verbatim>\<open>encoding/json\<close> and \<^verbatim>\<open>strconv.ParseFloat\<close> are a \<open>codec\<close>: it decodes the
  first JSON value of a body and says whether nothing follows it, it finds a field of an object, and it reads a float.
  A \<^verbatim>\<open>json.RawMessage\<close> is \<^const>\<open>None\<close> when the field is missing and the value otherwise, which is what the code
  asks of its bytes; the text of a raw number is kept.
\<close>

datatype json = JNull | JBool bool | JNum string | JStr string | JArr "json list" | JObj "(string \<times> json) list"

record codec =
  cxDecode :: "string \<Rightarrow> (json \<times> bool) option"
  cxField :: "string \<Rightarrow> (string \<times> json) list \<Rightarrow> json option"
  cxParseFloat :: "string \<Rightarrow> float64 option"

type_synonym raw = "json option"

definition fieldOf :: "codec \<Rightarrow> string \<Rightarrow> json \<Rightarrow> raw" where
  "fieldOf cx name v = (case v of JObj kvs \<Rightarrow> cxField cx name kvs | _ \<Rightarrow> None)"

text \<open>Decoding into a slice or a struct: \<^verbatim>\<open>null\<close> leaves the zero value, another kind of value is an error.\<close>

definition asSlice :: "json \<Rightarrow> json list option option" where
  "asSlice v = (case v of JArr vs \<Rightarrow> Some (Some vs) | JNull \<Rightarrow> Some None | _ \<Rightarrow> None)"

definition isStruct :: "json \<Rightarrow> bool" where
  "isStruct v = (case v of JObj _ \<Rightarrow> True | JNull \<Rightarrow> True | _ \<Rightarrow> False)"

end
