(* ===== verification/Binance.thy ===== *)
theory Binance
  imports MarketRead Json "HOL-Library.Char_ord"
begin

text \<open>
  \<^verbatim>\<open>backend/internal/market/crypto\<close> and \<^verbatim>\<open>backend/internal/market/stock\<close>: the sources of the market runtime.

  The network is a parameter: a request for a path is answered by an error or by a status and a body.  So is the
  text level of \<^verbatim>\<open>encoding/json\<close> and \<^verbatim>\<open>strconv.ParseFloat\<close>, a \<open>codec\<close> (\<open>Json\<close>).
\<close>

section \<open>The exchange\<close>

record binance =
  bBaseURL :: string
  bFutures :: bool
  bInterval :: int

definition defaultBaseURL :: string where "defaultBaseURL = ''https://api.binance.com''"
definition futuresBaseURL :: string where "futuresBaseURL = ''https://fapi.binance.com''"
definition defaultInterval :: int where "defaultInterval = 1000000000"
definition maxMarketReadBody :: nat where "maxMarketReadBody = 4 * 2 ^ 20"

definition NewBinance :: binance where
  "NewBinance = \<lparr>bBaseURL = defaultBaseURL, bFutures = False, bInterval = defaultInterval\<rparr>"

definition NewBinanceFutures :: binance where
  "NewBinanceFutures = NewBinance\<lparr>bBaseURL := futuresBaseURL, bFutures := True\<rparr>"

definition urlFor :: "binance \<Rightarrow> string \<Rightarrow> string" where
  "urlFor b endpoint =
     (let prefix = (if bFutures b then ''/fapi/v1/'' else ''/api/v3/'');
          base = (if bBaseURL b = [] then if bFutures b then futuresBaseURL else defaultBaseURL else bBaseURL b)
      in base @ prefix @ endpoint)"

text \<open>The reply of the server: its status and its body, of which the reader takes a limited number of bytes.\<close>

record reply =
  rpStatus :: int
  rpBody :: string

text \<open>What is asked of the exchange.  \<open>path\<close> is the text of the request, which \<^verbatim>\<open>net/url\<close> encodes; \<open>net\<close> sends it.\<close>

datatype binanceRequest = TickerPrice string | Klines string string int int int | ExchangeInfo string

record network =
  nwPath :: "binanceRequest \<Rightarrow> string"
  nwGet :: "string \<Rightarrow> err + reply"

definition binanceFailure :: "codec \<Rightarrow> string \<Rightarrow> err" where
  "binanceFailure cx body =
     (let code = (case cxDecode cx body of
                    Some (v, True) \<Rightarrow> (case fieldOf cx ''code'' v of
                                          Some (JNum n) \<Rightarrow> (case ParseInt n of Some k \<Rightarrow> k | None \<Rightarrow> 0)
                                        | _ \<Rightarrow> 0)
                  | _ \<Rightarrow> 0)
      in if code = -1121 \<or> code = -1100 then ErrUnknownSymbol else ErrSource)"

text \<open>A field of type \<^verbatim>\<open>string\<close>: missing and \<^verbatim>\<open>null\<close> give the empty string, another kind of value fails the decoding.\<close>

definition stringField :: "codec \<Rightarrow> string \<Rightarrow> json \<Rightarrow> string option" where
  "stringField cx name v = (case fieldOf cx name v of
     None \<Rightarrow> Some [] | Some JNull \<Rightarrow> Some [] | Some (JStr t) \<Rightarrow> Some t | _ \<Rightarrow> None)"

definition tickerPrice :: "codec \<Rightarrow> json \<Rightarrow> (string \<times> string) option" where
  "tickerPrice cx v =
     (if \<not> isStruct v then None
      else case (stringField cx ''symbol'' v, stringField cx ''price'' v) of
             (Some y, Some p) \<Rightarrow> Some (y, p) | _ \<Rightarrow> None)"

definition fetch :: "codec \<Rightarrow> network \<Rightarrow> binance \<Rightarrow> string \<Rightarrow> err + float64" where
  "fetch cx nw b symbol =
     (case nwGet nw (urlFor b (nwPath nw (TickerPrice symbol))) of
        Inl x \<Rightarrow> Inl x
      | Inr resp \<Rightarrow>
          if rpStatus resp \<noteq> 200 then Inl (binanceFailure cx (take maxMarketReadBody (rpBody resp)))
          else case Option.bind (cxDecode cx (rpBody resp)) (\<lambda>(v, _). tickerPrice cx v) of
                 None \<Rightarrow> Inl ErrSource
               | Some (_, text) \<Rightarrow>
                   (case cxParseFloat cx text of
                      None \<Rightarrow> Inl ErrSource
                    | Some price \<Rightarrow> if price \<le> 0 then Inl ErrSource else Inr price))"

definition getJSON :: "codec \<Rightarrow> network \<Rightarrow> binance \<Rightarrow> binanceRequest \<Rightarrow> err + json" where
  "getJSON cx nw b req =
     (case nwGet nw (urlFor b (nwPath nw req)) of
        Inl x \<Rightarrow> Inl x
      | Inr resp \<Rightarrow>
          let body = take (maxMarketReadBody + 1) (rpBody resp)
          in if length body > maxMarketReadBody then Inl ErrInvalidSourceData
             else if rpStatus resp \<noteq> 200 then Inl (binanceFailure cx body)
             else case cxDecode cx body of
                    Some (v, True) \<Rightarrow> Inr v
                  | _ \<Rightarrow> Inl ErrInvalidSourceData)"

section \<open>Streaming prices\<close>

text \<open>
  The loop of \<^verbatim>\<open>Stream\<close>.  One round is what the program meets in it: the result of the fetch, the error of the context at
  that moment, and whether each of the two \<^verbatim>\<open>select\<close> statements takes the context's branch.  The result is the
  prices sent so far and the error returned, \<^const>\<open>None\<close> while the loop goes on.
\<close>

record round =
  rnFetched :: "err + float64"
  rnCtxErr :: "err option"
  rnDoneBeforeSend :: "err option"
  rnDoneBeforeTick :: "err option"

fun Stream :: "round list \<Rightarrow> float64 list \<times> err option" where
  "Stream [] = ([], None)"
| "Stream (rn # rns) =
     (case rnFetched rn of
        Inl x \<Rightarrow> ([], Some (case rnCtxErr rn of Some c \<Rightarrow> c | None \<Rightarrow> x))
      | Inr price \<Rightarrow>
          (case rnDoneBeforeSend rn of
             Some c \<Rightarrow> ([], Some c)
           | None \<Rightarrow>
               (case rnDoneBeforeTick rn of
                  Some c \<Rightarrow> ([price], Some c)
                | None \<Rightarrow> (let (prices, r) = Stream rns in (price # prices, r)))))"

text \<open>The stock market without a provider: every subscription fails at once.\<close>

definition unavailableStream :: "float64 list \<times> err option" where
  "unavailableStream = ([], Some ErrNotImplemented)"

section \<open>Candles\<close>

definition ceilUnixMilliseconds :: "time \<Rightarrow> int" where
  "ceilUnixMilliseconds t =
     (let unix = t div 1000000000; nanosecond = t mod 1000000000; milliseconds = unix * 1000 + nanosecond div 1000000
      in if nanosecond mod 1000000 \<noteq> 0 then milliseconds + 1 else milliseconds)"

definition UnixMilli :: "int \<Rightarrow> time" where
  "UnixMilli ms = ms * 1000000"

definition rawInt64 :: "json \<Rightarrow> int option" where
  "rawInt64 v = (case v of JNum n \<Rightarrow> ParseInt n | _ \<Rightarrow> None)"

definition rawFloat :: "codec \<Rightarrow> json \<Rightarrow> float64 option" where
  "rawFloat cx v = (case v of JStr t \<Rightarrow> cxParseFloat cx t | JNull \<Rightarrow> cxParseFloat cx [] | _ \<Rightarrow> None)"

definition parseRow :: "codec \<Rightarrow> json list \<Rightarrow> candle option" where
  "parseRow cx row =
     (if length row \<noteq> 12 then None
      else case (rawInt64 (row ! 0), rawInt64 (row ! 6), those (map (\<lambda>i. rawFloat cx (row ! i)) [1, 2, 3, 4, 5])) of
             (Some t0, Some t1, Some [a, h, l, c, v]) \<Rightarrow>
               Some \<lparr>cdOpenTime = UnixMilli t0, cdCloseTime = UnixMilli t1,
                     cdOpen = a, cdHigh = h, cdLow = l, cdClose = c, cdVolume = v\<rparr>
           | _ \<Rightarrow> None)"

text \<open>\<^verbatim>\<open>[][]json.RawMessage\<close>: \<^verbatim>\<open>null\<close> for the whole is the nil slice, for a row an empty one.\<close>

definition asRows :: "json \<Rightarrow> json list list option" where
  "asRows v = (case asSlice v of
     Some (Some rows) \<Rightarrow> those (map (\<lambda>row. map_option (\<lambda>r. case r of Some vs \<Rightarrow> vs | None \<Rightarrow> []) (asSlice row)) rows)
   | _ \<Rightarrow> None)"

definition OHLCV :: "codec \<Rightarrow> network \<Rightarrow> binance \<Rightarrow> err option \<Rightarrow> string \<Rightarrow> string \<Rightarrow> time \<Rightarrow> time \<Rightarrow> int \<Rightarrow> err + candle list" where
  "OHLCV cx nw b ctxErr symbol interval s e limit =
     (case ctxErr of
        Some x \<Rightarrow> Inl x
      | None \<Rightarrow>
          let startMillis = ceilUnixMilliseconds s; endMillis = ceilUnixMilliseconds e - 1
          in if startMillis > endMillis then Inr []
             else case getJSON cx nw b (Klines symbol interval startMillis endMillis limit) of
                    Inl x \<Rightarrow> Inl x
                  | Inr v \<Rightarrow>
                      (case asRows v of
                         None \<Rightarrow> Inl ErrInvalidSourceData
                       | Some rows \<Rightarrow>
                           (case those (map (parseRow cx) rows) of
                              None \<Rightarrow> Inl ErrInvalidSourceData
                            | Some candles \<Rightarrow> Inr candles)))"

section \<open>Market information\<close>

definition requiredSourceString :: "raw \<Rightarrow> string option" where
  "requiredSourceString r = (case r of Some (JStr t) \<Rightarrow> if TrimSpace t = [] then None else Some t | _ \<Rightarrow> None)"

definition requiredSourceStrings :: "raw \<Rightarrow> string list option" where
  "requiredSourceStrings r = (case r of
     Some (JArr vs) \<Rightarrow>
       (case those (map (\<lambda>v. case v of JStr t \<Rightarrow> Some t | JNull \<Rightarrow> Some [] | _ \<Rightarrow> None) vs) of
          Some ts \<Rightarrow> if list_all (\<lambda>t. TrimSpace t \<noteq> []) ts then Some ts else None
        | None \<Rightarrow> None)
   | _ \<Rightarrow> None)"

definition requiredSourceBool :: "raw \<Rightarrow> bool option" where
  "requiredSourceBool r = (case r of Some (JBool b) \<Rightarrow> Some b | _ \<Rightarrow> None)"

fun decimalFrom :: "int \<Rightarrow> int \<Rightarrow> int \<Rightarrow> string \<Rightarrow> bool" where
  "decimalFrom len index dot [] = True"
| "decimalFrom len index dot (c # cs) =
     (if CHR ''0'' \<le> c \<and> c \<le> CHR ''9'' then decimalFrom len (index + 1) dot cs
      else if c = CHR ''.'' \<and> dot = -1 \<and> index > 0 \<and> index < len - 1 then decimalFrom len (index + 1) index cs
      else False)"

definition requiredSourceDecimal :: "raw \<Rightarrow> string option" where
  "requiredSourceDecimal r = (case requiredSourceString r of
     None \<Rightarrow> None
   | Some value \<Rightarrow> if decimalFrom (int (length value)) 0 (-1) value then Some value else None)"

record binanceSymbol =
  bsSymbol :: raw
  bsStatus :: raw
  bsBaseAsset :: raw
  bsQuoteAsset :: raw
  bsOrderTypes :: raw
  bsSpotTradingAllowed :: raw
  bsMarginTradingAllowed :: raw
  bsFilters :: raw

definition toSymbol :: "codec \<Rightarrow> json \<Rightarrow> binanceSymbol" where
  "toSymbol cx v =
     \<lparr>bsSymbol = fieldOf cx ''symbol'' v, bsStatus = fieldOf cx ''status'' v, bsBaseAsset = fieldOf cx ''baseAsset'' v,
      bsQuoteAsset = fieldOf cx ''quoteAsset'' v, bsOrderTypes = fieldOf cx ''orderTypes'' v,
      bsSpotTradingAllowed = fieldOf cx ''isSpotTradingAllowed'' v, bsMarginTradingAllowed = fieldOf cx ''isMarginTradingAllowed'' v,
      bsFilters = fieldOf cx ''filters'' v\<rparr>"

record binanceFilter =
  bfType :: raw
  bfMinPrice :: raw
  bfMaxPrice :: raw
  bfTickSize :: raw
  bfMinQuantity :: raw
  bfMaxQuantity :: raw
  bfStepSize :: raw
  bfMinNotional :: raw
  bfNotional :: raw

definition toFilter :: "codec \<Rightarrow> json \<Rightarrow> binanceFilter" where
  "toFilter cx v =
     \<lparr>bfType = fieldOf cx ''filterType'' v, bfMinPrice = fieldOf cx ''minPrice'' v, bfMaxPrice = fieldOf cx ''maxPrice'' v,
      bfTickSize = fieldOf cx ''tickSize'' v, bfMinQuantity = fieldOf cx ''minQty'' v, bfMaxQuantity = fieldOf cx ''maxQty'' v,
      bfStepSize = fieldOf cx ''stepSize'' v, bfMinNotional = fieldOf cx ''minNotional'' v, bfNotional = fieldOf cx ''notional'' v\<rparr>"

definition structs :: "raw \<Rightarrow> json list option" where
  "structs r = (case r of
     Some v \<Rightarrow> (case asSlice v of Some (Some vs) \<Rightarrow> if list_all isStruct vs then Some vs else None | _ \<Rightarrow> None)
   | None \<Rightarrow> None)"

definition onlySymbol :: "binanceSymbol list \<Rightarrow> string \<Rightarrow> binanceSymbol list" where
  "onlySymbol symbols symbol = (case find (\<lambda>v. requiredSourceString (bsSymbol v) = Some symbol) symbols of
     None \<Rightarrow> [] | Some v \<Rightarrow> [v])"

text \<open>One round of the loop over the filters; the \<^verbatim>\<open>...Seen\<close> flags say that the field of the result was set.\<close>

definition applyFilter :: "bool \<Rightarrow> binanceFilter \<Rightarrow> marketInfo \<Rightarrow> err + marketInfo" where
  "applyFilter futures f info =
     (case requiredSourceString (bfType f) of
        None \<Rightarrow> Inl ErrInvalidSourceData
      | Some t \<Rightarrow>
          if t = ''PRICE_FILTER'' then
            (case (requiredSourceDecimal (bfMinPrice f), requiredSourceDecimal (bfMaxPrice f), requiredSourceDecimal (bfTickSize f)) of
               (Some lo, Some hi, Some tick) \<Rightarrow>
                 if miPriceFilter info \<noteq> None then Inl ErrInvalidSourceData
                 else Inr (info\<lparr>miPriceFilter := Some \<lparr>pfMinPrice = lo, pfMaxPrice = hi, pfTickSize = tick\<rparr>\<rparr>)
             | _ \<Rightarrow> Inl ErrInvalidSourceData)
          else if t = ''LOT_SIZE'' then
            (case (requiredSourceDecimal (bfMinQuantity f), requiredSourceDecimal (bfMaxQuantity f), requiredSourceDecimal (bfStepSize f)) of
               (Some lo, Some hi, Some tick) \<Rightarrow>
                 if miQuantityFilter info \<noteq> None then Inl ErrInvalidSourceData
                 else Inr (info\<lparr>miQuantityFilter := Some \<lparr>qfMinQuantity = lo, qfMaxQuantity = hi, qfStepSize = tick\<rparr>\<rparr>)
             | _ \<Rightarrow> Inl ErrInvalidSourceData)
          else if t = ''MIN_NOTIONAL'' \<or> t = ''NOTIONAL'' then
            (case requiredSourceDecimal (if futures then bfNotional f else bfMinNotional f) of
               Some least \<Rightarrow>
                 if miMinNotional info \<noteq> None then Inl ErrInvalidSourceData else Inr (info\<lparr>miMinNotional := Some least\<rparr>)
             | None \<Rightarrow> Inl ErrInvalidSourceData)
          else Inr info)"

fun applyFilters :: "bool \<Rightarrow> binanceFilter list \<Rightarrow> marketInfo \<Rightarrow> err + marketInfo" where
  "applyFilters futures [] info = Inr info"
| "applyFilters futures (f # fs) info =
     (case applyFilter futures f info of Inl x \<Rightarrow> Inl x | Inr info' \<Rightarrow> applyFilters futures fs info')"

text \<open>The checks of one symbol of the reply, without its filters.\<close>

definition symbolInfo :: "bool \<Rightarrow> string \<Rightarrow> binanceSymbol \<Rightarrow> marketInfo option" where
  "symbolInfo futures symbol v =
     (case (requiredSourceString (bsSymbol v), requiredSourceString (bsStatus v), requiredSourceString (bsBaseAsset v),
            requiredSourceString (bsQuoteAsset v), requiredSourceStrings (bsOrderTypes v)) of
        (Some y, Some st, Some base, Some quote, Some types) \<Rightarrow>
          if y \<noteq> symbol then None
          else let info = \<lparr>miSymbol = symbol, miStatus = st, miBaseAsset = base, miQuoteAsset = quote, miOrderTypes = types,
                           miSpotTradingAllowed = False, miMarginTradingAllowed = False,
                           miPriceFilter = None, miQuantityFilter = None, miMinNotional = None\<rparr>
               in if futures then Some info
                  else (case (requiredSourceBool (bsSpotTradingAllowed v), requiredSourceBool (bsMarginTradingAllowed v)) of
                          (Some spot, Some margin) \<Rightarrow> Some (info\<lparr>miSpotTradingAllowed := spot, miMarginTradingAllowed := margin\<rparr>)
                        | _ \<Rightarrow> None)
      | _ \<Rightarrow> None)"

definition withFilters :: "codec \<Rightarrow> bool \<Rightarrow> raw \<Rightarrow> marketInfo \<Rightarrow> err + marketInfo" where
  "withFilters cx futures filters info =
     (if filters = None \<or> filters = Some JNull then Inr info
      else case structs filters of
             None \<Rightarrow> Inl ErrInvalidSourceData
           | Some fs \<Rightarrow> applyFilters futures (map (toFilter cx) fs) info)"

definition infoFrom :: "codec \<Rightarrow> bool \<Rightarrow> string \<Rightarrow> binanceSymbol list \<Rightarrow> err + marketInfo" where
  "infoFrom cx futures symbol symbols =
     (case symbols of
        [] \<Rightarrow> Inl ErrUnknownSymbol
      | v # rest \<Rightarrow>
          if rest \<noteq> [] then Inl ErrInvalidSourceData
          else case symbolInfo futures symbol v of
                 None \<Rightarrow> Inl ErrInvalidSourceData
               | Some info \<Rightarrow> withFilters cx futures (bsFilters v) info)"

definition MarketInfo :: "codec \<Rightarrow> network \<Rightarrow> binance \<Rightarrow> string \<Rightarrow> err + marketInfo" where
  "MarketInfo cx nw b symbol =
     (case getJSON cx nw b (ExchangeInfo symbol) of
        Inl x \<Rightarrow> Inl x
      | Inr v \<Rightarrow>
          (case (if isStruct v then structs (fieldOf cx ''symbols'' v) else None) of
             None \<Rightarrow> Inl ErrInvalidSourceData
           | Some vs \<Rightarrow>
               infoFrom cx (bFutures b) symbol
                 (if bFutures b then onlySymbol (map (toSymbol cx) vs) symbol else map (toSymbol cx) vs)))"

text \<open>The exchange as a source of the market runtime.\<close>

definition binanceReader :: "codec \<Rightarrow> network \<Rightarrow> err option \<Rightarrow> binance \<Rightarrow> reader" where
  "binanceReader cx nw ctxErr b =
     \<lparr>rdName = ''binance'', rdOHLCV = Some (OHLCV cx nw b ctxErr), rdInfo = Some (MarketInfo cx nw b)\<rparr>"

section \<open>Properties\<close>

lemma ceilUnixMilliseconds_ceiling: "ceilUnixMilliseconds t = (t + 999999) div 1000000"
proof -
  define a where "a = t div 1000000000 * 1000 + t mod 1000000000 div 1000000"
  define b where "b = t mod 1000000000 mod 1000000"
  have "t = 1000000 * a + b" by (simp add: a_def b_def algebra_simps minus_mod_eq_mult_div [symmetric])
  then have "(t + 999999) div 1000000 = a + (b + 999999) div 1000000" by (simp add: add.assoc)
  moreover have "0 \<le> b" "b < 1000000" by (simp_all add: b_def)
  then have "(b + 999999) div 1000000 = (if b = 0 then 0 else 1)"
  proof (cases "b = 0")
    case False
    have "b + 999999 = (b - 1) + 1000000" by simp
    then have "(b + 999999) div 1000000 = (b - 1) div 1000000 + 1" by (simp only: div_add_self2)
    moreover have "(b - 1) div 1000000 = 0" using False \<open>0 \<le> b\<close> \<open>b < 1000000\<close> by (intro div_pos_pos_trivial) simp_all
    ultimately show ?thesis using False by simp
  qed simp
  ultimately have "(t + 999999) div 1000000 = (if b \<noteq> 0 then a + 1 else a)" by simp
  then show ?thesis unfolding ceilUnixMilliseconds_def Let_def a_def [symmetric] b_def [symmetric] by (rule sym)
qed

text \<open>
  The range of milliseconds that is asked of the exchange is exactly the range of the window: an open time of
  \<open>ms\<close> milliseconds is inside it if and only if the instant is at or after the start and before the end.
\<close>

theorem klines_range_is_window:
  "ceilUnixMilliseconds s \<le> ms \<and> ms \<le> ceilUnixMilliseconds e - 1 \<longleftrightarrow> s \<le> UnixMilli ms \<and> UnixMilli ms < e"
  unfolding ceilUnixMilliseconds_ceiling UnixMilli_def by linarith

text \<open>A price that is sent is one that was fetched, and a fetched price is not zero or negative.\<close>

lemma fetch_not_below: "fetch cx nw b symbol = Inr p \<Longrightarrow> \<not> p \<le> 0"
  by (auto simp: fetch_def Option.bind_def split: sum.splits if_splits option.splits)

lemma Stream_prices: "p \<in> set (fst (Stream rns)) \<Longrightarrow> \<exists>rn \<in> set rns. rnFetched rn = Inr p"
  by (induction rns rule: Stream.induct) (auto split: sum.splits option.splits prod.splits)

text \<open>An exchange that answers \<^verbatim>\<open>"NaN"\<close> for a price passes the check, since NaN is not below or equal to zero.\<close>

definition nanCodec :: codec where
  "nanCodec = \<lparr>cxDecode = (\<lambda>_. Some (JObj [(''price'', JStr ''NaN'')], True)), cxField = (\<lambda>k kvs. map_of kvs k),
     cxParseFloat = (\<lambda>t. if t = ''NaN'' then Some NaN else None)\<rparr>"

lemma fetch_lets_nan_through:
  "fetch nanCodec \<lparr>nwPath = (\<lambda>_. []), nwGet = (\<lambda>_. Inr \<lparr>rpStatus = 200, rpBody = []\<rparr>)\<rparr> NewBinance ''BTC'' = Inr NaN"
  by code_simp

subsection \<open>What market information the backend passes on\<close>

text \<open>A decimal number as the exchange writes it: digits, and at most one point between digits.\<close>

definition isDigit :: "char \<Rightarrow> bool" where
  "isDigit c = (CHR ''0'' \<le> c \<and> c \<le> CHR ''9'')"

definition isDecimal :: "string \<Rightarrow> bool" where
  "isDecimal t = (t \<noteq> [] \<and> (list_all isDigit t \<or> (\<exists>a b. a \<noteq> [] \<and> b \<noteq> [] \<and> list_all isDigit a \<and> list_all isDigit b \<and> t = a @ ''.'' @ b)))"

lemma decimalFrom_digits: "dot \<noteq> -1 \<Longrightarrow> decimalFrom len i dot cs \<longleftrightarrow> list_all isDigit cs"
  by (induction cs arbitrary: i) (auto simp: isDigit_def)

lemma decimalFrom_pre:
  assumes "0 \<le> i"
  shows "decimalFrom (i + int (length cs)) i (-1) cs \<longleftrightarrow>
    list_all isDigit cs \<or> (\<exists>a b. (a \<noteq> [] \<or> 0 < i) \<and> b \<noteq> [] \<and> list_all isDigit a \<and> list_all isDigit b \<and> cs = a @ ''.'' @ b)"
  using assms
proof (induction cs arbitrary: i)
  case (Cons c cs)
  have len: "i + int (length (c # cs)) = (i + 1) + int (length cs)" by simp
  show ?case
  proof (cases "isDigit c")
    case True
    then have "decimalFrom (i + int (length (c # cs))) i (-1) (c # cs) = decimalFrom ((i + 1) + int (length cs)) (i + 1) (-1) cs"
      unfolding len by (simp add: isDigit_def)
    also have "\<dots> \<longleftrightarrow> list_all isDigit cs \<or> (\<exists>a b. b \<noteq> [] \<and> list_all isDigit a \<and> list_all isDigit b \<and> cs = a @ ''.'' @ b)"
      using Cons.IH [of "i + 1"] Cons.prems by simp
    also have "\<dots> \<longleftrightarrow> list_all isDigit (c # cs) \<or>
        (\<exists>a b. (a \<noteq> [] \<or> 0 < i) \<and> b \<noteq> [] \<and> list_all isDigit a \<and> list_all isDigit b \<and> c # cs = a @ ''.'' @ b)"
    proof -
      have "(\<exists>a b. (a \<noteq> [] \<or> 0 < i) \<and> b \<noteq> [] \<and> list_all isDigit a \<and> list_all isDigit b \<and> c # cs = a @ ''.'' @ b) \<longleftrightarrow>
          (\<exists>a b. b \<noteq> [] \<and> list_all isDigit a \<and> list_all isDigit b \<and> cs = a @ ''.'' @ b)" (is "?l \<longleftrightarrow> ?r")
      proof
        assume ?l
        then obtain a b where ab: "b \<noteq> []" "list_all isDigit a" "list_all isDigit b" "c # cs = a @ ''.'' @ b" by blast
        then have "a \<noteq> []" using True by (auto simp: isDigit_def)
        then show ?r using ab by (cases a) auto
      next
        assume ?r
        then obtain a b where "b \<noteq> []" "list_all isDigit a" "list_all isDigit b" "cs = a @ ''.'' @ b" by blast
        then show ?l using True by (intro exI [of _ "c # a"] exI [of _ b]) simp
      qed
      then show ?thesis using True by simp
    qed
    finally show ?thesis .
  next
    case False
    then have nd: "\<not> (CHR ''0'' \<le> c \<and> c \<le> CHR ''9'')" by (simp add: isDigit_def)
    have "decimalFrom (i + int (length (c # cs))) i (-1) (c # cs) \<longleftrightarrow> c = CHR ''.'' \<and> 0 < i \<and> cs \<noteq> [] \<and> list_all isDigit cs"
    proof -
      have "decimalFrom (i + int (length (c # cs))) i (-1) (c # cs) \<longleftrightarrow>
          c = CHR ''.'' \<and> 0 < i \<and> 0 < length cs \<and> decimalFrom (i + int (length (c # cs))) (i + 1) i cs"
        by (auto simp: nd)
      then show ?thesis using Cons.prems decimalFrom_digits [of i] by simp
    qed
    also have "\<dots> \<longleftrightarrow> (\<exists>a b. (a \<noteq> [] \<or> 0 < i) \<and> b \<noteq> [] \<and> list_all isDigit a \<and> list_all isDigit b \<and> c # cs = a @ ''.'' @ b)" (is "?l \<longleftrightarrow> ?r")
    proof
      assume ?l
      then show ?r by (intro exI [of _ "[]"] exI [of _ cs]) simp
    next
      assume ?r
      then obtain a b where "a \<noteq> [] \<or> 0 < i" "b \<noteq> []" "list_all isDigit a" "list_all isDigit b" "c # cs = a @ ''.'' @ b" by blast
      then show ?l using False by (cases a) auto
    qed
    finally show ?thesis using False by simp
  qed
qed simp

lemma requiredSourceString_Some: "requiredSourceString r = Some t \<Longrightarrow> TrimSpace t \<noteq> []"
  by (auto simp: requiredSourceString_def split: option.splits json.splits if_splits)

lemma requiredSourceStrings_Some: "requiredSourceStrings r = Some ts \<Longrightarrow> \<forall>t \<in> set ts. TrimSpace t \<noteq> []"
  by (auto simp: requiredSourceStrings_def list_all_iff split: option.splits json.splits if_splits)

lemma requiredSourceDecimal_isDecimal:
  assumes "requiredSourceDecimal r = Some t"
  shows "isDecimal t"
proof -
  have "requiredSourceString r = Some t" and d: "decimalFrom (0 + int (length t)) 0 (-1) t"
    using assms by (auto simp: requiredSourceDecimal_def split: option.splits if_splits)
  then have "t \<noteq> []" using requiredSourceString_Some by fastforce
  then show ?thesis using d unfolding decimalFrom_pre [OF order_refl] isDecimal_def by blast
qed

definition infoOK :: "bool \<Rightarrow> string \<Rightarrow> marketInfo \<Rightarrow> bool" where
  "infoOK futures symbol info =
     (miSymbol info = symbol \<and> TrimSpace (miStatus info) \<noteq> [] \<and> TrimSpace (miBaseAsset info) \<noteq> [] \<and> TrimSpace (miQuoteAsset info) \<noteq> [] \<and>
      (\<forall>t \<in> set (miOrderTypes info). TrimSpace t \<noteq> []) \<and>
      (futures \<longrightarrow> \<not> miSpotTradingAllowed info \<and> \<not> miMarginTradingAllowed info) \<and>
      (\<forall>pf. miPriceFilter info = Some pf \<longrightarrow> isDecimal (pfMinPrice pf) \<and> isDecimal (pfMaxPrice pf) \<and> isDecimal (pfTickSize pf)) \<and>
      (\<forall>qf. miQuantityFilter info = Some qf \<longrightarrow> isDecimal (qfMinQuantity qf) \<and> isDecimal (qfMaxQuantity qf) \<and> isDecimal (qfStepSize qf)) \<and>
      (\<forall>t. miMinNotional info = Some t \<longrightarrow> isDecimal t))"

lemma symbolInfo_ok:
  assumes "symbolInfo futures symbol v = Some info"
  shows "infoOK futures symbol info"
proof -
  obtain y st base quote types where
    r: "requiredSourceString (bsSymbol v) = Some y" "requiredSourceString (bsStatus v) = Some st" "requiredSourceString (bsBaseAsset v) = Some base"
      "requiredSourceString (bsQuoteAsset v) = Some quote" "requiredSourceStrings (bsOrderTypes v) = Some types"
    using assms unfolding symbolInfo_def by (force split: option.splits)
  then show ?thesis using assms requiredSourceString_Some [OF r(2)] requiredSourceString_Some [OF r(3)]
      requiredSourceString_Some [OF r(4)] requiredSourceStrings_Some [OF r(5)]
    by (auto simp: symbolInfo_def infoOK_def Let_def split: option.splits if_splits)
qed

lemma applyFilter_ok:
  assumes ok: "infoOK futures symbol info" and f: "applyFilter futures f info = Inr info'"
  shows "infoOK futures symbol info'"
proof -
  obtain t where t: "requiredSourceString (bfType f) = Some t" using f by (auto simp: applyFilter_def split: option.splits)
  consider (price) "t = ''PRICE_FILTER''" | (lot) "t = ''LOT_SIZE''"
    | (notional) "t \<noteq> ''PRICE_FILTER''" "t \<noteq> ''LOT_SIZE''" "t = ''MIN_NOTIONAL'' \<or> t = ''NOTIONAL''"
    | (other) "t \<noteq> ''PRICE_FILTER''" "t \<noteq> ''LOT_SIZE''" "\<not> (t = ''MIN_NOTIONAL'' \<or> t = ''NOTIONAL'')" by blast
  then show ?thesis
  proof cases
    case price
    then obtain lo hi tick where r: "requiredSourceDecimal (bfMinPrice f) = Some lo" "requiredSourceDecimal (bfMaxPrice f) = Some hi"
      "requiredSourceDecimal (bfTickSize f) = Some tick" "info' = info\<lparr>miPriceFilter := Some \<lparr>pfMinPrice = lo, pfMaxPrice = hi, pfTickSize = tick\<rparr>\<rparr>"
      using f t by (auto simp: applyFilter_def split: option.splits if_splits)
    then show ?thesis using ok r(1-3) [THEN requiredSourceDecimal_isDecimal] by (simp add: infoOK_def)
  next
    case lot
    then obtain lo hi tick where r: "requiredSourceDecimal (bfMinQuantity f) = Some lo" "requiredSourceDecimal (bfMaxQuantity f) = Some hi"
      "requiredSourceDecimal (bfStepSize f) = Some tick" "info' = info\<lparr>miQuantityFilter := Some \<lparr>qfMinQuantity = lo, qfMaxQuantity = hi, qfStepSize = tick\<rparr>\<rparr>"
      using f t by (auto simp: applyFilter_def split: option.splits if_splits)
    then show ?thesis using ok r(1-3) [THEN requiredSourceDecimal_isDecimal] by (simp add: infoOK_def)
  next
    case notional
    then have "(case requiredSourceDecimal (if futures then bfNotional f else bfMinNotional f) of
        Some least \<Rightarrow> if miMinNotional info \<noteq> None then Inl ErrInvalidSourceData else Inr (info\<lparr>miMinNotional := Some least\<rparr>)
      | None \<Rightarrow> Inl ErrInvalidSourceData) = Inr info'"
      using f t by (simp only: applyFilter_def option.case if_False if_True)
    then obtain least where r: "requiredSourceDecimal (if futures then bfNotional f else bfMinNotional f) = Some least"
      "info' = info\<lparr>miMinNotional := Some least\<rparr>"
      by (cases "requiredSourceDecimal (if futures then bfNotional f else bfMinNotional f)") (simp_all split: if_split_asm)
    then show ?thesis using ok requiredSourceDecimal_isDecimal [OF r(1)] by (simp add: infoOK_def)
  next
    case other
    then have "info' = info" using f t by (simp add: applyFilter_def)
    then show ?thesis using ok by simp
  qed
qed

lemma applyFilters_ok:
  "infoOK futures symbol info \<Longrightarrow> applyFilters futures fs info = Inr info' \<Longrightarrow> infoOK futures symbol info'"
  by (induction fs arbitrary: info) (auto split: sum.splits intro: applyFilter_ok)

lemma withFilters_ok:
  "infoOK futures symbol info \<Longrightarrow> withFilters cx futures fs info = Inr info' \<Longrightarrow> infoOK futures symbol info'"
  by (auto simp: withFilters_def split: if_split_asm option.split_asm intro: applyFilters_ok)

lemma infoFrom_ok: "infoFrom cx futures symbol symbols = Inr info \<Longrightarrow> infoOK futures symbol info"
  by (auto simp: infoFrom_def split: if_split_asm option.split_asm list.split_asm intro: withFilters_ok symbolInfo_ok)

text \<open>
  Market information that is accepted from the exchange is about the symbol that was asked for, names its status
  and assets, has every price, quantity and notional limit as a plain decimal number, and never allows spot
  trading of a futures contract.
\<close>

theorem MarketInfo_checked:
  assumes "MarketInfo cx nw b symbol = Inr info"
  shows "infoOK (bFutures b) symbol info"
  using assms infoFrom_ok unfolding MarketInfo_def by (simp split: sum.splits option.splits)

definition infoReply :: json where
  "infoReply = JObj [(''symbols'', JArr [JObj [(''symbol'', JStr ''BTC''), (''status'', JStr ''TRADING''),
     (''baseAsset'', JStr ''BTC''), (''quoteAsset'', JStr ''USDT''), (''orderTypes'', JArr [JStr ''LIMIT'']),
     (''isSpotTradingAllowed'', JBool True), (''isMarginTradingAllowed'', JBool False),
     (''filters'', JArr [JObj [(''filterType'', JStr ''NOTIONAL''), (''minNotional'', JStr ''5.00'')]])]])]"

definition infoCodec :: codec where
  "infoCodec = \<lparr>cxDecode = (\<lambda>_. Some (infoReply, True)), cxField = (\<lambda>k kvs. map_of kvs k), cxParseFloat = (\<lambda>t. None)\<rparr>"

definition infoNetwork :: network where
  "infoNetwork = \<lparr>nwPath = (\<lambda>_. []), nwGet = (\<lambda>_. Inr \<lparr>rpStatus = 200, rpBody = []\<rparr>)\<rparr>"

theorem MarketInfo_checked_witness:
  "\<exists>info. MarketInfo infoCodec infoNetwork NewBinance ''BTC'' = Inr info \<and> infoOK False ''BTC'' info \<and> miMinNotional info = Some ''5.00''"
proof -
  have "getJSON infoCodec infoNetwork NewBinance (ExchangeInfo ''BTC'') = Inr infoReply"
    by (simp add: getJSON_def infoCodec_def infoNetwork_def)
  moreover have "structs (fieldOf infoCodec ''symbols'' infoReply) \<noteq> None" "isStruct infoReply"
    "case infoFrom infoCodec False ''BTC'' (map (toSymbol infoCodec) (the (structs (fieldOf infoCodec ''symbols'' infoReply)))) of
       Inr info \<Rightarrow> miMinNotional info = Some ''5.00'' | Inl x \<Rightarrow> False"
    by code_simp+
  ultimately obtain info where i: "MarketInfo infoCodec infoNetwork NewBinance ''BTC'' = Inr info" "miMinNotional info = Some ''5.00''"
    by (auto simp: MarketInfo_def NewBinance_def split: sum.splits)
  then show ?thesis using MarketInfo_checked [OF i(1)] by (auto simp: NewBinance_def)
qed

end
