(* ===== verification/MarketApi.thy ===== *)
theory MarketApi
  imports Api Binance
begin

text \<open>
  The handlers of \<^verbatim>\<open>backend/internal/api/market.go\<close> that read from the market runtime directly.  A handler answers with a
  failure, \<^const>\<open>Inl\<close>, or with status 200 and its result.  \<open>parseTime\<close> is \<^verbatim>\<open>time.Parse\<close> for RFC 3339.
\<close>

definition marketSubscriptions :: "runtime \<Rightarrow> (string \<times> subState) list" where
  "marketSubscriptions r = Snapshot r"

definition timeParam :: "(string \<Rightarrow> time option) \<Rightarrow> params \<Rightarrow> string \<Rightarrow> response + time" where
  "timeParam parseTime ps name =
     (let raw = Query ps name
      in if raw = [] then Inr zeroTime
         else case parseTime raw of None \<Rightarrow> Inl (fail 400 ''invalid_request'') | Some t \<Rightarrow> Inr t)"

definition limitParam :: "params \<Rightarrow> response + int" where
  "limitParam ps = (case map_of ps ''limit'' of
     None \<Rightarrow> Inr DefaultOHLCVLimit
   | Some raw \<Rightarrow> (case ParseInt raw of None \<Rightarrow> Inl (fail 400 ''invalid_request'') | Some n \<Rightarrow> Inr n))"

definition marketOHLCV ::
  "(string \<Rightarrow> time option) \<Rightarrow> (candle list \<Rightarrow> candle list) \<Rightarrow> (string \<Rightarrow> reader) \<Rightarrow> (string \<Rightarrow> string) \<Rightarrow> (string \<Rightarrow> string) \<Rightarrow>
   runtime \<Rightarrow> time \<Rightarrow> params \<Rightarrow> response + ohlcvResult" where
  "marketOHLCV parseTime srt readers lo up r now ps =
     (case timeParam parseTime ps ''start_time'' of
        Inl x \<Rightarrow> Inl x
      | Inr s \<Rightarrow>
          (case timeParam parseTime ps ''end_time'' of
             Inl x \<Rightarrow> Inl x
           | Inr e \<Rightarrow>
               (case limitParam ps of
                  Inl x \<Rightarrow> Inl x
                | Inr limit \<Rightarrow>
                    (case GetOHLCV srt readers lo up r now (DefaultQuery ps ''market'' Crypto) (Query ps ''symbol'')
                            (TrimSpace (Query ps ''interval'')) s e limit of
                       Inl x \<Rightarrow> Inl (writeMarketError x)
                     | Inr res \<Rightarrow> Inr res))))"

definition marketInfoAt ::
  "(string \<Rightarrow> reader) \<Rightarrow> (string \<Rightarrow> string) \<Rightarrow> (string \<Rightarrow> string) \<Rightarrow> runtime \<Rightarrow> time \<Rightarrow> params \<Rightarrow> response + marketInfoResult" where
  "marketInfoAt readers lo up r now ps =
     (case GetMarketInfo readers lo up r now (DefaultQuery ps ''market'' Crypto) (Query ps ''symbol'') of
        Inl x \<Rightarrow> Inl (writeMarketError x)
      | Inr res \<Rightarrow> Inr res)"

text \<open>
  The candle endpoint refuses what the runtime would not answer before it reads anything from the exchange: an empty
  symbol, an unknown market, another interval and a limit outside 1 to 500 are answered with 400 whatever the exchange does.
\<close>

theorem candle_requests_are_checked:
  assumes "timeParam parseTime ps ''start_time'' = Inr s" "timeParam parseTime ps ''end_time'' = Inr e" "limitParam ps = Inr limit"
    and "\<not> rClosed r"
    and "TrimSpace (Query ps ''symbol'') = [] \<or> TrimSpace (Query ps ''interval'') \<notin> set supportedOHLCVIntervals \<or> limit < 1 \<or> 500 < limit"
  shows "\<exists>resp. marketOHLCV parseTime srt readers lo up r now ps = Inl resp \<and> status resp = 400"
proof -
  define rs where "rs = readSource lo up r (DefaultQuery ps ''market'' Crypto) (Query ps ''symbol'')"
  have empty: "rs = Inl ErrEmptySymbol" if "TrimSpace (Query ps ''symbol'') = []"
    using that by (simp add: rs_def readSource_def normalizePair_def ToUpper_def is_ascii_def)
  have rs: "rs = Inl ErrEmptySymbol \<or> rs = Inl ErrUnknownMarket \<or> (\<exists>m y. rs = Inr (m, y))"
    using assms(4) by (auto simp: rs_def readSource_def normalizePair_def Let_def split: sum.splits if_splits)
  have bad: "status (fail 400 c) = 400" for c by (simp add: fail_def)
  have "\<exists>x. GetOHLCV srt readers lo up r now (DefaultQuery ps ''market'' Crypto) (Query ps ''symbol'')
      (TrimSpace (Query ps ''interval'')) s e limit = Inl x \<and> x \<in> {ErrEmptySymbol, ErrUnknownMarket, ErrUnsupportedInterval, ErrInvalidOHLCVLimit}"
    using rs empty assms(5) by (auto simp: GetOHLCV_def rs_def [symmetric] MaxOHLCVLimit_def)
  then show ?thesis using assms(1-3) bad by (auto simp: marketOHLCV_def writeMarketError_def)
qed

theorem candle_requests_are_checked_witness:
  "\<exists>resp. marketOHLCV (\<lambda>_. None) (sort_key cdOpenTime) (\<lambda>_. minuteReader) id id minuteRuntime 590000000000
     [(''symbol'', ''btc''), (''interval'', ''2m'')] = Inl resp \<and> status resp = 400"
proof -
  let ?ps = "[(''symbol'', ''btc''), (''interval'', ''2m'')]"
  have "timeParam (\<lambda>_. None) ?ps ''start_time'' = Inr zeroTime" "timeParam (\<lambda>_. None) ?ps ''end_time'' = Inr zeroTime"
    "limitParam ?ps = Inr 100" "\<not> rClosed minuteRuntime"
    "TrimSpace (Query ?ps ''interval'') \<notin> set supportedOHLCVIntervals"
    by code_simp+
  then show ?thesis using candle_requests_are_checked [of "\<lambda>_. None" ?ps zeroTime zeroTime 100 minuteRuntime] by blast
qed

end
