(* ===== verification/SqlMonad.thy ===== *)
theory SqlMonad
  imports Main
begin

text \<open>
  Computations of the agent server on its database.  A computation counts its statements; \<open>flt n\<close> says that the \<open>n\<close>-th one
  fails, with an error \<open>x\<close> of the instance, and a failing statement changes nothing.  The caller rolls a failed
  transaction back by keeping the old state.
\<close>

type_synonym ('s, 'x, 'a) sqlm = "(nat \<Rightarrow> bool) \<Rightarrow> 's \<times> nat \<Rightarrow> ('x + 'a) \<times> 's \<times> nat"

definition stmtF :: "'x \<Rightarrow> ('s \<Rightarrow> ('x + 'a) \<times> 's) \<Rightarrow> ('s, 'x, 'a) sqlm" where
  "stmtF x f = (\<lambda>flt (c, n).
     if flt n then (Inl x, c, Suc n)
     else case f c of (Inl y, _) \<Rightarrow> (Inl y, c, Suc n) | (Inr a, c') \<Rightarrow> (Inr a, c', Suc n))"

definition pureD :: "'a \<Rightarrow> ('s, 'x, 'a) sqlm" where
  "pureD a = (\<lambda>flt s. (Inr a, s))"

definition reject :: "'x \<Rightarrow> ('s, 'x, 'a) sqlm" where
  "reject x = (\<lambda>flt s. (Inl x, s))"

definition andThenD :: "('s, 'x, 'a) sqlm \<Rightarrow> ('a \<Rightarrow> ('s, 'x, 'b) sqlm) \<Rightarrow> ('s, 'x, 'b) sqlm" where
  "andThenD m f = (\<lambda>flt s. case m flt s of (Inl x, s') \<Rightarrow> (Inl x, s') | (Inr a, s') \<Rightarrow> f a flt s')"

text \<open>A loop over rows that threads a value.\<close>

fun foldD :: "('b \<Rightarrow> 'a \<Rightarrow> ('s, 'x, 'a) sqlm) \<Rightarrow> 'b list \<Rightarrow> 'a \<Rightarrow> ('s, 'x, 'a) sqlm" where
  "foldD f [] a = pureD a"
| "foldD f (b # bs) a = andThenD (f b a) (foldD f bs)"

section \<open>Successful computations\<close>

lemma andThenD_Inr:
  "andThenD m f flt s = (Inr b, s') \<longleftrightarrow> (\<exists>a s1. m flt s = (Inr a, s1) \<and> f a flt s1 = (Inr b, s'))"
  by (auto simp: andThenD_def split: prod.splits sum.splits)

lemma stmtF_Inr: "stmtF x f flt (c, n) = (Inr a, c', n') \<longleftrightarrow> \<not> flt n \<and> f c = (Inr a, c') \<and> n' = Suc n"
  by (auto simp: stmtF_def split: prod.splits sum.splits)

lemma pureD_Inr: "pureD a flt s = (Inr b, s') \<longleftrightarrow> b = a \<and> s' = s"
  by (auto simp: pureD_def)

lemma reject_Inr: "reject x flt s \<noteq> (Inr b, s')"
  by (simp add: reject_def)

text \<open>
  What holds after every success: \<open>succ P m Q\<close> says that \<open>m\<close>, started where \<open>P\<close> holds of the state, leaves a result and a state
  in \<open>Q\<close> when it succeeds, whichever statements fail in other runs.
\<close>

definition succ :: "('s \<Rightarrow> bool) \<Rightarrow> ('s, 'x, 'a) sqlm \<Rightarrow> ('a \<Rightarrow> 's \<Rightarrow> bool) \<Rightarrow> bool" where
  "succ P m Q = (\<forall>flt c n a c' n'. P c \<longrightarrow> m flt (c, n) = (Inr a, c', n') \<longrightarrow> Q a c')"

lemma succI: "(\<And>flt c n a c' n'. P c \<Longrightarrow> m flt (c, n) = (Inr a, c', n') \<Longrightarrow> Q a c') \<Longrightarrow> succ P m Q"
  unfolding succ_def by blast

lemma succD: "succ P m Q \<Longrightarrow> P c \<Longrightarrow> m flt (c, n) = (Inr a, c', n') \<Longrightarrow> Q a c'"
  unfolding succ_def by blast

lemma succ_weaken: "succ P m Q \<Longrightarrow> (\<And>c. P' c \<Longrightarrow> P c) \<Longrightarrow> (\<And>a c. Q a c \<Longrightarrow> Q' a c) \<Longrightarrow> succ P' m Q'"
  unfolding succ_def by blast

lemma succ_pure: "(\<And>c. P c \<Longrightarrow> Q a c) \<Longrightarrow> succ P (pureD a) Q"
  by (auto simp: succ_def pureD_Inr)

lemma succ_reject: "succ P (reject x) Q"
  by (simp add: succ_def reject_Inr)

lemma succ_stmt: "(\<And>c a c'. P c \<Longrightarrow> f c = (Inr a, c') \<Longrightarrow> Q a c') \<Longrightarrow> succ P (stmtF x f) Q"
  by (auto simp: succ_def stmtF_Inr)

lemma succ_andThen: "succ P m R \<Longrightarrow> (\<And>a. succ (R a) (f a) Q) \<Longrightarrow> succ P (andThenD m f) Q"
  unfolding succ_def andThenD_Inr by (metis prod.collapse)

lemma succ_fold:
  assumes "\<And>b a. b \<in> set bs \<Longrightarrow> succ (I a) (f b a) I"
  shows "succ (I a) (foldD f bs a) I"
  using assms
proof (induction bs arbitrary: a)
  case Nil
  then show ?case by (simp add: succ_pure)
next
  case (Cons b bs)
  then show ?case unfolding foldD.simps by (intro succ_andThen [where R = I]) simp_all
qed

end
