(* ===== verification/Cabinet.thy ===== *)
theory Cabinet
  imports Models SqlMonad "HOL-Library.List_Lexorder" "HOL-Library.Char_ord"
begin

text \<open>
  The memory cabinet of the agent server: \<^verbatim>\<open>agent_server/internal/memory/memory.go\<close> and its use in
  \<^verbatim>\<open>agent_server/internal/agent/memory.go\<close>.  An agent saves, edits, lists and reads labelled memories of its session
  during a run; a user may delete them.

  The tables are lists of rows in the order of insertion, and the operations are computations of \<open>SqlMonad\<close>.  Times are stored as text in a
  fixed-width layout, so that their order as text is their order in time; \<open>format\<close> is \<^verbatim>\<open>Time.Format\<close>.
  The arguments of a tool call are the decoded struct, \<^const>\<open>None\<close> when \<^verbatim>\<open>tools.DecodeArguments\<close> refuses the text.
\<close>

section \<open>Limits and rows\<close>

definition Capacity :: int where "Capacity = 60"
definition MaxTitleRunes :: nat where "MaxTitleRunes = 100"
definition MaxMsgRunes :: nat where "MaxMsgRunes = 800"
definition MaxBringBackRunes :: nat where "MaxBringBackRunes = 3000"
definition MaxListItems :: int where "MaxListItems = 20"
definition RecentIndexItems :: int where "RecentIndexItems = 10"
definition maxSummaryRunes :: nat where "maxSummaryRunes = 500"

record memory =
  memID :: int
  memSession :: string
  memTitle :: string
  memMsg :: string
  memBringBack :: bool
  memCreatedAt :: string
  memUpdatedAt :: string
  memCreatedRun :: int
  memUpdatedRun :: int

record label =
  lbID :: int
  lbTitle :: string
  lbCreatedAt :: string

record recalled =
  rcID :: int
  rcTitle :: string
  rcMsg :: string

record listFilter =
  lfQuery :: string
  lfSince :: "time option"
  lfUntil :: "time option"
  lfBeforeID :: int
  lfAfterID :: int
  lfLimit :: int

record edit =
  edTitle :: "string option"
  edMsg :: "string option"
  edBringBack :: "bool option"

text \<open>\<open>cbSeq\<close> is the last identifier handed out: \<^verbatim>\<open>AUTOINCREMENT\<close> never reuses one.  \<open>cbRuns\<close> is the status column of \<^verbatim>\<open>runs\<close>.\<close>

record cabinet =
  cbMemories :: "memory list"
  cbRunMemories :: "(string \<times> int \<times> string) list"
  cbSeq :: int
  cbRuns :: "((string \<times> int) \<times> string) list"

datatype memErr = MemNotFound | MemLimit string | MemFault

section \<open>Statements\<close>

type_synonym 'a sql = "(cabinet, memErr, 'a) sqlm"

definition stmt :: "(cabinet \<Rightarrow> (memErr + 'a) \<times> cabinet) \<Rightarrow> 'a sql" where
  "stmt = stmtF MemFault"

definition queryD :: "(cabinet \<Rightarrow> 'a) \<Rightarrow> 'a sql" where
  "queryD f = stmt (\<lambda>c. (Inr (f c), c))"

definition execD :: "(cabinet \<Rightarrow> cabinet) \<Rightarrow> unit sql" where
  "execD f = stmt (\<lambda>c. (Inr (), f c))"

section \<open>Text\<close>

definition validText :: "string \<Rightarrow> string \<Rightarrow> bool" where
  "validText title msg =
     (title \<noteq> [] \<and> RuneCount title \<le> MaxTitleRunes \<and> msg \<noteq> [] \<and> RuneCount msg \<le> MaxMsgRunes)"

text \<open>\<^verbatim>\<open>strconv.FormatInt\<close> in base ten.\<close>

fun showNat :: "nat \<Rightarrow> string" where
  "showNat n = (if n < 10 then [char_of (48 + n)] else showNat (n div 10) @ [char_of (48 + n mod 10)])"

declare showNat.simps [simp del]

definition FormatInt :: "int \<Rightarrow> string" where
  "FormatInt k = (if k < 0 then CHR ''-'' # showNat (nat (- k)) else showNat (nat k))"

text \<open>\<^verbatim>\<open>instr(lower(title), lower(?)) > 0\<close>; SQLite's \<^verbatim>\<open>lower\<close> maps ASCII letters only.\<close>

fun contains :: "string \<Rightarrow> string \<Rightarrow> bool" where
  "contains needle [] = (needle = [])"
| "contains needle (c # cs) = (starts_with needle (c # cs) \<or> contains needle cs)"

definition titleMatches :: "string \<Rightarrow> string \<Rightarrow> bool" where
  "titleMatches query title = contains (map lower_ascii query) (map lower_ascii title)"

section \<open>The cabinet\<close>

definition hasID :: "string \<Rightarrow> int \<Rightarrow> memory \<Rightarrow> bool" where
  "hasID sessionID i m = (memSession m = sessionID \<and> memID m = i)"

definition getMemory :: "string \<Rightarrow> int \<Rightarrow> memory sql" where
  "getMemory sessionID i = stmt (\<lambda>c. case find (hasID sessionID i) (cbMemories c) of
     None \<Rightarrow> (Inl MemNotFound, c) | Some m \<Rightarrow> (Inr m, c))"

text \<open>All rows of a session, newest first, without their text.\<close>

definition allMemories :: "string \<Rightarrow> memory list sql" where
  "allMemories sessionID = queryD (\<lambda>c.
     map (\<lambda>m. m\<lparr>memMsg := []\<rparr>) (rev (sort_key memID (filter (\<lambda>m. memSession m = sessionID) (cbMemories c)))))"

definition listed :: "(time \<Rightarrow> string) \<Rightarrow> string \<Rightarrow> listFilter \<Rightarrow> memory \<Rightarrow> bool" where
  "listed format sessionID f m =
     (memSession m = sessionID \<and> (lfQuery f \<noteq> [] \<longrightarrow> titleMatches (lfQuery f) (memTitle m)) \<and>
      (case lfSince f of None \<Rightarrow> True | Some t \<Rightarrow> format t \<le> memCreatedAt m) \<and>
      (case lfUntil f of None \<Rightarrow> True | Some t \<Rightarrow> memCreatedAt m < format t) \<and>
      (lfBeforeID f > 0 \<longrightarrow> memID m < lfBeforeID f) \<and> (lfAfterID f > 0 \<longrightarrow> memID m > lfAfterID f))"

definition labelOf :: "memory \<Rightarrow> label" where
  "labelOf m = \<lparr>lbID = memID m, lbTitle = memTitle m, lbCreatedAt = memCreatedAt m\<rparr>"

definition listLimitOf :: "int \<Rightarrow> int" where
  "listLimitOf limit = (if limit \<le> 0 \<or> limit > MaxListItems then MaxListItems else limit)"

definition listMemories :: "(time \<Rightarrow> string) \<Rightarrow> string \<Rightarrow> listFilter \<Rightarrow> label list sql" where
  "listMemories format sessionID f = queryD (\<lambda>c.
     map labelOf (take (nat (listLimitOf (lfLimit f))) (rev (sort_key memID (filter (listed format sessionID f) (cbMemories c))))))"

definition countMemories :: "string \<Rightarrow> (int \<times> int) sql" where
  "countMemories sessionID = queryD (\<lambda>c.
     let rows = filter (\<lambda>m. memSession m = sessionID) (cbMemories c)
     in (int (length rows), int (length (filter memBringBack rows))))"

definition pinned :: "string \<Rightarrow> int \<Rightarrow> memory list \<Rightarrow> memory list" where
  "pinned sessionID excludeID ms = filter (\<lambda>m. memSession m = sessionID \<and> memBringBack m \<and> memID m \<noteq> excludeID) ms"

definition usedRunes :: "memory list \<Rightarrow> nat" where
  "usedRunes ms = sum_list (map (\<lambda>m. RuneCount (memMsg m)) ms)"

definition checkBringBackBudget :: "string \<Rightarrow> int \<Rightarrow> string \<Rightarrow> unit sql" where
  "checkBringBackBudget sessionID excludeID msg =
     andThenD (queryD (\<lambda>c. usedRunes (pinned sessionID excludeID (cbMemories c)))) (\<lambda>used.
     if used + RuneCount msg > MaxBringBackRunes then reject (MemLimit ''BRING_BACK_LIMIT'') else pureD ())"

definition insertMemory :: "memory \<Rightarrow> cabinet \<Rightarrow> cabinet" where
  "insertMemory m c = c\<lparr>cbMemories := cbMemories c @ [m\<lparr>memID := cbSeq c + 1\<rparr>], cbSeq := cbSeq c + 1\<rparr>"

definition insertRunMemory :: "string \<Rightarrow> int \<Rightarrow> string \<Rightarrow> unit sql" where
  "insertRunMemory sessionID runID i = stmt (\<lambda>c.
     if (sessionID, runID, i) \<in> set (cbRunMemories c) then (Inl MemFault, c)
     else (Inr (), c\<lparr>cbRunMemories := cbRunMemories c @ [(sessionID, runID, i)]\<rparr>))"

definition saveMemory :: "(time \<Rightarrow> string) \<Rightarrow> string \<Rightarrow> int \<Rightarrow> string \<Rightarrow> string \<Rightarrow> bool \<Rightarrow> time \<Rightarrow> memory sql" where
  "saveMemory format sessionID runID title msg bringBack now =
     andThenD (countMemories sessionID) (\<lambda>(stored, _).
     if stored \<ge> Capacity then reject (MemLimit ''MEMORY_FULL'') else
     andThenD (if bringBack then checkBringBackBudget sessionID 0 msg else pureD ()) (\<lambda>_.
     let stamp = format now in
     andThenD (execD (insertMemory \<lparr>memID = 0, memSession = sessionID, memTitle = title, memMsg = msg, memBringBack = bringBack,
                 memCreatedAt = stamp, memUpdatedAt = stamp, memCreatedRun = runID, memUpdatedRun = runID\<rparr>)) (\<lambda>_.
     andThenD (queryD cbSeq) (\<lambda>i.
     andThenD (insertRunMemory sessionID runID (FormatInt i)) (\<lambda>_.
     getMemory sessionID i)))))"

definition applyEdit :: "edit \<Rightarrow> memory \<Rightarrow> memory" where
  "applyEdit e m = m\<lparr>memTitle := (case edTitle e of None \<Rightarrow> memTitle m | Some t \<Rightarrow> t),
     memMsg := (case edMsg e of None \<Rightarrow> memMsg m | Some t \<Rightarrow> t),
     memBringBack := (case edBringBack e of None \<Rightarrow> memBringBack m | Some b \<Rightarrow> b)\<rparr>"

definition storeEdit :: "string \<Rightarrow> int \<Rightarrow> memory \<Rightarrow> string \<Rightarrow> int \<Rightarrow> cabinet \<Rightarrow> cabinet" where
  "storeEdit sessionID i m stamp runID c = c\<lparr>cbMemories := map (\<lambda>r. if hasID sessionID i r
     then r\<lparr>memTitle := memTitle m, memMsg := memMsg m, memBringBack := memBringBack m, memUpdatedAt := stamp, memUpdatedRun := runID\<rparr>
     else r) (cbMemories c)\<rparr>"

definition updateMemory :: "(time \<Rightarrow> string) \<Rightarrow> string \<Rightarrow> int \<Rightarrow> int \<Rightarrow> edit \<Rightarrow> time \<Rightarrow> memory sql" where
  "updateMemory format sessionID runID i e now =
     andThenD (getMemory sessionID i) (\<lambda>m0.
     let m = applyEdit e m0 in
     andThenD (if memBringBack m then checkBringBackBudget sessionID i (memMsg m) else pureD ()) (\<lambda>_.
     andThenD (execD (storeEdit sessionID i m (format now) runID)) (\<lambda>_.
     getMemory sessionID i)))"

definition deleteMemoryRow :: "string \<Rightarrow> int \<Rightarrow> memory sql" where
  "deleteMemoryRow sessionID i =
     andThenD (getMemory sessionID i) (\<lambda>m.
     andThenD (execD (\<lambda>c. c\<lparr>cbMemories := filter (\<lambda>r. \<not> hasID sessionID i r) (cbMemories c)\<rparr>)) (\<lambda>_.
     pureD m))"

definition ProgressiveContext :: "(time \<Rightarrow> string) \<Rightarrow> string \<Rightarrow> (label list \<times> recalled list) sql" where
  "ProgressiveContext format sessionID =
     andThenD (listMemories format sessionID
       \<lparr>lfQuery = [], lfSince = None, lfUntil = None, lfBeforeID = 0, lfAfterID = 0, lfLimit = RecentIndexItems\<rparr>) (\<lambda>labels.
     andThenD (queryD (\<lambda>c. map (\<lambda>m. \<lparr>rcID = memID m, rcTitle = memTitle m, rcMsg = memMsg m\<rparr>)
        (sort_key memID (filter (\<lambda>m. memSession m = sessionID \<and> memBringBack m) (cbMemories c))))) (\<lambda>rs.
     pureD (labels, rs)))"

section \<open>Arguments\<close>

record saveArgs =
  saTitle :: "string option"
  saMsg :: "string option"
  saBringBack :: "bool option"

record editArgs =
  eaID :: "int option"
  eaTitle :: "string option"
  eaMsg :: "string option"
  eaBringBack :: "bool option"

definition ParseSaveArguments :: "saveArgs option \<Rightarrow> (string \<times> string \<times> bool) option" where
  "ParseSaveArguments a = (case a of
     None \<Rightarrow> None
   | Some r \<Rightarrow>
       (case (saTitle r, saMsg r) of
          (Some t, Some m) \<Rightarrow>
            let title = TrimSpace t; msg = TrimSpace m
            in if validText title msg then Some (title, msg, saBringBack r = Some True) else None
        | _ \<Rightarrow> None))"

definition ParseIDArgument :: "int option option \<Rightarrow> int option" where
  "ParseIDArgument a = (case a of Some (Some i) \<Rightarrow> if i < 1 then None else Some i | _ \<Rightarrow> None)"

definition trimmedTitle :: "string option \<Rightarrow> string option option" where
  "trimmedTitle t = (case t of None \<Rightarrow> Some None
     | Some raw \<Rightarrow> let title = TrimSpace raw in if validText title ''-'' then Some (Some title) else None)"

definition trimmedMsg :: "string option \<Rightarrow> string option option" where
  "trimmedMsg t = (case t of None \<Rightarrow> Some None
     | Some raw \<Rightarrow> let msg = TrimSpace raw in if validText ''-'' msg then Some (Some msg) else None)"

definition ParseEditArguments :: "editArgs option \<Rightarrow> (int \<times> edit) option" where
  "ParseEditArguments a = (case a of
     None \<Rightarrow> None
   | Some r \<Rightarrow>
       (case eaID r of
          None \<Rightarrow> None
        | Some i \<Rightarrow>
            if i < 1 then None
            else if eaTitle r = None \<and> eaMsg r = None \<and> eaBringBack r = None then None
            else (case (trimmedTitle (eaTitle r), trimmedMsg (eaMsg r)) of
                    (Some t, Some m) \<Rightarrow> Some (i, \<lparr>edTitle = t, edMsg = m, edBringBack = eaBringBack r\<rparr>)
                  | _ \<Rightarrow> None)))"

record listArgs =
  laQuery :: "string option"
  laWithinHours :: "float64 option"
  laFrom :: "string option"
  laTo :: "string option"
  laBeforeID :: "int option"
  laAfterID :: "int option"
  laLimit :: "int option"

text \<open>\<^verbatim>\<open>time.Parse\<close> for a date and for RFC 3339, and \<^verbatim>\<open>Time.AddDate\<close> by one day, which in UTC is 24 hours.\<close>

record timeCodec =
  tcDate :: "string \<Rightarrow> time option"
  tcRFC3339 :: "string \<Rightarrow> time option"

definition parseBound :: "timeCodec \<Rightarrow> string \<Rightarrow> (time \<times> bool) option" where
  "parseBound tc raw =
     (let v = TrimSpace raw
      in case tcDate tc v of
           Some day \<Rightarrow> Some (day, True)
         | None \<Rightarrow> (case tcRFC3339 tc v of Some t \<Rightarrow> Some (t, False) | None \<Rightarrow> None))"

text \<open>\<^verbatim>\<open>time.Duration(x)\<close> of a float: the integer part.\<close>

definition truncFloat :: "float64 \<Rightarrow> int" where
  "truncFloat x = (if val x < 0 then \<lceil>val x\<rceil> else \<lfloor>val x\<rfloor>)"

definition withinSince :: "time \<Rightarrow> float64 option \<Rightarrow> time option option" where
  "withinSince now h = (case h of
     None \<Rightarrow> Some None
   | Some hours \<Rightarrow> if hours \<le> 0 \<or> hours > Fin (24 * 366) then None
                   else Some (Some (now - truncFloat (hours * Fin 3600000000000))))"

definition fromSince :: "timeCodec \<Rightarrow> string option \<Rightarrow> time option \<Rightarrow> time option option" where
  "fromSince tc raw since = (case raw of
     None \<Rightarrow> Some since
   | Some t \<Rightarrow> (case parseBound tc t of
        None \<Rightarrow> None
      | Some (from, _) \<Rightarrow> Some (case since of None \<Rightarrow> Some from | Some s \<Rightarrow> if from > s then Some from else Some s)))"

definition toUntil :: "timeCodec \<Rightarrow> string option \<Rightarrow> time option option" where
  "toUntil tc raw = (case raw of
     None \<Rightarrow> Some None
   | Some t \<Rightarrow> (case parseBound tc t of
        None \<Rightarrow> None
      | Some (til0, dateOnly) \<Rightarrow> Some (Some (if dateOnly then til0 + 86400000000000 else til0))))"

definition positiveID :: "int option \<Rightarrow> int option" where
  "positiveID i = (case i of None \<Rightarrow> Some 0 | Some k \<Rightarrow> if k < 1 then None else Some k)"

definition listedLimit :: "int option \<Rightarrow> int option" where
  "listedLimit l = (case l of None \<Rightarrow> Some MaxListItems | Some k \<Rightarrow> if k < 1 \<or> k > MaxListItems then None else Some k)"

definition ParseListArguments :: "timeCodec \<Rightarrow> time \<Rightarrow> listArgs option \<Rightarrow> listFilter option" where
  "ParseListArguments tc now a =
     Option.bind a (\<lambda>r.
     Option.bind (withinSince now (laWithinHours r)) (\<lambda>since0.
     Option.bind (fromSince tc (laFrom r) since0) (\<lambda>since.
     Option.bind (toUntil tc (laTo r)) (\<lambda>til.
     Option.bind (positiveID (laBeforeID r)) (\<lambda>before.
     Option.bind (positiveID (laAfterID r)) (\<lambda>aft.
     Option.bind (listedLimit (laLimit r)) (\<lambda>limit.
     Some \<lparr>lfQuery = (case laQuery r of None \<Rightarrow> [] | Some q \<Rightarrow> TrimSpace q), lfSince = since, lfUntil = til,
           lfBeforeID = before, lfAfterID = aft, lfLimit = limit\<rparr>)))))))"

section \<open>The tools of a run\<close>

text \<open>
  The runtime of the agent server as far as memory writes go: whether it is closed, whether a persistence fault was latched,
  the cancelled contexts of the active runs, and the database.
\<close>

record agentRuntime =
  agClosed :: bool
  agFault :: bool
  agActive :: "(string \<times> bool) list"
  agCabinet :: cabinet

datatype toolResult =
    SavedResult int string bool string
  | ListResult "label list" int int
  | MemoryResult int string string bool string
  | ErrorResult string string

text \<open>A commit that reports an error may or may not have taken effect.\<close>

datatype commitResult = Committed | CommitLost | CommitApplied

definition latchPersistenceFaultLocked :: "agentRuntime \<Rightarrow> agentRuntime" where
  "latchPersistenceFaultLocked r = r\<lparr>agFault := True, agActive := map (\<lambda>(s, _). (s, True)) (agActive r)\<rparr>"

definition unavailable :: "string \<Rightarrow> toolResult" where
  "unavailable outcome = ErrorResult ''PERSISTENCE_UNAVAILABLE'' outcome"

definition runIsRunning :: "string \<Rightarrow> int \<Rightarrow> bool sql" where
  "runIsRunning sessionID runID = queryD (\<lambda>c. map_of (cbRuns c) (sessionID, runID) = Some ''running'')"

definition savedResult :: "memory \<Rightarrow> toolResult" where
  "savedResult m = SavedResult (memID m) (memTitle m) (memBringBack m) (memCreatedAt m)"

definition memoryWrite ::
  "(nat \<Rightarrow> bool) \<Rightarrow> commitResult \<Rightarrow> string \<Rightarrow> int \<Rightarrow> memory sql \<Rightarrow> agentRuntime \<Rightarrow> toolResult \<times> agentRuntime" where
  "memoryWrite flt commit sessionID runID write r =
     (if agClosed r \<or> agFault r then (unavailable ''not_executed'', r)
      else if flt 0 then (unavailable ''not_executed'', latchPersistenceFaultLocked r)
      else case runIsRunning sessionID runID flt (agCabinet r, 1) of
             (Inl x, _) \<Rightarrow> (unavailable ''not_executed'', latchPersistenceFaultLocked r)
           | (Inr running, s) \<Rightarrow>
               if \<not> running then (ErrorResult ''RUN_NOT_RUNNING'' ''not_executed'', r)
               else case write flt s of
                      (Inl (MemLimit code), _) \<Rightarrow> (ErrorResult code ''not_executed'', r)
                    | (Inl MemNotFound, _) \<Rightarrow> (ErrorResult ''MEMORY_NOT_FOUND'' ''not_executed'', r)
                    | (Inl MemFault, _) \<Rightarrow> (unavailable ''not_executed'', latchPersistenceFaultLocked r)
                    | (Inr saved, c', _) \<Rightarrow>
                        (case commit of
                           Committed \<Rightarrow> (savedResult saved, r\<lparr>agCabinet := c'\<rparr>)
                         | CommitLost \<Rightarrow> (unavailable ''unknown'', latchPersistenceFaultLocked r)
                         | CommitApplied \<Rightarrow> (unavailable ''unknown'', latchPersistenceFaultLocked (r\<lparr>agCabinet := c'\<rparr>))))"

definition memory_save ::
  "(nat \<Rightarrow> bool) \<Rightarrow> commitResult \<Rightarrow> (time \<Rightarrow> string) \<Rightarrow> time \<Rightarrow> string \<Rightarrow> int \<Rightarrow> saveArgs option \<Rightarrow> agentRuntime \<Rightarrow> toolResult \<times> agentRuntime" where
  "memory_save flt commit format now sessionID runID args r = (case ParseSaveArguments args of
     None \<Rightarrow> (ErrorResult ''INVALID_TOOL_ARGUMENTS'' ''not_executed'', r)
   | Some (title, msg, bringBack) \<Rightarrow> memoryWrite flt commit sessionID runID (saveMemory format sessionID runID title msg bringBack now) r)"

definition memory_edit ::
  "(nat \<Rightarrow> bool) \<Rightarrow> commitResult \<Rightarrow> (time \<Rightarrow> string) \<Rightarrow> time \<Rightarrow> string \<Rightarrow> int \<Rightarrow> editArgs option \<Rightarrow> agentRuntime \<Rightarrow> toolResult \<times> agentRuntime" where
  "memory_edit flt commit format now sessionID runID args r = (case ParseEditArguments args of
     None \<Rightarrow> (ErrorResult ''INVALID_TOOL_ARGUMENTS'' ''not_executed'', r)
   | Some (i, e) \<Rightarrow> memoryWrite flt commit sessionID runID (updateMemory format sessionID runID i e now) r)"

text \<open>
  A read outside a transaction.  \<open>interrupted\<close> says that an error was the cancelled context of the run; any other error latches.
\<close>

definition readFailed :: "bool \<Rightarrow> agentRuntime \<Rightarrow> toolResult \<times> agentRuntime" where
  "readFailed interrupted r =
     (if interrupted then (ErrorResult ''TOOL_INTERRUPTED'' ''not_executed'', r)
      else (ErrorResult ''PERSISTENCE_UNAVAILABLE'' ''not_executed'', latchPersistenceFaultLocked r))"

definition memory_list ::
  "(nat \<Rightarrow> bool) \<Rightarrow> bool \<Rightarrow> (time \<Rightarrow> string) \<Rightarrow> timeCodec \<Rightarrow> time \<Rightarrow> string \<Rightarrow> listArgs option \<Rightarrow> agentRuntime \<Rightarrow> toolResult \<times> agentRuntime" where
  "memory_list flt interrupted format tc now sessionID args r = (case ParseListArguments tc now args of
     None \<Rightarrow> (ErrorResult ''INVALID_TOOL_ARGUMENTS'' ''not_executed'', r)
   | Some f \<Rightarrow>
       (case andThenD (listMemories format sessionID f) (\<lambda>labels.
               andThenD (countMemories sessionID) (\<lambda>(stored, _). pureD (labels, stored))) flt (agCabinet r, 0) of
          (Inl _, _) \<Rightarrow> readFailed interrupted r
        | (Inr (labels, stored), _) \<Rightarrow> (ListResult labels stored Capacity, r)))"

definition memory_get :: "(nat \<Rightarrow> bool) \<Rightarrow> bool \<Rightarrow> string \<Rightarrow> int option option \<Rightarrow> agentRuntime \<Rightarrow> toolResult \<times> agentRuntime" where
  "memory_get flt interrupted sessionID args r = (case ParseIDArgument args of
     None \<Rightarrow> (ErrorResult ''INVALID_TOOL_ARGUMENTS'' ''not_executed'', r)
   | Some i \<Rightarrow>
       (case getMemory sessionID i flt (agCabinet r, 0) of
          (Inl MemNotFound, _) \<Rightarrow> (ErrorResult ''MEMORY_NOT_FOUND'' ''not_executed'', r)
        | (Inl _, _) \<Rightarrow> readFailed interrupted r
        | (Inr m, _) \<Rightarrow> (MemoryResult (memID m) (memTitle m) (memMsg m) (memBringBack m) (memCreatedAt m), r)))"

text \<open>The user's deletion.  \<open>canceled\<close> says that an error of the database was caused by the cancelled request.\<close>

datatype deleteResult = Deleted memory | DeleteNotFound | DeleteUnavailable | DeleteFailed bool

definition deleteMemory ::
  "(nat \<Rightarrow> bool) \<Rightarrow> commitResult \<Rightarrow> bool \<Rightarrow> string \<Rightarrow> int \<Rightarrow> agentRuntime \<Rightarrow> deleteResult \<times> agentRuntime" where
  "deleteMemory flt commit canceled sessionID i r =
     (let failed = (\<lambda>r'. (DeleteFailed canceled, if canceled then r' else latchPersistenceFaultLocked r'))
      in if agClosed r \<or> agFault r then (DeleteUnavailable, r)
         else if flt 0 then failed r
         else case deleteMemoryRow sessionID i flt (agCabinet r, 1) of
                (Inl MemNotFound, _) \<Rightarrow> (DeleteNotFound, r)
              | (Inl _, _) \<Rightarrow> failed r
              | (Inr m, c', _) \<Rightarrow>
                  (case commit of
                     Committed \<Rightarrow> (Deleted m, r\<lparr>agCabinet := c'\<rparr>)
                   | CommitLost \<Rightarrow> failed r
                   | CommitApplied \<Rightarrow> failed (r\<lparr>agCabinet := c'\<rparr>)))"

text \<open>The routes below \<^verbatim>\<open>memories\<close>: status and error code of the answers that are not a success.\<close>

definition memoryIDFromPath :: "string \<Rightarrow> int option" where
  "memoryIDFromPath raw = (case ParseInt raw of Some i \<Rightarrow> if i > 0 then Some i else None | None \<Rightarrow> None)"

definition deleteMemoryHTTP ::
  "(nat \<Rightarrow> bool) \<Rightarrow> commitResult \<Rightarrow> bool \<Rightarrow> string \<Rightarrow> string \<Rightarrow> agentRuntime \<Rightarrow> ((nat \<times> string) + memory) \<times> agentRuntime" where
  "deleteMemoryHTTP flt commit canceled sessionID rawID r = (case memoryIDFromPath rawID of
     None \<Rightarrow> (Inl (404, ''MEMORY_NOT_FOUND''), r)
   | Some i \<Rightarrow>
       (case deleteMemory flt commit canceled sessionID i r of
          (Deleted m, r') \<Rightarrow> (Inr m, r')
        | (DeleteNotFound, r') \<Rightarrow> (Inl (404, ''MEMORY_NOT_FOUND''), r')
        | (DeleteUnavailable, r') \<Rightarrow> (Inl (503, ''PERSISTENCE_UNAVAILABLE''), r')
        | (DeleteFailed c, r') \<Rightarrow> (Inl (if c then (408, ''REQUEST_CANCELED'') else (503, ''PERSISTENCE_UNAVAILABLE'')), r')))"

definition getMemoryHTTP :: "(nat \<Rightarrow> bool) \<Rightarrow> string \<Rightarrow> string \<Rightarrow> agentRuntime \<Rightarrow> (nat \<times> string) + memory" where
  "getMemoryHTTP flt sessionID rawID r = (case memoryIDFromPath rawID of
     None \<Rightarrow> Inl (404, ''MEMORY_NOT_FOUND'')
   | Some i \<Rightarrow>
       (case getMemory sessionID i flt (agCabinet r, 0) of
          (Inl MemNotFound, _) \<Rightarrow> Inl (404, ''MEMORY_NOT_FOUND'')
        | (Inl _, _) \<Rightarrow> Inl (500, ''INTERNAL_ERROR'')
        | (Inr m, _) \<Rightarrow> Inr m))"

section \<open>The final answer of a run\<close>

record finalization =
  fnStatus :: string
  fnOutput :: string
  fnSummary :: string

text \<open>The decoded envelope: \<^const>\<open>None\<close> when the text is not exactly one object with these fields.\<close>

record envelope =
  evStatus :: string
  evOutput :: "string option"
  evSummary :: "string option"

definition ParseFinalization :: "envelope option \<Rightarrow> finalization option" where
  "ParseFinalization v = (case v of
     None \<Rightarrow> None
   | Some e \<Rightarrow>
       (case (evOutput e, evSummary e) of
          (Some o1, Some s1) \<Rightarrow>
            if evStatus e \<noteq> [] \<and> evStatus e \<noteq> ''completed'' \<and> evStatus e \<noteq> ''failed'' then None
            else let out = \<lparr>fnStatus = evStatus e, fnOutput = TrimSpace o1, fnSummary = TrimSpace s1\<rparr>
                 in if fnOutput out = [] \<or> fnSummary out = [] then None
                    else if RuneCount (fnSummary out) > maxSummaryRunes then None
                    else Some out
        | _ \<Rightarrow> None))"

end
