(* ===== verification/CabinetProps.thy ===== *)
theory CabinetProps
  imports Cabinet "HOL-Library.Multiset"
begin

text \<open>
  The memory cabinet keeps its limits through every sequence of tool calls and deletions, a tool result says truthfully what
  happened, and a saved memory is found again.
\<close>

section \<open>Successful computations\<close>

lemma stmt_Inr: "stmt f flt (c, n) = (Inr a, c', n') \<longleftrightarrow> \<not> flt n \<and> f c = (Inr a, c') \<and> n' = Suc n"
  by (simp add: stmt_def stmtF_Inr)

lemma queryD_Inr: "queryD f flt (c, n) = (Inr a, c', n') \<longleftrightarrow> \<not> flt n \<and> a = f c \<and> c' = c \<and> n' = Suc n"
  by (auto simp: queryD_def stmt_Inr)

lemma execD_Inr: "execD f flt (c, n) = (Inr a, c', n') \<longleftrightarrow> \<not> flt n \<and> c' = f c \<and> n' = Suc n"
  by (auto simp: execD_def stmt_Inr)

lemma getMemory_Inr:
  "getMemory sid i flt (c, n) = (Inr m, c', n') \<longleftrightarrow> \<not> flt n \<and> find (hasID sid i) (cbMemories c) = Some m \<and> c' = c \<and> n' = Suc n"
  by (auto simp: getMemory_def stmt_Inr split: option.splits)

lemmas db_success = andThenD_Inr stmt_Inr queryD_Inr execD_Inr pureD_Inr reject_Inr getMemory_Inr

lemma checkBringBackBudget_Inr:
  "checkBringBackBudget sid i msg flt (c, n) = (Inr u, c', n') \<longleftrightarrow>
     \<not> flt n \<and> usedRunes (pinned sid i (cbMemories c)) + RuneCount msg \<le> MaxBringBackRunes \<and> c' = c \<and> n' = Suc n"
  by (auto simp: checkBringBackBudget_def db_success)

section \<open>The limits\<close>

definition ofSession :: "string \<Rightarrow> memory list \<Rightarrow> memory list" where
  "ofSession sid ms = filter (\<lambda>m. memSession m = sid) ms"

definition memoriesOK :: "int \<Rightarrow> memory list \<Rightarrow> bool" where
  "memoriesOK seq ms =
     (distinct (map memID ms) \<and> (\<forall>m \<in> set ms. 1 \<le> memID m \<and> memID m \<le> seq \<and> validText (memTitle m) (memMsg m)) \<and>
      (\<forall>sid. int (length (ofSession sid ms)) \<le> Capacity \<and> usedRunes (filter memBringBack (ofSession sid ms)) \<le> MaxBringBackRunes))"

definition cabinetOK :: "cabinet \<Rightarrow> bool" where
  "cabinetOK c = (0 \<le> cbSeq c \<and> memoriesOK (cbSeq c) (cbMemories c))"

lemma pinned_all: "\<forall>m \<in> set ms. memID m \<noteq> i \<Longrightarrow> pinned sid i ms = filter memBringBack (ofSession sid ms)"
  by (auto simp: pinned_def ofSession_def intro!: filter_cong)

lemma usedRunes_simps [simp]: "usedRunes [] = 0" "usedRunes (m # ms) = RuneCount (memMsg m) + usedRunes ms"
  "usedRunes (ms @ ns) = usedRunes ms + usedRunes ns"
  by (simp_all add: usedRunes_def)

subsection \<open>Saving\<close>

definition newMemory :: "(time \<Rightarrow> string) \<Rightarrow> string \<Rightarrow> int \<Rightarrow> string \<Rightarrow> string \<Rightarrow> bool \<Rightarrow> time \<Rightarrow> int \<Rightarrow> memory" where
  "newMemory format sid runID title msg bb now i =
     \<lparr>memID = i, memSession = sid, memTitle = title, memMsg = msg, memBringBack = bb,
      memCreatedAt = format now, memUpdatedAt = format now, memCreatedRun = runID, memUpdatedRun = runID\<rparr>"

lemma saveMemory_Inr:
  assumes "saveMemory format sid runID title msg bb now flt (c, n) = (Inr m, c', n')" "cabinetOK c"
  shows "m = newMemory format sid runID title msg bb now (cbSeq c + 1)"
    and "cbMemories c' = cbMemories c @ [m]" "cbSeq c' = cbSeq c + 1" "cbRuns c' = cbRuns c"
    and "int (length (ofSession sid (cbMemories c))) < Capacity"
    and "bb \<Longrightarrow> usedRunes (filter memBringBack (ofSession sid (cbMemories c))) + RuneCount msg \<le> MaxBringBackRunes"
proof -
  let ?m = "newMemory format sid runID title msg bb now (cbSeq c + 1)"
  have pos: "\<forall>m \<in> set (cbMemories c). memID m \<noteq> 0 \<and> memID m \<noteq> cbSeq c + 1"
    using assms(2) by (auto simp: cabinetOK_def memoriesOK_def)
  then have find: "find (hasID sid (cbSeq c + 1)) (cbMemories c @ [?m]) = Some ?m"
    by (intro find_unique) (auto simp: hasID_def newMemory_def)
  have s: "int (length (ofSession sid (cbMemories c))) < Capacity \<and>
      (bb \<longrightarrow> usedRunes (pinned sid 0 (cbMemories c)) + RuneCount msg \<le> MaxBringBackRunes) \<and>
      find (hasID sid (cbSeq c + 1)) (cbMemories c @ [?m]) = Some m \<and>
      cbMemories c' = cbMemories c @ [?m] \<and> cbSeq c' = cbSeq c + 1 \<and> cbRuns c' = cbRuns c"
    using assms(1)
    by (auto simp: saveMemory_def countMemories_def db_success checkBringBackBudget_Inr insertRunMemory_def insertMemory_def
        Let_def ofSession_def newMemory_def split: if_splits)
  then show "m = ?m" using find by simp
  with s show "cbMemories c' = cbMemories c @ [m]" "cbSeq c' = cbSeq c + 1" "cbRuns c' = cbRuns c"
    "int (length (ofSession sid (cbMemories c))) < Capacity" by simp_all
  show "usedRunes (filter memBringBack (ofSession sid (cbMemories c))) + RuneCount msg \<le> MaxBringBackRunes" if bb
    using s that pinned_all [of "cbMemories c" 0 sid] pos by simp
qed

lemma saveMemory_keeps:
  assumes "saveMemory format sid runID title msg bb now flt (c, n) = (Inr m, c', n')" "cabinetOK c" "validText title msg"
  shows "cabinetOK c'"
proof -
  note s = saveMemory_Inr [OF assms(1,2)]
  have m: "memID m = cbSeq c + 1" "memSession m = sid" "memTitle m = title" "memMsg m = msg" "memBringBack m = bb"
    by (simp_all add: s(1) newMemory_def)
  have ok: "0 \<le> cbSeq c" "distinct (map memID (cbMemories c))"
    "\<forall>m \<in> set (cbMemories c). 1 \<le> memID m \<and> memID m \<le> cbSeq c \<and> validText (memTitle m) (memMsg m)"
    "\<And>t. int (length (ofSession t (cbMemories c))) \<le> Capacity"
    "\<And>t. usedRunes (filter memBringBack (ofSession t (cbMemories c))) \<le> MaxBringBackRunes"
    using assms(2) by (auto simp: cabinetOK_def memoriesOK_def)
  have "int (length (ofSession t (cbMemories c'))) \<le> Capacity" for t
    using ok(4) [of t] s(5) m by (auto simp: s(2) ofSession_def)
  moreover have "usedRunes (filter memBringBack (ofSession t (cbMemories c'))) \<le> MaxBringBackRunes" for t
    using ok(5) [of t] s(6) m by (auto simp: s(2) ofSession_def)
  moreover have "distinct (map memID (cbMemories c'))" using ok(2,3) m by (auto simp: s(2))
  moreover have "\<forall>x \<in> set (cbMemories c'). 1 \<le> memID x \<and> memID x \<le> cbSeq c' \<and> validText (memTitle x) (memMsg x)"
    using ok(1,3) m assms(3) by (auto simp: s(2,3))
  ultimately show ?thesis using ok(1) by (simp add: cabinetOK_def memoriesOK_def s(3))
qed

subsection \<open>Editing\<close>

definition editedRow :: "edit \<Rightarrow> string \<Rightarrow> int \<Rightarrow> memory \<Rightarrow> memory" where
  "editedRow e stamp runID m = (applyEdit e m)\<lparr>memUpdatedAt := stamp, memUpdatedRun := runID\<rparr>"

definition putRow :: "memory \<Rightarrow> memory list \<Rightarrow> memory list" where
  "putRow r ms = tbl_put memID r ms"

lemma editedRow_simps [simp]:
  "memID (editedRow e stamp runID m) = memID m" "memSession (editedRow e stamp runID m) = memSession m"
  "memCreatedAt (editedRow e stamp runID m) = memCreatedAt m" "memUpdatedRun (editedRow e stamp runID m) = runID"
  by (simp_all add: editedRow_def applyEdit_def)

lemma find_hasID:
  assumes "distinct (map memID ms)" "m \<in> set ms"
  shows "find (hasID (memSession m) (memID m)) ms = Some m"
  using assms(2) distinct_key_eq [OF assms(1)] by (intro find_unique) (auto simp: hasID_def)

lemma updateMemory_Inr:
  assumes "updateMemory format sid runID i e now flt (c, n) = (Inr m, c', n')" "cabinetOK c"
  obtains m0 where "m0 \<in> set (cbMemories c)" "memID m0 = i" "memSession m0 = sid" "m = editedRow e (format now) runID m0"
    "cbMemories c' = putRow m (cbMemories c)" "cbSeq c' = cbSeq c" "cbRuns c' = cbRuns c" "cbRunMemories c' = cbRunMemories c"
    "memBringBack m \<longrightarrow> usedRunes (pinned sid i (cbMemories c)) + RuneCount (memMsg m) \<le> MaxBringBackRunes"
proof -
  have d: "distinct (map memID (cbMemories c))" using assms(2) by (simp add: cabinetOK_def memoriesOK_def)
  obtain m0 where m0: "find (hasID sid i) (cbMemories c) = Some m0"
    and b: "memBringBack (applyEdit e m0) \<longrightarrow> usedRunes (pinned sid i (cbMemories c)) + RuneCount (memMsg (applyEdit e m0)) \<le> MaxBringBackRunes"
    and f: "find (hasID sid i) (cbMemories c') = Some m" and c': "c' = storeEdit sid i (applyEdit e m0) (format now) runID c"
    using assms(1) by (auto simp: updateMemory_def db_success checkBringBackBudget_Inr Let_def split: if_splits)
  have in0: "m0 \<in> set (cbMemories c)" "memID m0 = i" "memSession m0 = sid" using find_SomeD [OF m0] by (auto simp: hasID_def)
  let ?r = "editedRow e (format now) runID m0"
  have "(if hasID sid i r then r\<lparr>memTitle := memTitle (applyEdit e m0), memMsg := memMsg (applyEdit e m0),
        memBringBack := memBringBack (applyEdit e m0), memUpdatedAt := format now, memUpdatedRun := runID\<rparr> else r) =
      (if memID r = memID ?r then ?r else r)" if "r \<in> set (cbMemories c)" for r
    using distinct_key_eq [OF d that in0(1)] in0 by (auto simp: hasID_def editedRow_def applyEdit_def)
  then have ms: "cbMemories c' = putRow ?r (cbMemories c)" by (simp add: c' storeEdit_def putRow_def tbl_put_def)
  then have "?r \<in> set (cbMemories c')" using in0 by (auto simp: putRow_def set_tbl_put)
  moreover have "distinct (map memID (cbMemories c'))" using d by (simp add: ms putRow_def)
  ultimately have "m = ?r" using find_hasID [of "cbMemories c'" ?r] f in0 by simp
  then show ?thesis using that in0 ms b c' by (simp add: storeEdit_def editedRow_def)
qed

lemma usedRunes_put:
  assumes "distinct (map memID ms)" "m0 \<in> set ms" "memID r = memID m0" "memSession r = memSession m0"
  shows "usedRunes (filter memBringBack (ofSession (memSession m0) (putRow r ms))) =
    usedRunes (pinned (memSession m0) (memID m0) ms) + (if memBringBack r then RuneCount (memMsg r) else 0)"
  using assms(1,2)
proof (induction ms)
  case (Cons a ms)
  show ?case
  proof (cases "memID a = memID m0")
    case True
    have ni: "memID a \<notin> memID ` set ms" using Cons.prems(1) by simp
    then have rest: "\<forall>m \<in> set ms. memID m \<noteq> memID m0" unfolding True by (metis image_eqI)
    then have a: "a = m0" using Cons.prems(2) by auto
    then have "putRow r (a # ms) = r # ms" using assms(3) ni True tbl_put_notin [of memID r ms] by (simp add: putRow_def tbl_put_def)
    then show ?thesis using a assms(4) pinned_all [OF rest] by (simp add: ofSession_def pinned_def)
  next
    case False
    then have "putRow r (a # ms) = a # putRow r ms" using assms(3) by (simp add: putRow_def tbl_put_def)
    then show ?thesis using Cons False by (auto simp: ofSession_def pinned_def)
  qed
qed simp

lemma ofSession_put:
  assumes "distinct (map memID ms)" "m0 \<in> set ms" "memID r = memID m0" "memSession r = memSession m0"
  shows "length (ofSession sid (putRow r ms)) = length (ofSession sid ms)"
    and "sid \<noteq> memSession m0 \<Longrightarrow> ofSession sid (putRow r ms) = ofSession sid ms"
proof -
  have "map memSession (putRow r ms) = map memSession ms"
    unfolding putRow_def using distinct_key_eq [OF assms(1) _ assms(2)] assms(3,4) by (intro map_tbl_put_same) metis
  then have "map memSession (ofSession sid (putRow r ms)) = map memSession (ofSession sid ms)"
    unfolding ofSession_def by (metis (mono_tags, lifting) filter_map comp_apply filter_cong)
  then show "length (ofSession sid (putRow r ms)) = length (ofSession sid ms)" by (metis length_map)
  show "sid \<noteq> memSession m0 \<Longrightarrow> ofSession sid (putRow r ms) = ofSession sid ms"
    unfolding ofSession_def putRow_def using distinct_key_eq [OF assms(1) _ assms(2)] assms(3,4)
    by (intro filter_tbl_put_other) metis+
qed

lemma pinned_le: "usedRunes (pinned sid i ms) \<le> usedRunes (filter memBringBack (ofSession sid ms))"
  by (induction ms) (auto simp: pinned_def ofSession_def)

definition editOK :: "edit \<Rightarrow> bool" where
  "editOK e = ((case edTitle e of None \<Rightarrow> True | Some t \<Rightarrow> validText t ''-'') \<and> (case edMsg e of None \<Rightarrow> True | Some t \<Rightarrow> validText ''-'' t))"

lemma updateMemory_keeps:
  assumes "updateMemory format sid runID i e now flt (c, n) = (Inr m, c', n')" "cabinetOK c" "editOK e"
  shows "cabinetOK c'"
proof -
  obtain m0 where m0: "m0 \<in> set (cbMemories c)" "memID m0 = i" "memSession m0 = sid" "m = editedRow e (format now) runID m0"
    and c': "cbMemories c' = putRow m (cbMemories c)" "cbSeq c' = cbSeq c" "cbRuns c' = cbRuns c" "cbRunMemories c' = cbRunMemories c"
    and b: "memBringBack m \<longrightarrow> usedRunes (pinned sid i (cbMemories c)) + RuneCount (memMsg m) \<le> MaxBringBackRunes"
    by (rule updateMemory_Inr [OF assms(1,2)])
  have ok: "0 \<le> cbSeq c" "distinct (map memID (cbMemories c))"
    "\<forall>m \<in> set (cbMemories c). 1 \<le> memID m \<and> memID m \<le> cbSeq c \<and> validText (memTitle m) (memMsg m)"
    "\<And>t. int (length (ofSession t (cbMemories c))) \<le> Capacity"
    "\<And>t. usedRunes (filter memBringBack (ofSession t (cbMemories c))) \<le> MaxBringBackRunes"
    using assms(2) by (auto simp: cabinetOK_def memoriesOK_def)
  note put = ofSession_put [OF ok(2) m0(1), of m] and used = usedRunes_put [OF ok(2) m0(1), of m]
  have "usedRunes (filter memBringBack (ofSession t (cbMemories c'))) \<le> MaxBringBackRunes" for t
  proof (cases "t = sid")
    case True
    then show ?thesis using used b m0 ok(5) [of sid] pinned_le [of sid i "cbMemories c"] by (simp add: c'(1) split: if_splits)
  next
    case False
    then show ?thesis using put(2) m0 ok(5) [of t] by (simp add: c'(1))
  qed
  moreover have "validText (memTitle m) (memMsg m)"
    using ok(3) m0(1) assms(3) by (auto simp: m0(4) editedRow_def applyEdit_def editOK_def validText_def split: option.splits)
  then have "\<forall>x \<in> set (cbMemories c'). 1 \<le> memID x \<and> memID x \<le> cbSeq c' \<and> validText (memTitle x) (memMsg x)"
    using ok(3) m0 by (auto simp: c'(1,2) putRow_def dest!: in_tbl_put)
  moreover have "int (length (ofSession t (cbMemories c'))) \<le> Capacity" for t using put(1) ok(4) [of t] m0 by (simp add: c'(1))
  ultimately show ?thesis using ok(1,2) by (simp add: cabinetOK_def memoriesOK_def c' putRow_def)
qed

subsection \<open>Deleting\<close>

lemma deleteMemoryRow_Inr:
  "deleteMemoryRow sid i flt (c, n) = (Inr m, c', n') \<Longrightarrow>
     find (hasID sid i) (cbMemories c) = Some m \<and> c' = c\<lparr>cbMemories := filter (\<lambda>r. \<not> hasID sid i r) (cbMemories c)\<rparr>"
  by (auto simp: deleteMemoryRow_def db_success)

lemma usedRunes_filter: "usedRunes (filter P ms) \<le> usedRunes ms"
  by (induction ms) auto

lemma memoriesOK_filter: "memoriesOK seq ms \<Longrightarrow> memoriesOK seq (filter P ms)"
proof -
  assume ok: "memoriesOK seq ms"
  have "length (ofSession t (filter P ms)) \<le> length (ofSession t ms)" for t
    by (induction ms) (auto simp: ofSession_def)
  moreover have "filter memBringBack (ofSession t (filter P ms)) = filter P (filter memBringBack (ofSession t ms))" for t
    by (auto simp: ofSession_def intro!: filter_cong)
  then have "usedRunes (filter memBringBack (ofSession t (filter P ms))) \<le> usedRunes (filter memBringBack (ofSession t ms))" for t
    by (metis usedRunes_filter)
  ultimately show ?thesis using ok unfolding memoriesOK_def
    by (meson distinct_map_filterI filter_is_subset of_nat_mono order_trans subsetD)
qed

section \<open>Whole tool calls\<close>

lemma ParseSaveArguments_valid: "ParseSaveArguments a = Some (title, msg, bb) \<Longrightarrow> validText title msg"
  by (auto simp: ParseSaveArguments_def Let_def split: option.splits if_splits)

lemma ParseEditArguments_ok: "ParseEditArguments a = Some (i, e) \<Longrightarrow> editOK e \<and> 1 \<le> i"
  by (auto simp: ParseEditArguments_def trimmedTitle_def trimmedMsg_def editOK_def Let_def split: option.splits if_splits)

lemma latch_simps [simp]:
  "agCabinet (latchPersistenceFaultLocked r) = agCabinet r" "agFault (latchPersistenceFaultLocked r)"
  "agClosed (latchPersistenceFaultLocked r) = agClosed r"
  by (simp_all add: latchPersistenceFaultLocked_def)

text \<open>What a write can do to the runtime, in one rule for all writes.\<close>

lemma memoryWrite_cases:
  assumes "memoryWrite flt commit sid runID write r = (res, r')"
  obtains (refused) code where "res = ErrorResult code ''not_executed''" "agCabinet r' = agCabinet r" "agClosed r' = agClosed r"
  | (stored) m c' n where "res = savedResult m" "write flt (agCabinet r, 2) = (Inr m, c', n)" "r' = r\<lparr>agCabinet := c'\<rparr>"
      "map_of (cbRuns (agCabinet r)) (sid, runID) = Some ''running''" "\<not> agClosed r" "\<not> agFault r"
  | (unknown) m c' n where "res = unavailable ''unknown''" "write flt (agCabinet r, 2) = (Inr m, c', n)" "agFault r'" "agClosed r' = agClosed r"
      "agCabinet r' = agCabinet r \<or> agCabinet r' = c'"
proof (cases "agClosed r \<or> agFault r \<or> flt 0 \<or> flt 1 \<or> map_of (cbRuns (agCabinet r)) (sid, runID) \<noteq> Some ''running''")
  case True
  then show ?thesis using assms refused
    by (auto simp: memoryWrite_def runIsRunning_def queryD_def stmt_def stmtF_def unavailable_def split: if_splits)
next
  case False
  then have run: "runIsRunning sid runID flt (agCabinet r, 1) = (Inr True, agCabinet r, 2)"
    by (simp add: runIsRunning_def queryD_def stmt_def stmtF_def)
  obtain w c' n where w: "write flt (agCabinet r, 2) = (w, c', n)" by (metis prod_cases3)
  show ?thesis
  proof (cases w)
    case (Inl x)
    then show ?thesis using assms False run w refused by (cases x) (auto simp: memoryWrite_def unavailable_def)
  next
    case (Inr m)
    then show ?thesis using assms False run w stored unknown by (cases commit) (auto simp: memoryWrite_def)
  qed
qed

datatype cabinetOp =
    MemSave "nat \<Rightarrow> bool" commitResult "time \<Rightarrow> string" time string int "saveArgs option"
  | MemEdit "nat \<Rightarrow> bool" commitResult "time \<Rightarrow> string" time string int "editArgs option"
  | MemDelete "nat \<Rightarrow> bool" commitResult bool string int
  | MemList "nat \<Rightarrow> bool" bool "time \<Rightarrow> string" timeCodec time string "listArgs option"
  | MemGet "nat \<Rightarrow> bool" bool string "int option option"
  | SetRuns "((string \<times> int) \<times> string) list"  \<comment> \<open>runs start and end\<close>

fun perform :: "cabinetOp \<Rightarrow> agentRuntime \<Rightarrow> agentRuntime" where
  "perform (MemSave flt commit format now sid runID args) r = snd (memory_save flt commit format now sid runID args r)"
| "perform (MemEdit flt commit format now sid runID args) r = snd (memory_edit flt commit format now sid runID args r)"
| "perform (MemDelete flt commit canceled sid i) r = snd (deleteMemory flt commit canceled sid i r)"
| "perform (MemList flt interrupted format tc now sid args) r = snd (memory_list flt interrupted format tc now sid args r)"
| "perform (MemGet flt interrupted sid args) r = snd (memory_get flt interrupted sid args r)"
| "perform (SetRuns runs) r = r\<lparr>agCabinet := (agCabinet r)\<lparr>cbRuns := runs\<rparr>\<rparr>"

lemma memoryWrite_keeps:
  assumes "memoryWrite flt commit sid runID write r = (res, r')" "cabinetOK (agCabinet r)"
    and "\<And>m c' n. write flt (agCabinet r, 2) = (Inr m, c', n) \<Longrightarrow> cabinetOK c'"
  shows "cabinetOK (agCabinet r')"
  using assms(1) by (cases rule: memoryWrite_cases) (use assms(2,3) in auto)

lemma perform_keeps:
  assumes ok: "cabinetOK (agCabinet r)"
  shows "cabinetOK (agCabinet (perform op r))"
proof (cases op)
  case (MemSave flt commit format now sid runID args)
  show ?thesis
  proof (cases "ParseSaveArguments args")
    case None
    then show ?thesis using ok by (simp add: MemSave memory_save_def)
  next
    case (Some a)
    obtain title msg bb where a: "a = (title, msg, bb)" by (cases a)
    obtain res r' where w: "memoryWrite flt commit sid runID (saveMemory format sid runID title msg bb now) r = (res, r')" by fastforce
    then have "cabinetOK (agCabinet r')"
      using memoryWrite_keeps [OF w ok] saveMemory_keeps [OF _ ok ParseSaveArguments_valid] Some a by blast
    then show ?thesis using Some a w by (simp add: MemSave memory_save_def)
  qed
next
  case (MemEdit flt commit format now sid runID args)
  show ?thesis
  proof (cases "ParseEditArguments args")
    case None
    then show ?thesis using ok by (simp add: MemEdit memory_edit_def)
  next
    case (Some a)
    obtain i e where a: "a = (i, e)" by (cases a)
    obtain res r' where w: "memoryWrite flt commit sid runID (updateMemory format sid runID i e now) r = (res, r')" by fastforce
    then have "cabinetOK (agCabinet r')"
      using memoryWrite_keeps [OF w ok] updateMemory_keeps [OF _ ok] ParseEditArguments_ok Some a by blast
    then show ?thesis using Some a w by (simp add: MemEdit memory_edit_def)
  qed
next
  case (MemDelete flt commit canceled sid i)
  have "cabinetOK c'" if "deleteMemoryRow sid i flt (agCabinet r, 1) = (Inr m, c', n)" for m c' n
    using deleteMemoryRow_Inr [OF that] ok by (simp add: cabinetOK_def memoriesOK_filter)
  then show ?thesis using ok
    by (auto simp: MemDelete deleteMemory_def Let_def split: prod.splits sum.splits memErr.splits commitResult.splits)
next
  case (MemList flt interrupted format tc now sid args)
  then show ?thesis using ok by (auto simp: memory_list_def readFailed_def split: option.splits prod.splits sum.splits)
next
  case (MemGet flt interrupted sid args)
  then show ?thesis using ok by (auto simp: memory_get_def readFailed_def split: option.splits prod.splits sum.splits memErr.splits)
next
  case (SetRuns runs)
  then show ?thesis using ok by (simp add: cabinetOK_def)
qed

section \<open>Properties\<close>

definition emptyAgent :: agentRuntime where
  "emptyAgent = \<lparr>agClosed = False, agFault = False, agActive = [],
     agCabinet = \<lparr>cbMemories = [], cbRunMemories = [], cbSeq = 0, cbRuns = []\<rparr>\<rparr>"

lemma reachable_cabinet: "cabinetOK (agCabinet (fold perform ops emptyAgent))"
proof (induction ops rule: rev_induct)
  case Nil
  show ?case by (simp add: emptyAgent_def cabinetOK_def memoriesOK_def ofSession_def Capacity_def)
qed (simp add: perform_keeps)

text \<open>
  (C27) The limits of the cabinet hold after every sequence of saves, edits and deletions, whatever statements and commits fail on the
  way: a session has at most 60 memories, its pinned memories have at most 3000 characters together, and every memory has
  a title of 1 to 100 and a text of 1 to 800 characters under an identifier of its own.
\<close>

theorem cabinet_within_limits:
  "let ms = cbMemories (agCabinet (fold perform ops emptyAgent))
   in (\<forall>sid. length (filter (\<lambda>m. memSession m = sid) ms) \<le> 60 \<and>
             usedRunes (filter (\<lambda>m. memSession m = sid \<and> memBringBack m) ms) \<le> 3000) \<and>
      list_all (\<lambda>m. memTitle m \<noteq> [] \<and> RuneCount (memTitle m) \<le> 100 \<and> memMsg m \<noteq> [] \<and> RuneCount (memMsg m) \<le> 800) ms \<and>
      distinct (map memID ms)"
proof -
  have "cabinetOK (agCabinet (fold perform ops emptyAgent))" by (rule reachable_cabinet)
  then show ?thesis
    by (simp add: Let_def cabinetOK_def memoriesOK_def ofSession_def validText_def Capacity_def MaxBringBackRunes_def
        MaxTitleRunes_def MaxMsgRunes_def list_all_iff conj_commute)
qed

text \<open>What a successful write leaves behind: the row it reports, and every other row as it was.\<close>

definition wroteRow :: "string \<Rightarrow> int \<Rightarrow> memory \<Rightarrow> cabinet \<Rightarrow> cabinet \<Rightarrow> bool" where
  "wroteRow sid runID m c c' =
     (m \<in> set (cbMemories c') \<and> memSession m = sid \<and> memUpdatedRun m = runID \<and>
      filter (\<lambda>x. memID x \<noteq> memID m) (cbMemories c') = filter (\<lambda>x. memID x \<noteq> memID m) (cbMemories c))"

lemma saveMemory_wrote:
  assumes "saveMemory format sid runID title msg bb now flt (c, n) = (Inr m, c', n')" "cabinetOK c"
  shows "wroteRow sid runID m c c'"
proof -
  note s = saveMemory_Inr [OF assms]
  have "filter (\<lambda>x. memID x \<noteq> memID m) (cbMemories c') = filter (\<lambda>x. memID x \<noteq> memID m) (cbMemories c)" by (simp add: s(2))
  then show ?thesis using s(1) by (simp add: wroteRow_def s(2) newMemory_def)
qed

lemma updateMemory_wrote:
  assumes "updateMemory format sid runID i e now flt (c, n) = (Inr m, c', n')" "cabinetOK c"
  shows "wroteRow sid runID m c c'"
proof -
  obtain m0 where m0: "m0 \<in> set (cbMemories c)" "memID m0 = i" "memSession m0 = sid" "m = editedRow e (format now) runID m0"
    and c': "cbMemories c' = putRow m (cbMemories c)" "cbSeq c' = cbSeq c" "cbRuns c' = cbRuns c" "cbRunMemories c' = cbRunMemories c"
    and b: "memBringBack m \<longrightarrow> usedRunes (pinned sid i (cbMemories c)) + RuneCount (memMsg m) \<le> MaxBringBackRunes"
    by (rule updateMemory_Inr [OF assms])
  have "m \<in> set (cbMemories c')" using m0 by (auto simp: c'(1) putRow_def set_tbl_put)
  moreover have "filter (\<lambda>x. memID x \<noteq> memID m) (putRow m (cbMemories c)) = filter (\<lambda>x. memID x \<noteq> memID m) (cbMemories c)"
    unfolding putRow_def by (rule filter_tbl_put_other) simp_all
  ultimately show ?thesis using m0 by (simp add: wroteRow_def c'(1))
qed

lemma memoryWrite_truthful:
  assumes "memoryWrite flt commit sid runID write r = (res, r')"
    and "\<And>m c' n. write flt (agCabinet r, 2) = (Inr m, c', n) \<Longrightarrow> wroteRow sid runID m (agCabinet r) c'"
  shows "(\<exists>code. res = ErrorResult code ''not_executed'' \<and> agCabinet r' = agCabinet r) \<or>
    (\<exists>m. res = savedResult m \<and> map_of (cbRuns (agCabinet r)) (sid, runID) = Some ''running'' \<and> wroteRow sid runID m (agCabinet r) (agCabinet r')) \<or>
    (\<exists>m. res = unavailable ''unknown'' \<and> agFault r' \<and> (agCabinet r' = agCabinet r \<or> wroteRow sid runID m (agCabinet r) (agCabinet r')))"
  using assms(1)
proof (cases rule: memoryWrite_cases)
  case (stored m c' n)
  then show ?thesis using assms(2) by auto
next
  case (unknown m c' n)
  then show ?thesis using assms(2) by auto
qed simp

text \<open>
  (C28) The result of \<^verbatim>\<open>memory_save\<close> and \<^verbatim>\<open>memory_edit\<close> says what happened: \<^verbatim>\<open>not_executed\<close> means that nothing was stored; a success
  means that the run was still running, the reported memory is stored for this session and every other
  memory is as it was; \<^verbatim>\<open>unknown\<close> is only reported when the commit failed, and from then on every write is refused.
\<close>

theorem memory_results_are_truthful:
  assumes "memory_save flt commit format now sid runID args r = (res, r') \<or> memory_edit flt commit format now sid runID eargs r = (res, r')"
    and "r = fold perform ops emptyAgent"
  shows "(\<exists>code. res = ErrorResult code ''not_executed'' \<and> agCabinet r' = agCabinet r) \<or>
    (\<exists>m. res = savedResult m \<and> map_of (cbRuns (agCabinet r)) (sid, runID) = Some ''running'' \<and> wroteRow sid runID m (agCabinet r) (agCabinet r')) \<or>
    (\<exists>m. res = unavailable ''unknown'' \<and> agFault r' \<and> (agCabinet r' = agCabinet r \<or> wroteRow sid runID m (agCabinet r) (agCabinet r')))"
proof -
  have ok: "cabinetOK (agCabinet r)" unfolding assms(2) by (rule reachable_cabinet)
  have "(\<exists>title msg bb. memoryWrite flt commit sid runID (saveMemory format sid runID title msg bb now) r = (res, r')) \<or>
      (\<exists>i e. memoryWrite flt commit sid runID (updateMemory format sid runID i e now) r = (res, r')) \<or>
      (res, r') = (ErrorResult ''INVALID_TOOL_ARGUMENTS'' ''not_executed'', r)"
    using assms(1) by (auto simp: memory_save_def memory_edit_def split: option.splits)
  then show ?thesis
  proof (elim disjE exE)
    fix title msg bb assume "memoryWrite flt commit sid runID (saveMemory format sid runID title msg bb now) r = (res, r')"
    from memoryWrite_truthful [OF this saveMemory_wrote [OF _ ok]] show ?thesis .
  next
    fix i e assume "memoryWrite flt commit sid runID (updateMemory format sid runID i e now) r = (res, r')"
    from memoryWrite_truthful [OF this updateMemory_wrote [OF _ ok]] show ?thesis .
  qed simp
qed

definition demoArgs :: "saveArgs option" where
  "demoArgs = Some \<lparr>saTitle = Some '' rule'', saMsg = Some ''buy low'', saBringBack = Some True\<rparr>"

definition demoRunning :: "cabinetOp list" where
  "demoRunning = [SetRuns [((''s1'', 1), ''running'')]]"

theorem memory_results_are_truthful_witness:
  "\<exists>r'. memory_save (\<lambda>_. False) Committed (\<lambda>_. ''t'') 0 ''s1'' 1 demoArgs (fold perform demoRunning emptyAgent) = (SavedResult 1 ''rule'' True ''t'', r') \<and>
    (\<exists>m. wroteRow ''s1'' 1 m (agCabinet (fold perform demoRunning emptyAgent)) (agCabinet r'))"
proof -
  let ?r = "fold perform demoRunning emptyAgent"
  have res: "fst (memory_save (\<lambda>_. False) Committed (\<lambda>_. ''t'') 0 ''s1'' 1 demoArgs ?r) = SavedResult 1 ''rule'' True ''t''" by code_simp
  obtain r' where r': "memory_save (\<lambda>_. False) Committed (\<lambda>_. ''t'') 0 ''s1'' 1 demoArgs ?r = (SavedResult 1 ''rule'' True ''t'', r')"
    using res by (metis prod.collapse)
  show ?thesis using memory_results_are_truthful [OF disjI1 [OF r'] refl] r' by (auto simp: unavailable_def)
qed

subsection \<open>Recall\<close>

lemma sort_key_append_max:
  assumes "\<forall>x \<in> set xs. f x \<le> f m"
  shows "sort_key f (xs @ [m]) = sort_key f xs @ [m]"
proof -
  have "filter (\<lambda>x. f k = f x) (sort_key f xs) = filter (\<lambda>x. f k = f x) xs" for k
    using sort_key_stable [of f "f k" xs] by (simp add: eq_commute)
  then show ?thesis using assms by (intro properties_for_sort_key) (auto simp: sorted_append)
qed

text \<open>
  (C29) A memory that was saved is read back as it was saved, heads the index that every later run starts with,
  and is among the memories that are brought back when it was pinned.
\<close>

theorem saved_memory_is_recalled:
  assumes "memory_save flt commit format now sid runID args (fold perform ops emptyAgent) = (SavedResult i t b stamp, r')"
    and "ParseSaveArguments args = Some (title, msg, bb)"
  shows "getMemory sid i (\<lambda>_. False) (agCabinet r', 0) = (Inr (newMemory format sid runID title msg bb now i), agCabinet r', 1) \<and>
    (\<exists>labels rs. ProgressiveContext format sid (\<lambda>_. False) (agCabinet r', 0) = (Inr (labels, rs), agCabinet r', 2) \<and>
       labels \<noteq> [] \<and> hd labels = \<lparr>lbID = i, lbTitle = title, lbCreatedAt = format now\<rparr> \<and>
       (bb \<longrightarrow> \<lparr>rcID = i, rcTitle = title, rcMsg = msg\<rparr> \<in> set rs))"
proof -
  let ?r = "fold perform ops emptyAgent"
  have ok: "cabinetOK (agCabinet ?r)" by (rule reachable_cabinet)
  have "memoryWrite flt commit sid runID (saveMemory format sid runID title msg bb now) ?r = (SavedResult i t b stamp, r')"
    using assms by (simp add: memory_save_def)
  then obtain m c' n where m: "SavedResult i t b stamp = savedResult m"
    and w: "saveMemory format sid runID title msg bb now flt (agCabinet ?r, 2) = (Inr m, c', n)" and r': "agCabinet r' = c'"
    by (cases rule: memoryWrite_cases) (auto simp: unavailable_def)
  note s = saveMemory_Inr [OF w ok]
  have mm: "m = newMemory format sid runID title msg bb now i" and i: "i = cbSeq (agCabinet ?r) + 1" using m s(1) by (simp_all add: savedResult_def newMemory_def)
  have ids: "\<forall>x \<in> set (cbMemories (agCabinet ?r)). memID x < i" using ok i by (auto simp: cabinetOK_def memoriesOK_def)
  have ms: "cbMemories c' = cbMemories (agCabinet ?r) @ [m]" by (rule s(2))
  have "find (hasID sid i) (cbMemories c') = Some m"
    using ids by (intro find_unique) (auto simp: ms mm hasID_def newMemory_def)
  then have g: "getMemory sid i (\<lambda>_. False) (c', 0) = (Inr m, c', 1)" by (simp add: getMemory_def stmt_def stmtF_def)
  let ?f = "\<lparr>lfQuery = [], lfSince = None, lfUntil = None, lfBeforeID = 0, lfAfterID = 0, lfLimit = RecentIndexItems\<rparr>"
  have "listed format sid ?f m" by (simp add: listed_def mm newMemory_def)
  then have "filter (listed format sid ?f) (cbMemories c') = filter (listed format sid ?f) (cbMemories (agCabinet ?r)) @ [m]" by (simp add: ms)
  moreover have "\<forall>x \<in> set (filter (listed format sid ?f) (cbMemories (agCabinet ?r))). memID x \<le> memID m"
    using ids by (auto simp: mm newMemory_def)
  ultimately have "rev (sort_key memID (filter (listed format sid ?f) (cbMemories c'))) =
      m # rev (sort_key memID (filter (listed format sid ?f) (cbMemories (agCabinet ?r))))"
    by (simp only: sort_key_append_max rev_append rev.simps append.simps)
  then have l: "\<exists>rest. listMemories format sid ?f (\<lambda>_. False) (c', 0) = (Inr (labelOf m # rest), c', 1)"
    by (simp add: listMemories_def queryD_def stmt_def stmtF_def listLimitOf_def RecentIndexItems_def MaxListItems_def take_Cons')
  let ?rs = "map (\<lambda>m. \<lparr>rcID = memID m, rcTitle = memTitle m, rcMsg = memMsg m\<rparr>)
      (sort_key memID (filter (\<lambda>m. memSession m = sid \<and> memBringBack m) (cbMemories c')))"
  have "bb \<longrightarrow> \<lparr>rcID = i, rcTitle = title, rcMsg = msg\<rparr> \<in> set ?rs" by (auto simp: ms mm newMemory_def)
  moreover obtain rest where "listMemories format sid ?f (\<lambda>_. False) (c', 0) = (Inr (labelOf m # rest), c', 1)" using l ..
  then have "ProgressiveContext format sid (\<lambda>_. False) (c', 0) = (Inr (labelOf m # rest, ?rs), c', 2)"
    by (simp add: ProgressiveContext_def andThenD_def queryD_def stmt_def stmtF_def pureD_def)
  ultimately show ?thesis using g mm unfolding r' by (auto simp: labelOf_def newMemory_def)
qed

theorem saved_memory_is_recalled_witness:
  "\<exists>r'. memory_save (\<lambda>_. False) Committed (\<lambda>_. ''t'') 0 ''s1'' 1 demoArgs (fold perform demoRunning emptyAgent) = (SavedResult 1 ''rule'' True ''t'', r') \<and>
    fst (getMemory ''s1'' 1 (\<lambda>_. False) (agCabinet r', 0)) = Inr (newMemory (\<lambda>_. ''t'') ''s1'' 1 ''rule'' ''buy low'' True 0 1)"
proof -
  let ?r = "fold perform demoRunning emptyAgent"
  have res: "fst (memory_save (\<lambda>_. False) Committed (\<lambda>_. ''t'') 0 ''s1'' 1 demoArgs ?r) = SavedResult 1 ''rule'' True ''t''" by code_simp
  obtain r' where r': "memory_save (\<lambda>_. False) Committed (\<lambda>_. ''t'') 0 ''s1'' 1 demoArgs ?r = (SavedResult 1 ''rule'' True ''t'', r')"
    using res by (metis prod.collapse)
  have "ParseSaveArguments demoArgs = Some (''rule'', ''buy low'', True)" by code_simp
  then show ?thesis using saved_memory_is_recalled [OF r'] r' by auto
qed

section \<open>Listing\<close>

lemma listArguments_limit: "ParseListArguments tc now a = Some f \<Longrightarrow> 1 \<le> lfLimit f \<and> lfLimit f \<le> 20"
  by (auto simp: ParseListArguments_def listedLimit_def MaxListItems_def bind_eq_Some_conv split: option.splits if_splits)

text \<open>A list shows at most 20 labels, newest first, of memories of the session that match the filter.\<close>

lemma listMemories_labels:
  assumes "listMemories format sid f flt (c, n) = (Inr labels, c', n')"
  shows "c' = c" "length labels \<le> 20" "sorted_wrt (\<ge>) (map lbID labels)"
    and "l \<in> set labels \<Longrightarrow> \<exists>m \<in> set (cbMemories c). l = labelOf m \<and> listed format sid f m"
proof -
  let ?ms = "sort_key memID (filter (listed format sid f) (cbMemories c))"
  have l: "labels = map labelOf (take (nat (listLimitOf (lfLimit f))) (rev ?ms))" "c' = c"
    using assms by (auto simp: listMemories_def queryD_Inr)
  show "c' = c" by (rule l(2))
  show "length labels \<le> 20" by (auto simp: l(1) listLimitOf_def MaxListItems_def min_def)
  have "sorted (map memID ?ms)" by simp
  then have "sorted_wrt (\<ge>) (map memID (rev ?ms))" by (simp only: rev_map [symmetric] sorted_wrt_rev)
  then have "sorted_wrt (\<ge>) (map memID (take (nat (listLimitOf (lfLimit f))) (rev ?ms)))" by (simp only: take_map [symmetric] sorted_wrt_take)
  then show "sorted_wrt (\<ge>) (map lbID labels)" by (simp add: l(1) labelOf_def comp_def)
  show "l \<in> set labels \<Longrightarrow> \<exists>m \<in> set (cbMemories c). l = labelOf m \<and> listed format sid f m"
    by (auto simp: l(1) dest!: in_set_takeD)
qed

end
