(* ===== verification/EventLoop.thy ===== *)
theory EventLoop
  imports Models EventSystem
begin

text \<open>
  The scheduler of the agent server: \<^verbatim>\<open>agent_server/internal/eventloop/eventloop.go\<close>.  Named events run a task every interval,
  a number of times or forever; a loop goroutine sleeps until the next one is due or until it is woken.

  The critical sections under the mutex are functions of the state; \<open>loopFire\<close> lets the callers, the loop goroutines and
  the workers interleave at them.  An \<^verbatim>\<open>*event\<close> is an index into \<open>elHeap\<close>, which only grows: a worker and a caller of \<^verbatim>\<open>Wait\<close> keep
  their event when the maps forget it.  A goroutine is an index into \<open>elLoops\<close> or \<open>elWorkers\<close>, with the place it has reached; the
  number of a loop goroutine is also that of its channels \<^verbatim>\<open>ready\<close> and \<^verbatim>\<open>stopDone\<close>, that of a worker also its context.  \<open>elSignals\<close> counts
  the callers that have left their critical section and have not called \<^verbatim>\<open>signalWake\<close> yet.  Closing a closed channel panics.

  \<open>evRegistered\<close>, \<open>evCount\<close> and \<open>wkStarted\<close> are not part of the program: they record when an event was registered, for how
  many executions, and when each of them started.  Times are nanoseconds without bounds.
\<close>

section \<open>State\<close>

datatype loopErr =
    ErrEventNameRequired | ErrTaskFuncNil | ErrIntervalInvalid | ErrCountInvalid | ErrEventNotFound | ErrAlreadyExist
  | ErrLoopRunning | ErrLoopStopping | ErrEventDeleted | ErrLoopStopped | TaskError string | TaskPanic string string

record loopEvent =
  evName :: string
  evNextRun :: time
  evInterval :: int
  evRemaining :: int
  evRunning :: bool
  evDeleting :: bool
  evCancel :: "nat option"
  evDone :: bool
  evResult :: "loopErr option"
  evRegistered :: time
  evCount :: int

datatype loopState = LoopStopped | LoopRunning | LoopStopping

datatype loopPC = AtDispatch | Sleeping time | Draining | LoopReturned

record loopRun =
  lpPC :: loopPC
  lpFirst :: bool
  lpReady :: bool
  lpStopDone :: bool

datatype workerPC = InTask | TaskReturned "loopErr option" | AtSignal | WorkerDone

record worker =
  wkEvent :: nat
  wkCancelled :: bool
  wkPC :: workerPC
  wkStarted :: time

record eventLoop =
  elHeap :: "loopEvent list"
  elEvents :: "(string \<times> nat) list"
  elFinished :: "(string \<times> nat) list"
  elWake :: bool
  elState :: loopState
  elStopDone :: "nat option"
  elLoops :: "loopRun list"
  elWorkers :: "worker list"
  elSignals :: nat

definition NewEventLoop :: eventLoop where
  "NewEventLoop = \<lparr>elHeap = [], elEvents = [], elFinished = [], elWake = False, elState = LoopStopped, elStopDone = None,
     elLoops = [], elWorkers = [], elSignals = 0\<rparr>"

definition putEvent :: "nat \<Rightarrow> loopEvent \<Rightarrow> eventLoop \<Rightarrow> eventLoop" where
  "putEvent i ev el = el\<lparr>elHeap := (elHeap el)[i := ev]\<rparr>"

definition putWorker :: "nat \<Rightarrow> worker \<Rightarrow> eventLoop \<Rightarrow> eventLoop" where
  "putWorker w wk el = el\<lparr>elWorkers := (elWorkers el)[w := wk]\<rparr>"

definition putLoop :: "nat \<Rightarrow> loopRun \<Rightarrow> eventLoop \<Rightarrow> eventLoop" where
  "putLoop g lp el = el\<lparr>elLoops := (elLoops el)[g := lp]\<rparr>"

definition dropKey :: "string \<Rightarrow> (string \<times> nat) list \<Rightarrow> (string \<times> nat) list" where
  "dropKey name m = filter (\<lambda>(n, _). n \<noteq> name) m"

section \<open>Operations\<close>

definition signalWake :: "eventLoop \<Rightarrow> eventLoop" where
  "signalWake el = el\<lparr>elWake := True\<rparr>"

definition willSignal :: "eventLoop \<Rightarrow> eventLoop" where
  "willSignal el = el\<lparr>elSignals := Suc (elSignals el)\<rparr>"

definition RegisterEvent :: "string \<Rightarrow> bool \<Rightarrow> int \<Rightarrow> int \<Rightarrow> time \<Rightarrow> eventLoop \<Rightarrow> loopErr option \<times> eventLoop" where
  "RegisterEvent name hasTask interval count now el =
     (if TrimSpace name = [] then (Some ErrEventNameRequired, el)
      else if \<not> hasTask then (Some ErrTaskFuncNil, el)
      else if interval \<le> 0 then (Some ErrIntervalInvalid, el)
      else if count = 0 \<or> count < -1 then (Some ErrCountInvalid, el)
      else if elState el = LoopStopping then (Some ErrLoopStopping, el)
      else if map_of (elEvents el) name \<noteq> None then (Some ErrAlreadyExist, el)
      else (None, willSignal (el\<lparr>
             elFinished := dropKey name (elFinished el),
             elEvents := (name, length (elHeap el)) # elEvents el,
             elHeap := elHeap el @ [\<lparr>evName = name, evNextRun = now + interval, evInterval = interval, evRemaining = count,
               evRunning = False, evDeleting = False, evCancel = None, evDone = False, evResult = None,
               evRegistered = now, evCount = count\<rparr>]\<rparr>)))"

definition StartLoop :: "eventLoop \<Rightarrow> loopErr option \<times> eventLoop" where
  "StartLoop el = (case elState el of
     LoopRunning \<Rightarrow> (Some ErrLoopRunning, el)
   | LoopStopping \<Rightarrow> (Some ErrLoopStopping, el)
   | LoopStopped \<Rightarrow> (None, el\<lparr>elWake := False, elState := LoopRunning, elStopDone := Some (length (elLoops el)),
       elLoops := elLoops el @ [\<lparr>lpPC = AtDispatch, lpFirst = True, lpReady = False, lpStopDone = False\<rparr>]\<rparr>))"

text \<open>One event of the loop in \<^verbatim>\<open>dispatchDue\<close>.\<close>

definition startEvent :: "time \<Rightarrow> nat \<Rightarrow> eventLoop \<Rightarrow> eventLoop" where
  "startEvent now i el =
     (let ev = elHeap el ! i
      in putEvent i (ev\<lparr>evRemaining := (if evRemaining ev > 0 then evRemaining ev - 1 else evRemaining ev), evRunning := True,
             evNextRun := now + evInterval ev, evCancel := Some (length (elWorkers el))\<rparr>)
           (el\<lparr>elWorkers := elWorkers el @ [\<lparr>wkEvent = i, wkCancelled = False, wkPC = InTask, wkStarted = now\<rparr>]\<rparr>))"

definition dispatchOne :: "time \<Rightarrow> string \<Rightarrow> eventLoop \<times> time \<Rightarrow> eventLoop \<times> time" where
  "dispatchOne now name = (\<lambda>(el, deadline). case map_of (elEvents el) name of
     None \<Rightarrow> (el, deadline)
   | Some i \<Rightarrow>
       (let ev = elHeap el ! i
        in if evDeleting ev \<or> evRemaining ev = 0 then (el, deadline)
           else if evRunning ev then (el, deadline)
           else if now < evNextRun ev then (el, if evNextRun ev < deadline then evNextRun ev else deadline)
           else (startEvent now i el, deadline)))"

definition oneHour :: int where "oneHour = 3600000000000"

text \<open>\<^verbatim>\<open>range\<close> visits the keys of a map in any order: \<open>ks\<close> lists them.  \<^const>\<open>None\<close> says that the loop was stopped.\<close>

definition dispatchDue :: "time \<Rightarrow> string list \<Rightarrow> eventLoop \<Rightarrow> eventLoop \<times> time option" where
  "dispatchDue now ks el =
     (if elState el \<noteq> LoopRunning then (el, None)
      else case fold (dispatchOne now) ks (el, now + oneHour) of (el', deadline) \<Rightarrow> (el', Some deadline))"

text \<open>The event leaves the map and its waiters are released.\<close>

definition finishEvent :: "loopErr option \<Rightarrow> nat \<Rightarrow> eventLoop \<Rightarrow> eventLoop" where
  "finishEvent result i el =
     (let ev = elHeap el ! i
      in putEvent i (ev\<lparr>evResult := result, evDone := True\<rparr>)
           (el\<lparr>elEvents := dropKey (evName ev) (elEvents el), elFinished := (evName ev, i) # dropKey (evName ev) (elFinished el)\<rparr>))"

definition cancelTask :: "nat option \<Rightarrow> eventLoop \<Rightarrow> eventLoop" where
  "cancelTask c el = (case c of None \<Rightarrow> el | Some w \<Rightarrow> putWorker w ((elWorkers el ! w)\<lparr>wkCancelled := True\<rparr>) el)"

text \<open>The second half of \<^verbatim>\<open>execute\<close>, after the task has returned \<open>result\<close>.\<close>

definition afterTask :: "nat \<Rightarrow> loopErr option \<Rightarrow> eventLoop \<Rightarrow> eventLoop" where
  "afterTask i result el =
     (let ev = elHeap el ! i;
          el1 = putEvent i (ev\<lparr>evRunning := False, evCancel := None, evResult := result\<rparr>) el
      in if evDeleting ev \<or> evRemaining ev = 0 \<or> elState el \<noteq> LoopRunning
         then finishEvent (if evDeleting ev then Some ErrEventDeleted
                           else if elState el \<noteq> LoopRunning then Some ErrLoopStopped else result) i el1
         else el1)"

datatype taskEnd = TaskReturns "string option" | TaskPanics string

definition callTask :: "string \<Rightarrow> taskEnd \<Rightarrow> loopErr option" where
  "callTask name r = (case r of TaskReturns e \<Rightarrow> map_option TaskError e | TaskPanics p \<Rightarrow> Some (TaskPanic name p))"

definition stopIdle :: "string \<Rightarrow> eventLoop \<Rightarrow> eventLoop" where
  "stopIdle name el = (case map_of (elEvents el) name of
     None \<Rightarrow> el | Some i \<Rightarrow> finishEvent (Some ErrLoopStopped) i el)"

definition stopRegistered :: "string \<Rightarrow> eventLoop \<Rightarrow> eventLoop" where
  "stopRegistered name el = (case map_of (elEvents el) name of
     None \<Rightarrow> el
   | Some i \<Rightarrow>
       (let ev = elHeap el ! i; el1 = cancelTask (evCancel ev) el
        in if evRunning ev then el1 else finishEvent (Some ErrLoopStopped) i el1))"

text \<open>\<^verbatim>\<open>Stop\<close> up to the wait; the result is the channel \<^verbatim>\<open>stopDone\<close> it waits for, if it waits.\<close>

definition StopLoop :: "string list \<Rightarrow> eventLoop \<Rightarrow> nat option \<times> eventLoop" where
  "StopLoop ks el = (case elState el of
     LoopStopped \<Rightarrow> (None, fold stopIdle ks el)
   | LoopRunning \<Rightarrow> (elStopDone el, willSignal (fold stopRegistered ks (el\<lparr>elState := LoopStopping\<rparr>)))
   | LoopStopping \<Rightarrow> (elStopDone el, willSignal el))"

definition DelEvent :: "string \<Rightarrow> eventLoop \<Rightarrow> loopErr option \<times> eventLoop" where
  "DelEvent name el = (case map_of (elEvents el) name of
     None \<Rightarrow> (Some ErrEventNotFound, el)
   | Some i \<Rightarrow>
       (let ev = elHeap el ! i;
            el1 = cancelTask (evCancel ev) (putEvent i (ev\<lparr>evDeleting := True\<rparr>) el)
        in (None, willSignal (if evRunning ev then el1 else finishEvent (Some ErrEventDeleted) i el1))))"

text \<open>\<^verbatim>\<open>Wait\<close>: the event it waits for, and what it returns once \<^verbatim>\<open>done\<close> is closed.\<close>

definition WaitEvent :: "string \<Rightarrow> eventLoop \<Rightarrow> loopErr + nat" where
  "WaitEvent name el = (case map_of (elEvents el) name of
     Some i \<Rightarrow> Inr i
   | None \<Rightarrow> (case map_of (elFinished el) name of Some i \<Rightarrow> Inr i | None \<Rightarrow> Inl ErrEventNotFound))"

definition waitResult :: "nat \<Rightarrow> eventLoop \<Rightarrow> loopErr option option" where
  "waitResult i el = (if evDone (elHeap el ! i) then Some (evResult (elHeap el ! i)) else None)"

definition IsEmpty :: "eventLoop \<Rightarrow> bool" where
  "IsEmpty el = (elEvents el = [])"

section \<open>Goroutines\<close>

definition isOrder :: "string list \<Rightarrow> eventLoop \<Rightarrow> bool" where
  "isOrder ks el = (distinct ks \<and> set ks = fst ` set (elEvents el))"

definition closeReady :: "loopRun \<Rightarrow> loopRun option" where
  "closeReady lp = (if lpFirst lp then if lpReady lp then None else Some (lp\<lparr>lpReady := True\<rparr>) else Some lp)"

definition afterDispatch :: "nat \<Rightarrow> eventLoop \<times> time option \<Rightarrow> eventLoop outcome" where
  "afterDispatch g = (\<lambda>(el, d). case closeReady (elLoops el ! g) of
     None \<Rightarrow> Panics
   | Some lp \<Rightarrow> Next (putLoop g (case d of
        None \<Rightarrow> lp\<lparr>lpPC := Draining\<rparr>
      | Some deadline \<Rightarrow> lp\<lparr>lpPC := Sleeping deadline, lpFirst := False\<rparr>) el))"

definition loopEnds :: "nat \<Rightarrow> eventLoop \<Rightarrow> eventLoop outcome" where
  "loopEnds g el = (case elStopDone el of
     None \<Rightarrow> Panics
   | Some c \<Rightarrow>
       (let el1 = putLoop g ((elLoops el ! g)\<lparr>lpPC := LoopReturned\<rparr>) (el\<lparr>elState := LoopStopped\<rparr>)
        in if lpStopDone (elLoops el1 ! c) then Panics
           else Next (putLoop c ((elLoops el1 ! c)\<lparr>lpStopDone := True\<rparr>) el1)))"

definition atPC :: "nat \<Rightarrow> (loopPC \<Rightarrow> bool) \<Rightarrow> eventLoop \<Rightarrow> bool" where
  "atPC g P el = (g < length (elLoops el) \<and> P (lpPC (elLoops el ! g)))"

definition workerAt :: "nat \<Rightarrow> workerPC \<Rightarrow> eventLoop \<Rightarrow> bool" where
  "workerAt w pc el = (w < length (elWorkers el) \<and> wkPC (elWorkers el ! w) = pc)"

datatype loopStep =
    Register string bool int int time
  | Start
  | Stop "string list"
  | DeleteEvent string
  | Signal
  | Dispatch nat time "string list"
  | TimerFires nat time
  | TakesWake nat
  | Drained nat
  | TaskEnds nat taskEnd
  | Executed nat "loopErr option"
  | WorkerSignals nat

fun loopFire :: "loopStep \<Rightarrow> eventLoop \<Rightarrow> eventLoop outcome" where
  "loopFire (Register name hasTask interval count now) el = Next (snd (RegisterEvent name hasTask interval count now el))"
| "loopFire Start el = Next (snd (StartLoop el))"
| "loopFire (Stop ks) el = (if isOrder ks el then Next (snd (StopLoop ks el)) else Blocked)"
| "loopFire (DeleteEvent name) el = Next (snd (DelEvent name el))"
| "loopFire Signal el = (if elSignals el > 0 then Next (signalWake (el\<lparr>elSignals := elSignals el - 1\<rparr>)) else Blocked)"
| "loopFire (Dispatch g now ks) el =
     (if atPC g (\<lambda>pc. pc = AtDispatch) el \<and> isOrder ks el then afterDispatch g (dispatchDue now ks el) else Blocked)"
| "loopFire (TimerFires g now) el =
     (if atPC g (\<lambda>pc. case pc of Sleeping d \<Rightarrow> d \<le> now | _ \<Rightarrow> False) el
      then Next (putLoop g ((elLoops el ! g)\<lparr>lpPC := AtDispatch\<rparr>) el) else Blocked)"
| "loopFire (TakesWake g) el =
     (if atPC g (\<lambda>pc. case pc of Sleeping d \<Rightarrow> True | _ \<Rightarrow> False) el \<and> elWake el
      then Next (putLoop g ((elLoops el ! g)\<lparr>lpPC := AtDispatch\<rparr>) (el\<lparr>elWake := False\<rparr>)) else Blocked)"
| "loopFire (Drained g) el =
     (if atPC g (\<lambda>pc. pc = Draining) el \<and> list_all (\<lambda>wk. wkPC wk = WorkerDone) (elWorkers el) then loopEnds g el else Blocked)"
| "loopFire (TaskEnds w r) el =
     (if workerAt w InTask el
      then let wk = elWorkers el ! w
           in Next (putWorker w (wk\<lparr>wkCancelled := True, wkPC := TaskReturned (callTask (evName (elHeap el ! wkEvent wk)) r)\<rparr>) el)
      else Blocked)"
| "loopFire (Executed w r) el =
     (if workerAt w (TaskReturned r) el
      then let wk = elWorkers el ! w in Next (afterTask (wkEvent wk) r (putWorker w (wk\<lparr>wkPC := AtSignal\<rparr>) el))
      else Blocked)"
| "loopFire (WorkerSignals w) el =
     (if workerAt w AtSignal el then Next (signalWake (putWorker w ((elWorkers el ! w)\<lparr>wkPC := WorkerDone\<rparr>) el)) else Blocked)"

end
