(* ===== verification/EventLoopSafety.thy ===== *)
theory EventLoopSafety
  imports EventLoop
begin

text \<open>
  The invariant of the event loop, as an instance of \<open>safe_event_system\<close>: an event, the maps and its worker agree, there is
  at most one loop goroutine, and a sleeping loop has a wake-up coming for everything its deadline does not cover.
\<close>

section \<open>The invariant\<close>

definition live :: "worker \<Rightarrow> bool" where
  "live wk = (case wkPC wk of InTask \<Rightarrow> True | TaskReturned _ \<Rightarrow> True | _ \<Rightarrow> False)"

text \<open>When the executions of an event started.\<close>

definition runsOf :: "worker list \<Rightarrow> nat \<Rightarrow> time list" where
  "runsOf ws i = map wkStarted (filter (\<lambda>wk. wkEvent wk = i) ws)"

definition resultOK :: "loopEvent \<Rightarrow> bool" where
  "resultOK ev = (if evDeleting ev then evResult ev = Some ErrEventDeleted
                  else evResult ev = Some ErrLoopStopped \<or> evRemaining ev = 0)"

definition scheduleOK :: "time list \<Rightarrow> loopEvent \<Rightarrow> bool" where
  "scheduleOK ts ev =
     (0 < evInterval ev \<and> sorted_wrt (\<lambda>a b. a + evInterval ev \<le> b) (evRegistered ev # ts @ [evNextRun ev]) \<and>
      (if evCount ev > 0 then int (length ts) + evRemaining ev = evCount ev \<and> 0 \<le> evRemaining ev else evRemaining ev = -1))"

definition ownWorker :: "worker list \<Rightarrow> nat \<Rightarrow> loopEvent \<Rightarrow> bool" where
  "ownWorker ws i ev = (case evCancel ev of
     None \<Rightarrow> \<not> evRunning ev
   | Some w \<Rightarrow> evRunning ev \<and> \<not> evDone ev \<and> w < length ws \<and> wkEvent (ws ! w) = i \<and> live (ws ! w) \<and>
               (evDeleting ev \<longrightarrow> wkCancelled (ws ! w)))"

definition eventOK :: "worker list \<Rightarrow> nat \<Rightarrow> loopEvent \<Rightarrow> bool" where
  "eventOK ws i ev =
     (scheduleOK (runsOf ws i) ev \<and> ownWorker ws i ev \<and>
      (\<not> evDone ev \<and> \<not> evRunning ev \<longrightarrow> \<not> evDeleting ev \<and> evRemaining ev \<noteq> 0) \<and> (evDone ev \<longrightarrow> resultOK ev))"

definition coreOK :: "loopEvent list \<Rightarrow> (string \<times> nat) list \<Rightarrow> worker list \<Rightarrow> bool" where
  "coreOK h m ws =
     (distinct (map fst m) \<and> (\<forall>(n, i) \<in> set m. i < length h \<and> evName (h ! i) = n \<and> \<not> evDone (h ! i)) \<and>
      (\<forall>i < length h. eventOK ws i (h ! i) \<and> (\<not> evDone (h ! i) \<longrightarrow> (evName (h ! i), i) \<in> set m)) \<and>
      (\<forall>w < length ws. wkEvent (ws ! w) < length h \<and> (live (ws ! w) \<longrightarrow> evCancel (h ! wkEvent (ws ! w)) = Some w)))"

lemma coreD:
  assumes "coreOK h m ws"
  shows "distinct (map fst m)"
    and "(n, i) \<in> set m \<Longrightarrow> i < length h \<and> evName (h ! i) = n \<and> \<not> evDone (h ! i)"
    and "i < length h \<Longrightarrow> eventOK ws i (h ! i)"
    and "i < length h \<Longrightarrow> \<not> evDone (h ! i) \<Longrightarrow> (evName (h ! i), i) \<in> set m"
    and "w < length ws \<Longrightarrow> wkEvent (ws ! w) < length h"
    and "w < length ws \<Longrightarrow> live (ws ! w) \<Longrightarrow> evCancel (h ! wkEvent (ws ! w)) = Some w"
  using assms unfolding coreOK_def by fast+

section \<open>One event changes\<close>

lemma nth_update_if: "xs[i := x] ! j = (if i = j \<and> j < length xs then x else xs ! j)"
  by (cases "i < length xs") (auto simp: nth_list_update list_update_beyond)

text \<open>The workers of the other events stay as they are.\<close>

definition othersSame :: "nat \<Rightarrow> worker list \<Rightarrow> worker list \<Rightarrow> bool" where
  "othersSame i ws ws' =
     (length ws \<le> length ws' \<and> (\<forall>w < length ws. wkEvent (ws ! w) \<noteq> i \<longrightarrow> ws' ! w = ws ! w) \<and>
      (\<forall>w < length ws'. length ws \<le> w \<or> wkEvent (ws ! w) = i \<longrightarrow> wkEvent (ws' ! w) = i) \<and>
      (\<forall>j. j \<noteq> i \<longrightarrow> runsOf ws' j = runsOf ws j))"

lemma othersSame_refl [simp]: "othersSame i ws ws"
  by (simp add: othersSame_def)

lemma othersSame_append: "wkEvent wk = i \<Longrightarrow> othersSame i ws (ws @ [wk])"
  by (auto simp: othersSame_def runsOf_def nth_append)

lemma runsOf_update:
  "wkEvent wk = wkEvent (ws ! w) \<Longrightarrow> wkStarted wk = wkStarted (ws ! w) \<Longrightarrow> runsOf (ws[w := wk]) j = runsOf ws j"
proof (induction ws arbitrary: w)
  case (Cons x ws)
  then show ?case by (cases w) (auto simp: runsOf_def)
qed (simp add: runsOf_def)

lemma othersSame_update:
  "wkEvent (ws ! w) = i \<Longrightarrow> wkEvent wk = i \<Longrightarrow> wkStarted wk = wkStarted (ws ! w) \<Longrightarrow> othersSame i ws (ws[w := wk])"
  by (auto simp: othersSame_def runsOf_update nth_update_if)

lemma eventOK_other:
  assumes "othersSame i ws ws'" "j \<noteq> i" "eventOK ws j ev"
  shows "eventOK ws' j ev"
proof -
  have "ownWorker ws' j ev"
  proof (cases "evCancel ev")
    case (Some w)
    then have w: "w < length ws" "wkEvent (ws ! w) = j" using assms(3) by (auto simp: eventOK_def ownWorker_def)
    then have "ws' ! w = ws ! w" "w < length ws'" using assms(1,2) by (auto simp: othersSame_def)
    then show ?thesis using assms(3) Some by (auto simp: eventOK_def ownWorker_def)
  qed (use assms(3) in \<open>simp add: eventOK_def ownWorker_def\<close>)
  then show ?thesis using assms by (simp add: eventOK_def othersSame_def)
qed

lemma set_dropKey: "(n, i) \<in> set (dropKey k m) \<longleftrightarrow> (n, i) \<in> set m \<and> n \<noteq> k"
  by (auto simp: dropKey_def)

lemma map_fst_dropKey: "map fst (dropKey k m) = filter (\<lambda>n. n \<noteq> k) (map fst m)"
  by (induction m) (auto simp: dropKey_def)

lemma map_of_NoneD: "map_of m k = None \<Longrightarrow> (k, i) \<notin> set m"
  by (auto simp: map_of_eq_None_iff image_iff)

lemma same_index:
  assumes "coreOK h m ws" "(n, i) \<in> set m" "(n, j) \<in> set m"
  shows "i = j"
  using coreD(1) [OF assms(1)] assms(2,3) by (metis map_of_is_SomeI option.inject)

lemma core_change:
  assumes ok: "coreOK h m ws" and i: "i < length h" "\<not> evDone (h ! i)" and name: "evName ev = evName (h ! i)"
    and m': "m' = (if evDone ev then dropKey (evName ev) m else m)" and others: "othersSame i ws ws'" and ev: "eventOK ws' i ev"
    and live: "\<And>w. w < length ws' \<Longrightarrow> wkEvent (ws' ! w) = i \<Longrightarrow> live (ws' ! w) \<Longrightarrow> evCancel ev = Some w"
  shows "coreOK (h[i := ev]) m' ws'"
  unfolding coreOK_def
proof (intro conjI allI impI ballI)
  have inm: "(evName (h ! i), i) \<in> set m" by (rule coreD(4) [OF ok i])
  show "distinct (map fst m')" using coreD(1) [OF ok] by (simp add: m' map_fst_dropKey)
  fix x assume x: "x \<in> set m'"
  obtain n j where nj: "x = (n, j)" by (cases x)
  have xm: "(n, j) \<in> set m" using x by (auto simp: nj m' set_dropKey split: if_splits)
  have "j = i \<Longrightarrow> \<not> evDone ev" using x coreD(2) [OF ok xm] by (auto simp: nj m' name set_dropKey split: if_splits)
  then show "case x of (n, j) \<Rightarrow> j < length (h[i := ev]) \<and> evName (h[i := ev] ! j) = n \<and> \<not> evDone (h[i := ev] ! j)"
    using coreD(2) [OF ok xm] by (auto simp: nj name nth_update_if)
next
  fix j assume j: "j < length (h[i := ev])"
  show "eventOK ws' j (h[i := ev] ! j)"
    using ev eventOK_other [OF others _ coreD(3) [OF ok]] j by (auto simp: nth_update_if)
  have "\<not> evDone (h ! j) \<Longrightarrow> evName (h ! j) = evName (h ! i) \<Longrightarrow> j = i"
    using j coreD(4) [OF ok i] coreD(4) [OF ok, of j] same_index [OF ok] by auto
  moreover assume "\<not> evDone (h[i := ev] ! j)"
  ultimately show "(evName (h[i := ev] ! j), j) \<in> set m'"
    using coreD(4) [OF ok] coreD(4) [OF ok i] j name
    by (auto simp: nth_update_if m' set_dropKey split: if_splits)
next
  fix w assume w: "w < length ws'"
  have old: "wkEvent (ws' ! w) \<noteq> i \<Longrightarrow> w < length ws \<and> wkEvent (ws ! w) \<noteq> i \<and> ws' ! w = ws ! w"
    using others w unfolding othersSame_def by (metis not_less)
  show "wkEvent (ws' ! w) < length (h[i := ev])" using old i(1) coreD(5) [OF ok] by (cases "wkEvent (ws' ! w) = i") auto
  assume "live (ws' ! w)"
  then show "evCancel (h[i := ev] ! wkEvent (ws' ! w)) = Some w"
    using old live [OF w] i(1) coreD(6) [OF ok] by (cases "wkEvent (ws' ! w) = i") auto
qed

text \<open>A worker moves on without a change of its event.\<close>

lemma core_worker:
  assumes ok: "coreOK h m ws" and w: "w < length ws" and ev: "wkEvent wk = wkEvent (ws ! w)" "wkStarted wk = wkStarted (ws ! w)"
    and live: "live wk = live (ws ! w)" and canc: "wkCancelled (ws ! w) \<longrightarrow> wkCancelled wk"
  shows "coreOK h m (ws[w := wk])"
  unfolding coreOK_def
proof (intro conjI allI impI)
  show "distinct (map fst m)" by (rule coreD(1) [OF ok])
  show "\<forall>(n, i) \<in> set m. i < length h \<and> evName (h ! i) = n \<and> \<not> evDone (h ! i)" using coreD(2) [OF ok] by blast
next
  fix i assume i: "i < length h"
  have "ownWorker (ws[w := wk]) i (h ! i)"
    using coreD(3) [OF ok i] w live canc ev by (auto simp: eventOK_def ownWorker_def nth_update_if split: option.splits)
  then show "eventOK (ws[w := wk]) i (h ! i)" using coreD(3) [OF ok i] by (simp add: eventOK_def runsOf_update [OF ev])
  assume "\<not> evDone (h ! i)"
  then show "(evName (h ! i), i) \<in> set m" by (rule coreD(4) [OF ok i])
next
  fix u assume u: "u < length (ws[w := wk])"
  show "wkEvent (ws[w := wk] ! u) < length h" using coreD(5) [OF ok] u ev by (auto simp: nth_update_if)
  assume "live (ws[w := wk] ! u)"
  then show "evCancel (h ! wkEvent (ws[w := wk] ! u)) = Some u" using coreD(6) [OF ok] u ev live by (auto simp: nth_update_if split: if_splits)
qed

section \<open>The operations keep the core\<close>

abbreviation core :: "eventLoop \<Rightarrow> bool" where
  "core el \<equiv> coreOK (elHeap el) (elEvents el) (elWorkers el)"

lemmas put_defs = putEvent_def putWorker_def putLoop_def signalWake_def willSignal_def

lemma idle_event:
  assumes "core el" "(n, i) \<in> set (elEvents el)" "\<not> evRunning (elHeap el ! i)"
  shows "evCancel (elHeap el ! i) = None" "\<not> evDeleting (elHeap el ! i)" "evRemaining (elHeap el ! i) \<noteq> 0"
proof -
  have i: "i < length (elHeap el)" "\<not> evDone (elHeap el ! i)" using coreD(2) [OF assms(1,2)] by auto
  have "eventOK (elWorkers el) i (elHeap el ! i)" by (rule coreD(3) [OF assms(1) i(1)])
  then show "evCancel (elHeap el ! i) = None" "\<not> evDeleting (elHeap el ! i)" "evRemaining (elHeap el ! i) \<noteq> 0"
    using assms(3) i(2) by (auto simp: eventOK_def ownWorker_def split: option.splits)
qed

lemma idle_worker:
  assumes "core el" "(n, i) \<in> set (elEvents el)" "\<not> evRunning (elHeap el ! i)" "w < length (elWorkers el)" "wkEvent (elWorkers el ! w) = i"
  shows "\<not> live (elWorkers el ! w)"
  using coreD(6) [OF assms(1,4)] assms(5) idle_event(1) [OF assms(1-3)] by auto

lemma schedule_start:
  assumes "scheduleOK ts ev" "evNextRun ev \<le> now" "evRemaining ev \<noteq> 0"
  shows "scheduleOK (ts @ [now]) (ev\<lparr>evRemaining := (if evRemaining ev > 0 then evRemaining ev - 1 else evRemaining ev),
    evRunning := True, evNextRun := now + evInterval ev, evCancel := c\<rparr>)"
proof -
  have pos: "0 < evInterval ev" and s: "sorted_wrt (\<lambda>a b. a + evInterval ev \<le> b) (evRegistered ev # ts @ [evNextRun ev])"
    using assms(1) by (auto simp: scheduleOK_def)
  have "\<forall>t \<in> set (evRegistered ev # ts). t + evInterval ev \<le> now" using s assms(2) by (auto simp: sorted_wrt_append)
  moreover have "sorted_wrt (\<lambda>a b. a + evInterval ev \<le> b) (evRegistered ev # ts)" using s by (auto simp: sorted_wrt_append)
  ultimately have "sorted_wrt (\<lambda>a b. a + evInterval ev \<le> b) (evRegistered ev # (ts @ [now]) @ [now + evInterval ev])"
    using pos by (auto simp: sorted_wrt_append)
  then show ?thesis using assms(1,3) by (auto simp: scheduleOK_def)
qed

lemma core_start:
  assumes ok: "core el" and e: "(n, i) \<in> set (elEvents el)" "\<not> evRunning (elHeap el ! i)" and now: "evNextRun (elHeap el ! i) \<le> now"
  shows "core (startEvent now i el)"
proof -
  let ?ev = "elHeap el ! i" and ?wk = "\<lparr>wkEvent = i, wkCancelled = False, wkPC = InTask, wkStarted = now\<rparr>"
  let ?ev' = "?ev\<lparr>evRemaining := (if evRemaining ?ev > 0 then evRemaining ?ev - 1 else evRemaining ?ev), evRunning := True,
    evNextRun := now + evInterval ?ev, evCancel := Some (length (elWorkers el))\<rparr>"
  have i: "i < length (elHeap el)" "\<not> evDone ?ev" using coreD(2) [OF ok e(1)] by auto
  note idle = idle_event [OF ok e]
  have "scheduleOK (runsOf (elWorkers el) i @ [now]) ?ev'"
    using coreD(3) [OF ok i(1)] now idle(3) by (intro schedule_start) (auto simp: eventOK_def)
  then have "eventOK (elWorkers el @ [?wk]) i ?ev'"
    using idle i by (simp add: eventOK_def ownWorker_def runsOf_def live_def)
  moreover have "evCancel ?ev' = Some w"
    if "w < length (elWorkers el @ [?wk])" "wkEvent ((elWorkers el @ [?wk]) ! w) = i" "live ((elWorkers el @ [?wk]) ! w)" for w
    using that idle_worker [OF ok e, of w] by (cases "w < length (elWorkers el)") (auto simp: nth_append)
  ultimately show ?thesis
    using core_change [OF ok i, of ?ev' "elEvents el" "elWorkers el @ [?wk]"] i(2)
    by (simp add: startEvent_def Let_def putEvent_def othersSame_append)
qed

text \<open>An event that is not running leaves the map, with a result that says why.\<close>

lemma core_leave:
  assumes ok: "core el" and e: "(n, i) \<in> set (elEvents el)" "\<not> evRunning (elHeap el ! i)"
    and r: "resultOK ((elHeap el ! i)\<lparr>evDeleting := del, evResult := r\<rparr>)"
  shows "coreOK ((elHeap el)[i := (elHeap el ! i)\<lparr>evDeleting := del, evResult := r, evDone := True\<rparr>])
    (dropKey (evName (elHeap el ! i)) (elEvents el)) (elWorkers el)"
proof -
  have i: "i < length (elHeap el)" "\<not> evDone (elHeap el ! i)" using coreD(2) [OF ok e(1)] by auto
  have "eventOK (elWorkers el) i ((elHeap el ! i)\<lparr>evDeleting := del, evResult := r, evDone := True\<rparr>)"
    using coreD(3) [OF ok i(1)] idle_event [OF ok e] r by (auto simp: eventOK_def ownWorker_def scheduleOK_def resultOK_def split: if_splits)
  then show ?thesis
    using idle_worker [OF ok e] by (intro core_change [OF ok i]) auto
qed

lemma core_finish:
  assumes ok: "core el" and e: "(n, i) \<in> set (elEvents el)" "\<not> evRunning (elHeap el ! i)"
  shows "core (finishEvent (Some ErrLoopStopped) i el)"
proof -
  have "(elHeap el ! i)\<lparr>evDeleting := False, evResult := Some ErrLoopStopped, evDone := True\<rparr> =
      (elHeap el ! i)\<lparr>evResult := Some ErrLoopStopped, evDone := True\<rparr>"
    using idle_event(2) [OF ok e] by (cases "elHeap el ! i") simp
  then show ?thesis
    using core_leave [OF ok e, where del = False and r = "Some ErrLoopStopped"]
    by (simp add: finishEvent_def Let_def putEvent_def resultOK_def)
qed

lemma running_worker:
  assumes "core el" "(n, i) \<in> set (elEvents el)" "evRunning (elHeap el ! i)"
  obtains w where "evCancel (elHeap el ! i) = Some w" "w < length (elWorkers el)" "wkEvent (elWorkers el ! w) = i" "live (elWorkers el ! w)"
proof -
  have "ownWorker (elWorkers el) i (elHeap el ! i)"
    using coreD(3) [OF assms(1)] coreD(2) [OF assms(1,2)] by (simp add: eventOK_def)
  then show ?thesis using assms(3) by (auto simp: ownWorker_def split: option.splits intro: that)
qed

lemma live_cancelled [simp]: "live (wk\<lparr>wkCancelled := b\<rparr>) = live wk"
  by (simp add: live_def)

lemma core_cancelTask:
  assumes ok: "core el" and e: "(n, i) \<in> set (elEvents el)"
  shows "core (cancelTask (evCancel (elHeap el ! i)) el)"
proof (cases "evRunning (elHeap el ! i)")
  case True
  then obtain w where "evCancel (elHeap el ! i) = Some w" "w < length (elWorkers el)" by (rule running_worker [OF ok e])
  then show ?thesis using core_worker [OF ok] by (simp add: cancelTask_def putWorker_def)
next
  case False
  then show ?thesis using idle_event(1) [OF ok e] ok by (simp add: cancelTask_def)
qed

lemma core_RegisterEvent:
  assumes ok: "core el"
  shows "core (snd (RegisterEvent name hasTask interval count now el))"
proof -
  let ?ev = "\<lparr>evName = name, evNextRun = now + interval, evInterval = interval, evRemaining = count,
    evRunning = False, evDeleting = False, evCancel = None, evDone = False, evResult = None, evRegistered = now, evCount = count\<rparr>"
  let ?n = "length (elHeap el)"
  have "coreOK (elHeap el @ [?ev]) ((name, ?n) # elEvents el) (elWorkers el)"
    if new: "map_of (elEvents el) name = None" and args: "0 < interval" "count \<noteq> 0" "-1 \<le> count"
    unfolding coreOK_def
  proof (intro conjI allI impI)
    show "distinct (map fst ((name, ?n) # elEvents el))" using coreD(1) [OF ok] new by (simp add: map_of_eq_None_iff)
    show "\<forall>(n, i) \<in> set ((name, ?n) # elEvents el). i < length (elHeap el @ [?ev]) \<and> evName ((elHeap el @ [?ev]) ! i) = n \<and>
        \<not> evDone ((elHeap el @ [?ev]) ! i)"
      using coreD(2) [OF ok] by (auto simp: nth_append)
  next
    fix i assume i: "i < length (elHeap el @ [?ev])"
    have "runsOf (elWorkers el) ?n = []"
      using coreD(5) [OF ok] by (fastforce simp: runsOf_def filter_empty_conv in_set_conv_nth)
    then have "eventOK (elWorkers el) ?n ?ev" using args by (simp add: eventOK_def scheduleOK_def ownWorker_def)
    then show "eventOK (elWorkers el) i ((elHeap el @ [?ev]) ! i)"
      using coreD(3) [OF ok, of i] i by (cases "i < ?n") (auto simp: nth_append less_Suc_eq)
    show "(evName ((elHeap el @ [?ev]) ! i), i) \<in> set ((name, ?n) # elEvents el)" if "\<not> evDone ((elHeap el @ [?ev]) ! i)"
      using coreD(4) [OF ok, of i] i that by (cases "i < ?n") (auto simp: nth_append less_Suc_eq)
  next
    fix w assume w: "w < length (elWorkers el)"
    show "wkEvent (elWorkers el ! w) < length (elHeap el @ [?ev])" using coreD(5) [OF ok w] by simp
    show "evCancel ((elHeap el @ [?ev]) ! wkEvent (elWorkers el ! w)) = Some w" if "live (elWorkers el ! w)"
      using coreD(5,6) [OF ok w] that by (simp add: nth_append)
  qed
  then show ?thesis using ok by (simp add: RegisterEvent_def willSignal_def)
qed

lemma core_DelEvent:
  assumes ok: "core el"
  shows "core (snd (DelEvent name el))"
proof (cases "map_of (elEvents el) name")
  case (Some i)
  then have e: "(name, i) \<in> set (elEvents el)" by (rule map_of_SomeD)
  have i: "i < length (elHeap el)" "\<not> evDone (elHeap el ! i)" using coreD(2) [OF ok e] by auto
  let ?ev = "elHeap el ! i"
  show ?thesis
  proof (cases "evRunning ?ev")
    case True
    then obtain w where w: "evCancel ?ev = Some w" "w < length (elWorkers el)" "wkEvent (elWorkers el ! w) = i" "live (elWorkers el ! w)"
      by (rule running_worker [OF ok e])
    let ?ws = "(elWorkers el)[w := (elWorkers el ! w)\<lparr>wkCancelled := True\<rparr>]"
    have "coreOK ((elHeap el)[i := ?ev\<lparr>evDeleting := True\<rparr>]) (elEvents el) ?ws"
    proof (rule core_change [OF ok i])
      have "runsOf ?ws i = runsOf (elWorkers el) i" by (rule runsOf_update) simp_all
      then show "eventOK ?ws i (?ev\<lparr>evDeleting := True\<rparr>)"
        using coreD(3) [OF ok i(1)] i(2) w by (simp add: eventOK_def ownWorker_def scheduleOK_def True)
      show "othersSame i (elWorkers el) ?ws" by (rule othersSame_update) (simp_all add: w(3))
      show "evCancel (?ev\<lparr>evDeleting := True\<rparr>) = Some u" if "u < length ?ws" "wkEvent (?ws ! u) = i" "live (?ws ! u)" for u
        using that coreD(6) [OF ok, of u] w(1) by (cases "u = w") simp_all
    qed (simp_all add: i(2))
    then show ?thesis by (simp add: DelEvent_def Let_def put_defs cancelTask_def Some True w(1))
  next
    case False
    have "core (finishEvent (Some ErrEventDeleted) i (putEvent i (?ev\<lparr>evDeleting := True\<rparr>) el))"
      using core_leave [OF ok e False, where del = True and r = "Some ErrEventDeleted"] i(1)
      by (simp add: finishEvent_def Let_def putEvent_def resultOK_def)
    then show ?thesis using Some False idle_event(1) [OF ok e False] by (simp add: DelEvent_def Let_def willSignal_def cancelTask_def)
  qed
qed (simp add: DelEvent_def ok)

lemma core_afterTask:
  assumes ok: "core el" and w: "w < length (elWorkers el)" "wkPC (elWorkers el ! w) = TaskReturned r"
  shows "core (afterTask (wkEvent (elWorkers el ! w)) r (putWorker w ((elWorkers el ! w)\<lparr>wkPC := AtSignal\<rparr>) el))"
proof -
  let ?wk = "elWorkers el ! w"
  let ?i = "wkEvent ?wk" and ?ws = "(elWorkers el)[w := ?wk\<lparr>wkPC := AtSignal\<rparr>]"
  let ?ev = "elHeap el ! ?i"
  have i: "?i < length (elHeap el)" by (rule coreD(5) [OF ok w(1)])
  have c: "evCancel ?ev = Some w" using coreD(6) [OF ok w(1)] w(2) by (simp add: live_def)
  have evok: "eventOK (elWorkers el) ?i ?ev" by (rule coreD(3) [OF ok i])
  then have d: "\<not> evDone ?ev" using c by (auto simp: eventOK_def ownWorker_def)
  have runs: "runsOf ?ws ?i = runsOf (elWorkers el) ?i" by (rule runsOf_update) simp_all
  have dead: "\<not> live (?ws ! u)" if "u < length ?ws" "wkEvent (?ws ! u) = ?i" for u
    using that coreD(6) [OF ok, of u] c by (auto simp: nth_update_if live_def split: if_splits workerPC.splits)
  have others: "othersSame ?i (elWorkers el) ?ws" by (rule othersSame_update) simp_all
  have 1: "coreOK ((elHeap el)[?i := ?ev\<lparr>evRunning := False, evCancel := None, evResult := r\<rparr>]) (elEvents el) ?ws"
    if "\<not> evDeleting ?ev" "evRemaining ?ev \<noteq> 0"
    using that evok runs d dead others
    by (intro core_change [OF ok i d]) (auto simp: eventOK_def ownWorker_def scheduleOK_def)
  have 2: "coreOK ((elHeap el)[?i := ?ev\<lparr>evRunning := False, evCancel := None, evResult := q, evDone := True\<rparr>])
      (dropKey (evName ?ev) (elEvents el)) ?ws" if "resultOK (?ev\<lparr>evResult := q\<rparr>)" for q
    using that evok runs dead others
    by (intro core_change [OF ok i d]) (auto simp: eventOK_def ownWorker_def scheduleOK_def resultOK_def split: if_splits)
  show ?thesis using 1 2 i by (auto simp: afterTask_def Let_def put_defs finishEvent_def resultOK_def)
qed

section \<open>Loops over the map\<close>

text \<open>What the loops over \<^verbatim>\<open>el.events\<close> leave alone.\<close>

definition frame :: "eventLoop \<Rightarrow> loopRun list \<times> loopState \<times> nat option \<times> bool \<times> nat" where
  "frame el = (elLoops el, elState el, elStopDone el, elWake el, elSignals el)"

lemma frame_simps [simp]:
  "frame (el\<lparr>elHeap := h\<rparr>) = frame el" "frame (el\<lparr>elEvents := m\<rparr>) = frame el" "frame (el\<lparr>elFinished := m\<rparr>) = frame el"
  "frame (el\<lparr>elWorkers := ws\<rparr>) = frame el"
  by (simp_all add: frame_def)

lemma dispatchOne_step:
  assumes ok: "core el" and d: "dispatchOne now name (el, d) = (el', d')"
  shows "core el'" "elEvents el' = elEvents el" "frame el' = frame el" "d' \<le> d"
    and "(n, i) \<in> set (elEvents el) \<Longrightarrow> n \<noteq> name \<Longrightarrow> elHeap el' ! i = elHeap el ! i"
    and "(name, i) \<in> set (elEvents el) \<Longrightarrow> evRunning (elHeap el' ! i) \<or> d' \<le> evNextRun (elHeap el' ! i)"
proof -
  consider (out) "map_of (elEvents el) name = None" "el' = el" "d' = d"
    | (busy) j where "map_of (elEvents el) name = Some j" "evRunning (elHeap el ! j)" "el' = el" "d' = d"
    | (later) j where "map_of (elEvents el) name = Some j" "el' = el" "d' \<le> evNextRun (elHeap el ! j)" "d' \<le> d"
    | (due) j where "map_of (elEvents el) name = Some j" "\<not> evRunning (elHeap el ! j)" "evNextRun (elHeap el ! j) \<le> now"
        "el' = startEvent now j el" "d' = d"
  proof (cases "map_of (elEvents el) name")
    case (Some j)
    have idle: "\<not> evRunning (elHeap el ! j) \<Longrightarrow> \<not> evDeleting (elHeap el ! j) \<and> evRemaining (elHeap el ! j) \<noteq> 0"
      using idle_event(2,3) [OF ok map_of_SomeD [OF Some]] by simp
    show ?thesis
    proof (cases "evRunning (elHeap el ! j)")
      case True
      then have "dispatchOne now name (el, d) = (el, d)" using Some by (simp add: dispatchOne_def Let_def)
      then have "el' = el" "d' = d" unfolding d by simp_all
      then show ?thesis using busy Some True by blast
    next
      case False
      show ?thesis
      proof (cases "now < evNextRun (elHeap el ! j)")
        case True
        then have "dispatchOne now name (el, d) = (el, min (evNextRun (elHeap el ! j)) d)"
          using Some False idle by (simp add: dispatchOne_def Let_def min_def)
        then have "el' = el" "d' \<le> evNextRun (elHeap el ! j)" "d' \<le> d" unfolding d by simp_all
        then show ?thesis using later Some by blast
      next
        case now: False
        then have "dispatchOne now name (el, d) = (startEvent now j el, d)" using Some False idle by (simp add: dispatchOne_def Let_def)
        then have "el' = startEvent now j el" "d' = d" unfolding d by simp_all
        then show ?thesis using due Some False now by simp
      qed
    qed
  next
    case None
    then have "dispatchOne now name (el, d) = (el, d)" by (simp add: dispatchOne_def)
    then have "el' = el" "d' = d" unfolding d by simp_all
    then show ?thesis using out None by blast
  qed
  then have "core el' \<and> elEvents el' = elEvents el \<and> frame el' = frame el \<and> d' \<le> d \<and>
      ((n, i) \<in> set (elEvents el) \<longrightarrow> n \<noteq> name \<longrightarrow> elHeap el' ! i = elHeap el ! i) \<and>
      ((name, i) \<in> set (elEvents el) \<longrightarrow> evRunning (elHeap el' ! i) \<or> d' \<le> evNextRun (elHeap el' ! i))" for n i
  proof cases
    case out
    then show ?thesis using ok by (simp add: map_of_NoneD)
  next
    case busy
    then show ?thesis using ok same_index [OF ok map_of_SomeD [OF busy(1)], of i] by auto
  next
    case later
    then show ?thesis using ok same_index [OF ok map_of_SomeD [OF later(1)], of i] by auto
  next
    case due
    note j = map_of_SomeD [OF due(1)]
    have "i \<noteq> j" if "(n, i) \<in> set (elEvents el)" "n \<noteq> name" using coreD(2) [OF ok that(1)] coreD(2) [OF ok j] that(2) by auto
    moreover have "evRunning (elHeap el' ! i)" if "(name, i) \<in> set (elEvents el)"
      using same_index [OF ok j that] coreD(2) [OF ok j] by (simp add: due(4) startEvent_def Let_def putEvent_def)
    moreover have "elHeap el' ! i = elHeap el ! i" if "i \<noteq> j" using that by (simp add: due(4) startEvent_def Let_def putEvent_def)
    moreover have "elEvents el' = elEvents el" "frame el' = frame el" by (simp_all add: due(4) startEvent_def Let_def putEvent_def)
    moreover have "core el'" unfolding due(4) by (rule core_start [OF ok j due(2,3)])
    ultimately show ?thesis using due(5) by blast
  qed
  from this [of n i] show "core el'" "elEvents el' = elEvents el" "frame el' = frame el" "d' \<le> d"
    and "(n, i) \<in> set (elEvents el) \<Longrightarrow> n \<noteq> name \<Longrightarrow> elHeap el' ! i = elHeap el ! i"
    and "(name, i) \<in> set (elEvents el) \<Longrightarrow> evRunning (elHeap el' ! i) \<or> d' \<le> evNextRun (elHeap el' ! i)" by blast+
qed

text \<open>After the loop of \<^verbatim>\<open>dispatchDue\<close> the deadline covers every visited event that is not running.\<close>

lemma dispatch_fold:
  assumes "fold (dispatchOne now) ks (el, d) = (el', d')" "core el"
    and "\<And>n i. (n, i) \<in> set (elEvents el) \<Longrightarrow> n \<in> seen \<Longrightarrow> evRunning (elHeap el ! i) \<or> d \<le> evNextRun (elHeap el ! i)"
  shows "core el' \<and> elEvents el' = elEvents el \<and> frame el' = frame el \<and> d' \<le> d \<and>
    (\<forall>(n, i) \<in> set (elEvents el). n \<in> seen \<union> set ks \<longrightarrow> evRunning (elHeap el' ! i) \<or> d' \<le> evNextRun (elHeap el' ! i))"
  using assms
proof (induction ks arbitrary: el d seen)
  case Nil
  then show ?case by auto
next
  case (Cons k ks)
  obtain el1 d1 where s: "dispatchOne now k (el, d) = (el1, d1)" by (cases "dispatchOne now k (el, d)")
  note step = dispatchOne_step [OF Cons.prems(2) s]
  have "evRunning (elHeap el1 ! i) \<or> d1 \<le> evNextRun (elHeap el1 ! i)" if "(n, i) \<in> set (elEvents el1)" "n \<in> insert k seen" for n i
    using that step(2,4,5,6) Cons.prems(3) by (cases "n = k") (force simp: step(2))+
  moreover have "fold (dispatchOne now) ks (el1, d1) = (el', d')" using Cons.prems(1) s by simp
  ultimately show ?case using Cons.IH [of el1 d1 "insert k seen"] step(1-4) by auto
qed

definition stoppedEvent :: "eventLoop \<Rightarrow> nat \<Rightarrow> bool" where
  "stoppedEvent el i = (evRunning (elHeap el ! i) \<and> (\<forall>w. evCancel (elHeap el ! i) = Some w \<longrightarrow> wkCancelled (elWorkers el ! w)))"

text \<open>One event of the loop in \<^verbatim>\<open>Stop\<close>: it is cancelled and keeps running, or it leaves.\<close>

lemma stopRegistered_step:
  assumes ok: "core el"
  shows "core (stopRegistered name el)" "frame (stopRegistered name el) = frame el" "length (elWorkers (stopRegistered name el)) = length (elWorkers el)"
    and "(n, i) \<in> set (elEvents (stopRegistered name el)) \<Longrightarrow> (n, i) \<in> set (elEvents el)"
    and "(n, i) \<in> set (elEvents (stopRegistered name el)) \<Longrightarrow> n = name \<or> stoppedEvent el i \<Longrightarrow> stoppedEvent (stopRegistered name el) i"
proof -
  have "core (stopRegistered name el) \<and> frame (stopRegistered name el) = frame el \<and> length (elWorkers (stopRegistered name el)) = length (elWorkers el) \<and>
      ((n, i) \<in> set (elEvents (stopRegistered name el)) \<longrightarrow> (n, i) \<in> set (elEvents el) \<and>
        (n = name \<or> stoppedEvent el i \<longrightarrow> stoppedEvent (stopRegistered name el) i))" for n i
  proof (cases "map_of (elEvents el) name")
    case None
    then show ?thesis using ok by (auto simp: stopRegistered_def map_of_NoneD)
  next
    case (Some j)
    note j = map_of_SomeD [OF Some]
    note jc = coreD(2) [OF ok j]
    show ?thesis
    proof (cases "evRunning (elHeap el ! j)")
      case True
      then obtain w where w: "evCancel (elHeap el ! j) = Some w" "w < length (elWorkers el)" "wkEvent (elWorkers el ! w) = j"
        by (rule running_worker [OF ok j])
      then have el: "stopRegistered name el = el\<lparr>elWorkers := (elWorkers el)[w := (elWorkers el ! w)\<lparr>wkCancelled := True\<rparr>]\<rparr>"
        by (simp add: stopRegistered_def Some Let_def True cancelTask_def putWorker_def)
      have "core (stopRegistered name el)" using core_cancelTask [OF ok j] w by (simp add: el cancelTask_def putWorker_def)
      then show ?thesis using same_index [OF ok j] w(1,2) True by (auto simp: el stoppedEvent_def nth_update_if)
    next
      case False
      then have el: "stopRegistered name el = finishEvent (Some ErrLoopStopped) j el"
        using idle_event(1) [OF ok j] by (simp add: stopRegistered_def Some Let_def cancelTask_def)
      have "i \<noteq> j" if "(n, i) \<in> set (elEvents el)" "n \<noteq> name" using coreD(2) [OF ok that(1)] jc that(2) by auto
      then show ?thesis using core_finish [OF ok j False] jc
        by (auto simp: el finishEvent_def Let_def putEvent_def set_dropKey stoppedEvent_def)
    qed
  qed
  then show "core (stopRegistered name el)" "frame (stopRegistered name el) = frame el" "length (elWorkers (stopRegistered name el)) = length (elWorkers el)"
    and "(n, i) \<in> set (elEvents (stopRegistered name el)) \<Longrightarrow> (n, i) \<in> set (elEvents el)"
    and "(n, i) \<in> set (elEvents (stopRegistered name el)) \<Longrightarrow> n = name \<or> stoppedEvent el i \<Longrightarrow> stoppedEvent (stopRegistered name el) i"
    by blast+
qed

lemma stop_fold:
  assumes "core el" "\<And>n i. (n, i) \<in> set (elEvents el) \<Longrightarrow> n \<in> seen \<Longrightarrow> stoppedEvent el i"
  shows "core (fold stopRegistered ks el) \<and> frame (fold stopRegistered ks el) = frame el \<and>
    set (elEvents (fold stopRegistered ks el)) \<subseteq> set (elEvents el) \<and>
    (\<forall>(n, i) \<in> set (elEvents (fold stopRegistered ks el)). n \<in> seen \<union> set ks \<longrightarrow> stoppedEvent (fold stopRegistered ks el) i)"
  using assms
proof (induction ks arbitrary: el seen)
  case Nil
  then show ?case by auto
next
  case (Cons k ks)
  note step = stopRegistered_step [OF Cons.prems(1), where name = k]
  have "stoppedEvent (stopRegistered k el) i" if "(n, i) \<in> set (elEvents (stopRegistered k el))" "n \<in> insert k seen" for n i
    using that step(4,5) Cons.prems(2) by blast
  then show ?case using Cons.IH [of "stopRegistered k el" "insert k seen"] step(1,2,4) by auto
qed

lemma idle_fold:
  assumes "core el" "\<And>n i. (n, i) \<in> set (elEvents el) \<Longrightarrow> \<not> evRunning (elHeap el ! i)"
  shows "core (fold stopIdle ks el) \<and> frame (fold stopIdle ks el) = frame el \<and> elWorkers (fold stopIdle ks el) = elWorkers el \<and>
    set (elEvents (fold stopIdle ks el)) = {(n, i) \<in> set (elEvents el). n \<notin> set ks}"
  using assms
proof (induction ks arbitrary: el)
  case (Cons k ks)
  show ?case
  proof (cases "map_of (elEvents el) k")
    case None
    then have "stopIdle k el = el" "\<forall>i. (k, i) \<notin> set (elEvents el)" by (simp_all add: stopIdle_def map_of_NoneD)
    then show ?thesis using Cons.IH [of el] Cons.prems by auto
  next
    case (Some j)
    note j = map_of_SomeD [OF Some]
    note jc = coreD(2) [OF Cons.prems(1) j]
    have el: "stopIdle k el = finishEvent (Some ErrLoopStopped) j el" by (simp add: stopIdle_def Some)
    have ev: "elEvents (stopIdle k el) = dropKey k (elEvents el)" using jc by (simp add: el finishEvent_def Let_def putEvent_def)
    have same: "frame (stopIdle k el) = frame el" "elWorkers (stopIdle k el) = elWorkers el"
      by (simp_all add: el finishEvent_def Let_def putEvent_def)
    have "\<not> evRunning (elHeap (stopIdle k el) ! i)" if "(n, i) \<in> set (elEvents (stopIdle k el))" for n i
      using that Cons.prems(2) jc by (auto simp: el finishEvent_def Let_def putEvent_def set_dropKey nth_update_if)
    moreover have "core (stopIdle k el)" unfolding el by (rule core_finish [OF Cons.prems(1) j Cons.prems(2) [OF j]])
    ultimately show ?thesis using Cons.IH [of "stopIdle k el"] same by (auto simp: ev set_dropKey)
  qed
qed auto

section \<open>The loop and its wake-ups\<close>

definition loopRunOK :: "loopRun \<Rightarrow> bool" where
  "loopRunOK lp =
     (lpStopDone lp = (lpPC lp = LoopReturned) \<and>
      lpReady lp = (\<not> lpFirst lp \<or> lpPC lp = Draining \<or> lpPC lp = LoopReturned) \<and>
      (case lpPC lp of Sleeping _ \<Rightarrow> \<not> lpFirst lp | _ \<Rightarrow> True))"

text \<open>The loop goroutine \<open>g\<close> is the only one that has not returned.\<close>

definition onlyLoop :: "nat \<Rightarrow> eventLoop \<Rightarrow> bool" where
  "onlyLoop g el =
     (elStopDone el = Some g \<and> g < length (elLoops el) \<and> lpPC (elLoops el ! g) \<noteq> LoopReturned \<and>
      (\<forall>k < length (elLoops el). k \<noteq> g \<longrightarrow> lpPC (elLoops el ! k) = LoopReturned))"

definition loopOK :: "eventLoop \<Rightarrow> bool" where
  "loopOK el =
     ((\<forall>lp \<in> set (elLoops el). loopRunOK lp) \<and>
      (case elState el of
         LoopStopped \<Rightarrow> (\<forall>lp \<in> set (elLoops el). lpPC lp = LoopReturned) \<and> (\<forall>wk \<in> set (elWorkers el). wkPC wk = WorkerDone)
       | LoopRunning \<Rightarrow> (\<exists>g. onlyLoop g el \<and> lpPC (elLoops el ! g) \<noteq> Draining)
       | LoopStopping \<Rightarrow> (\<exists>g. onlyLoop g el) \<and> (\<forall>(n, i) \<in> set (elEvents el). stoppedEvent el i)))"

text \<open>Somebody has woken the loop or is about to.\<close>

definition pendingWake :: "eventLoop \<Rightarrow> bool" where
  "pendingWake el = (elWake el \<or> elSignals el > 0 \<or> (\<exists>wk \<in> set (elWorkers el). wkPC wk = AtSignal))"

definition covered :: "time \<Rightarrow> eventLoop \<Rightarrow> bool" where
  "covered d el = (elState el = LoopRunning \<and>
     (\<forall>(n, i) \<in> set (elEvents el). evRunning (elHeap el ! i) \<or> d \<le> evNextRun (elHeap el ! i)))"

definition wakeOK :: "eventLoop \<Rightarrow> bool" where
  "wakeOK el = (\<forall>lp \<in> set (elLoops el). case lpPC lp of Sleeping d \<Rightarrow> pendingWake el \<or> covered d el | _ \<Rightarrow> True)"

definition elOK :: "eventLoop \<Rightarrow> bool" where
  "elOK el = (core el \<and> loopOK el \<and> wakeOK el)"

lemma elOK_New: "elOK NewEventLoop"
  by (simp add: elOK_def NewEventLoop_def coreOK_def loopOK_def wakeOK_def)

lemma wakeOK_pending: "pendingWake el \<Longrightarrow> wakeOK el"
  by (auto simp: wakeOK_def split: loopPC.splits)

lemma wakeOK_stopped: "loopOK el \<Longrightarrow> elState el = LoopStopped \<Longrightarrow> wakeOK el"
  by (auto simp: wakeOK_def loopOK_def)

lemma wakeOK_awake:
  assumes "onlyLoop g el" "\<And>d. lpPC (elLoops el ! g) = Sleeping d \<Longrightarrow> pendingWake el \<or> covered d el"
  shows "wakeOK el"
  unfolding wakeOK_def
proof
  fix lp assume "lp \<in> set (elLoops el)"
  then obtain k where "k < length (elLoops el)" "lp = elLoops el ! k" by (auto simp: in_set_conv_nth)
  then show "case lpPC lp of Sleeping d \<Rightarrow> pendingWake el \<or> covered d el | _ \<Rightarrow> True"
    using assms by (cases "k = g") (auto simp: onlyLoop_def split: loopPC.splits)
qed

lemma onlyLoop_at: "loopOK el \<Longrightarrow> g < length (elLoops el) \<Longrightarrow> lpPC (elLoops el ! g) \<noteq> LoopReturned \<Longrightarrow> onlyLoop g el"
  by (auto simp: loopOK_def onlyLoop_def split: loopState.splits)

lemma loopRunOK_at: "loopOK el \<Longrightarrow> g < length (elLoops el) \<Longrightarrow> loopRunOK (elLoops el ! g)"
  by (simp add: loopOK_def)

section \<open>Every step keeps the invariant\<close>

lemma loopOK_cong:
  assumes "loopOK el" "elLoops el' = elLoops el" "elState el' = elState el" "elStopDone el' = elStopDone el"
    and "elState el = LoopStopped \<Longrightarrow> \<forall>wk \<in> set (elWorkers el). wkPC wk = WorkerDone \<Longrightarrow> \<forall>wk \<in> set (elWorkers el'). wkPC wk = WorkerDone"
    and "elState el = LoopStopping \<Longrightarrow> \<forall>(n, i) \<in> set (elEvents el). stoppedEvent el i \<Longrightarrow> \<forall>(n, i) \<in> set (elEvents el'). stoppedEvent el' i"
  shows "loopOK el'"
  using assms by (cases "elState el") (auto simp: loopOK_def onlyLoop_def)

lemma loopOK_putLoop:
  assumes "loopOK el" "g < length (elLoops el)" "lpPC (elLoops el ! g) \<noteq> LoopReturned"
    and "loopRunOK lp" "lpPC lp \<noteq> LoopReturned" "elState el = LoopRunning \<Longrightarrow> lpPC lp \<noteq> Draining"
  shows "loopOK (putLoop g lp el)"
proof -
  note g = onlyLoop_at [OF assms(1-3)]
  then have "onlyLoop g (putLoop g lp el)" using assms(5) by (auto simp: onlyLoop_def putLoop_def nth_update_if)
  moreover have "\<forall>l \<in> set (elLoops (putLoop g lp el)). loopRunOK l"
    using assms(1,4) by (auto simp: loopOK_def putLoop_def dest!: subsetD [OF set_update_subset_insert])
  moreover have "elState el \<noteq> LoopStopped" using assms(1-3) by (auto simp: loopOK_def)
  ultimately show ?thesis using assms(1,2,6)
    by (cases "elState el") (auto simp: loopOK_def putLoop_def stoppedEvent_def)
qed

lemma elOK_putLoop:
  assumes "elOK el" "g < length (elLoops el)" "lpPC (elLoops el ! g) \<noteq> LoopReturned"
    and "loopRunOK lp" "lpPC lp \<noteq> LoopReturned" "elState el = LoopRunning \<Longrightarrow> lpPC lp \<noteq> Draining"
    and "\<And>d. lpPC lp = Sleeping d \<Longrightarrow> covered d el"
  shows "elOK (putLoop g lp el)"
proof -
  have l: "loopOK (putLoop g lp el)" using assms(1-6) by (intro loopOK_putLoop) (auto simp: elOK_def)
  have "onlyLoop g (putLoop g lp el)" by (rule onlyLoop_at [OF l]) (use assms(2,5) in \<open>simp_all add: putLoop_def\<close>)
  then have "wakeOK (putLoop g lp el)"
    using assms(2,7) by (intro wakeOK_awake) (auto simp: putLoop_def covered_def)
  then show ?thesis using assms(1) l by (simp add: elOK_def putLoop_def)
qed

lemma elOK_pending: "core el \<Longrightarrow> loopOK el \<Longrightarrow> pendingWake el \<Longrightarrow> elOK el"
  by (simp add: elOK_def wakeOK_pending)

lemma pendingWake_simps [simp]: "pendingWake (willSignal el)" "pendingWake (signalWake el)"
  by (simp_all add: pendingWake_def put_defs)

lemma willSignal_simps [simp]:
  "elHeap (willSignal el) = elHeap el" "elEvents (willSignal el) = elEvents el" "elWorkers (willSignal el) = elWorkers el"
  "elLoops (willSignal el) = elLoops el" "elState (willSignal el) = elState el" "elStopDone (willSignal el) = elStopDone el"
  by (simp_all add: willSignal_def)

lemma stoppedEvent_willSignal [simp]: "stoppedEvent (willSignal el) i = stoppedEvent el i"
  by (simp add: stoppedEvent_def)

lemma loopOK_willSignal [simp]: "loopOK (willSignal el) = loopOK el"
  by (cases "elState el") (simp_all add: loopOK_def onlyLoop_def split_def)

lemma elOK_RegisterEvent:
  assumes "elOK el"
  shows "elOK (snd (RegisterEvent name hasTask interval count now el))" (is "elOK ?el")
proof (cases "snd (RegisterEvent name hasTask interval count now el) = el")
  case False
  then have e: "elState el \<noteq> LoopStopping" "pendingWake ?el" "elLoops ?el = elLoops el" "elState ?el = elState el"
      "elStopDone ?el = elStopDone el" "elWorkers ?el = elWorkers el"
    by (auto simp: RegisterEvent_def split: if_splits)
  moreover have "loopOK ?el" by (rule loopOK_cong [of el]) (use assms e in \<open>auto simp: elOK_def\<close>)
  moreover have "core ?el" using assms by (intro core_RegisterEvent) (simp add: elOK_def)
  ultimately show ?thesis by (intro elOK_pending) simp_all
qed (use assms in simp)

lemma stopped_idle:
  assumes "elOK el" "elState el = LoopStopped" "(n, i) \<in> set (elEvents el)"
  shows "\<not> evRunning (elHeap el ! i)"
proof
  have c: "core el" and l: "loopOK el" using assms(1) by (simp_all add: elOK_def)
  assume "evRunning (elHeap el ! i)"
  then obtain w where w: "w < length (elWorkers el)" "live (elWorkers el ! w)" by (rule running_worker [OF c assms(3)])
  then have "wkPC (elWorkers el ! w) = WorkerDone" using l assms(2) by (simp add: loopOK_def)
  then show False using w(2) by (simp add: live_def)
qed

lemma elOK_DelEvent:
  assumes ok: "elOK el"
  shows "elOK (snd (DelEvent name el))"
proof (cases "map_of (elEvents el) name")
  case None
  then show ?thesis using ok by (simp add: DelEvent_def)
next
  case (Some i)
  have c: "core el" and l: "loopOK el" using ok by (simp_all add: elOK_def)
  note e = map_of_SomeD [OF Some]
  note i = coreD(2) [OF c e]
  have "loopOK (snd (DelEvent name el))"
  proof (cases "evRunning (elHeap el ! i)")
    case True
    then obtain w where w: "evCancel (elHeap el ! i) = Some w" "w < length (elWorkers el)" by (rule running_worker [OF c e])
    then have d: "snd (DelEvent name el) = willSignal (el\<lparr>elHeap := (elHeap el)[i := (elHeap el ! i)\<lparr>evDeleting := True\<rparr>],
        elWorkers := (elWorkers el)[w := (elWorkers el ! w)\<lparr>wkCancelled := True\<rparr>]\<rparr>)"
      by (simp add: DelEvent_def Some Let_def True cancelTask_def put_defs)
    have "elState el \<noteq> LoopStopped" using stopped_idle [OF ok _ e] True by blast
    then show ?thesis unfolding d
      by (intro loopOK_willSignal [THEN iffD2] loopOK_cong [OF l]) (auto simp: stoppedEvent_def nth_update_if)
  next
    case False
    then have d: "snd (DelEvent name el) = willSignal (finishEvent (Some ErrEventDeleted) i (putEvent i ((elHeap el ! i)\<lparr>evDeleting := True\<rparr>) el))"
      using idle_event(1) [OF c e] by (simp add: DelEvent_def Some Let_def cancelTask_def)
    have "elState el \<noteq> LoopStopping" using l e False by (fastforce simp: loopOK_def stoppedEvent_def)
    then show ?thesis unfolding d
      by (intro loopOK_willSignal [THEN iffD2] loopOK_cong [OF l]) (auto simp: finishEvent_def Let_def putEvent_def)
  qed
  moreover have "pendingWake (snd (DelEvent name el))" by (simp add: DelEvent_def Some Let_def)
  ultimately show ?thesis by (intro elOK_pending core_DelEvent [OF c])
qed

lemma frame_eqD:
  "frame el' = frame el \<Longrightarrow> elLoops el' = elLoops el \<and> elState el' = elState el \<and> elStopDone el' = elStopDone el"
  by (simp add: frame_def)

lemma elOK_StopLoop:
  assumes ok: "elOK el" and ks: "isOrder ks el"
  shows "elOK (snd (StopLoop ks el))"
proof -
  have c: "core el" and l: "loopOK el" using ok by (simp_all add: elOK_def)
  show ?thesis
  proof (cases "elState el")
    case LoopStopped
    have f: "core (fold stopIdle ks el)" "frame (fold stopIdle ks el) = frame el" "elWorkers (fold stopIdle ks el) = elWorkers el"
      using idle_fold [OF c] stopped_idle [OF ok LoopStopped] by blast+
    then have "loopOK (fold stopIdle ks el)"
      by (intro loopOK_cong [OF l]) (auto simp: LoopStopped dest: frame_eqD)
    moreover from this have "wakeOK (fold stopIdle ks el)"
      using frame_eqD [OF f(2)] LoopStopped by (intro wakeOK_stopped) simp_all
    ultimately show ?thesis using f(1) by (simp add: StopLoop_def elOK_def LoopStopped)
  next
    case LoopRunning
    let ?el = "el\<lparr>elState := LoopStopping\<rparr>"
    have "core ?el" using c by simp
    note f = stop_fold [OF this, of "{}" ks, simplified]
    then have "\<forall>(n, i) \<in> set (elEvents (fold stopRegistered ks ?el)). stoppedEvent (fold stopRegistered ks ?el) i"
      using ks unfolding isOrder_def by fastforce
    moreover obtain g where "onlyLoop g el" using l LoopRunning by (auto simp: loopOK_def)
    then have "onlyLoop g (fold stopRegistered ks ?el)" using f by (auto simp: onlyLoop_def dest: frame_eqD)
    ultimately have "loopOK (fold stopRegistered ks ?el)" using f l by (auto simp: loopOK_def dest!: frame_eqD)
    then show ?thesis using f by (intro elOK_pending) (auto simp: StopLoop_def LoopRunning)
  next
    case LoopStopping
    then show ?thesis using c l by (intro elOK_pending) (auto simp: StopLoop_def)
  qed
qed

lemma elOK_StartLoop:
  assumes "elOK el"
  shows "elOK (snd (StartLoop el))"
proof (cases "elState el")
  case LoopStopped
  let ?el = "snd (StartLoop el)"
  have e: "?el = el\<lparr>elWake := False, elState := LoopRunning, elStopDone := Some (length (elLoops el)),
       elLoops := elLoops el @ [\<lparr>lpPC = AtDispatch, lpFirst = True, lpReady = False, lpStopDone = False\<rparr>]\<rparr>"
    by (simp add: StartLoop_def LoopStopped)
  have o: "onlyLoop (length (elLoops el)) ?el"
    using assms LoopStopped by (auto simp: e onlyLoop_def nth_append elOK_def loopOK_def less_Suc_eq)
  then have "loopOK ?el" using assms LoopStopped by (auto simp: loopOK_def elOK_def e loopRunOK_def intro!: exI [of _ "length (elLoops el)"])
  moreover have "wakeOK ?el" by (rule wakeOK_awake [OF o]) (simp add: e)
  ultimately show ?thesis using assms by (simp add: elOK_def e)
qed (use assms in \<open>simp_all add: StartLoop_def\<close>)

lemma elOK_Dispatch:
  assumes ok: "elOK el" and g: "g < length (elLoops el)" "lpPC (elLoops el ! g) = AtDispatch" and ks: "isOrder ks el"
  shows "\<exists>el'. afterDispatch g (dispatchDue now ks el) = Next el' \<and> elOK el'"
proof -
  have c: "core el" and l: "loopOK el" using ok by (simp_all add: elOK_def)
  note r = loopRunOK_at [OF l g(1)]
  define lp where "lp = (if lpFirst (elLoops el ! g) then (elLoops el ! g)\<lparr>lpReady := True\<rparr> else elLoops el ! g)"
  have lp: "closeReady (elLoops el ! g) = Some lp" "lpPC lp = AtDispatch" "lpStopDone lp = lpStopDone (elLoops el ! g)"
      "lpReady lp" "lpFirst lp = lpFirst (elLoops el ! g)"
    using r g(2) by (auto simp: lp_def closeReady_def loopRunOK_def)
  show ?thesis
  proof (cases "elState el = LoopRunning")
    case False
    have "elOK (putLoop g (lp\<lparr>lpPC := Draining\<rparr>) el)"
      by (rule elOK_putLoop [OF ok g(1)]) (use False lp r g(2) in \<open>auto simp: loopRunOK_def\<close>)
    then show ?thesis using False lp(1) by (simp add: dispatchDue_def afterDispatch_def)
  next
    case True
    obtain el' d where f: "fold (dispatchOne now) ks (el, now + oneHour) = (el', d)" by fastforce
    have d: "core el'" "elEvents el' = elEvents el" "frame el' = frame el"
        "\<forall>(n, i) \<in> set (elEvents el). n \<in> set ks \<longrightarrow> evRunning (elHeap el' ! i) \<or> d \<le> evNextRun (elHeap el' ! i)"
      using dispatch_fold [OF f c, of "{}"] by auto
    then have cov: "covered d el'" using frame_eqD [OF d(3)] True ks by (fastforce simp: covered_def isOrder_def)
    have e: "elLoops el' = elLoops el" "elState el' = LoopRunning" using frame_eqD [OF d(3)] True by auto
    have "loopOK el'" by (rule loopOK_cong [OF l]) (use frame_eqD [OF d(3)] True in auto)
    moreover have "loopOK (putLoop g (lp\<lparr>lpPC := Sleeping d, lpFirst := False\<rparr>) el')"
      by (rule loopOK_putLoop [OF calculation]) (use g e lp r in \<open>auto simp: loopRunOK_def\<close>)
    moreover have "onlyLoop g (putLoop g (lp\<lparr>lpPC := Sleeping d, lpFirst := False\<rparr>) el')"
      by (rule onlyLoop_at [OF calculation(2)]) (use g(1) e(1) in \<open>simp_all add: putLoop_def\<close>)
    then have "wakeOK (putLoop g (lp\<lparr>lpPC := Sleeping d, lpFirst := False\<rparr>) el')"
      by (rule wakeOK_awake) (use cov g(1) e(1) in \<open>simp add: putLoop_def covered_def\<close>)
    ultimately have "elOK (putLoop g (lp\<lparr>lpPC := Sleeping d, lpFirst := False\<rparr>) el')" using d(1) by (simp add: elOK_def putLoop_def)
    then show ?thesis using True f lp(1) e(1) by (simp add: dispatchDue_def afterDispatch_def)
  qed
qed

lemma elOK_wakes:
  assumes ok: "elOK el" and g: "g < length (elLoops el)" "lpPC (elLoops el ! g) = Sleeping d"
  shows "elOK (putLoop g ((elLoops el ! g)\<lparr>lpPC := AtDispatch\<rparr>) (el\<lparr>elWake := b\<rparr>))" (is "elOK (putLoop g ?lp _)")
proof -
  have l: "loopOK el" using ok by (simp add: elOK_def)
  have "loopRunOK ?lp" using loopRunOK_at [OF l g(1)] g(2) by (simp add: loopRunOK_def)
  then have l': "loopOK (putLoop g ?lp el)" using loopOK_putLoop [OF l g(1)] g(2) by simp
  have "loopOK (putLoop g ?lp (el\<lparr>elWake := b\<rparr>))"
    by (rule loopOK_cong [OF l']) (auto simp: putLoop_def stoppedEvent_def)
  moreover have "onlyLoop g (putLoop g ?lp (el\<lparr>elWake := b\<rparr>))"
    by (rule onlyLoop_at [OF calculation]) (use g(1) in \<open>simp_all add: putLoop_def\<close>)
  then have "wakeOK (putLoop g ?lp (el\<lparr>elWake := b\<rparr>))" by (rule wakeOK_awake) (simp add: putLoop_def g(1))
  ultimately show ?thesis using ok by (simp add: elOK_def putLoop_def)
qed

lemma elOK_Drained:
  assumes ok: "elOK el" and g: "g < length (elLoops el)" "lpPC (elLoops el ! g) = Draining"
    and ws: "\<forall>wk \<in> set (elWorkers el). wkPC wk = WorkerDone"
  shows "loopEnds g el = Next (el\<lparr>elState := LoopStopped, elLoops := (elLoops el)[g := (elLoops el ! g)\<lparr>lpPC := LoopReturned, lpStopDone := True\<rparr>]\<rparr>)"
    and "elOK (el\<lparr>elState := LoopStopped, elLoops := (elLoops el)[g := (elLoops el ! g)\<lparr>lpPC := LoopReturned, lpStopDone := True\<rparr>]\<rparr>)"
proof -
  have l: "loopOK el" using ok by (simp add: elOK_def)
  have o: "onlyLoop g el" by (rule onlyLoop_at [OF l g(1)]) (simp add: g(2))
  note r = loopRunOK_at [OF l g(1)]
  then have "\<not> lpStopDone (elLoops el ! g)" using g(2) by (simp add: loopRunOK_def)
  then show "loopEnds g el = Next (el\<lparr>elState := LoopStopped, elLoops := (elLoops el)[g := (elLoops el ! g)\<lparr>lpPC := LoopReturned, lpStopDone := True\<rparr>]\<rparr>)"
    using o g(1) by (simp add: loopEnds_def onlyLoop_def Let_def putLoop_def)
  let ?lp = "(elLoops el ! g)\<lparr>lpPC := LoopReturned, lpStopDone := True\<rparr>"
  let ?el = "el\<lparr>elState := LoopStopped, elLoops := (elLoops el)[g := ?lp]\<rparr>"
  have "\<forall>lp \<in> set ((elLoops el)[g := ?lp]). loopRunOK lp \<and> lpPC lp = LoopReturned"
  proof
    fix lp assume "lp \<in> set ((elLoops el)[g := ?lp])"
    then obtain k where "k < length (elLoops el)" "lp = (elLoops el)[g := ?lp] ! k" by (auto simp: in_set_conv_nth)
    then show "loopRunOK lp \<and> lpPC lp = LoopReturned"
      using o l r g(2) by (auto simp: nth_update_if onlyLoop_def loopOK_def loopRunOK_def)
  qed
  then have "loopOK ?el" using ws by (simp add: loopOK_def)
  then show "elOK ?el" using ok wakeOK_stopped [of ?el] by (simp add: elOK_def)
qed

lemma bex_update: "\<not> P (xs ! i) \<Longrightarrow> \<not> P x \<Longrightarrow> (\<exists>y \<in> set (xs[i := x]). P y) = (\<exists>y \<in> set xs. P y)"
proof (induction xs arbitrary: i)
  case (Cons y ys)
  then show ?case by (cases i) auto
qed simp

lemma not_stopped:
  assumes "loopOK el" "w < length (elWorkers el)" "wkPC (elWorkers el ! w) \<noteq> WorkerDone"
  shows "elState el \<noteq> LoopStopped"
  using assms by (auto simp: loopOK_def)

lemma elOK_TaskEnds:
  assumes ok: "elOK el" and w: "w < length (elWorkers el)" "wkPC (elWorkers el ! w) = InTask"
  shows "elOK (putWorker w ((elWorkers el ! w)\<lparr>wkCancelled := True, wkPC := TaskReturned r\<rparr>) el)" (is "elOK ?el")
proof -
  have c: "core el" and l: "loopOK el" using ok by (simp_all add: elOK_def)
  have "loopOK ?el"
    by (rule loopOK_cong [OF l]) (use not_stopped [OF l w(1)] w(2) in \<open>auto simp: putWorker_def stoppedEvent_def nth_update_if\<close>)
  moreover have "core ?el" unfolding putWorker_def using core_worker [OF c w(1)] w(2) by (simp add: live_def)
  moreover have "pendingWake ?el = pendingWake el" using w(2) by (simp add: pendingWake_def putWorker_def bex_update)
  moreover have "covered d ?el = covered d el" for d by (simp add: covered_def putWorker_def)
  moreover have "elLoops ?el = elLoops el" by (simp add: putWorker_def)
  ultimately show ?thesis using ok unfolding elOK_def wakeOK_def by (auto split: loopPC.splits)
qed

lemma elOK_Executed:
  assumes ok: "elOK el" and w: "w < length (elWorkers el)" "wkPC (elWorkers el ! w) = TaskReturned r"
  shows "elOK (afterTask (wkEvent (elWorkers el ! w)) r (putWorker w ((elWorkers el ! w)\<lparr>wkPC := AtSignal\<rparr>) el))" (is "elOK ?el")
proof (rule elOK_pending)
  have c: "core el" and l: "loopOK el" using ok by (simp_all add: elOK_def)
  let ?i = "wkEvent (elWorkers el ! w)"
  show "core ?el" by (rule core_afterTask [OF c w])
  have ws: "elWorkers ?el = (elWorkers el)[w := (elWorkers el ! w)\<lparr>wkPC := AtSignal\<rparr>]"
    by (simp add: afterTask_def Let_def put_defs finishEvent_def)
  then show "pendingWake ?el" using w(1) by (auto simp: pendingWake_def in_set_conv_nth nth_update_if intro!: bexI [of _ "(elWorkers el ! w)\<lparr>wkPC := AtSignal\<rparr>"] exI [of _ w])
  note i = coreD(5) [OF c w(1)]
  show "loopOK ?el"
  proof (rule loopOK_cong [OF l])
    show "elState el = LoopStopped \<Longrightarrow> \<forall>wk \<in> set (elWorkers ?el). wkPC wk = WorkerDone" using not_stopped [OF l w(1)] w(2) by simp
    assume st: "elState el = LoopStopping" and all: "\<forall>(n, j) \<in> set (elEvents el). stoppedEvent el j"
    have ev: "elEvents ?el = dropKey (evName (elHeap el ! ?i)) (elEvents el)"
      using st i by (simp add: afterTask_def Let_def put_defs finishEvent_def)
    have h: "elHeap ?el ! j = elHeap el ! j" if "j \<noteq> ?i" for j
      using st that by (simp add: afterTask_def Let_def put_defs finishEvent_def)
    have "stoppedEvent ?el j" if "(n, j) \<in> set (elEvents ?el)" for n j
    proof -
      have "(n, j) \<in> set (elEvents el)" "n \<noteq> evName (elHeap el ! ?i)" using that by (auto simp: ev set_dropKey)
      then have "j \<noteq> ?i" "stoppedEvent el j" using coreD(2) [OF c] all by blast+
      then show ?thesis by (auto simp: stoppedEvent_def h ws nth_update_if)
    qed
    then show "\<forall>(n, j) \<in> set (elEvents ?el). stoppedEvent ?el j" by blast
  qed (simp_all add: afterTask_def Let_def put_defs finishEvent_def)
qed

lemma elOK_WorkerSignals:
  assumes ok: "elOK el" and w: "w < length (elWorkers el)" "wkPC (elWorkers el ! w) = AtSignal"
  shows "elOK (signalWake (putWorker w ((elWorkers el ! w)\<lparr>wkPC := WorkerDone\<rparr>) el))" (is "elOK ?el")
proof (rule elOK_pending)
  have c: "core el" and l: "loopOK el" using ok by (simp_all add: elOK_def)
  show "core ?el" using core_worker [OF c w(1)] w(2) by (simp add: live_def put_defs)
  show "loopOK ?el"
    by (rule loopOK_cong [OF l]) (use not_stopped [OF l w(1)] w(2) in \<open>auto simp: put_defs stoppedEvent_def nth_update_if\<close>)
qed simp

lemma loopFire_outcome:
  assumes ok: "elOK el"
  shows "loopFire s el = Blocked \<or> (\<exists>el'. loopFire s el = Next el' \<and> elOK el')"
proof (cases s)
  case (Signal)
  have "loopOK (signalWake (el\<lparr>elSignals := elSignals el - 1\<rparr>))"
    by (rule loopOK_cong [of el]) (use ok in \<open>auto simp: elOK_def put_defs stoppedEvent_def\<close>)
  moreover have "core (signalWake (el\<lparr>elSignals := elSignals el - 1\<rparr>))" using ok by (simp add: elOK_def put_defs)
  ultimately show ?thesis using Signal elOK_pending pendingWake_simps(2) by simp
next
  case (Dispatch g now ks)
  then show ?thesis using elOK_Dispatch [OF ok] by (auto simp: atPC_def)
next
  case (TimerFires g now)
  then show ?thesis using elOK_wakes [OF ok, where b = "elWake el"] by (auto simp: atPC_def split: loopPC.splits)
next
  case (TakesWake g)
  then show ?thesis using elOK_wakes [OF ok, where b = False] by (auto simp: atPC_def split: loopPC.splits)
next
  case (Drained g)
  then show ?thesis using elOK_Drained [OF ok] by (auto simp: atPC_def list_all_iff)
next
  case (TaskEnds w r)
  then show ?thesis using elOK_TaskEnds [OF ok] by (auto simp: workerAt_def Let_def)
next
  case (Executed w r)
  then show ?thesis using elOK_Executed [OF ok] by (auto simp: workerAt_def Let_def)
next
  case (WorkerSignals w)
  then show ?thesis using elOK_WorkerSignals [OF ok] by (auto simp: workerAt_def)
qed (use ok in \<open>auto simp: elOK_RegisterEvent elOK_StartLoop elOK_StopLoop elOK_DelEvent\<close>)

interpretation scheduler: safe_event_system loopFire elOK
proof unfold_locales
  show "elOK el'" if "elOK el" "loopFire s el = Next el'" for el s el' using loopFire_outcome [OF that(1)] that(2) by (metis outcome.distinct(3) outcome.inject)
  show "loopFire s el \<noteq> Panics" if "elOK el" for el s using loopFire_outcome [OF that] by (metis outcome.distinct(1,5))
qed

lemma reachable_loop: "run loopFire ss NewEventLoop = Next el \<Longrightarrow> elOK el"
  by (rule scheduler.run_inv [OF elOK_New])

end
