(* ===== verification/EventLoopProps.thy ===== *)
theory EventLoopProps
  imports EventLoopSafety
begin

text \<open>
  What the event loop promises, for every interleaving of its callers, loop goroutines and workers.
\<close>

section \<open>A sample run\<close>

text \<open>An event every 10 units, twice; the loop starts and the first execution begins at time 12.\<close>

definition demoSteps :: "loopStep list" where
  "demoSteps = [Register ''tick'' True 10 2 0, Start, Dispatch 0 1 [''tick''], Signal, TakesWake 0, Dispatch 0 12 [''tick'']]"

definition demoLoop :: eventLoop where
  "demoLoop = (case run loopFire demoSteps NewEventLoop of Next el \<Rightarrow> el | _ \<Rightarrow> NewEventLoop)"

lemma loop_demo_run: "run loopFire demoSteps NewEventLoop = Next demoLoop"
  by code_simp

section \<open>Executions\<close>

text \<open>
  (C23) Executions keep the schedule: those of one event start at least its interval apart, the first one an interval after the
  registration, and an event registered for a number of executions has no more than these, its counter being what is left.
\<close>

theorem events_run_on_schedule:
  assumes "run loopFire ss NewEventLoop = Next el" and "i < length (elHeap el)"
  shows "let ev = elHeap el ! i; starts = map wkStarted (filter (\<lambda>wk. wkEvent wk = i) (elWorkers el))
    in sorted_wrt (\<lambda>a b. a + evInterval ev \<le> b) (evRegistered ev # starts) \<and>
       (if evCount ev > 0 then int (length starts) + evRemaining ev = evCount ev \<and> 0 \<le> evRemaining ev else evRemaining ev = -1)"
proof -
  have "core el" using reachable_loop [OF assms(1)] by (simp add: elOK_def)
  then have "scheduleOK (runsOf (elWorkers el) i) (elHeap el ! i)" using coreD(3) assms(2) by (simp add: eventOK_def)
  then show ?thesis by (auto simp: Let_def scheduleOK_def runsOf_def sorted_wrt_append split: if_splits)
qed

theorem events_run_on_schedule_witness:
  "run loopFire demoSteps NewEventLoop = Next demoLoop \<and> map wkStarted (filter (\<lambda>wk. wkEvent wk = 0) (elWorkers demoLoop)) = [12] \<and>
    evRegistered (elHeap demoLoop ! 0) + evInterval (elHeap demoLoop ! 0) \<le> 12 \<and> evRemaining (elHeap demoLoop ! 0) = 1"
proof -
  have r: "map wkStarted (filter (\<lambda>wk. wkEvent wk = 0) (elWorkers demoLoop)) = [12]" by code_simp
  have "0 < length (elHeap demoLoop)" "evCount (elHeap demoLoop ! 0) = 2" by code_simp+
  then show ?thesis using events_run_on_schedule [OF loop_demo_run, of 0] loop_demo_run r by (simp add: Let_def)
qed

text \<open>
  (C24) In every reachable state no step of the loop panics, whichever it is, the one that closes \<^verbatim>\<open>stopDone\<close> included; and
  executions do not overlap: any two workers that are both executing a task execute events of different names, also when an event
  was deleted and its name registered again.
\<close>

theorem executions_do_not_overlap:
  assumes "run loopFire ss NewEventLoop = Next el"
  shows "loopFire s el \<noteq> Panics \<and>
    (\<forall>w < length (elWorkers el). \<forall>w' < length (elWorkers el).
       w \<noteq> w' \<longrightarrow> wkPC (elWorkers el ! w) = InTask \<longrightarrow> wkPC (elWorkers el ! w') = InTask \<longrightarrow>
       evName (elHeap el ! wkEvent (elWorkers el ! w)) \<noteq> evName (elHeap el ! wkEvent (elWorkers el ! w')))"
proof -
  have ok: "elOK el" by (rule reachable_loop [OF assms(1)])
  then have c: "core el" by (simp add: elOK_def)
  have "\<exists>n. (n, wkEvent (elWorkers el ! u)) \<in> set (elEvents el) \<and> evName (elHeap el ! wkEvent (elWorkers el ! u)) = n \<and>
      evCancel (elHeap el ! wkEvent (elWorkers el ! u)) = Some u"
    if "u < length (elWorkers el)" "wkPC (elWorkers el ! u) = InTask" for u
  proof -
    let ?i = "wkEvent (elWorkers el ! u)"
    have i: "?i < length (elHeap el)" "evCancel (elHeap el ! ?i) = Some u"
      using coreD(5,6) [OF c that(1)] that(2) by (simp_all add: live_def)
    then have "\<not> evDone (elHeap el ! ?i)" using coreD(3) [OF c i(1)] by (simp add: eventOK_def ownWorker_def)
    then show ?thesis using coreD(4) [OF c i(1)] i(2) by blast
  qed
  then have "evName (elHeap el ! wkEvent (elWorkers el ! w)) \<noteq> evName (elHeap el ! wkEvent (elWorkers el ! w'))"
    if "w < length (elWorkers el)" "w' < length (elWorkers el)" "w \<noteq> w'" "wkPC (elWorkers el ! w) = InTask"
      "wkPC (elWorkers el ! w') = InTask" for w w'
    using that same_index [OF c] by (metis option.inject)
  then show ?thesis using scheduler.fire_safe [OF ok] by blast
qed

definition demoTwo :: "loopStep list" where
  "demoTwo = [Register ''tick'' True 10 2 0, Register ''tock'' True 10 (-1) 0, Start, Dispatch 0 12 [''tock'', ''tick'']]"

theorem executions_do_not_overlap_witness:
  "\<exists>el. run loopFire demoTwo NewEventLoop = Next el \<and> length (elWorkers el) = 2 \<and>
    evName (elHeap el ! wkEvent (elWorkers el ! 0)) \<noteq> evName (elHeap el ! wkEvent (elWorkers el ! 1))"
proof -
  obtain el where el: "run loopFire demoTwo NewEventLoop = Next el"
    "length (elWorkers el) = 2 \<and> wkPC (elWorkers el ! 0) = InTask \<and> wkPC (elWorkers el ! 1) = InTask"
  proof -
    have "case run loopFire demoTwo NewEventLoop of Next el \<Rightarrow>
        length (elWorkers el) = 2 \<and> wkPC (elWorkers el ! 0) = InTask \<and> wkPC (elWorkers el ! 1) = InTask | _ \<Rightarrow> False" by code_simp
    then show ?thesis by (auto split: outcome.splits intro: that)
  qed
  show ?thesis using executions_do_not_overlap [OF el(1)] el by (auto simp: numeral_2_eq_2)
qed

section \<open>Wake-ups\<close>

text \<open>
  (C25) No due event is overslept: while the loop sleeps until a deadline, every registered event is executing, or not due before
  the deadline, or a wake-up is in the channel or about to be sent by a goroutine that has left its critical section.
\<close>

theorem no_overslept_event:
  assumes "run loopFire ss NewEventLoop = Next el" and "g < length (elLoops el)" and "lpPC (elLoops el ! g) = Sleeping d"
  shows "elWake el \<or> elSignals el > 0 \<or> (\<exists>wk \<in> set (elWorkers el). wkPC wk = AtSignal) \<or>
    elState el = LoopRunning \<and> list_all (\<lambda>(n, i). evRunning (elHeap el ! i) \<or> d \<le> evNextRun (elHeap el ! i)) (elEvents el)"
proof -
  have "wakeOK el" using reachable_loop [OF assms(1)] by (simp add: elOK_def)
  then have "case lpPC (elLoops el ! g) of Sleeping d \<Rightarrow> pendingWake el \<or> covered d el | _ \<Rightarrow> True"
    using nth_mem [OF assms(2)] unfolding wakeOK_def by blast
  then have "pendingWake el \<or> covered d el" using assms(3) by simp
  then show ?thesis by (auto simp: pendingWake_def covered_def list_all_iff)
qed

theorem no_overslept_event_witness:
  "\<exists>el. run loopFire (take 3 demoSteps) NewEventLoop = Next el \<and> lpPC (elLoops el ! 0) = Sleeping 10 \<and> elSignals el = 1 \<and>
    (elWake el \<or> elSignals el > 0 \<or> (\<exists>wk \<in> set (elWorkers el). wkPC wk = AtSignal) \<or>
     elState el = LoopRunning \<and> list_all (\<lambda>(n, i). evRunning (elHeap el ! i) \<or> 10 \<le> evNextRun (elHeap el ! i)) (elEvents el))"
proof -
  have "case run loopFire (take 3 demoSteps) NewEventLoop of Next el \<Rightarrow>
      length (elLoops el) = 1 \<and> lpPC (elLoops el ! 0) = Sleeping 10 \<and> elSignals el = 1 | _ \<Rightarrow> False" by code_simp
  then obtain el where "run loopFire (take 3 demoSteps) NewEventLoop = Next el" "length (elLoops el) = 1"
    "lpPC (elLoops el ! 0) = Sleeping 10" "elSignals el = 1" by (auto split: outcome.splits)
  then show ?thesis using no_overslept_event [of "take 3 demoSteps" el 0 10] by simp
qed

section \<open>Stopping\<close>

text \<open>The steps of the loop's own goroutines, without the timer.\<close>

fun ownStep :: "loopStep \<Rightarrow> bool" where
  "ownStep Signal = True"
| "ownStep (Dispatch _ _ _) = True"
| "ownStep (TakesWake _) = True"
| "ownStep (Drained _) = True"
| "ownStep (TaskEnds _ _) = True"
| "ownStep (Executed _ _) = True"
| "ownStep (WorkerSignals _) = True"
| "ownStep _ = False"

definition rank :: "worker \<Rightarrow> nat" where
  "rank wk = (case wkPC wk of InTask \<Rightarrow> 3 | TaskReturned _ \<Rightarrow> 2 | AtSignal \<Rightarrow> 1 | WorkerDone \<Rightarrow> 0)"

lemma sum_rank_update:
  "w < length ws \<Longrightarrow> rank wk < rank (ws ! w) \<Longrightarrow> sum_list (map rank (ws[w := wk])) < sum_list (map rank ws)"
  using elem_le_sum_list [of w "map rank ws"] by (simp add: map_update sum_list_update)

lemma afterTask_frame: "frame (afterTask i r el) = frame el" "elWorkers (afterTask i r el) = elWorkers el"
  by (simp_all add: afterTask_def Let_def putEvent_def finishEvent_def)

text \<open>A worker that is left can take a step.\<close>

lemma worker_step:
  assumes "w < length (elWorkers el)" "wkPC (elWorkers el ! w) \<noteq> WorkerDone"
  obtains s el' wk where "ownStep s" "loopFire s el = Next el'" "elWorkers el' = (elWorkers el)[w := wk]" "rank wk < rank (elWorkers el ! w)"
    "elState el' = elState el" "elStopDone el' = elStopDone el"
proof (cases "wkPC (elWorkers el ! w)")
  case InTask
  let ?wk = "(elWorkers el ! w)\<lparr>wkCancelled := True, wkPC := TaskReturned (callTask (evName (elHeap el ! wkEvent (elWorkers el ! w))) (TaskReturns None))\<rparr>"
  show ?thesis
    by (rule that [of "TaskEnds w (TaskReturns None)" "putWorker w ?wk el" ?wk])
      (use assms(1) InTask in \<open>simp_all add: workerAt_def Let_def putWorker_def rank_def\<close>)
next
  case (TaskReturned r)
  let ?wk = "(elWorkers el ! w)\<lparr>wkPC := AtSignal\<rparr>"
  let ?el = "afterTask (wkEvent (elWorkers el ! w)) r (putWorker w ?wk el)"
  have "frame ?el = frame el" by (simp add: afterTask_frame putWorker_def)
  from frame_eqD [OF this] show ?thesis
    by (intro that [of "Executed w r" ?el ?wk])
      (use assms(1) TaskReturned in \<open>simp_all add: workerAt_def Let_def afterTask_frame rank_def putWorker_def\<close>)
next
  case AtSignal
  let ?wk = "(elWorkers el ! w)\<lparr>wkPC := WorkerDone\<rparr>"
  show ?thesis
    by (rule that [of "WorkerSignals w" "signalWake (putWorker w ?wk el)" ?wk])
      (use assms(1) AtSignal in \<open>simp_all add: workerAt_def put_defs rank_def\<close>)
qed (use assms(2) in simp)

lemma workers_drain:
  assumes "elOK el"
  shows "\<exists>ss el'. run loopFire ss el = Next el' \<and> list_all ownStep ss \<and> elOK el' \<and> elState el' = elState el \<and>
    elStopDone el' = elStopDone el \<and> (\<forall>wk \<in> set (elWorkers el'). wkPC wk = WorkerDone)"
  using assms
proof (induction "sum_list (map rank (elWorkers el))" arbitrary: el rule: less_induct)
  case less
  show ?case
  proof (cases "\<forall>wk \<in> set (elWorkers el). wkPC wk = WorkerDone")
    case True
    then show ?thesis using less.prems by (intro exI [of _ "[]"] exI [of _ el]) simp
  next
    case False
    then obtain w where w: "w < length (elWorkers el)" "wkPC (elWorkers el ! w) \<noteq> WorkerDone" by (auto simp: in_set_conv_nth)
    obtain s el1 wk where s: "ownStep s" "loopFire s el = Next el1" "elWorkers el1 = (elWorkers el)[w := wk]"
      "rank wk < rank (elWorkers el ! w)" "elState el1 = elState el" "elStopDone el1 = elStopDone el"
      by (rule worker_step [OF w])
    have "sum_list (map rank (elWorkers el1)) < sum_list (map rank (elWorkers el))" using sum_rank_update [OF w(1) s(4)] s(3) by simp
    from less.hyps [OF this scheduler.fire_inv [OF less.prems s(2)]] obtain ss el'
      where "run loopFire ss el1 = Next el'" "list_all ownStep ss" "elOK el'" "elState el' = elState el1" "elStopDone el' = elStopDone el1"
        "\<forall>wk \<in> set (elWorkers el'). wkPC wk = WorkerDone" by blast
    then show ?thesis using s by (intro exI [of _ "s # ss"] exI [of _ el']) simp
  qed
qed

text \<open>Once no worker is left the loop notices the request, and drains.\<close>

lemma loop_ends:
  assumes ok: "elOK el" and st: "elState el = LoopStopping" and g: "elStopDone el = Some g"
    and ws: "\<forall>wk \<in> set (elWorkers el). wkPC wk = WorkerDone" and pc: "lpPC (elLoops el ! g) = Draining \<or> lpPC (elLoops el ! g) = AtDispatch"
  shows "\<exists>ss el'. run loopFire ss el = Next el' \<and> list_all ownStep ss \<and> elState el' = LoopStopped \<and> elEvents el' = [] \<and> lpStopDone (elLoops el' ! g)"
proof -
  have c: "core el" and l: "loopOK el" using ok by (simp_all add: elOK_def)
  have gl: "g < length (elLoops el)" using l st g by (auto simp: loopOK_def onlyLoop_def)
  have none: "elEvents el = []"
  proof (rule ccontr)
    assume "elEvents el \<noteq> []"
    then obtain n i where e: "(n, i) \<in> set (elEvents el)" by (cases "elEvents el") auto
    then have "evRunning (elHeap el ! i)" using l st by (fastforce simp: loopOK_def stoppedEvent_def)
    then obtain w where "w < length (elWorkers el)" "live (elWorkers el ! w)" by (rule running_worker [OF c e])
    then show False using ws by (auto simp: live_def)
  qed
  have drain: "\<exists>el''. loopFire (Drained g) el' = Next el'' \<and> elState el'' = LoopStopped \<and> elEvents el'' = [] \<and> lpStopDone (elLoops el'' ! g)"
    if "elOK el'" "g < length (elLoops el')" "lpPC (elLoops el' ! g) = Draining" "elWorkers el' = elWorkers el" "elEvents el' = []" for el'
    using elOK_Drained(1) [OF that(1-3)] that ws by (simp add: atPC_def list_all_iff)
  show ?thesis
  proof (cases "lpPC (elLoops el ! g) = Draining")
    case True
    from drain [OF ok gl True refl none] obtain el'' where "loopFire (Drained g) el = Next el'' \<and> elState el'' = LoopStopped \<and> elEvents el'' = [] \<and> lpStopDone (elLoops el'' ! g)" ..
    then show ?thesis by (intro exI [of _ "[Drained g]"] exI [of _ el'']) simp
  next
    case False
    then have at: "lpPC (elLoops el ! g) = AtDispatch" using pc by simp
    have ord: "isOrder [] el" using none by (simp add: isOrder_def)
    from elOK_Dispatch [OF ok gl at ord, of 0] obtain el' where el': "afterDispatch g (dispatchDue 0 [] el) = Next el'" "elOK el'" by blast
    then obtain lp where lp: "el' = putLoop g (lp\<lparr>lpPC := Draining\<rparr>) el"
      using st by (auto simp: dispatchDue_def afterDispatch_def split: option.splits)
    have "loopFire (Dispatch g 0 []) el = Next el'" using el'(1) at gl ord by (simp add: atPC_def)
    moreover from drain [OF el'(2)] obtain el'' where "loopFire (Drained g) el' = Next el''" "elState el'' = LoopStopped" "elEvents el'' = []" "lpStopDone (elLoops el'' ! g)"
      using gl none by (auto simp: lp putLoop_def)
    ultimately show ?thesis by (intro exI [of _ "[Dispatch g 0 [], Drained g]"] exI [of _ el'']) simp
  qed
qed

lemma stop_ends:
  assumes ok: "elOK el" and st: "elState el = LoopStopping" and g: "elStopDone el = Some g"
    and ws: "\<forall>wk \<in> set (elWorkers el). wkPC wk = WorkerDone"
  shows "\<exists>ss el'. run loopFire ss el = Next el' \<and> list_all ownStep ss \<and> elState el' = LoopStopped \<and> elEvents el' = [] \<and> lpStopDone (elLoops el' ! g)"
proof (cases "\<exists>d. lpPC (elLoops el ! g) = Sleeping d")
  case False
  have "onlyLoop g el" using ok st g by (auto simp: elOK_def loopOK_def onlyLoop_def)
  then show ?thesis using loop_ends [OF ok st g ws] False by (cases "lpPC (elLoops el ! g)") (auto simp: onlyLoop_def)
next
  case True
  then obtain d where d: "lpPC (elLoops el ! g) = Sleeping d" ..
  have gl: "g < length (elLoops el)" using ok st g by (auto simp: elOK_def loopOK_def onlyLoop_def)
  have w: "wakeOK el" using ok by (simp add: elOK_def)
  have "case lpPC (elLoops el ! g) of Sleeping d \<Rightarrow> pendingWake el \<or> covered d el | _ \<Rightarrow> True"
    using w nth_mem [OF gl] unfolding wakeOK_def by blast
  then have p: "elWake el \<or> elSignals el > 0" using d st ws by (auto simp: covered_def pendingWake_def)
  define el1 where "el1 = (if elWake el then el else signalWake (el\<lparr>elSignals := elSignals el - 1\<rparr>))"
  define ss1 where "ss1 = (if elWake el then [] else [Signal])"
  have r1: "run loopFire ss1 el = Next el1" using p by (auto simp: el1_def ss1_def)
  have ok1: "elOK el1" by (rule scheduler.run_inv [OF ok r1])
  let ?el = "putLoop g ((elLoops el1 ! g)\<lparr>lpPC := AtDispatch\<rparr>) (el1\<lparr>elWake := False\<rparr>)"
  have same: "elLoops el1 = elLoops el" "elState el1 = LoopStopping" "elStopDone el1 = Some g" "elWorkers el1 = elWorkers el" "elWake el1"
    using st g by (simp_all add: el1_def signalWake_def)
  have r2: "loopFire (TakesWake g) el1 = Next ?el" using same d gl by (simp add: atPC_def)
  have "\<exists>ss el'. run loopFire ss ?el = Next el' \<and> list_all ownStep ss \<and> elState el' = LoopStopped \<and> elEvents el' = [] \<and> lpStopDone (elLoops el' ! g)"
    by (rule loop_ends [OF scheduler.fire_inv [OF ok1 r2]]) (use same ws gl in \<open>simp_all add: putLoop_def\<close>)
  then obtain ss el' where "run loopFire ss ?el = Next el'" "list_all ownStep ss" "elState el' = LoopStopped" "elEvents el' = []" "lpStopDone (elLoops el' ! g)" by blast
  then show ?thesis using r1 r2 by (intro exI [of _ "ss1 @ TakesWake g # ss"] exI [of _ el']) (simp add: run_append ss1_def)
qed

text \<open>
  (C26) \<^verbatim>\<open>Stop\<close> drains: once it was called no step starts an execution and the contexts of all executing tasks are cancelled; when the tasks
  return, steps of the loop's own goroutines suffice, without the timer, to close \<^verbatim>\<open>stopDone\<close> with no event and no worker left.
\<close>

theorem stop_drains:
  assumes "run loopFire ss NewEventLoop = Next el" and "elState el = LoopStopping"
  shows "(loopFire s el = Next el' \<longrightarrow> length (elWorkers el') = length (elWorkers el)) \<and>
    list_all (\<lambda>wk. wkPC wk = InTask \<longrightarrow> wkCancelled wk) (elWorkers el) \<and>
    (\<exists>ss' el'' g. run loopFire ss' el = Next el'' \<and> list_all ownStep ss' \<and> elState el'' = LoopStopped \<and> elEvents el'' = [] \<and>
       elStopDone el = Some g \<and> lpStopDone (elLoops el'' ! g))"
proof (intro conjI)
  have ok: "elOK el" by (rule reachable_loop [OF assms(1)])
  then have c: "core el" and l: "loopOK el" by (simp_all add: elOK_def)
  show "loopFire s el = Next el' \<longrightarrow> length (elWorkers el') = length (elWorkers el)"
    using assms(2)
    by (cases s) (auto simp: RegisterEvent_def StartLoop_def StopLoop_def DelEvent_def dispatchDue_def afterDispatch_def loopEnds_def Let_def
        put_defs cancelTask_def finishEvent_def afterTask_def split: if_splits option.splits)
  show "list_all (\<lambda>wk. wkPC wk = InTask \<longrightarrow> wkCancelled wk) (elWorkers el)"
    unfolding list_all_length
  proof (intro allI impI)
    fix w assume w: "w < length (elWorkers el)" "wkPC (elWorkers el ! w) = InTask"
    let ?i = "wkEvent (elWorkers el ! w)"
    have i: "?i < length (elHeap el)" "evCancel (elHeap el ! ?i) = Some w" using coreD(5,6) [OF c w(1)] w(2) by (simp_all add: live_def)
    then have "\<not> evDone (elHeap el ! ?i)" using coreD(3) [OF c i(1)] by (simp add: eventOK_def ownWorker_def)
    then have "stoppedEvent el ?i" using coreD(4) [OF c i(1)] l assms(2) by (fastforce simp: loopOK_def)
    then show "wkCancelled (elWorkers el ! w)" using i(2) by (simp add: stoppedEvent_def)
  qed
  obtain g where g: "elStopDone el = Some g" using l assms(2) by (auto simp: loopOK_def onlyLoop_def)
  from workers_drain [OF ok] obtain ss1 el1 where 1: "run loopFire ss1 el = Next el1" "list_all ownStep ss1" "elOK el1"
    "elState el1 = elState el" "elStopDone el1 = elStopDone el" "\<forall>wk \<in> set (elWorkers el1). wkPC wk = WorkerDone" by blast
  from stop_ends [OF 1(3) _ _ 1(6)] obtain ss2 el2 where "run loopFire ss2 el1 = Next el2" "list_all ownStep ss2" "elState el2 = LoopStopped"
    "elEvents el2 = []" "lpStopDone (elLoops el2 ! g)" using 1(4,5) assms(2) g by auto
  then show "\<exists>ss' el'' g. run loopFire ss' el = Next el'' \<and> list_all ownStep ss' \<and> elState el'' = LoopStopped \<and> elEvents el'' = [] \<and>
       elStopDone el = Some g \<and> lpStopDone (elLoops el'' ! g)"
    using 1(1,2) g by (intro exI [of _ "ss1 @ ss2"] exI [of _ el2] exI [of _ g]) (simp add: run_append)
qed

theorem stop_drains_witness:
  "\<exists>el ss' el''. run loopFire (demoSteps @ [Stop [''tick'']]) NewEventLoop = Next el \<and> elState el = LoopStopping \<and> length (elWorkers el) = 1 \<and>
    run loopFire ss' el = Next el'' \<and> elState el'' = LoopStopped \<and> elEvents el'' = []"
proof -
  have "case run loopFire (demoSteps @ [Stop [''tick'']]) NewEventLoop of Next el \<Rightarrow> elState el = LoopStopping \<and> length (elWorkers el) = 1 | _ \<Rightarrow> False"
    by code_simp
  then obtain el where el: "run loopFire (demoSteps @ [Stop [''tick'']]) NewEventLoop = Next el" "elState el = LoopStopping" "length (elWorkers el) = 1"
    by (auto split: outcome.splits)
  then show ?thesis using stop_drains [OF el(1,2)] by blast
qed

text \<open>
  Whoever waits for an event is released with its outcome: an event is out of the map exactly when its channel \<^verbatim>\<open>done\<close> is closed, and then the
  result is that it was deleted, that the loop was stopped, or that of its last execution after the counter reached zero.
\<close>

theorem waiters_get_the_outcome:
  assumes "run loopFire ss NewEventLoop = Next el" and "i < length (elHeap el)"
  shows "((evName (elHeap el ! i), i) \<notin> set (elEvents el) \<longleftrightarrow> (\<exists>r. waitResult i el = Some r)) \<and>
    (\<forall>r. waitResult i el = Some r \<longrightarrow> \<not> evRunning (elHeap el ! i) \<and>
       (if evDeleting (elHeap el ! i) then r = Some ErrEventDeleted else r = Some ErrLoopStopped \<or> evRemaining (elHeap el ! i) = 0))"
proof -
  have c: "core el" using reachable_loop [OF assms(1)] by (simp add: elOK_def)
  have "evDone (elHeap el ! i) \<longleftrightarrow> (evName (elHeap el ! i), i) \<notin> set (elEvents el)"
    using coreD(2,4) [OF c] assms(2) by blast
  moreover have "evDone (elHeap el ! i) \<Longrightarrow> \<not> evRunning (elHeap el ! i) \<and> resultOK (elHeap el ! i)"
    using coreD(3) [OF c assms(2)] by (auto simp: eventOK_def ownWorker_def split: option.splits)
  ultimately show ?thesis by (auto simp: waitResult_def resultOK_def split: if_splits)
qed

theorem waiters_get_the_outcome_witness:
  "\<exists>el. run loopFire [Register ''tick'' True 10 2 0, DeleteEvent ''tick''] NewEventLoop = Next el \<and> waitResult 0 el = Some (Some ErrEventDeleted) \<and>
    (''tick'', 0) \<notin> set (elEvents el)"
proof -
  let ?ss = "[Register ''tick'' True 10 2 0, DeleteEvent ''tick'']"
  have "case run loopFire ?ss NewEventLoop of Next el \<Rightarrow> length (elHeap el) = 1 \<and> waitResult 0 el = Some (Some ErrEventDeleted) \<and>
      evName (elHeap el ! 0) = ''tick'' | _ \<Rightarrow> False" by code_simp
  then obtain el where el: "run loopFire ?ss NewEventLoop = Next el" "length (elHeap el) = 1" "waitResult 0 el = Some (Some ErrEventDeleted)"
    "evName (elHeap el ! 0) = ''tick''" by (auto split: outcome.splits)
  then show ?thesis using waiters_get_the_outcome [OF el(1), of 0] by auto
qed

end
