(* ===== verification/AgentStore.thy ===== *)
theory AgentStore
  imports SqlMonad Float64 Models "HOL-Library.Product_Lexorder" "HOL-Library.List_Lexorder" "HOL-Library.Char_ord"
begin

text \<open>
  The tables of the agent server that drive its runs: \<^verbatim>\<open>sessions\<close> and \<^verbatim>\<open>runs\<close> (\<^verbatim>\<open>agent/runtime.go\<close>), \<^verbatim>\<open>events\<close>, \<^verbatim>\<open>event_log\<close> and
  \<^verbatim>\<open>pending_triggers\<close> (\<^verbatim>\<open>events/events.go\<close>) and the two cursors of \<^verbatim>\<open>session_chat_cursors\<close> that waking up uses.

  Times are nanoseconds: the layout of event times is fixed-width, in UTC and down to the nanosecond, so that parsing inverts
  formatting and the order of the text is the order in time.  The JSON columns hold the values they encode: they were
  written by \<^verbatim>\<open>json.Marshal\<close> from the structs they are read into.  A text column that may be \<^verbatim>\<open>NULL\<close> is empty there.

  \<open>dbCreated\<close>, \<open>dbQueued\<close> and \<open>dbDelivered\<close> are not part of the program: they list the events that were ever inserted, the triggers that
  were ever queued, and where queued triggers went when they left the queue.
\<close>

section \<open>Rows\<close>

datatype eventParams =
    TimerParams time
  | LevelParams string string float64
  | ChangeParams string string float64 string float64
  | CloseParams string

record positionIdentity =
  piID :: string
  piMarket :: string
  piSymbol :: string
  piProduct :: string
  piSide :: string

datatype eventState = NoState | SampleState float64 time | CloseState positionIdentity

record wakeup =
  wuID :: string
  wuSession :: string
  wuRun :: int
  wuType :: string
  wuParams :: eventParams
  wuMarket :: string
  wuSymbol :: string
  wuDue :: "time option"
  wuState :: eventState
  wuCreatedAt :: time
  wuExpiresAt :: time

text \<open>The facts of a match.\<close>

datatype matched =
    TimerMatch "time option"
  | LevelMatch string float64 time
  | CrossMatch string float64 time float64 time
  | ChangeMatch string float64 float64 float64 time
  | CloseMatch positionIdentity "string option"

datatype triggerPayload =
    FiredTrigger string string int eventParams time time matched
  | ChatMention "string list"

record logRow =
  lgSession :: string
  lgEvent :: string
  lgRun :: int
  lgType :: string
  lgParams :: eventParams
  lgState :: eventState
  lgCreatedAt :: time
  lgExpiresAt :: time
  lgOutcome :: string
  lgOutcomeRun :: "int option"
  lgDetail :: "matched option"
  lgAt :: time

record pendingTrigger =
  ptID :: int
  ptSession :: string
  ptPayload :: triggerPayload
  ptCreatedAt :: time

text \<open>
  An entry of a run's trace, as far as a restart looks at it; \<open>teResult\<close> is the decoded result of a tool call: \<^verbatim>\<open>ok\<close>, \<^verbatim>\<open>error.code\<close> and
  \<^verbatim>\<open>error.outcome\<close>.
\<close>

record traceEntry =
  teType :: string
  teIteration :: int
  teToolName :: string
  teFinishReason :: string
  teError :: string
  teEnded :: bool
  teResult :: "(bool \<times> string \<times> string) option"

record restartProgress =
  rpType :: string
  rpIteration :: int
  rpToolName :: string
  rpFinishReason :: string
  rpErrorCode :: string
  rpOutcome :: string

record runRow =
  rnSession :: string
  rnID :: int
  rnStatus :: string
  rnTrigger :: string
  rnTriggers :: "triggerPayload list option"
  rnSummary :: "string option"
  rnOutput :: "string option"
  rnError :: "string option"
  rnProgress :: "traceEntry list"
  rnModelCalls :: int
  rnToolCalls :: int
  rnStartedAt :: time
  rnEndedAt :: "time option"
  rnRetryOf :: "int option"
  rnRetryAttempt :: int

text \<open>The context a stopped session saves for its next start; a completed run leaves only what was cleared.\<close>

datatype restartContext =
    RestartAfter int string "string option" "string option" "string option" "int \<times> int \<times> int" "restartProgress list" int
      "triggerPayload list option" "wakeup list" "triggerPayload list"
  | RestartCompleted int "wakeup list" "triggerPayload list"

record sessionRow =
  ssID :: string
  ssName :: string
  ssAccountID :: string
  ssModelName :: string
  ssModelLevel :: "string option"
  ssPrompt :: string
  ssMaxLoop :: int
  ssMaxToolCall :: int
  ssSkillsEnabled :: bool
  ssConversationMode :: string
  ssStatus :: string
  ssCurrentRunID :: int
  ssRestartContext :: "restartContext option"
  ssCreatedAt :: time
  ssStartedAt :: "time option"
  ssStoppedAt :: "time option"
  ssDeletedAt :: "time option"

datatype delivery = ToRun int | ToRestart

record agentDB =
  dbSessions :: "sessionRow list"
  dbRuns :: "runRow list"
  dbEvents :: "wakeup list"
  dbLog :: "logRow list"
  dbPending :: "pendingTrigger list"
  dbTriggerSeq :: int
  dbMentionCursors :: "(string \<times> string) list"
  dbWakeCursors :: "(string \<times> string) list"
  dbCreated :: "string list"
  dbQueued :: "(string \<times> triggerPayload) list"
  dbDelivered :: "(string \<times> delivery \<times> triggerPayload) list"

datatype agErr = AgFault

type_synonym 'a asql = "(agentDB, agErr, 'a) sqlm"

definition astmt :: "(agentDB \<Rightarrow> (agErr + 'a) \<times> agentDB) \<Rightarrow> 'a asql" where
  "astmt = stmtF AgFault"

definition aquery :: "(agentDB \<Rightarrow> 'a) \<Rightarrow> 'a asql" where
  "aquery f = astmt (\<lambda>d. (Inr (f d), d))"

definition aexec :: "(agentDB \<Rightarrow> agentDB) \<Rightarrow> unit asql" where
  "aexec f = astmt (\<lambda>d. (Inr (), f d))"

text \<open>\<^verbatim>\<open>INSERT\<close> into a table with the primary key \<open>key\<close>: a row with the same key is refused.\<close>

definition ainsert :: "(agentDB \<Rightarrow> 'r list) \<Rightarrow> ('r \<Rightarrow> 'k) \<Rightarrow> 'r \<Rightarrow> (agentDB \<Rightarrow> agentDB) \<Rightarrow> unit asql" where
  "ainsert rows key r f = astmt (\<lambda>d. if key r \<in> key ` set (rows d) then (Inl AgFault, d) else (Inr (), f d))"

end
