(* ===== verification/AgentEvents.thy ===== *)
theory AgentEvents
  imports AgentStore Json
begin

text \<open>
  The wake-up events of the agent server: \<^verbatim>\<open>agent_server/internal/events\<close>.  An agent registers one-shot conditions; background
  rounds find the conditions that hold, remove the events, record the outcome in \<^verbatim>\<open>event_log\<close> and queue a trigger for the session.

  The functions that take a \<^verbatim>\<open>*sql.Tx\<close> are computations of \<open>SqlMonad\<close> on the tables of \<open>AgentStore\<close>.
\<close>

definition maxActiveEvents :: nat where "maxActiveEvents = 10"
definition defaultTimerExpiry :: int where "defaultTimerExpiry = 3600000000000"
definition defaultEventExpiry :: int where "defaultEventExpiry = 24 * 3600000000000"
definition MaxTriggersPerRun :: nat where "MaxTriggersPerRun = 10"

section \<open>Arguments of the tools\<close>

text \<open>
  \<^verbatim>\<open>encoding/json\<close> and \<^verbatim>\<open>time.Parse\<close>: \<open>acStrict\<close> decodes a value into a struct with the given fields and no other, \<open>acFloat\<close> reads the text
  of a number, \<open>acInt\<close> decodes a value into an \<^verbatim>\<open>int\<close>, \<open>acRFC3339\<close> parses a time.  \<open>acLower\<close> and \<open>acUpper\<close> are the Unicode case mappings beyond ASCII.
\<close>

record argCodec =
  acStrict :: "string list \<Rightarrow> json \<Rightarrow> (string \<Rightarrow> raw) option"
  acFloat :: "string \<Rightarrow> float64 option"
  acInt :: "json \<Rightarrow> int option"
  acRFC3339 :: "string \<Rightarrow> time option"
  acLower :: "string \<Rightarrow> string"
  acUpper :: "string \<Rightarrow> string"

definition DecodeArguments :: "argCodec \<Rightarrow> string list \<Rightarrow> raw \<Rightarrow> (string \<Rightarrow> raw) option" where
  "DecodeArguments ac names arguments = (case arguments of None \<Rightarrow> None | Some v \<Rightarrow> acStrict ac names v)"

definition RequiredString :: "raw \<Rightarrow> string option" where
  "RequiredString r = (case r of Some (JStr t) \<Rightarrow> if TrimSpace t = [] then None else Some (TrimSpace t) | _ \<Rightarrow> None)"

definition ParseMarketSymbol :: "raw \<Rightarrow> raw \<Rightarrow> (string \<times> string) option" where
  "ParseMarketSymbol rawMarket rawSymbol = (case RequiredString rawSymbol of
     None \<Rightarrow> None
   | Some symbol \<Rightarrow>
       (case rawMarket of
          None \<Rightarrow> Some (''crypto'', TrimSpace symbol)
        | Some (JStr t) \<Rightarrow> Some (if TrimSpace t = [] then ''crypto'' else TrimSpace t, TrimSpace symbol)
        | _ \<Rightarrow> None))"

definition parseEventMarketSymbol :: "argCodec \<Rightarrow> raw \<Rightarrow> raw \<Rightarrow> (string \<times> string) option" where
  "parseEventMarketSymbol ac rawMarket rawSymbol = (case ParseMarketSymbol rawMarket rawSymbol of
     None \<Rightarrow> None
   | Some (market, symbol) \<Rightarrow> Some (ToLower (acLower ac) market, ToUpper (acUpper ac) symbol))"

definition requiredRFC3339 :: "argCodec \<Rightarrow> raw \<Rightarrow> time option" where
  "requiredRFC3339 ac r = (case RequiredString r of None \<Rightarrow> None | Some t \<Rightarrow> acRFC3339 ac t)"

definition requiredPositiveNumber :: "argCodec \<Rightarrow> raw \<Rightarrow> float64 option" where
  "requiredPositiveNumber ac r = (case r of
     Some (JNum t) \<Rightarrow>
       (case acFloat ac t of
          Some v \<Rightarrow> if IsNaN v \<or> IsInf v \<or> v \<le> 0 then None else Some v
        | None \<Rightarrow> None)
   | _ \<Rightarrow> None)"

definition newEventID :: "8 word list option \<Rightarrow> string option" where
  "newEventID entropy = map_option (\<lambda>b. ''ev_'' @ EncodeToString b) entropy"

text \<open>The parameters of one type with the instrument, the due time, the default and the earliest expiry.\<close>

definition timerFields :: "argCodec \<Rightarrow> time \<Rightarrow> raw \<Rightarrow> (eventParams \<times> (string \<times> string) \<times> time option \<times> time \<times> time) option" where
  "timerFields ac now params =
     Option.bind (DecodeArguments ac [''at''] params) (\<lambda>f.
     Option.bind (requiredRFC3339 ac (f ''at'')) (\<lambda>at0.
     if \<not> at0 > now then None
     else Some (TimerParams at0, ([], []), Some at0, at0 + defaultTimerExpiry, at0)))"

definition levelFields :: "argCodec \<Rightarrow> time \<Rightarrow> raw \<Rightarrow> (eventParams \<times> (string \<times> string) \<times> time option \<times> time \<times> time) option" where
  "levelFields ac now params =
     Option.bind (DecodeArguments ac [''market'', ''symbol'', ''price''] params) (\<lambda>f.
     Option.bind (parseEventMarketSymbol ac (f ''market'') (f ''symbol'')) (\<lambda>(market, symbol).
     Option.bind (requiredPositiveNumber ac (f ''price'')) (\<lambda>price.
     Some (LevelParams market symbol price, (market, symbol), None, now + defaultEventExpiry, now))))"

definition changeFields :: "argCodec \<Rightarrow> time \<Rightarrow> raw \<Rightarrow> (eventParams \<times> (string \<times> string) \<times> time option \<times> time \<times> time) option" where
  "changeFields ac now params =
     Option.bind (DecodeArguments ac [''market'', ''symbol'', ''base_price'', ''direction'', ''pct''] params) (\<lambda>f.
     Option.bind (parseEventMarketSymbol ac (f ''market'') (f ''symbol'')) (\<lambda>(market, symbol).
     Option.bind (requiredPositiveNumber ac (f ''base_price'')) (\<lambda>basePrice.
     Option.bind (RequiredString (f ''direction'')) (\<lambda>direction.
     if direction \<noteq> ''up'' \<and> direction \<noteq> ''down'' then None else
     Option.bind (requiredPositiveNumber ac (f ''pct'')) (\<lambda>pct.
     Some (ChangeParams market symbol basePrice direction pct, (market, symbol), None, now + defaultEventExpiry, now))))))"

definition closeFields :: "argCodec \<Rightarrow> time \<Rightarrow> raw \<Rightarrow> (eventParams \<times> (string \<times> string) \<times> time option \<times> time \<times> time) option" where
  "closeFields ac now params =
     Option.bind (DecodeArguments ac [''position_id''] params) (\<lambda>f.
     Option.bind (RequiredString (f ''position_id'')) (\<lambda>positionID.
     Some (CloseParams positionID, ([], []), None, now + defaultEventExpiry, now)))"

definition levelTypes :: "string list" where
  "levelTypes = [''price_above'', ''price_below'', ''price_cross_above'', ''price_cross_below'']"

definition typeFields :: "argCodec \<Rightarrow> string \<Rightarrow> time \<Rightarrow> raw \<Rightarrow> (eventParams \<times> (string \<times> string) \<times> time option \<times> time \<times> time) option" where
  "typeFields ac eventType now params =
     (if eventType = ''timer'' then timerFields ac now params
      else if eventType \<in> set levelTypes then levelFields ac now params
      else if eventType = ''price_change_pct'' then changeFields ac now params
      else if eventType = ''position_close'' then closeFields ac now params
      else None)"

definition ParseCreateEvent :: "argCodec \<Rightarrow> 8 word list option \<Rightarrow> raw \<Rightarrow> string \<Rightarrow> int \<Rightarrow> time \<Rightarrow> wakeup option" where
  "ParseCreateEvent ac entropy arguments sessionID runID now =
     Option.bind (DecodeArguments ac [''type'', ''params'', ''expires_at''] arguments) (\<lambda>f.
     Option.bind (RequiredString (f ''type'')) (\<lambda>eventType.
     if f ''params'' = None \<or> f ''params'' = Some JNull then None else
     Option.bind (newEventID entropy) (\<lambda>i.
     Option.bind (typeFields ac eventType now (f ''params'')) (\<lambda>(params, (market, symbol), due, defaultExpiry, earliestExpiry).
     Option.bind (if f ''expires_at'' = None then Some defaultExpiry else requiredRFC3339 ac (f ''expires_at'')) (\<lambda>expiresAt.
     if \<not> expiresAt > earliestExpiry then None
     else Some \<lparr>wuID = i, wuSession = sessionID, wuRun = runID, wuType = eventType, wuParams = params, wuMarket = market,
            wuSymbol = symbol, wuDue = due, wuState = NoState, wuCreatedAt = now, wuExpiresAt = expiresAt\<rparr>)))))"

section \<open>Conditions\<close>

text \<open>
  \<^verbatim>\<open>json.Unmarshal\<close> of the parameters into the struct of a type: a field that is not there keeps its zero value.
\<close>

definition levelPrice :: "eventParams \<Rightarrow> float64" where
  "levelPrice p = (case p of LevelParams _ _ price \<Rightarrow> price | _ \<Rightarrow> 0)"

definition changeOf :: "eventParams \<Rightarrow> float64 \<times> string \<times> float64" where
  "changeOf p = (case p of ChangeParams _ _ basePrice direction pct \<Rightarrow> (basePrice, direction, pct) | _ \<Rightarrow> (0, [], 0))"

definition closePosition_ID :: "eventParams \<Rightarrow> string" where
  "closePosition_ID p = (case p of CloseParams i \<Rightarrow> i | _ \<Rightarrow> [])"

text \<open>The stored sample: an error when the state is not one.\<close>

definition decodePriceSample :: "eventState \<Rightarrow> agErr + (float64 \<times> time) option" where
  "decodePriceSample st = (case st of NoState \<Rightarrow> Inr None | SampleState p t \<Rightarrow> Inr (Some (p, t)) | CloseState _ \<Rightarrow> Inl AgFault)"

text \<open>The stored form of a sample: \<^verbatim>\<open>json.Marshal\<close> refuses a price that is not finite, and the empty text reads as no state.\<close>

definition encodeSample :: "float64 \<times> time \<Rightarrow> eventState" where
  "encodeSample = (\<lambda>(p, t). if finite64 p then SampleState p t else NoState)"

definition DecodeCloseState :: "eventState \<Rightarrow> agErr + positionIdentity option" where
  "DecodeCloseState st = (case st of
     NoState \<Rightarrow> Inr None
   | CloseState p \<Rightarrow> if TrimSpace (piID p) = [] then Inl AgFault else Inr (Some p)
   | SampleState _ _ \<Rightarrow> Inl AgFault)"

text \<open>\<open>fp\<close> is \<^verbatim>\<open>formatPrice\<close>; the result is a match, or the sample to remember, or neither.\<close>

definition evaluatePriceEvent ::
  "(float64 \<Rightarrow> string) \<Rightarrow> wakeup \<Rightarrow> float64 \<times> time \<Rightarrow> agErr + matched option \<times> (float64 \<times> time) option" where
  "evaluatePriceEvent fp record sample =
     (let price = fst sample; at0 = snd sample; level = levelPrice (wuParams record)
      in if wuType record = ''price_above'' \<or> wuType record = ''price_below'' then
           (if wuType record = ''price_above'' \<and> price \<ge> level
            then Inr (Some (LevelMatch (''price >= '' @ fp level) price at0), None)
            else if wuType record = ''price_below'' \<and> price \<le> level
            then Inr (Some (LevelMatch (''price <= '' @ fp level) price at0), None)
            else Inr (None, None))
         else if wuType record = ''price_cross_above'' \<or> wuType record = ''price_cross_below'' then
           (case decodePriceSample (wuState record) of
              Inl x \<Rightarrow> Inl x
            | Inr None \<Rightarrow> Inr (None, Some sample)
            | Inr (Some (prevPrice, prevAt)) \<Rightarrow>
                if \<not> at0 > prevAt then Inr (None, None)
                else let down = (wuType record = ''price_cross_below'');
                         crossed = (if down then prevPrice > level \<and> price \<le> level else prevPrice < level \<and> price \<ge> level);
                         condition = (if down then ''previous_price > '' @ fp level @ '' >= price''
                                      else ''previous_price < '' @ fp level @ '' <= price'')
                     in if \<not> crossed then Inr (None, Some sample)
                        else Inr (Some (CrossMatch condition prevPrice prevAt price at0), None))
         else if wuType record = ''price_change_pct'' then
           (case changeOf (wuParams record) of
              (basePrice, direction, pct) \<Rightarrow>
                let changePct = (price - basePrice) / basePrice * lit 100
                in if IsNaN changePct \<or> IsInf changePct then Inr (None, None)
                   else if (if direction = ''down'' then changePct \<le> - pct else changePct \<ge> pct)
                   then Inr (Some (ChangeMatch (if direction = ''down'' then ''change_pct <= -'' @ fp pct else ''change_pct >= '' @ fp pct)
                          basePrice changePct price at0), None)
                   else Inr (None, None))
         else Inl AgFault)"

section \<open>Transactions\<close>

definition inOrder :: "wakeup list \<Rightarrow> wakeup list" where
  "inOrder ws = sort_key (\<lambda>w. (wuCreatedAt w, wuID w)) ws"

definition queryEvents :: "(wakeup \<Rightarrow> bool) \<Rightarrow> wakeup list asql" where
  "queryEvents P = aquery (\<lambda>d. inOrder (filter P (dbEvents d)))"

definition SessionEvents :: "string \<Rightarrow> wakeup list asql" where
  "SessionEvents sessionID = queryEvents (\<lambda>w. wuSession w = sessionID)"

text \<open>A result of a tool: a success with the event's identifier, type and status, or an error with its code and outcome.\<close>

datatype eventResult = EventDone string string string | EventList "wakeup list" | EventError string string

definition insertEvent :: "wakeup \<Rightarrow> agentDB \<Rightarrow> agentDB" where
  "insertEvent w d = d\<lparr>dbEvents := dbEvents d @ [w\<lparr>wuState := NoState\<rparr>], dbCreated := dbCreated d @ [wuID w]\<rparr>"

definition CreateForRun :: "wakeup \<Rightarrow> eventResult asql" where
  "CreateForRun record =
     andThenD (aquery (\<lambda>d. length (filter (\<lambda>w. wuSession w = wuSession record) (dbEvents d)))) (\<lambda>count.
     if count \<ge> maxActiveEvents then pureD (EventError ''EVENT_LIMIT_EXCEEDED'' ''not_executed'') else
     andThenD (ainsert dbEvents wuID record (insertEvent record)) (\<lambda>_.
     pureD (EventDone (wuID record) (wuType record) ''created'')))"

definition logEntry :: "wakeup \<Rightarrow> string \<Rightarrow> int option \<Rightarrow> matched option \<Rightarrow> time \<Rightarrow> logRow" where
  "logEntry record outcome outcomeRun detail at0 =
     \<lparr>lgSession = wuSession record, lgEvent = wuID record, lgRun = wuRun record, lgType = wuType record, lgParams = wuParams record,
      lgState = wuState record, lgCreatedAt = wuCreatedAt record, lgExpiresAt = wuExpiresAt record, lgOutcome = outcome,
      lgOutcomeRun = outcomeRun, lgDetail = detail, lgAt = at0\<rparr>"

definition deleteEventRow :: "string \<Rightarrow> nat asql" where
  "deleteEventRow i = astmt (\<lambda>d. (Inr (length (filter (\<lambda>w. wuID w = i) (dbEvents d))), d\<lparr>dbEvents := filter (\<lambda>w. wuID w \<noteq> i) (dbEvents d)\<rparr>))"

definition RemoveRecordTx :: "wakeup \<Rightarrow> string \<Rightarrow> int option \<Rightarrow> matched option \<Rightarrow> time \<Rightarrow> unit asql" where
  "RemoveRecordTx record outcome outcomeRun detail at0 =
     andThenD (deleteEventRow (wuID record)) (\<lambda>deleted.
     if deleted \<noteq> 1 then reject AgFault else
     aexec (\<lambda>d. d\<lparr>dbLog := dbLog d @ [logEntry record outcome outcomeRun detail at0]\<rparr>))"

definition DeleteForRun :: "string \<Rightarrow> int \<Rightarrow> string \<Rightarrow> time \<Rightarrow> eventResult asql" where
  "DeleteForRun sessionID runID eventID now =
     andThenD (aquery (\<lambda>d. find (\<lambda>w. wuID w = eventID \<and> wuSession w = sessionID) (dbEvents d))) (\<lambda>r. case r of
       None \<Rightarrow> pureD (EventError ''EVENT_NOT_FOUND'' ''not_executed'')
     | Some record \<Rightarrow>
         andThenD (RemoveRecordTx record ''deleted_by_agent'' (Some runID) None now) (\<lambda>_.
         pureD (EventDone (wuID record) (wuType record) ''deleted'')))"

definition queueTrigger :: "string \<Rightarrow> triggerPayload \<Rightarrow> time \<Rightarrow> agentDB \<Rightarrow> agentDB" where
  "queueTrigger sessionID p now d = d\<lparr>dbPending := dbPending d @ [\<lparr>ptID = dbTriggerSeq d + 1, ptSession = sessionID, ptPayload = p, ptCreatedAt = now\<rparr>],
     dbTriggerSeq := dbTriggerSeq d + 1, dbQueued := dbQueued d @ [(sessionID, p)]\<rparr>"

definition enqueueTriggerTx :: "string \<Rightarrow> triggerPayload \<Rightarrow> time \<Rightarrow> unit asql" where
  "enqueueTriggerTx sessionID p now = aexec (queueTrigger sessionID p now)"

definition pendingOf :: "string \<Rightarrow> agentDB \<Rightarrow> pendingTrigger list" where
  "pendingOf sessionID d = sort_key ptID (filter (\<lambda>p. ptSession p = sessionID) (dbPending d))"

text \<open>A limit of 0 means all.\<close>

definition PendingPayloadsTx :: "string \<Rightarrow> nat \<Rightarrow> triggerPayload list asql" where
  "PendingPayloadsTx sessionID limit =
     aquery (\<lambda>d. map ptPayload (if limit > 0 then take limit (pendingOf sessionID d) else pendingOf sessionID d))"

text \<open>\<^verbatim>\<open>json.Marshal\<close> refuses a float that is not finite.\<close>

definition marshals :: "matched \<Rightarrow> bool" where
  "marshals m = (case m of
     TimerMatch _ \<Rightarrow> True
   | LevelMatch _ p _ \<Rightarrow> finite64 p
   | CrossMatch _ q _ p _ \<Rightarrow> finite64 q \<and> finite64 p
   | ChangeMatch _ b c p _ \<Rightarrow> finite64 b \<and> finite64 c \<and> finite64 p
   | CloseMatch _ _ \<Rightarrow> True)"

definition fireEventTx :: "wakeup \<Rightarrow> matched \<Rightarrow> time \<Rightarrow> unit asql" where
  "fireEventTx record m now =
     (if \<not> marshals m then reject AgFault else
      andThenD (RemoveRecordTx record ''fired'' None (Some m) now) (\<lambda>_.
      enqueueTriggerTx (wuSession record)
        (FiredTrigger (wuType record) (wuID record) (wuRun record) (wuParams record) (wuExpiresAt record) now m) now))"

definition appendUnique :: "string list \<Rightarrow> string \<Rightarrow> string list" where
  "appendUnique values wanted = (if wanted \<in> set values then values else values @ [wanted])"

definition ClearSessionTx :: "string \<Rightarrow> time \<Rightarrow> string \<Rightarrow> (wakeup list \<times> triggerPayload list) asql" where
  "ClearSessionTx sessionID now outcome =
     andThenD (queryEvents (\<lambda>w. wuSession w = sessionID)) (\<lambda>records.
     andThenD (foldD (\<lambda>record _. RemoveRecordTx record outcome None None now) records ()) (\<lambda>_.
     andThenD (PendingPayloadsTx sessionID 0) (\<lambda>pending.
     andThenD (aexec (\<lambda>d. d\<lparr>dbPending := filter (\<lambda>p. ptSession p \<noteq> sessionID) (dbPending d),
        dbDelivered := dbDelivered d @ map (\<lambda>p. (sessionID, ToRestart, p)) pending\<rparr>)) (\<lambda>_.
     pureD (records, pending)))))"

definition ExpireTx :: "time \<Rightarrow> unit asql" where
  "ExpireTx now =
     andThenD (queryEvents (\<lambda>w. wuExpiresAt w \<le> now)) (\<lambda>expired.
     foldD (\<lambda>record _. RemoveRecordTx record ''expired'' None None now) expired ())"

definition dueBy :: "time \<Rightarrow> wakeup \<Rightarrow> bool" where
  "dueBy now w = (case wuDue w of None \<Rightarrow> False | Some t \<Rightarrow> t \<le> now)"

definition FireTimersTx :: "time \<Rightarrow> string list asql" where
  "FireTimersTx now =
     andThenD (queryEvents (\<lambda>w. wuType w = ''timer'' \<and> dueBy now w \<and> wuExpiresAt w > now)) (\<lambda>due.
     foldD (\<lambda>record sessions.
       andThenD (fireEventTx record (TimerMatch (wuDue record)) now) (\<lambda>_.
       pureD (appendUnique sessions (wuSession record)))) due [])"

definition setState :: "string \<Rightarrow> eventState \<Rightarrow> unit asql" where
  "setState i st = aexec (\<lambda>d. d\<lparr>dbEvents := map (\<lambda>w. if wuID w = i then w\<lparr>wuState := st\<rparr> else w) (dbEvents d)\<rparr>)"

definition watchesPrice :: "wakeup \<Rightarrow> bool" where
  "watchesPrice w = (wuMarket w \<noteq> [] \<and> wuSymbol w \<noteq> [])"

definition instrumentKey :: "string \<Rightarrow> string \<Rightarrow> string" where
  "instrumentKey market symbol = market @ ''/'' @ symbol"

definition matchPriceOne :: "(float64 \<Rightarrow> string) \<Rightarrow> time \<Rightarrow> (string \<rightharpoonup> float64 \<times> time) \<Rightarrow> wakeup \<Rightarrow> string list \<Rightarrow> string list asql" where
  "matchPriceOne fp now samples record sessions = (case samples (instrumentKey (wuMarket record) (wuSymbol record)) of
     None \<Rightarrow> pureD sessions
   | Some sample \<Rightarrow>
       (case evaluatePriceEvent fp record sample of
          Inl x \<Rightarrow> reject x
        | Inr (Some m, _) \<Rightarrow> andThenD (fireEventTx record m now) (\<lambda>_. pureD (appendUnique sessions (wuSession record)))
        | Inr (None, Some s) \<Rightarrow> andThenD (setState (wuID record) (encodeSample s)) (\<lambda>_. pureD sessions)
        | Inr (None, None) \<Rightarrow> pureD sessions))"

definition MatchPriceTx :: "(float64 \<Rightarrow> string) \<Rightarrow> time \<Rightarrow> (string \<rightharpoonup> float64 \<times> time) \<Rightarrow> string list asql" where
  "MatchPriceTx fp now samples =
     andThenD (queryEvents (\<lambda>w. watchesPrice w \<and> wuExpiresAt w > now)) (\<lambda>watched. foldD (matchPriceOne fp now samples) watched [])"

text \<open>What a poll saw of an account: its open positions, and why missing ones were closed.\<close>

record positionSample =
  psPositions :: "string \<rightharpoonup> positionIdentity"
  psReasons :: "string \<rightharpoonup> string"

definition matchCloseOne :: "time \<Rightarrow> (string \<rightharpoonup> positionSample) \<Rightarrow> wakeup \<Rightarrow> string list \<Rightarrow> string list asql" where
  "matchCloseOne now samples record sessions = (case samples (wuSession record) of
     None \<Rightarrow> pureD sessions
   | Some sample \<Rightarrow>
       (case DecodeCloseState (wuState record) of
          Inl x \<Rightarrow> reject x
        | Inr st \<Rightarrow>
            let positionID = closePosition_ID (wuParams record)
            in case psPositions sample positionID of
                 Some position \<Rightarrow>
                   if st = None \<or> st \<noteq> Some position
                   then andThenD (setState (wuID record) (CloseState position)) (\<lambda>_. pureD sessions)
                   else pureD sessions
               | None \<Rightarrow>
                   (case st of
                      None \<Rightarrow> pureD sessions
                    | Some p \<Rightarrow>
                        let reason = (case psReasons sample positionID of None \<Rightarrow> None | Some r \<Rightarrow> if r \<noteq> [] then Some r else None)
                        in andThenD (fireEventTx record (CloseMatch p reason) now) (\<lambda>_. pureD (appendUnique sessions (wuSession record))))))"

definition MatchPositionCloseTx :: "time \<Rightarrow> (string \<rightharpoonup> positionSample) \<Rightarrow> string list asql" where
  "MatchPositionCloseTx now samples =
     andThenD (queryEvents (\<lambda>w. wuType w = ''position_close'' \<and> wuExpiresAt w > now)) (\<lambda>records. foldD (matchCloseOne now samples) records [])"

text \<open>The list of positions of the backend, refused when an entry is incomplete or an identifier appears twice.\<close>

fun DecodePositions :: "positionIdentity list \<Rightarrow> (string \<rightharpoonup> positionIdentity) \<Rightarrow> (string \<rightharpoonup> positionIdentity) option" where
  "DecodePositions [] result = Some result"
| "DecodePositions (p # ps) result =
     (if TrimSpace (piID p) = [] \<or> TrimSpace (piMarket p) = [] \<or> TrimSpace (piSymbol p) = [] \<or> TrimSpace (piProduct p) = [] \<or> TrimSpace (piSide p) = []
      then None
      else if result (piID p) \<noteq> None then None
      else DecodePositions ps (result(piID p \<mapsto> p)))"

definition DecodePositionSnapshot :: "positionIdentity list option \<Rightarrow> (string \<rightharpoonup> positionIdentity) option" where
  "DecodePositionSnapshot decoded = (case decoded of None \<Rightarrow> None | Some ps \<Rightarrow> DecodePositions ps Map.empty)"

end
