(* ===== verification/AgentRuns.thy ===== *)
theory AgentRuns
  imports AgentEvents EventSystem "HOL-Library.AList"
begin

text \<open>
  The runtime of the agent server (\<^verbatim>\<open>agent_server/internal/agent\<close>): sessions and their runs, under the mutex \<^verbatim>\<open>r.mu\<close>.  A run
  is a row of \<^verbatim>\<open>runs\<close> and a goroutine \<^verbatim>\<open>runAgent\<close>; \<^verbatim>\<open>r.active\<close> names the goroutine of a session.  Every operation below is one
  critical section.

  A transaction commits all of its statements or none.  Its environment \<open>txEnv\<close> says which statements fail, whether the history
  files of the touched runs can be written before the commit, what the commit reports, and whether a failure
  came from the cancellation of the request itself.  \<^verbatim>\<open>Stage.Finish(true)\<close> never fails.
\<close>

section \<open>State\<close>

record thread =
  thSession :: string
  thRun :: int
  thTrigger :: string
  thCanceled :: bool
  thDone :: bool

record agentServer =
  arDB :: agentDB
  arActive :: "string \<rightharpoonup> nat"
  arThreads :: "thread list"
  arClosed :: bool
  arFault :: bool

text \<open>A commit that reports an error was rolled back, or took effect all the same.\<close>

datatype commitOutcome = CommitOK | CommitRolledBack | CommitUnreported

record txEnv =
  teBegin :: bool
  teFlt :: "nat \<Rightarrow> bool"
  teStage :: bool
  teCommit :: commitOutcome
  teCanceled :: bool

text \<open>The outcome of a locked transaction: it failed (in the commit, or before), it answered without a change, or it committed.\<close>

datatype ('e, 'a) txResult = TxFailed bool | TxReply 'e | TxDone 'a

definition lockedTx :: "('a \<Rightarrow> bool) \<Rightarrow> txEnv \<Rightarrow> ('e + 'a) asql \<Rightarrow> agentDB \<Rightarrow> ('e, 'a) txResult \<times> agentDB" where
  "lockedTx staged e m d =
     (if \<not> teBegin e then (TxFailed False, d)
      else case m (teFlt e) (d, 0) of
             (Inl _, _) \<Rightarrow> (TxFailed False, d)
           | (Inr (Inl x), _) \<Rightarrow> (TxReply x, d)
           | (Inr (Inr a), d', _) \<Rightarrow>
               if staged a \<and> \<not> teStage e then (TxFailed False, d)
               else (case teCommit e of
                       CommitOK \<Rightarrow> (TxDone a, d')
                     | CommitRolledBack \<Rightarrow> (TxFailed True, d)
                     | CommitUnreported \<Rightarrow> (TxFailed True, d')))"

text \<open>A commit refused for the request's own cancellation never took effect: it was not sent to the database.\<close>

definition requestCancellationCausedPersistenceError :: "txEnv \<Rightarrow> bool" where
  "requestCancellationCausedPersistenceError e = (teCanceled e \<and> teCommit e \<noteq> CommitUnreported)"

definition refusing :: "agentServer \<Rightarrow> bool" where
  "refusing r = (arClosed r \<or> arFault r)"

definition cancelThread :: "nat \<Rightarrow> agentServer \<Rightarrow> agentServer" where
  "cancelThread i r = r\<lparr>arThreads := (arThreads r)[i := (arThreads r ! i)\<lparr>thCanceled := True\<rparr>]\<rparr>"

definition cancelActive :: "agentServer \<Rightarrow> agentServer" where
  "cancelActive r = r\<lparr>arThreads := map (\<lambda>(i, t). if arActive r (thSession t) = Some i then t\<lparr>thCanceled := True\<rparr> else t)
     (enumerate 0 (arThreads r))\<rparr>"

definition latchLocked :: "agentServer \<Rightarrow> agentServer" where
  "latchLocked r = cancelActive (r\<lparr>arFault := True\<rparr>)"

definition isBusy :: "agentServer \<Rightarrow> string \<Rightarrow> bool" where
  "isBusy r sessionID = (arActive r sessionID \<noteq> None)"

text \<open>The registration of a committed run and the start of its goroutine.\<close>

definition launchRunLocked :: "string \<times> int \<times> string \<Rightarrow> agentServer \<Rightarrow> agentServer" where
  "launchRunLocked = (\<lambda>(sessionID, runID, trigger) r.
     r\<lparr>arActive := (arActive r)(sessionID \<mapsto> length (arThreads r)),
       arThreads := arThreads r @ [\<lparr>thSession = sessionID, thRun = runID, thTrigger = trigger, thCanceled = False, thDone = False\<rparr>]\<rparr>)"

text \<open>What an endpoint answers.\<close>

datatype 'a agReply = Refused int string | Answered int 'a

definition mutationFailure :: "txEnv \<Rightarrow> agentServer \<Rightarrow> 'a agReply \<times> agentServer" where
  "mutationFailure e r =
     (if requestCancellationCausedPersistenceError e then (Refused 408 ''REQUEST_CANCELED'', r)
      else (Refused 503 ''PERSISTENCE_UNAVAILABLE'', latchLocked r))"

section \<open>Statements\<close>

definition sessionByID :: "string \<Rightarrow> sessionRow option asql" where
  "sessionByID i = aquery (\<lambda>d. find (\<lambda>s. ssID s = i) (dbSessions d))"

definition runByID :: "string \<Rightarrow> int \<Rightarrow> runRow option asql" where
  "runByID s k = aquery (\<lambda>d. find (\<lambda>x. rnSession x = s \<and> rnID x = k) (dbRuns d))"

definition updateSession :: "string \<Rightarrow> (sessionRow \<Rightarrow> sessionRow) \<Rightarrow> unit asql" where
  "updateSession i f = aexec (\<lambda>d. d\<lparr>dbSessions := map (\<lambda>s. if ssID s = i then f s else s) (dbSessions d)\<rparr>)"

definition newRun :: "string \<Rightarrow> int \<Rightarrow> string \<Rightarrow> triggerPayload list option \<Rightarrow> time \<Rightarrow> runRow" where
  "newRun s k trigger triggers now =
     \<lparr>rnSession = s, rnID = k, rnStatus = ''running'', rnTrigger = trigger, rnTriggers = triggers, rnSummary = None, rnOutput = None,
      rnError = None, rnProgress = [], rnModelCalls = 0, rnToolCalls = 0, rnStartedAt = now, rnEndedAt = None, rnRetryOf = None,
      rnRetryAttempt = 0\<rparr>"

definition insertRun :: "runRow \<Rightarrow> unit asql" where
  "insertRun x = ainsert dbRuns (\<lambda>y. (rnSession y, rnID y)) x (\<lambda>d. d\<lparr>dbRuns := dbRuns d @ [x]\<rparr>)"

text \<open>\<^verbatim>\<open>UPDATE runs ... WHERE session_id = ? AND run_id = ? AND status = 'running'\<close>, with the number of rows.\<close>

definition runningRow :: "string \<Rightarrow> int \<Rightarrow> runRow \<Rightarrow> bool" where
  "runningRow s k x = (rnSession x = s \<and> rnID x = k \<and> rnStatus x = ''running'')"

definition updateRunning :: "string \<Rightarrow> int \<Rightarrow> (runRow \<Rightarrow> runRow) \<Rightarrow> nat asql" where
  "updateRunning s k f = astmt (\<lambda>d. (Inr (length (filter (runningRow s k) (dbRuns d))),
     d\<lparr>dbRuns := map (\<lambda>x. if runningRow s k x then f x else x) (dbRuns d)\<rparr>))"

definition runIsRunningTx :: "string \<Rightarrow> int \<Rightarrow> bool asql" where
  "runIsRunningTx s k = aquery (\<lambda>d. case find (\<lambda>x. rnSession x = s \<and> rnID x = k) (dbRuns d) of
     None \<Rightarrow> False | Some x \<Rightarrow> rnStatus x = ''running'')"

definition LatestEventLogIDTx :: "nat asql" where
  "LatestEventLogIDTx = aquery (\<lambda>d. length (dbLog d))"

definition terminated :: "string \<Rightarrow> string option \<Rightarrow> string option \<Rightarrow> string option \<Rightarrow> time \<Rightarrow> runRow \<Rightarrow> runRow" where
  "terminated status summary output runError now x =
     x\<lparr>rnStatus := status, rnSummary := summary, rnOutput := output, rnError := runError, rnEndedAt := Some now\<rparr>"

section \<open>Creating and starting sessions\<close>

text \<open>
  The answer of another service: the request could not be built, the service was not reached, it answered another status than 200,
  its body was not the expected JSON, or a body.
\<close>

datatype 'b depReply = NotSent | Unreachable | StatusCode int | BadBody | Body 'b

record modelMapping =
  mmModelName :: string
  mmProviderID :: string
  mmModel :: string
  mmLevels :: "string list"
  mmContextWindow :: int
  mmEnabled :: bool
  mmAvailable :: bool

definition resolveModel :: "modelMapping list depReply \<Rightarrow> string \<Rightarrow> string option \<Rightarrow> (int \<times> string) + modelMapping" where
  "resolveModel reply modelName level = (case reply of
     NotSent \<Rightarrow> Inl (502, ''DEPENDENCY_UNAVAILABLE'')
   | Unreachable \<Rightarrow> Inl (502, ''GATEWAY_UNAVAILABLE'')
   | StatusCode k \<Rightarrow> Inl (502, if k = 401 \<or> k = 403 then ''GATEWAY_AUTH_FAILED'' else ''GATEWAY_UNAVAILABLE'')
   | BadBody \<Rightarrow> Inl (502, ''GATEWAY_RESPONSE_INVALID'')
   | Body models \<Rightarrow>
       (case find (\<lambda>m. mmModelName m = modelName) models of
          None \<Rightarrow> Inl (400, ''MODEL_NOT_FOUND'')
        | Some m \<Rightarrow>
            if \<not> mmEnabled m \<or> \<not> mmAvailable m then Inl (409, ''MODEL_UNAVAILABLE'')
            else case level of
                   Some l \<Rightarrow> if l \<in> set (mmLevels m) then Inr m else Inl (400, ''INVALID_REQUEST'')
                 | None \<Rightarrow> Inr m))"

record backendAccount =
  baID :: string
  baUserName :: string
  baStatus :: string
  baToken :: string
  baChatRead :: "bool option"
  baChatReadSince :: "time option"

definition fetchAccount :: "backendAccount depReply \<Rightarrow> string \<Rightarrow> (int \<times> string) + backendAccount" where
  "fetchAccount reply accountID = (case reply of
     NotSent \<Rightarrow> Inl (502, ''DEPENDENCY_UNAVAILABLE'')
   | Unreachable \<Rightarrow> Inl (502, ''BACKEND_UNAVAILABLE'')
   | StatusCode k \<Rightarrow> if k = 404 then Inl (404, ''ACCOUNT_NOT_FOUND'')
       else Inl (502, if k = 401 \<or> k = 403 then ''BACKEND_AUTH_FAILED'' else ''BACKEND_UNAVAILABLE'')
   | BadBody \<Rightarrow> Inl (502, ''BACKEND_RESPONSE_INVALID'')
   | Body account \<Rightarrow>
       if baID account \<noteq> accountID \<or> baToken account = [] then Inl (502, ''BACKEND_RESPONSE_INVALID'')
       else if baStatus account \<noteq> ''active'' then Inl (409, ''ACCOUNT_DISABLED'')
       else Inr account)"

record createSessionRequest =
  crName :: string
  crAccountID :: string
  crModelName :: string
  crModelLevel :: raw
  crPrompt :: raw
  crMaxLoop :: raw
  crMaxToolCall :: raw
  crSkillsEnabled :: bool
  crConversationMode :: raw

record sessionDefaults =
  sdPrompt :: string
  sdMaxLoop :: int
  sdMaxToolCall :: int

definition modeOf :: "raw \<Rightarrow> string option" where
  "modeOf r = (case r of
     None \<Rightarrow> Some ''semantic''
   | Some (JStr m) \<Rightarrow> if m = ''semantic'' \<or> m = ''verbatim'' then Some m else None
   | Some _ \<Rightarrow> None)"

definition limitOf :: "argCodec \<Rightarrow> int \<Rightarrow> raw \<Rightarrow> int option" where
  "limitOf ac dflt r = (case r of None \<Rightarrow> Some dflt | Some JNull \<Rightarrow> None | Some v \<Rightarrow> acInt ac v)"

definition promptOf :: "string \<Rightarrow> raw \<Rightarrow> string option" where
  "promptOf dflt r = (case r of None \<Rightarrow> Some dflt | Some (JStr p) \<Rightarrow> Some (if p \<noteq> [] then p else dflt) | Some _ \<Rightarrow> None)"

definition levelOf :: "raw \<Rightarrow> string option option" where
  "levelOf r = (case r of None \<Rightarrow> Some None | Some (JStr l) \<Rightarrow> if l = [] then None else Some (Some l) | Some _ \<Rightarrow> None)"

text \<open>The checks of \<^verbatim>\<open>createSession\<close>; an identifier and the time complete the row.\<close>

definition newSession :: "argCodec \<Rightarrow> sessionDefaults \<Rightarrow> createSessionRequest \<Rightarrow> (string \<Rightarrow> time \<Rightarrow> sessionRow) option" where
  "newSession ac dflt input =
     (if TrimSpace (crName input) = [] \<or> TrimSpace (crAccountID input) = [] \<or> TrimSpace (crModelName input) = [] then None
      else Option.bind (modeOf (crConversationMode input)) (\<lambda>mode.
           Option.bind (limitOf ac (sdMaxLoop dflt) (crMaxLoop input)) (\<lambda>maxLoop.
           Option.bind (limitOf ac (sdMaxToolCall dflt) (crMaxToolCall input)) (\<lambda>maxTools.
           if maxLoop \<le> 0 \<or> maxTools \<le> 0 then None
           else Option.bind (promptOf (sdPrompt dflt) (crPrompt input)) (\<lambda>prompt.
                Option.bind (levelOf (crModelLevel input)) (\<lambda>level.
                Some (\<lambda>i now. \<lparr>ssID = i, ssName = TrimSpace (crName input), ssAccountID = TrimSpace (crAccountID input),
                  ssModelName = TrimSpace (crModelName input), ssModelLevel = level, ssPrompt = prompt, ssMaxLoop = maxLoop,
                  ssMaxToolCall = maxTools, ssSkillsEnabled = crSkillsEnabled input, ssConversationMode = mode,
                  ssStatus = ''stopped'', ssCurrentRunID = 0, ssRestartContext = None, ssCreatedAt = now, ssStartedAt = None,
                  ssStoppedAt = None, ssDeletedAt = None\<rparr>)))))))"

text \<open>\<^verbatim>\<open>INSERT INTO sessions\<close>; a second session of an account is the unique-constraint error 2067.\<close>

text \<open>
  The insertion is a statement of its own and commits itself: it fails before it takes effect, is carried out although an
  error (or the cancellation of the request) is reported, or succeeds.
\<close>

definition insertSession :: "txEnv \<Rightarrow> sessionRow \<Rightarrow> agentServer \<Rightarrow> sessionRow agReply \<times> agentServer" where
  "insertSession e s r =
     (if refusing r then (Refused 503 ''PERSISTENCE_UNAVAILABLE'', r)
      else if teFlt e 0 then mutationFailure e r
      else if ssID s \<in> ssID ` set (dbSessions (arDB r)) then (Refused 503 ''PERSISTENCE_UNAVAILABLE'', latchLocked r)
      else if ssAccountID s \<in> ssAccountID ` set (dbSessions (arDB r)) then (Refused 409 ''ACCOUNT_ALREADY_BOUND'', r)
      else let stored = r\<lparr>arDB := (arDB r)\<lparr>dbSessions := dbSessions (arDB r) @ [s]\<rparr>\<rparr>
           in case teCommit e of
                CommitOK \<Rightarrow> (Answered 201 s, stored)
              | CommitRolledBack \<Rightarrow> mutationFailure e r
              | CommitUnreported \<Rightarrow> mutationFailure e stored)"

text \<open>\<open>input\<close> is \<^const>\<open>None\<close> when the body does not decode; \<open>entropy\<close> are the random bytes of the identifier.\<close>

definition createSession ::
  "argCodec \<Rightarrow> sessionDefaults \<Rightarrow> modelMapping list depReply \<Rightarrow> backendAccount depReply \<Rightarrow> 8 word list option \<Rightarrow> txEnv \<Rightarrow> time \<Rightarrow>
   createSessionRequest option \<Rightarrow> agentServer \<Rightarrow> sessionRow agReply \<times> agentServer" where
  "createSession ac dflt models account entropy e now input r = (case Option.bind input (newSession ac dflt) of
     None \<Rightarrow> (Refused 400 ''INVALID_REQUEST'', r)
   | Some row \<Rightarrow>
       (case resolveModel models (ssModelName (row [] now)) (ssModelLevel (row [] now)) of
          Inl (status, code) \<Rightarrow> (Refused status code, r)
        | Inr _ \<Rightarrow>
            (case fetchAccount account (ssAccountID (row [] now)) of
               Inl (status, code) \<Rightarrow> (Refused status code, r)
             | Inr _ \<Rightarrow>
                 (case entropy of
                    None \<Rightarrow> (Refused 500 ''INTERNAL_ERROR'', r)
                  | Some bytes \<Rightarrow> insertSession e (row (''s_'' @ EncodeToString bytes) now) r))))"

definition startSessionTx :: "time \<Rightarrow> bool \<Rightarrow> string \<Rightarrow> ((int \<times> string) + (int \<times> string)) asql" where
  "startSessionTx now busy sessionID =
     andThenD (sessionByID sessionID) (\<lambda>found. case found of
       None \<Rightarrow> pureD (Inl (404, ''SESSION_NOT_FOUND''))
     | Some session \<Rightarrow>
         if ssStatus session = ''deleted'' then pureD (Inl (409, ''SESSION_DELETED''))
         else if ssStatus session \<noteq> ''stopped'' then pureD (Inl (409, ''SESSION_ALREADY_RUNNING''))
         else if busy then pureD (Inl (409, ''SESSION_RUN_ACTIVE''))
         else let runID = ssCurrentRunID session + 1;
                  trigger = (if ssCurrentRunID session \<noteq> 0 then ''session_restart'' else ''session_start'')
              in andThenD (updateSession sessionID (\<lambda>s. s\<lparr>ssStatus := ''running'', ssCurrentRunID := runID, ssStartedAt := Some now,
                   ssStoppedAt := None\<rparr>)) (\<lambda>_.
                 andThenD (insertRun (newRun sessionID runID trigger None now)) (\<lambda>_.
                 pureD (Inr (runID, trigger)))))"

definition startSession :: "txEnv \<Rightarrow> time \<Rightarrow> string \<Rightarrow> agentServer \<Rightarrow> int agReply \<times> agentServer" where
  "startSession e now sessionID r =
     (if refusing r then (Refused 503 ''PERSISTENCE_UNAVAILABLE'', r)
      else case lockedTx (\<lambda>_. False) e (startSessionTx now (isBusy r sessionID) sessionID) (arDB r) of
             (TxFailed _, d) \<Rightarrow> mutationFailure e (r\<lparr>arDB := d\<rparr>)
           | (TxReply (status, code), _) \<Rightarrow> (Refused status code, r)
           | (TxDone (runID, trigger), d) \<Rightarrow> (Answered 202 runID, launchRunLocked (sessionID, runID, trigger) (r\<lparr>arDB := d\<rparr>)))"

definition maxManualRunRetries :: int where "maxManualRunRetries = 3"

text \<open>The row of a retry; retries of retries name the first run.\<close>

definition retryRow :: "runRow \<Rightarrow> time \<Rightarrow> runRow" where
  "retryRow failed now = (newRun (rnSession failed) (rnID failed + 1) ''manual_retry'' None now)
     \<lparr>rnRetryOf := Some (case rnRetryOf failed of Some k \<Rightarrow> k | None \<Rightarrow> rnID failed), rnRetryAttempt := rnRetryAttempt failed + 1\<rparr>"

definition retryRunTx :: "time \<Rightarrow> string \<Rightarrow> int \<Rightarrow> ((int \<times> string) + int) asql" where
  "retryRunTx now sessionID runID =
     andThenD (sessionByID sessionID) (\<lambda>found. case found of
       None \<Rightarrow> pureD (Inl (404, ''SESSION_NOT_FOUND''))
     | Some session \<Rightarrow>
         if ssStatus session \<noteq> ''running'' then pureD (Inl (409, ''SESSION_NOT_RUNNING''))
         else andThenD (runByID sessionID runID) (\<lambda>row. case row of
           None \<Rightarrow> pureD (Inl (404, ''RUN_NOT_FOUND''))
         | Some failed \<Rightarrow>
             if rnStatus failed \<noteq> ''failed'' then pureD (Inl (409, ''RUN_NOT_RETRYABLE''))
             else if ssCurrentRunID session \<noteq> rnID failed then pureD (Inl (409, ''RUN_NOT_LATEST''))
             else if rnRetryAttempt failed \<ge> maxManualRunRetries then pureD (Inl (409, ''RETRY_LIMIT_REACHED''))
             else andThenD (insertRun (retryRow failed now)) (\<lambda>_.
                  andThenD (updateSession sessionID (\<lambda>s. s\<lparr>ssCurrentRunID := rnID failed + 1\<rparr>)) (\<lambda>_.
                  pureD (Inr (rnID failed + 1))))))"

definition retryRun :: "txEnv \<Rightarrow> time \<Rightarrow> string \<Rightarrow> string \<Rightarrow> agentServer \<Rightarrow> int agReply \<times> agentServer" where
  "retryRun e now sessionID rawRunID r = (case ParseInt rawRunID of
     None \<Rightarrow> (Refused 404 ''RUN_NOT_FOUND'', r)
   | Some runID \<Rightarrow>
       if runID \<le> 0 then (Refused 404 ''RUN_NOT_FOUND'', r)
       else if refusing r then (Refused 503 ''PERSISTENCE_UNAVAILABLE'', r)
       else if isBusy r sessionID then (Refused 409 ''SESSION_RUN_ACTIVE'', r)
       else case lockedTx (\<lambda>_. False) e (retryRunTx now sessionID runID) (arDB r) of
              (TxFailed _, d) \<Rightarrow> mutationFailure e (r\<lparr>arDB := d\<rparr>)
            | (TxReply (status, code), _) \<Rightarrow> (Refused status code, r)
            | (TxDone newRunID, d) \<Rightarrow> (Answered 202 newRunID, launchRunLocked (sessionID, newRunID, ''manual_retry'') (r\<lparr>arDB := d\<rparr>)))"

section \<open>Stopping and deleting sessions\<close>

definition isUpper :: "char \<Rightarrow> bool" where
  "isUpper c = (let k = of_char c :: nat in 65 \<le> k \<and> k \<le> 90)"

definition isCodeChar :: "char \<Rightarrow> bool" where
  "isCodeChar c = (let k = of_char c :: nat in isUpper c \<or> 48 \<le> k \<and> k \<le> 57 \<or> c = CHR ''_'')"

definition compactErrorCode :: "string \<Rightarrow> string" where
  "compactErrorCode message =
     (let code = TrimSpace (takeWhile (\<lambda>c. c \<noteq> CHR '':'') message)
      in if code = [] then [] else if isUpper (hd code) \<and> list_all isCodeChar (tl code) then code else [])"

definition restartProgressEntries :: nat where "restartProgressEntries = 5"

definition compactEntry :: "traceEntry \<Rightarrow> restartProgress" where
  "compactEntry t =
     (let (status, errorCode) =
        (if teError t \<noteq> [] then (''error'', compactErrorCode (teError t))
         else if teType t = ''tool_call'' then
           (case teResult t of
              None \<Rightarrow> (''unknown'', [])
            | Some (isOK, code, outcome) \<Rightarrow>
                if isOK then (''ok'', []) else if outcome \<noteq> [] then (outcome, code)
                else if \<not> teEnded t then (''in_progress'', []) else (''error'', []))
         else if \<not> teEnded t then (''in_progress'', []) else (''completed'', []))
      in \<lparr>rpType = teType t, rpIteration = teIteration t, rpToolName = teToolName t, rpFinishReason = teFinishReason t,
          rpErrorCode = errorCode, rpOutcome = status\<rparr>)"

text \<open>The counts, the last entries and how many were left out.\<close>

definition compactRestartProgress :: "runRow \<Rightarrow> (int \<times> int \<times> int) \<times> restartProgress list \<times> int" where
  "compactRestartProgress x =
     (let n = length (rnProgress x); start = n - restartProgressEntries
      in ((rnModelCalls x, rnToolCalls x, int n), map compactEntry (drop start (rnProgress x)), int start))"

definition hardStop :: string where "hardStop = ''HARD_STOP: interrupted by user''"

definition restartContextOf :: "runRow \<Rightarrow> bool \<Rightarrow> wakeup list \<times> triggerPayload list \<Rightarrow> restartContext option" where
  "restartContextOf x interrupting clearance =
     (let stopped = interrupting \<and> rnStatus x = ''running'';
          status = (if stopped then ''interrupted'' else rnStatus x);
          reason = (if stopped then Some hardStop else rnError x)
      in if status = ''completed'' \<and> fst clearance = [] \<and> snd clearance = [] then None
         else if status = ''completed'' then Some (RestartCompleted (rnID x) (fst clearance) (snd clearance))
         else case compactRestartProgress x of
                (counts, recent, omitted) \<Rightarrow>
                  Some (RestartAfter (rnID x) status reason (rnSummary x) (rnOutput x) counts recent omitted (rnTriggers x)
                    (fst clearance) (snd clearance)))"

definition restartContextFor :: "string \<Rightarrow> int \<Rightarrow> bool \<Rightarrow> wakeup list \<times> triggerPayload list \<Rightarrow> restartContext option asql" where
  "restartContextFor sessionID runID interrupting clearance =
     (if runID = 0 then pureD None
      else andThenD (runByID sessionID runID) (\<lambda>found. case found of
        None \<Rightarrow> reject AgFault
      | Some x \<Rightarrow> pureD (restartContextOf x interrupting clearance)))"

definition endedSession :: "time \<Rightarrow> bool \<Rightarrow> restartContext option \<Rightarrow> sessionRow \<Rightarrow> sessionRow" where
  "endedSession now deleting context s = s\<lparr>ssStatus := (if deleting then ''deleted'' else ''stopped''), ssStoppedAt := Some now,
     ssDeletedAt := (if deleting then Some now else None), ssRestartContext := context\<rparr>"

text \<open>
  The committed result of a stop: the new row, what was cleared, and whether a run was to be interrupted.  A repeated stop keeps the
  context of the first one.
\<close>

definition stopTx :: "time \<Rightarrow> bool \<Rightarrow> sessionRow \<Rightarrow> (sessionRow \<times> (wakeup list \<times> triggerPayload list) \<times> bool) asql" where
  "stopTx now deleting session =
     andThenD (ClearSessionTx (ssID session) now (if deleting then ''cleared_by_delete'' else ''cleared_by_stop'')) (\<lambda>clearance.
     andThenD (if ssStatus session = ''running'' then restartContextFor (ssID session) (ssCurrentRunID session) True clearance
               else pureD (ssRestartContext session)) (\<lambda>context.
     let live = (ssStatus session = ''running'' \<and> ssCurrentRunID session \<noteq> 0)
     in andThenD (if live then updateRunning (ssID session) (ssCurrentRunID session) (terminated ''interrupted'' None None (Some hardStop) now)
                  else pureD 0) (\<lambda>_.
        andThenD (updateSession (ssID session) (endedSession now deleting context)) (\<lambda>_.
        pureD (endedSession now deleting context session, clearance, live)))))"

definition changeSessionTx :: "time \<Rightarrow> bool \<Rightarrow> string \<Rightarrow> ((int \<times> string) + (sessionRow \<times> (wakeup list \<times> triggerPayload list) \<times> bool)) asql" where
  "changeSessionTx now deleting sessionID =
     andThenD (sessionByID sessionID) (\<lambda>found. case found of
       None \<Rightarrow> pureD (Inl (404, ''SESSION_NOT_FOUND''))
     | Some session \<Rightarrow>
         if ssStatus session = ''deleted'' \<and> \<not> deleting then pureD (Inl (409, ''SESSION_DELETED''))
         else andThenD (stopTx now deleting session) (\<lambda>result. pureD (Inr result)))"

text \<open>
  Outside the mutex the handler then waits for the cancelled goroutine for a while; when that does not return in time, the status of the same
  answer is 202.
\<close>

definition changeSessionState :: "txEnv \<Rightarrow> time \<Rightarrow> bool \<Rightarrow> string \<Rightarrow> agentServer \<Rightarrow> sessionRow agReply \<times> agentServer" where
  "changeSessionState e now deleting sessionID r =
     (if refusing r then (Refused 503 ''PERSISTENCE_UNAVAILABLE'', r)
      else case lockedTx (\<lambda>(_, _, live). live) e (changeSessionTx now deleting sessionID) (arDB r) of
             (TxFailed _, d) \<Rightarrow> mutationFailure e (r\<lparr>arDB := d\<rparr>)
           | (TxReply (status, code), _) \<Rightarrow> (Refused status code, r)
           | (TxDone (session, _), d) \<Rightarrow>
               (Answered 200 session,
                case arActive r sessionID of Some i \<Rightarrow> cancelThread i (r\<lparr>arDB := d\<rparr>) | None \<Rightarrow> r\<lparr>arDB := d\<rparr>))"

section \<open>Batches of queued triggers\<close>

text \<open>The next batch of a running session becomes a new run; \<^const>\<open>None\<close> when there is nothing to start.\<close>

definition takeBatch :: "string \<Rightarrow> int \<Rightarrow> nat \<Rightarrow> unit asql" where
  "takeBatch sessionID runID n = aexec (\<lambda>d. let batch = take n (pendingOf sessionID d)
     in d\<lparr>dbPending := filter (\<lambda>p. ptID p \<notin> ptID ` set batch) (dbPending d),
          dbDelivered := dbDelivered d @ map (\<lambda>p. (sessionID, ToRun runID, ptPayload p)) batch\<rparr>)"

definition startPendingRunTx :: "time \<Rightarrow> string \<Rightarrow> (string \<times> int \<times> string) option asql" where
  "startPendingRunTx now sessionID =
     andThenD (sessionByID sessionID) (\<lambda>found. case found of
       None \<Rightarrow> pureD None
     | Some session \<Rightarrow>
         if ssStatus session \<noteq> ''running'' then pureD None
         else andThenD (PendingPayloadsTx sessionID MaxTriggersPerRun) (\<lambda>payloads.
           if payloads = [] then pureD None
           else let runID = ssCurrentRunID session + 1
                in andThenD (insertRun (newRun sessionID runID ''event'' (Some payloads) now)) (\<lambda>_.
                   andThenD (updateSession sessionID (\<lambda>s. s\<lparr>ssCurrentRunID := runID\<rparr>)) (\<lambda>_.
                   andThenD (takeBatch sessionID runID (length payloads)) (\<lambda>_.
                   pureD (Some (sessionID, runID, ''event'')))))))"

definition dispatchPendingLocked :: "txEnv \<Rightarrow> time \<Rightarrow> string \<Rightarrow> agentServer \<Rightarrow> agentServer" where
  "dispatchPendingLocked e now sessionID r =
     (if refusing r \<or> isBusy r sessionID then r
      else case lockedTx (\<lambda>_. False) e (andThenD (startPendingRunTx now sessionID) (\<lambda>launch.
                  pureD (case launch of None \<Rightarrow> Inl () | Some x \<Rightarrow> Inr x))) (arDB r) of
             (TxFailed _, d) \<Rightarrow> latchLocked (r\<lparr>arDB := d\<rparr>)
           | (TxReply _, _) \<Rightarrow> r
           | (TxDone launch, d) \<Rightarrow> launchRunLocked launch (r\<lparr>arDB := d\<rparr>))"

section \<open>Rounds of the event tasks\<close>

text \<open>A chat message that tags the account: \<open>cmAt\<close> is its time, \<^const>\<open>None\<close> when it does not parse.\<close>

record chatMessage =
  cmID :: string
  cmUser :: string
  cmAt :: "time option"

definition chatWakeQuiet :: int where "chatWakeQuiet = 10000000000"
definition chatWakeAuthor :: string where "chatWakeAuthor = ''USER''"

text \<open>The messages after the delivered one, when it is among them.\<close>

definition afterDelivered :: "string \<Rightarrow> chatMessage list \<Rightarrow> chatMessage list option" where
  "afterDelivered delivered msgs =
     (if delivered \<in> cmID ` set msgs then Some (tl (dropWhile (\<lambda>m. cmID m \<noteq> delivered) msgs)) else None)"

definition newTag :: "time option \<Rightarrow> chatMessage \<Rightarrow> bool" where
  "newTag since m = (case cmAt m of
     None \<Rightarrow> False
   | Some at0 \<Rightarrow> (case since of None \<Rightarrow> True | Some t \<Rightarrow> at0 > t) \<and> cmUser m = chatWakeAuthor)"

definition upsertWake :: "string \<Rightarrow> string \<Rightarrow> unit asql" where
  "upsertWake sessionID cursor = aexec (\<lambda>d. d\<lparr>dbWakeCursors := AList.update sessionID cursor (dbWakeCursors d)\<rparr>)"

definition lastStart :: "agentDB \<Rightarrow> sessionRow \<Rightarrow> time" where
  "lastStart d s = (case filter (\<lambda>x. rnSession x = ssID s) (dbRuns d) of
     [] \<Rightarrow> ssCreatedAt s | x # xs \<Rightarrow> rnStartedAt (fold (\<lambda>y z. if rnID y > rnID z then y else z) xs x))"

text \<open>\<open>enabled\<close> is when the account's chat permission was granted, as far as it parses; no bound is \<^verbatim>\<open>time.Time{}\<close>.\<close>

definition claimChatWake :: "time \<Rightarrow> bool \<Rightarrow> string \<Rightarrow> time option \<Rightarrow> chatMessage list \<Rightarrow> string list asql" where
  "claimChatWake now busy sessionID enabled msgs =
     andThenD (aquery (\<lambda>d. case find (\<lambda>s. ssID s = sessionID) (dbSessions d) of
         None \<Rightarrow> None
       | Some s \<Rightarrow> Some (ssStatus s, lastStart d s, (case map_of (dbMentionCursors d) sessionID of None \<Rightarrow> [] | Some c \<Rightarrow> c)))) (\<lambda>found.
     case found of
       None \<Rightarrow> pureD []
     | Some (status, start, delivered) \<Rightarrow>
         if status \<noteq> ''running'' then pureD []
         else if busy then
           (if afterDelivered delivered msgs = None then pureD []
            else andThenD (upsertWake sessionID delivered) (\<lambda>_. pureD []))
         else
           let rest = (case afterDelivered delivered msgs of None \<Rightarrow> msgs | Some ms \<Rightarrow> ms);
               since0 = (if afterDelivered delivered msgs = None then Some start else None);
               since = (case enabled of None \<Rightarrow> since0
                        | Some t \<Rightarrow> (case since0 of None \<Rightarrow> Some t | Some u \<Rightarrow> if t > u then Some t else Some u));
               tags = filter (newTag since) rest;
               wake = andThenD (upsertWake sessionID (cmID (last msgs))) (\<lambda>_. pureD [sessionID])
           in if tags = [] then wake
              else if now - Max (set (map (\<lambda>m. the (cmAt m)) tags)) < chatWakeQuiet then pureD []
              else andThenD (enqueueTriggerTx sessionID (ChatMention (map cmID tags)) now) (\<lambda>_. wake))"

text \<open>What a round claims.\<close>

datatype claim =
    ClaimLocal
  | ClaimPrice "string \<rightharpoonup> float64 \<times> time"
  | ClaimPosition "string \<rightharpoonup> positionSample"
  | ClaimChat string "time option" "chatMessage list"

definition claimTx :: "(float64 \<Rightarrow> string) \<Rightarrow> time \<Rightarrow> agentServer \<Rightarrow> claim \<Rightarrow> string list asql" where
  "claimTx fp now r c = (case c of
     ClaimLocal \<Rightarrow> andThenD (ExpireTx now) (\<lambda>_. FireTimersTx now)
   | ClaimPrice samples \<Rightarrow> MatchPriceTx fp now samples
   | ClaimPosition samples \<Rightarrow> MatchPositionCloseTx now samples
   | ClaimChat sessionID enabled msgs \<Rightarrow> claimChatWake now (isBusy r sessionID) sessionID enabled msgs)"

definition admitStep :: "time \<Rightarrow> agentServer \<Rightarrow> string \<Rightarrow> (string \<times> int \<times> string) list \<Rightarrow> (string \<times> int \<times> string) list asql" where
  "admitStep now r sessionID launches =
     (if isBusy r sessionID then pureD launches
      else andThenD (startPendingRunTx now sessionID) (\<lambda>launch.
           pureD (case launch of None \<Rightarrow> launches | Some x \<Rightarrow> launches @ [x])))"

definition admitFiredSessionsTx :: "time \<Rightarrow> agentServer \<Rightarrow> string list asql \<Rightarrow> (string \<times> int \<times> string) list asql" where
  "admitFiredSessionsTx now r claim = andThenD claim (\<lambda>firedSessions. foldD (admitStep now r) firedSessions [])"

definition roundTx :: "(float64 \<Rightarrow> string) \<Rightarrow> time \<Rightarrow> agentServer \<Rightarrow> claim \<Rightarrow> (unit + (string \<times> int \<times> string) list) asql" where
  "roundTx fp now r c =
     andThenD LatestEventLogIDTx (\<lambda>_.
     andThenD (admitFiredSessionsTx now r (claimTx fp now r c)) (\<lambda>launches.
     pureD (Inr launches)))"

definition dispatchEventRound :: "txEnv \<Rightarrow> (float64 \<Rightarrow> string) \<Rightarrow> time \<Rightarrow> claim \<Rightarrow> agentServer \<Rightarrow> bool \<times> agentServer" where
  "dispatchEventRound e fp now c r =
     (if refusing r then (True, r)
      else case lockedTx (\<lambda>_. True) e (roundTx fp now r c) (arDB r) of
             (TxDone launches, d) \<Rightarrow> (True, fold launchRunLocked launches (r\<lparr>arDB := d\<rparr>))
           | (_, d) \<Rightarrow>
               (False, if requestCancellationCausedPersistenceError e then r\<lparr>arDB := d\<rparr> else latchLocked (r\<lparr>arDB := d\<rparr>)))"

section \<open>The events of a run and of a user\<close>

definition eventToolTransaction ::
  "txEnv \<Rightarrow> string \<Rightarrow> int \<Rightarrow> eventResult asql \<Rightarrow> agentServer \<Rightarrow> eventResult \<times> agentServer" where
  "eventToolTransaction e sessionID runID mutate r =
     (if refusing r then (EventError ''PERSISTENCE_UNAVAILABLE'' ''not_executed'', r)
      else case lockedTx (\<lambda>_. True) e
               (andThenD (runIsRunningTx sessionID runID) (\<lambda>running.
                if \<not> running then pureD (Inl (EventError ''RUN_NOT_RUNNING'' ''not_executed''))
                else andThenD LatestEventLogIDTx (\<lambda>_. andThenD mutate (\<lambda>result. pureD (Inr result))))) (arDB r) of
             (TxFailed inCommit, d) \<Rightarrow>
               (EventError ''PERSISTENCE_UNAVAILABLE'' (if inCommit then ''unknown'' else ''not_executed''), latchLocked (r\<lparr>arDB := d\<rparr>))
           | (TxReply result, _) \<Rightarrow> (result, r)
           | (TxDone result, d) \<Rightarrow> (result, r\<lparr>arDB := d\<rparr>))"

definition createEventForRun :: "txEnv \<Rightarrow> wakeup \<Rightarrow> agentServer \<Rightarrow> eventResult \<times> agentServer" where
  "createEventForRun e record r = eventToolTransaction e (wuSession record) (wuRun record) (CreateForRun record) r"

definition deleteEventForRun :: "txEnv \<Rightarrow> string \<Rightarrow> int \<Rightarrow> string \<Rightarrow> time \<Rightarrow> agentServer \<Rightarrow> eventResult \<times> agentServer" where
  "deleteEventForRun e sessionID runID eventID now r = eventToolTransaction e sessionID runID (DeleteForRun sessionID runID eventID now) r"

definition listEventsForRun :: "(nat \<Rightarrow> bool) \<Rightarrow> string \<Rightarrow> agentServer \<Rightarrow> eventResult \<times> agentServer" where
  "listEventsForRun flt sessionID r =
     (if refusing r then (EventError ''PERSISTENCE_UNAVAILABLE'' ''not_executed'', r)
      else case SessionEvents sessionID flt (arDB r, 0) of
             (Inl _, _) \<Rightarrow> (EventError ''PERSISTENCE_UNAVAILABLE'' ''not_executed'', latchLocked r)
           | (Inr ws, _) \<Rightarrow> (EventList ws, r))"

definition executeEventTool ::
  "argCodec \<Rightarrow> txEnv \<Rightarrow> 8 word list option \<Rightarrow> time \<Rightarrow> string \<Rightarrow> int \<Rightarrow> string \<Rightarrow> raw \<Rightarrow> agentServer \<Rightarrow> eventResult \<times> agentServer" where
  "executeEventTool ac e entropy now sessionID runID name arguments r =
     (if name = ''create_event'' then
        (case ParseCreateEvent ac entropy arguments sessionID runID now of
           None \<Rightarrow> (EventError ''INVALID_TOOL_ARGUMENTS'' ''not_executed'', r)
         | Some record \<Rightarrow> createEventForRun e record r)
      else if name = ''delete_event'' then
        (case DecodeArguments ac [''event_id''] arguments of
           None \<Rightarrow> (EventError ''INVALID_TOOL_ARGUMENTS'' ''not_executed'', r)
         | Some f \<Rightarrow>
             (case RequiredString (f ''event_id'') of
                None \<Rightarrow> (EventError ''INVALID_TOOL_ARGUMENTS'' ''not_executed'', r)
              | Some eventID \<Rightarrow> deleteEventForRun e sessionID runID eventID now r))
      else (case DecodeArguments ac [] arguments of
              None \<Rightarrow> (EventError ''INVALID_TOOL_ARGUMENTS'' ''not_executed'', r)
            | Some _ \<Rightarrow> listEventsForRun (teFlt e) sessionID r))"

definition deleteEventTx :: "time \<Rightarrow> string \<Rightarrow> string \<Rightarrow> ((int \<times> string) + wakeup) asql" where
  "deleteEventTx now sessionID eventID =
     andThenD (sessionByID sessionID) (\<lambda>found. case found of
       None \<Rightarrow> pureD (Inl (404, ''SESSION_NOT_FOUND''))
     | Some _ \<Rightarrow>
         andThenD (aquery (\<lambda>d. find (\<lambda>w. wuID w = eventID \<and> wuSession w = sessionID) (dbEvents d))) (\<lambda>row. case row of
           None \<Rightarrow> pureD (Inl (404, ''EVENT_NOT_FOUND''))
         | Some record \<Rightarrow>
             andThenD LatestEventLogIDTx (\<lambda>_.
             andThenD (RemoveRecordTx record ''deleted_by_user'' None None now) (\<lambda>_.
             pureD (Inr record)))))"

definition deleteEventByUser :: "txEnv \<Rightarrow> time \<Rightarrow> string \<Rightarrow> string \<Rightarrow> agentServer \<Rightarrow> wakeup agReply \<times> agentServer" where
  "deleteEventByUser e now sessionID eventID r =
     (if refusing r then (Refused 503 ''PERSISTENCE_UNAVAILABLE'', r)
      else case lockedTx (\<lambda>_. True) e (deleteEventTx now sessionID eventID) (arDB r) of
             (TxFailed _, d) \<Rightarrow> mutationFailure e (r\<lparr>arDB := d\<rparr>)
           | (TxReply (status, code), _) \<Rightarrow> (Refused status code, r)
           | (TxDone record, d) \<Rightarrow> (Answered 200 record, r\<lparr>arDB := d\<rparr>))"

section \<open>The end of a run\<close>

text \<open>\<^const>\<open>None\<close> is an error, otherwise whether the run was still running.\<close>

definition terminalTx :: "string \<Rightarrow> int \<Rightarrow> (runRow \<Rightarrow> runRow) \<Rightarrow> (unit + unit) asql" where
  "terminalTx sessionID runID f =
     andThenD (updateRunning sessionID runID f) (\<lambda>updated. pureD (if updated \<noteq> 1 then Inl () else Inr ()))"

definition persistTerminalRunLocked ::
  "txEnv \<Rightarrow> time \<Rightarrow> string \<Rightarrow> int \<Rightarrow> string \<Rightarrow> string option \<Rightarrow> string option \<Rightarrow> string option \<Rightarrow> agentServer \<Rightarrow> bool option \<times> agentServer" where
  "persistTerminalRunLocked e now sessionID runID status summary output runError r =
     (case lockedTx (\<lambda>_. True) e (terminalTx sessionID runID (terminated status summary output runError now)) (arDB r) of
        (TxFailed _, d) \<Rightarrow> (None, r\<lparr>arDB := d\<rparr>)
      | (TxReply _, _) \<Rightarrow> (Some False, r)
      | (TxDone _, d) \<Rightarrow> (Some True, r\<lparr>arDB := d\<rparr>))"

definition persistRunFailure :: "txEnv \<Rightarrow> time \<Rightarrow> string \<Rightarrow> int \<Rightarrow> string \<Rightarrow> agentServer \<Rightarrow> agentServer" where
  "persistRunFailure e now sessionID runID reason r =
     (case persistTerminalRunLocked e now sessionID runID ''failed'' None None (Some reason) r of
        (None, r') \<Rightarrow> latchLocked r'
      | (Some _, r') \<Rightarrow> r')"

definition progressFailed :: string where "progressFailed = ''PERSISTENCE_ERROR: unable to persist Run progress''"

definition handleRunPersistenceError :: "txEnv \<Rightarrow> time \<Rightarrow> string \<Rightarrow> int \<Rightarrow> agentServer \<Rightarrow> agentServer" where
  "handleRunPersistenceError e now sessionID runID r = persistRunFailure e now sessionID runID progressFailed r"

definition completeFinalizedRun :: "txEnv \<Rightarrow> time \<Rightarrow> string \<Rightarrow> int \<Rightarrow> string \<Rightarrow> string \<Rightarrow> agentServer \<Rightarrow> bool option \<times> agentServer" where
  "completeFinalizedRun e now sessionID runID summary output r =
     (if refusing r then (None, r)
      else persistTerminalRunLocked e now sessionID runID ''completed'' (Some summary) (Some output) None r)"

text \<open>The end of \<^verbatim>\<open>runAgent\<close> after a valid final answer; \<open>e2\<close> is the environment of the second transaction.\<close>

definition completeRun :: "txEnv \<Rightarrow> txEnv \<Rightarrow> time \<Rightarrow> string \<Rightarrow> int \<Rightarrow> string \<Rightarrow> string \<Rightarrow> agentServer \<Rightarrow> agentServer" where
  "completeRun e e2 now sessionID runID summary output r =
     (case completeFinalizedRun e now sessionID runID summary output r of
        (None, r') \<Rightarrow> handleRunPersistenceError e2 now sessionID runID r'
      | (Some _, r') \<Rightarrow> r')"

definition updateRunProgress :: "(nat \<Rightarrow> bool) \<Rightarrow> string \<Rightarrow> int \<Rightarrow> int \<Rightarrow> int \<Rightarrow> traceEntry list \<Rightarrow> agentServer \<Rightarrow> bool option \<times> agentServer" where
  "updateRunProgress flt sessionID runID modelCalls toolCalls progress r =
     (case updateRunning sessionID runID (\<lambda>x. x\<lparr>rnModelCalls := modelCalls, rnToolCalls := toolCalls, rnProgress := progress\<rparr>) flt (arDB r, 0) of
        (Inl _, _) \<Rightarrow> (None, r)
      | (Inr updated, d, _) \<Rightarrow> (Some (updated = 1), r\<lparr>arDB := d\<rparr>))"

definition finishActive :: "txEnv \<Rightarrow> time \<Rightarrow> nat \<Rightarrow> agentServer \<Rightarrow> agentServer" where
  "finishActive e now i r =
     (let s = thSession (arThreads r ! i);
          r1 = (if arActive r s = Some i then r\<lparr>arActive := (arActive r)(s := None)\<rparr> else r);
          r2 = r1\<lparr>arThreads := (arThreads r1)[i := (arThreads r1 ! i)\<lparr>thDone := True\<rparr>]\<rparr>
      in dispatchPendingLocked e now s r2)"

section \<open>Shutdown and restart\<close>

definition serverShutdownReason :: string where
  "serverShutdownReason = ''SERVER_SHUTDOWN: interrupted by graceful Agent Server shutdown''"

definition crashRecoveryReason :: string where
  "crashRecoveryReason = ''CRASH_RECOVERY: Agent Server exited before the Run reached a terminal state''"

definition quiesceOne :: "(string \<Rightarrow> txEnv) \<Rightarrow> time \<Rightarrow> string \<Rightarrow> agentServer \<Rightarrow> agentServer" where
  "quiesceOne env now sessionID r = (case arActive r sessionID of
     None \<Rightarrow> r
   | Some i \<Rightarrow>
       (case persistTerminalRunLocked (env sessionID) now sessionID (thRun (arThreads r ! i)) ''interrupted'' None None
               (Some serverShutdownReason) r of
          (None, r') \<Rightarrow> cancelThread i (latchLocked r')
        | (Some _, r') \<Rightarrow> cancelThread i r'))"

text \<open>\<open>ks\<close> are the sessions as the range over \<^verbatim>\<open>r.active\<close> meets them.\<close>

definition Quiesce :: "(string \<Rightarrow> txEnv) \<Rightarrow> time \<Rightarrow> string list \<Rightarrow> agentServer \<Rightarrow> agentServer" where
  "Quiesce env now ks r = (if arClosed r then r else fold (quiesceOne env now) ks (r\<lparr>arClosed := True\<rparr>))"

definition recoverStep :: "time \<Rightarrow> sessionRow \<Rightarrow> (string \<times> int \<times> string) list \<Rightarrow> (string \<times> int \<times> string) list asql" where
  "recoverStep now session launches =
     (let runID = ssCurrentRunID session + 1
      in andThenD (insertRun (newRun (ssID session) runID ''server_recovery'' None now)) (\<lambda>_.
         andThenD (updateSession (ssID session) (\<lambda>s. if ssStatus s = ''running'' then s\<lparr>ssCurrentRunID := runID\<rparr> else s)) (\<lambda>_.
         pureD (launches @ [(ssID session, runID, ''server_recovery'')]))))"

definition createRecoveryRunsTx :: "time \<Rightarrow> (string \<times> int \<times> string) list asql" where
  "createRecoveryRunsTx now =
     andThenD (aquery (\<lambda>d. sort_key (\<lambda>s. (ssCreatedAt s, ssID s)) (filter (\<lambda>s. ssStatus s = ''running'') (dbSessions d)))) (\<lambda>sessions.
     foldD (recoverStep now) sessions [])"

definition recoveryTx :: "time \<Rightarrow> (unit + (string \<times> int \<times> string) list) asql" where
  "recoveryTx now =
     andThenD (aquery (\<lambda>d. filter (\<lambda>x. rnStatus x = ''running'') (dbRuns d))) (\<lambda>interrupted.
     andThenD (aexec (\<lambda>d. d\<lparr>dbRuns := map (\<lambda>x. if rnStatus x = ''running'' then terminated ''interrupted'' None None (Some crashRecoveryReason) now x else x) (dbRuns d)\<rparr>)) (\<lambda>_.
     andThenD (createRecoveryRunsTx now) (\<lambda>launches.
     pureD (Inr launches))))"

text \<open>A process that ends loses its goroutines; the next one opens the same database.  When the recovery fails it does not serve.\<close>

definition recoverPersistedRuntime :: "txEnv \<Rightarrow> time \<Rightarrow> agentDB \<Rightarrow> agentServer" where
  "recoverPersistedRuntime e now d =
     (let fresh = \<lparr>arDB = d, arActive = Map.empty, arThreads = [], arClosed = False, arFault = False\<rparr>
      in case lockedTx (\<lambda>_. True) e (recoveryTx now) d of
           (TxDone launches, d') \<Rightarrow> fold launchRunLocked launches (fresh\<lparr>arDB := d'\<rparr>)
         | (_, d') \<Rightarrow> fresh\<lparr>arDB := d', arClosed := True, arFault := True\<rparr>)"

definition emptyAgentDB :: agentDB where
  "emptyAgentDB = \<lparr>dbSessions = [], dbRuns = [], dbEvents = [], dbLog = [], dbPending = [], dbTriggerSeq = 0, dbMentionCursors = [],
     dbWakeCursors = [], dbCreated = [], dbQueued = [], dbDelivered = []\<rparr>"

section \<open>Interleavings\<close>

text \<open>
  What can happen at one release of the mutex.  A goroutine acts only while it is not done; it returns after it saw its context
  cancelled, its run no longer running, or after a fault (\<^verbatim>\<open>runAgent\<close> stores the end of its run on every other way out).
\<close>

datatype agEvent =
    EvCreate argCodec sessionDefaults "modelMapping list depReply" "backendAccount depReply" "8 word list option" txEnv time "createSessionRequest option"
  | EvStart txEnv time string
  | EvRetry txEnv time string string
  | EvStop txEnv time string
  | EvDelete txEnv time string
  | EvRound txEnv "float64 \<Rightarrow> string" time claim
  | EvDeleteEvent txEnv time string string
  | EvTool nat argCodec txEnv "8 word list option" time string raw
  | EvProgress nat "nat \<Rightarrow> bool" int int "traceEntry list"
  | EvMention nat string
  | EvFail nat txEnv time string
  | EvComplete nat txEnv txEnv time string string
  | EvFinish nat txEnv time
  | EvQuiesce "string \<Rightarrow> txEnv" time "string list"
  | EvRestart txEnv time

definition acting :: "agentServer \<Rightarrow> nat \<Rightarrow> bool" where
  "acting r i = (i < length (arThreads r) \<and> \<not> thDone (arThreads r ! i))"

definition mayReturn :: "agentServer \<Rightarrow> nat \<Rightarrow> bool" where
  "mayReturn r i = (thCanceled (arThreads r ! i) \<or> arFault r \<or>
     \<not> list_ex (runningRow (thSession (arThreads r ! i)) (thRun (arThreads r ! i))) (dbRuns (arDB r)))"

definition activeSessions :: "agentServer \<Rightarrow> string list \<Rightarrow> bool" where
  "activeSessions r ks = (distinct ks \<and> list_all (isBusy r) ks \<and>
     list_all (\<lambda>t. isBusy r (thSession t) \<longrightarrow> thSession t \<in> set ks) (arThreads r))"

text \<open>A chat round needs a message.\<close>

definition answered :: "claim \<Rightarrow> bool" where
  "answered c = (case c of ClaimChat _ _ msgs \<Rightarrow> msgs \<noteq> [] | _ \<Rightarrow> True)"

definition agentFire :: "agEvent \<Rightarrow> agentServer \<Rightarrow> agentServer outcome" where
  "agentFire ev r = (case ev of
     EvCreate ac dflt models account entropy e now input \<Rightarrow> Next (snd (createSession ac dflt models account entropy e now input r))
   | EvStart e now s \<Rightarrow> Next (snd (startSession e now s r))
   | EvRetry e now s k \<Rightarrow> Next (snd (retryRun e now s k r))
   | EvStop e now s \<Rightarrow> Next (snd (changeSessionState e now False s r))
   | EvDelete e now s \<Rightarrow> Next (snd (changeSessionState e now True s r))
   | EvRound e fp now c \<Rightarrow> if answered c then Next (snd (dispatchEventRound e fp now c r)) else Blocked
   | EvDeleteEvent e now s w \<Rightarrow> Next (snd (deleteEventByUser e now s w r))
   | EvTool i ac e entropy now name arguments \<Rightarrow>
       if acting r i then Next (snd (executeEventTool ac e entropy now (thSession (arThreads r ! i)) (thRun (arThreads r ! i)) name arguments r)) else Blocked
   | EvProgress i flt mc tc ts \<Rightarrow>
       if acting r i then Next (snd (updateRunProgress flt (thSession (arThreads r ! i)) (thRun (arThreads r ! i)) mc tc ts r)) else Blocked
   | EvMention i cursor \<Rightarrow>
       if acting r i then Next (r\<lparr>arDB := (arDB r)\<lparr>dbMentionCursors := AList.update (thSession (arThreads r ! i)) cursor (dbMentionCursors (arDB r))\<rparr>\<rparr>) else Blocked
   | EvFail i e now reason \<Rightarrow>
       if acting r i then Next (persistRunFailure e now (thSession (arThreads r ! i)) (thRun (arThreads r ! i)) reason r) else Blocked
   | EvComplete i e e2 now summary output \<Rightarrow>
       if acting r i then Next (completeRun e e2 now (thSession (arThreads r ! i)) (thRun (arThreads r ! i)) summary output r) else Blocked
   | EvFinish i e now \<Rightarrow> if acting r i \<and> mayReturn r i then Next (finishActive e now i r) else Blocked
   | EvQuiesce env now ks \<Rightarrow> if activeSessions r ks then Next (Quiesce env now ks r) else Blocked
   | EvRestart e now \<Rightarrow> Next (recoverPersistedRuntime e now (arDB r)))"

end
