(* ===== verification/AgentInvariant.thy ===== *)
theory AgentInvariant
  imports AgentRuns "HOL-Library.Multiset"
begin

text \<open>
  The invariant of the agent server's tables and what its transactions do to it.

  \<open>dbOK\<close> says: keys are unique; every event that was ever created is active or logged exactly once; a running run is the latest run of
  a running session; only running sessions have events (at most ten) and queued triggers; the triggers queued for a
  session are, in order, those delivered followed by those pending; and the triggers of a run are the ones delivered to it.
\<close>

section \<open>Successful statements\<close>

lemma astmt_Inr: "astmt f flt (c, n) = (Inr a, c', n') \<longleftrightarrow> \<not> flt n \<and> f c = (Inr a, c') \<and> n' = Suc n"
  by (simp add: astmt_def stmtF_Inr)

lemma aquery_Inr: "aquery f flt (c, n) = (Inr a, c', n') \<longleftrightarrow> \<not> flt n \<and> a = f c \<and> c' = c \<and> n' = Suc n"
  by (auto simp: aquery_def astmt_Inr)

lemma aexec_Inr: "aexec f flt (c, n) = (Inr a, c', n') \<longleftrightarrow> \<not> flt n \<and> c' = f c \<and> n' = Suc n"
  by (auto simp: aexec_def astmt_Inr)

lemma ainsert_Inr:
  "ainsert rows key x f flt (c, n) = (Inr a, c', n') \<longleftrightarrow> \<not> flt n \<and> key x \<notin> key ` set (rows c) \<and> c' = f c \<and> n' = Suc n"
  by (auto simp: ainsert_def astmt_Inr split: if_splits)

lemmas asql_success = andThenD_Inr astmt_Inr aquery_Inr aexec_Inr ainsert_Inr pureD_Inr reject_Inr

lemma succ_aquery: "(\<And>c. P c \<Longrightarrow> Q (f c) c) \<Longrightarrow> succ P (aquery f) Q"
  by (auto simp: succ_def aquery_Inr)

lemma succ_aexec: "(\<And>c. P c \<Longrightarrow> Q () (f c)) \<Longrightarrow> succ P (aexec f) Q"
  by (auto simp: succ_def aexec_Inr)

text \<open>A query that hands its result on.\<close>

lemma succ_query_then:
  assumes "\<And>c0. P c0 \<Longrightarrow> succ (\<lambda>c. c = c0) (g (f c0)) Q"
  shows "succ P (andThenD (aquery f) g) Q"
  using assms unfolding succ_def andThenD_Inr by (auto simp: aquery_Inr) blast

section \<open>The invariant of the tables\<close>

definition runKey :: "runRow \<Rightarrow> string \<times> int" where
  "runKey x = (rnSession x, rnID x)"

definition runningIn :: "sessionRow list \<Rightarrow> string \<Rightarrow> bool" where
  "runningIn ss i = (\<exists>s \<in> set ss. ssID s = i \<and> ssStatus s = ''running'')"

definition agentKeysOK :: "agentDB \<Rightarrow> bool" where
  "agentKeysOK d = (distinct (map ssID (dbSessions d)) \<and> distinct (map runKey (dbRuns d)) \<and> distinct (map wuID (dbEvents d)))"

definition onceOK :: "wakeup list \<Rightarrow> logRow list \<Rightarrow> string list \<Rightarrow> bool" where
  "onceOK ws ls created = (mset created = mset (map wuID ws) + mset (map lgEvent ls))"

definition runOK :: "sessionRow list \<Rightarrow> runRow \<Rightarrow> bool" where
  "runOK ss x = (\<exists>s \<in> set ss. ssID s = rnSession x \<and> 1 \<le> rnID x \<and> rnID x \<le> ssCurrentRunID s \<and>
     (rnStatus x = ''running'' \<longrightarrow> ssStatus s = ''running'' \<and> rnID x = ssCurrentRunID s))"

definition sessionOK :: "runRow list \<Rightarrow> sessionRow \<Rightarrow> bool" where
  "sessionOK xs s = (0 \<le> ssCurrentRunID s \<and> (ssStatus s = ''running'' \<longrightarrow> ssCurrentRunID s \<noteq> 0) \<and>
     (ssCurrentRunID s \<noteq> 0 \<longrightarrow> (ssID s, ssCurrentRunID s) \<in> runKey ` set xs))"

definition eventsOK :: "sessionRow list \<Rightarrow> wakeup list \<Rightarrow> bool" where
  "eventsOK ss ws = ((\<forall>w \<in> set ws. runningIn ss (wuSession w)) \<and> (\<forall>i. length (filter (\<lambda>w. wuSession w = i) ws) \<le> maxActiveEvents))"

definition queueOK :: "sessionRow list \<Rightarrow> pendingTrigger list \<Rightarrow> int \<Rightarrow> bool" where
  "queueOK ss ps seq = (sorted_wrt (<) (map ptID ps) \<and> (\<forall>p \<in> set ps. ptID p \<le> seq \<and> runningIn ss (ptSession p)))"

text \<open>What was queued for, delivered to and is pending in a session.\<close>

definition queuedFor :: "string \<Rightarrow> (string \<times> triggerPayload) list \<Rightarrow> triggerPayload list" where
  "queuedFor i qs = map snd (filter (\<lambda>q. fst q = i) qs)"

definition deliveredOf :: "string \<Rightarrow> (string \<times> delivery \<times> triggerPayload) list \<Rightarrow> triggerPayload list" where
  "deliveredOf i ds = map (snd \<circ> snd) (filter (\<lambda>q. fst q = i) ds)"

definition pendingIn :: "string \<Rightarrow> pendingTrigger list \<Rightarrow> triggerPayload list" where
  "pendingIn i ps = map ptPayload (filter (\<lambda>p. ptSession p = i) ps)"

definition fifoOK :: "(string \<times> triggerPayload) list \<Rightarrow> (string \<times> delivery \<times> triggerPayload) list \<Rightarrow> pendingTrigger list \<Rightarrow> bool" where
  "fifoOK qs ds ps = (\<forall>i. queuedFor i qs = deliveredOf i ds @ pendingIn i ps)"

definition deliveredTo :: "string \<Rightarrow> int \<Rightarrow> (string \<times> delivery \<times> triggerPayload) list \<Rightarrow> triggerPayload list" where
  "deliveredTo i k ds = map (snd \<circ> snd) (filter (\<lambda>q. fst q = i \<and> fst (snd q) = ToRun k) ds)"

definition batchOK :: "(string \<times> delivery \<times> triggerPayload) list \<Rightarrow> runRow list \<Rightarrow> bool" where
  "batchOK ds xs = ((\<forall>x \<in> set xs. deliveredTo (rnSession x) (rnID x) ds = (case rnTriggers x of None \<Rightarrow> [] | Some ps \<Rightarrow> ps) \<and>
       (\<forall>ps. rnTriggers x = Some ps \<longrightarrow> ps \<noteq> [] \<and> length ps \<le> MaxTriggersPerRun)) \<and>
     (\<forall>i k p. (i, ToRun k, p) \<in> set ds \<longrightarrow> (i, k) \<in> runKey ` set xs))"

definition dbOK :: "agentDB \<Rightarrow> bool" where
  "dbOK d = (agentKeysOK d \<and> onceOK (dbEvents d) (dbLog d) (dbCreated d) \<and> (\<forall>x \<in> set (dbRuns d). runOK (dbSessions d) x) \<and>
     (\<forall>s \<in> set (dbSessions d). sessionOK (dbRuns d) s) \<and> eventsOK (dbSessions d) (dbEvents d) \<and>
     queueOK (dbSessions d) (dbPending d) (dbTriggerSeq d) \<and> fifoOK (dbQueued d) (dbDelivered d) (dbPending d) \<and>
     batchOK (dbDelivered d) (dbRuns d))"

lemma delivered_run: "batchOK ds xs \<Longrightarrow> (i, ToRun k, p) \<in> set ds \<Longrightarrow> (i, k) \<in> runKey ` set xs"
  unfolding batchOK_def by blast

lemma runOK_E:
  assumes "dbOK d" "x \<in> set (dbRuns d)"
  obtains t where "t \<in> set (dbSessions d)" "ssID t = rnSession x" "1 \<le> rnID x" "rnID x \<le> ssCurrentRunID t"
    "rnStatus x = ''running'' \<Longrightarrow> ssStatus t = ''running'' \<and> rnID x = ssCurrentRunID t"
proof -
  have "runOK (dbSessions d) x" using assms unfolding dbOK_def by blast
  then show ?thesis using that unfolding runOK_def by blast
qed

lemma emptyAgentDB_OK: "dbOK emptyAgentDB"
  by (simp add: dbOK_def emptyAgentDB_def agentKeysOK_def onceOK_def eventsOK_def queueOK_def fifoOK_def batchOK_def queuedFor_def
      deliveredOf_def pendingIn_def)

lemma pendingOf_filter: "queueOK ss (dbPending d) seq \<Longrightarrow> pendingOf i d = filter (\<lambda>p. ptSession p = i) (dbPending d)"
proof -
  assume q: "queueOK ss (dbPending d) seq"
  have "sorted (map ptID (filter (\<lambda>p. ptSession p = i) (dbPending d)))"
    using q unfolding queueOK_def
    by (intro sorted_filter) (simp add: strict_sorted_iff)
  then show ?thesis by (simp add: pendingOf_def sort_key_id_if_sorted)
qed

lemma find_session: "distinct (map ssID ss) \<Longrightarrow> find (\<lambda>s. ssID s = i) ss = Some s \<longleftrightarrow> s \<in> set ss \<and> ssID s = i"
  by (induction ss) auto

lemma find_run: "distinct (map runKey xs) \<Longrightarrow> find (\<lambda>x. rnSession x = i \<and> rnID x = k) xs = Some x \<longleftrightarrow> x \<in> set xs \<and> runKey x = (i, k)"
  by (induction xs) (auto simp: runKey_def image_iff)

section \<open>Events\<close>

text \<open>What the operations on events leave alone.\<close>

definition sameRuns :: "agentDB \<Rightarrow> agentDB \<Rightarrow> bool" where
  "sameRuns d d' = (dbSessions d' = dbSessions d \<and> dbRuns d' = dbRuns d \<and> dbDelivered d' = dbDelivered d)"

lemma sameRuns_refl [simp]: "sameRuns d d"
  by (simp add: sameRuns_def)

lemma filter_one_key:
  assumes "distinct (map f xs)" "length (filter (\<lambda>x. f x = k) xs) = 1"
  shows "mset (map f xs) = add_mset k (mset (map f (filter (\<lambda>x. f x \<noteq> k) xs)))"
proof -
  obtain y where y: "filter (\<lambda>x. f x = k) xs = [y]" using assms(2) by (auto simp: length_Suc_conv)
  have "mset xs = mset (filter (\<lambda>x. f x = k) xs) + mset (filter (\<lambda>x. f x \<noteq> k) xs)"
    by (simp add: multiset_partition [symmetric])
  moreover have "f y = k" using y by (metis (mono_tags, lifting) filter_eq_Cons_iff)
  ultimately have "mset xs = add_mset y (mset (filter (\<lambda>x. f x \<noteq> k) xs))" "f y = k" by (simp_all add: y)
  then show ?thesis by (metis image_mset_add_mset mset_map)
qed

lemma filter_le: "length (filter P (filter Q xs)) \<le> length (filter P xs)"
  by (induction xs) auto

lemma wakeOK_filter: "eventsOK ss ws \<Longrightarrow> eventsOK ss (filter P ws)"
  unfolding eventsOK_def using filter_le [of _ P ws] by (auto simp del: filter_filter intro: le_trans)

lemma RemoveRecordTx_OK:
  assumes "RemoveRecordTx record outcome outcomeRun detail at0 flt (d, n) = (Inr u, d', n')" "dbOK d"
  shows "dbOK d'" "sameRuns d d'" "dbPending d' = dbPending d" "dbEvents d' = filter (\<lambda>w. wuID w \<noteq> wuID record) (dbEvents d)"
    "dbLog d' = dbLog d @ [logEntry record outcome outcomeRun detail at0]"
proof -
  have one: "length (filter (\<lambda>w. wuID w = wuID record) (dbEvents d)) = 1"
    and d': "d' = d\<lparr>dbEvents := filter (\<lambda>w. wuID w \<noteq> wuID record) (dbEvents d), dbLog := dbLog d @ [logEntry record outcome outcomeRun detail at0]\<rparr>"
    using assms(1) by (auto simp: RemoveRecordTx_def deleteEventRow_def asql_success split: if_splits)
  show "sameRuns d d'" "dbPending d' = dbPending d" "dbEvents d' = filter (\<lambda>w. wuID w \<noteq> wuID record) (dbEvents d)"
    "dbLog d' = dbLog d @ [logEntry record outcome outcomeRun detail at0]"
    by (simp_all add: d' sameRuns_def)
  have "mset (map wuID (dbEvents d)) = add_mset (wuID record) (mset (map wuID (dbEvents d')))"
    using filter_one_key [OF _ one] assms(2) by (simp add: d' dbOK_def agentKeysOK_def)
  then have "onceOK (dbEvents d') (dbLog d') (dbCreated d')"
    using assms(2) by (simp add: dbOK_def onceOK_def d' logEntry_def)
  moreover have "eventsOK (dbSessions d') (dbEvents d')"
    using assms(2) wakeOK_filter by (simp add: dbOK_def d')
  moreover have "distinct (map wuID (dbEvents d'))"
    using assms(2) by (simp add: d' dbOK_def agentKeysOK_def distinct_map_filter)
  ultimately show "dbOK d'" using assms(2) by (simp add: dbOK_def agentKeysOK_def d')
qed

lemma queueTrigger_OK:
  assumes "dbOK d" "runningIn (dbSessions d) i"
  shows "dbOK (queueTrigger i p now d)"
proof -
  have "sorted_wrt (<) (map ptID (dbPending d) @ [dbTriggerSeq d + 1])"
    using assms(1) by (fastforce simp: dbOK_def queueOK_def sorted_wrt_append)
  then have "queueOK (dbSessions d) (dbPending (queueTrigger i p now d)) (dbTriggerSeq (queueTrigger i p now d))"
    using assms by (fastforce simp: dbOK_def queueOK_def queueTrigger_def)
  moreover have "fifoOK (dbQueued (queueTrigger i p now d)) (dbDelivered d) (dbPending (queueTrigger i p now d))"
    using assms(1) by (auto simp: dbOK_def fifoOK_def queueTrigger_def queuedFor_def pendingIn_def)
  ultimately show ?thesis using assms(1) by (simp add: dbOK_def agentKeysOK_def queueTrigger_def)
qed

text \<open>Sessions with queued triggers.\<close>

definition waiting :: "agentDB \<Rightarrow> string set" where
  "waiting d = ptSession ` set (dbPending d)"

lemma fireEventTx_OK:
  assumes "fireEventTx record m now flt (d, n) = (Inr u, d', n')" "dbOK d" "runningIn (dbSessions d) (wuSession record)"
  shows "dbOK d'" "sameRuns d d'" "waiting d' = insert (wuSession record) (waiting d)"
proof -
  obtain d1 n1 where r: "RemoveRecordTx record ''fired'' None (Some m) now flt (d, n) = (Inr (), d1, n1)"
    and d': "d' = queueTrigger (wuSession record) (FiredTrigger (wuType record) (wuID record) (wuRun record) (wuParams record)
      (wuExpiresAt record) now m) now d1"
    using assms(1) by (auto simp: fireEventTx_def enqueueTriggerTx_def asql_success split: if_splits)
  note k = RemoveRecordTx_OK [OF r assms(2)]
  show "dbOK d'" unfolding d' using k(1,2) assms(3) by (intro queueTrigger_OK) (simp_all add: sameRuns_def)
  show "sameRuns d d'" using k(2) by (simp add: d' queueTrigger_def sameRuns_def)
  show "waiting d' = insert (wuSession record) (waiting d)" using k(3) by (simp add: d' queueTrigger_def waiting_def)
qed

lemma setState_OK:
  assumes "setState i st flt (d, n) = (Inr u, d', n')" "dbOK d"
  shows "dbOK d'" "sameRuns d d'" "waiting d' = waiting d"
proof -
  define ws where "ws = map (\<lambda>w. if wuID w = i then w\<lparr>wuState := st\<rparr> else w) (dbEvents d)"
  have d': "d' = d\<lparr>dbEvents := ws\<rparr>" using assms(1) by (simp add: setState_def asql_success ws_def)
  have ids: "map wuID ws = map wuID (dbEvents d)" by (simp add: ws_def)
  have "filter (\<lambda>w. wuSession w = s) ws = map (\<lambda>w. if wuID w = i then w\<lparr>wuState := st\<rparr> else w) (filter (\<lambda>w. wuSession w = s) (dbEvents d))" for s
    by (simp add: ws_def filter_map comp_def if_distrib [of wuSession] cong: if_cong)
  then have "eventsOK (dbSessions d) ws" using assms(2) by (auto simp: dbOK_def eventsOK_def ws_def)
  then show "dbOK d'" using assms(2) ids by (simp add: d' dbOK_def agentKeysOK_def onceOK_def flip: mset_map)
  show "sameRuns d d'" "waiting d' = waiting d" by (simp_all add: d' sameRuns_def waiting_def)
qed


section \<open>Claims\<close>

text \<open>
  A claim keeps the invariant, the sessions and the runs; what waits afterwards waited before or is in its result, which has no
  duplicates.
\<close>

definition claimKeeps :: "agentDB \<Rightarrow> string list \<Rightarrow> agentDB \<Rightarrow> bool" where
  "claimKeeps d0 fired d = (dbOK d \<and> sameRuns d0 d \<and> distinct fired \<and> waiting d \<subseteq> waiting d0 \<union> set fired)"

lemma claimKeeps_start: "dbOK d \<Longrightarrow> claimKeeps d [] d"
  by (simp add: claimKeeps_def)

lemma sameRuns_trans: "sameRuns a b \<Longrightarrow> sameRuns b c \<Longrightarrow> sameRuns a c"
  by (simp add: sameRuns_def)

lemma appendUnique_simps [simp]: "set (appendUnique xs x) = insert x (set xs)" "distinct (appendUnique xs x) = distinct xs"
  by (auto simp: appendUnique_def)

lemma succ_fire:
  assumes "runningIn (dbSessions d0) (wuSession record)"
  shows "succ (claimKeeps d0 fired)
    (andThenD (fireEventTx record m now) (\<lambda>_. pureD (appendUnique fired (wuSession record)))) (claimKeeps d0)"
proof (rule succI)
  fix flt d n a d' n'
  assume keeps: "claimKeeps d0 fired d"
    and run: "andThenD (fireEventTx record m now) (\<lambda>_. pureD (appendUnique fired (wuSession record))) flt (d, n) = (Inr a, d', n')"
  then obtain n1 where f: "fireEventTx record m now flt (d, n) = (Inr (), d', n1)" and a: "a = appendUnique fired (wuSession record)"
    by (auto simp: asql_success)
  note k = fireEventTx_OK [OF f]
  have "dbOK d" "runningIn (dbSessions d) (wuSession record)"
    using keeps assms by (simp_all add: claimKeeps_def sameRuns_def)
  from k [OF this] show "claimKeeps d0 a d'"
    using keeps by (auto simp: claimKeeps_def a intro: sameRuns_trans)
qed

lemma succ_remember: "succ (claimKeeps d0 fired) (andThenD (setState i st) (\<lambda>_. pureD fired)) (claimKeeps d0)"
  by (rule succI) (auto simp: asql_success claimKeeps_def dest: setState_OK intro: sameRuns_trans)

lemma succ_keep: "succ (claimKeeps d0 fired) (pureD fired) (claimKeeps d0)"
  by (simp add: succ_pure)

text \<open>A loop over the events a query found.\<close>

lemma succ_events_loop:
  assumes "\<And>d0 record fired. record \<in> set (dbEvents d0) \<Longrightarrow> runningIn (dbSessions d0) (wuSession record) \<Longrightarrow>
    succ (claimKeeps d0 fired) (f record fired) (claimKeeps d0)"
  shows "succ (\<lambda>d. d = d0 \<and> dbOK d) (andThenD (queryEvents P) (\<lambda>ws. foldD f ws [])) (claimKeeps d0)"
  unfolding queryEvents_def
proof (rule succ_query_then)
  fix c0 assume c0: "c0 = d0 \<and> dbOK c0"
  then have "succ (claimKeeps d0 []) (foldD f (inOrder (filter P (dbEvents c0))) []) (claimKeeps d0)"
    by (intro succ_fold assms) (auto simp: inOrder_def dbOK_def eventsOK_def)
  then show "succ (\<lambda>c. c = c0) (foldD f (inOrder (filter P (dbEvents c0))) []) (claimKeeps d0)"
    by (rule succ_weaken) (use c0 claimKeeps_start in auto)
qed

lemma FireTimersTx_keeps: "succ (\<lambda>d. d = d0 \<and> dbOK d) (FireTimersTx now) (claimKeeps d0)"
  unfolding FireTimersTx_def by (intro succ_events_loop succ_fire)

lemma MatchPriceTx_keeps: "succ (\<lambda>d. d = d0 \<and> dbOK d) (MatchPriceTx fp now samples) (claimKeeps d0)"
  unfolding MatchPriceTx_def
proof (intro succ_events_loop)
  fix d1 :: agentDB and w :: wakeup and fired :: "string list"
  assume "runningIn (dbSessions d1) (wuSession w)"
  then show "succ (claimKeeps d1 fired) (matchPriceOne fp now samples w fired) (claimKeeps d1)"
    unfolding matchPriceOne_def
    by (auto split: option.split sum.split prod.split intro: succ_fire succ_remember succ_keep succ_reject)
qed

lemma MatchPositionCloseTx_keeps: "succ (\<lambda>d. d = d0 \<and> dbOK d) (MatchPositionCloseTx now samples) (claimKeeps d0)"
  unfolding MatchPositionCloseTx_def
proof (intro succ_events_loop)
  fix d1 :: agentDB and w :: wakeup and fired :: "string list"
  assume "runningIn (dbSessions d1) (wuSession w)"
  then show "succ (claimKeeps d1 fired) (matchCloseOne now samples w fired) (claimKeeps d1)"
    unfolding matchCloseOne_def Let_def
    by (auto split: option.split sum.split prod.split intro: succ_fire succ_remember succ_keep succ_reject)
qed

lemma removeAll_keeps:
  "succ (\<lambda>d. dbOK d \<and> sameRuns d0 d \<and> dbPending d = dbPending d0) (foldD (\<lambda>record _. RemoveRecordTx record outcome None None now) ws u)
    (\<lambda>_ d. dbOK d \<and> sameRuns d0 d \<and> dbPending d = dbPending d0)"
  by (rule succ_fold) (auto intro!: succI dest: RemoveRecordTx_OK intro: sameRuns_trans)

lemma ExpireTx_keeps: "succ (\<lambda>d. d = d0 \<and> dbOK d) (ExpireTx now) (\<lambda>_ d. dbOK d \<and> sameRuns d0 d \<and> dbPending d = dbPending d0)"
  unfolding ExpireTx_def queryEvents_def
proof (rule succ_query_then)
  fix c0 assume "c0 = d0 \<and> dbOK c0"
  then show "succ (\<lambda>c. c = c0) (foldD (\<lambda>record _. RemoveRecordTx record ''expired'' None None now)
      (inOrder (filter (\<lambda>w. wuExpiresAt w \<le> now) (dbEvents c0))) ()) (\<lambda>_ d. dbOK d \<and> sameRuns d0 d \<and> dbPending d = dbPending d0)"
    by (intro succ_weaken [OF removeAll_keeps]) auto
qed

lemma claimLocal_keeps: "succ (\<lambda>d. d = d0 \<and> dbOK d) (andThenD (ExpireTx now) (\<lambda>_. FireTimersTx now)) (claimKeeps d0)"
proof (rule succI)
  fix flt d n a d' n'
  assume "d = d0 \<and> dbOK d" "andThenD (ExpireTx now) (\<lambda>_. FireTimersTx now) flt (d, n) = (Inr a, d', n')"
  then obtain d1 n1 where e: "ExpireTx now flt (d, n) = (Inr (), d1, n1)" and t: "FireTimersTx now flt (d1, n1) = (Inr a, d', n')"
    by (auto simp: andThenD_Inr)
  have "dbOK d1" "sameRuns d0 d1" "dbPending d1 = dbPending d0"
    using succD [OF ExpireTx_keeps \<open>d = d0 \<and> dbOK d\<close> e] by simp_all
  moreover have "claimKeeps d1 a d'" using succD [OF FireTimersTx_keeps _ t] \<open>dbOK d1\<close> by blast
  ultimately show "claimKeeps d0 a d'" by (auto simp: claimKeeps_def waiting_def intro: sameRuns_trans)
qed

lemma dbOK_cursors [simp]: "dbOK (d\<lparr>dbWakeCursors := c\<rparr>) = dbOK d" "dbOK (d\<lparr>dbMentionCursors := m\<rparr>) = dbOK d"
  by (simp_all add: dbOK_def agentKeysOK_def)

lemma claimChatWake_keeps: "succ (\<lambda>d. d = d0 \<and> dbOK d) (claimChatWake now busy i enabled msgs) (claimKeeps d0)"
proof (rule succI)
  fix flt d n a d' n'
  assume d: "d = d0 \<and> dbOK d" and run: "claimChatWake now busy i enabled msgs flt (d, n) = (Inr a, d', n')"
  show "claimKeeps d0 a d'"
  proof (cases "find (\<lambda>s. ssID s = i) (dbSessions d)")
    case None
    then show ?thesis using d run by (auto simp: claimChatWake_def asql_success claimKeeps_def)
  next
    case (Some s)
    then have "s \<in> set (dbSessions d)" "ssID s = i" by (auto simp: find_Some_iff)
    then have q: "ssStatus s = ''running'' \<Longrightarrow> dbOK (queueTrigger i p now d)" for p
      using d by (intro queueTrigger_OK) (auto simp: runningIn_def)
    show ?thesis using d run Some q
      by (auto simp: claimChatWake_def asql_success claimKeeps_def upsertWake_def enqueueTriggerTx_def sameRuns_def waiting_def
          queueTrigger_def Let_def split: if_splits)
  qed
qed

lemma claimTx_keeps: "succ (\<lambda>d. d = d0 \<and> dbOK d) (claimTx fp now r c) (claimKeeps d0)"
  by (cases c) (simp_all add: claimTx_def claimLocal_keeps MatchPriceTx_keeps MatchPositionCloseTx_keeps claimChatWake_keeps)

section \<open>Runs\<close>

text \<open>The keys of the rows that are running.\<close>

definition runningKeys :: "agentDB \<Rightarrow> (string \<times> int) set" where
  "runningKeys d = runKey ` {x \<in> set (dbRuns d). rnStatus x = ''running''}"

definition noRunIn :: "agentDB \<Rightarrow> string \<Rightarrow> bool" where
  "noRunIn d i = (\<forall>k. (i, k) \<notin> runningKeys d)"

lemma runningKeys_sameRuns: "sameRuns d d' \<Longrightarrow> runningKeys d' = runningKeys d"
  by (simp add: runningKeys_def sameRuns_def)

lemma drop_batch: "distinct (map f ps) \<Longrightarrow> filter (\<lambda>p. f p \<notin> f ` set (take n ps)) ps = drop n ps"
proof -
  assume d: "distinct (map f ps)"
  then have "set (map f (take n ps)) \<inter> set (map f (drop n ps)) = {}"
    by (metis append_take_drop_id distinct_append map_append)
  then have "filter (\<lambda>p. f p \<notin> f ` set (take n ps)) (take n ps @ drop n ps) = drop n ps"
    by (auto simp del: append_take_drop_id simp: filter_empty_conv filter_id_conv)
  then show ?thesis by simp
qed

lemma pendingIn_batch:
  fixes ps :: "pendingTrigger list"
  assumes "distinct (map ptID ps)" "batch = take n (filter (\<lambda>p. ptSession p = i) ps)"
  shows "pendingIn j (filter (\<lambda>p. ptID p \<notin> ptID ` set batch) ps) =
    (if j = i then map ptPayload (drop n (filter (\<lambda>p. ptSession p = i) ps)) else pendingIn j ps)"
proof -
  have inj: "p \<in> set ps \<Longrightarrow> q \<in> set ps \<Longrightarrow> ptID p = ptID q \<Longrightarrow> p = q" for p q
    using assms(1) by (meson distinct_map inj_onD)
  have sub: "p \<in> set batch \<Longrightarrow> p \<in> set ps \<and> ptSession p = i" for p
    using assms(2) by (auto dest: in_set_takeD)
  have "distinct (map ptID (filter (\<lambda>p. ptSession p = i) ps))" using assms(1) by (rule distinct_map_filter)
  from drop_batch [OF this, of n]
  have "filter (\<lambda>p. ptSession p = i) (filter (\<lambda>p. ptID p \<notin> ptID ` set batch) ps) = drop n (filter (\<lambda>p. ptSession p = i) ps)"
    by (simp add: assms(2) conj_commute)
  moreover have "filter (\<lambda>p. ptSession p = j) (filter (\<lambda>p. ptID p \<notin> ptID ` set batch) ps) = filter (\<lambda>p. ptSession p = j) ps" if "j \<noteq> i"
    using that sub inj by (auto intro!: filter_cong)
  ultimately show ?thesis by (auto simp: pendingIn_def)
qed

lemma runningIn_map:
  assumes "runningIn ss j" "\<And>t. ssID (g t) = ssID t" "\<And>t. t \<in> set ss \<Longrightarrow> ssID t = i \<Longrightarrow> ssStatus t = ''running'' \<Longrightarrow> ssStatus (g t) = ''running''"
  shows "runningIn (map (\<lambda>t. if ssID t = i then g t else t) ss) j"
proof -
  obtain t where "t \<in> set ss" "ssID t = j" "ssStatus t = ''running''" using assms(1) by (auto simp: runningIn_def)
  then show ?thesis unfolding runningIn_def using assms(2,3) by (intro bexI [of _ "if ssID t = i then g t else t"]) auto
qed

lemma queueOK_filter: "queueOK ss ps n \<Longrightarrow> queueOK ss (filter P ps) n"
  by (simp add: queueOK_def sorted_wrt_map sorted_wrt_filter)

lemma deliveredTo_append: "deliveredTo i k (ds @ es) = deliveredTo i k ds @ deliveredTo i k es"
  by (simp add: deliveredTo_def)

lemma addRun_OK:
  assumes ok: "dbOK d" and s: "s \<in> set (dbSessions d)" "ssID s = i" and noRunIn: "noRunIn d i"
    and x: "runKey x = (i, ssCurrentRunID s + 1)" "rnStatus x = ''running''"
    and g: "\<And>t. ssID (g t) = ssID t" "ssStatus (g s) = ''running''" "ssCurrentRunID (g s) = ssCurrentRunID s + 1"
    and batch: "batch = take n (filter (\<lambda>p. ptSession p = i) (dbPending d))" "length batch \<le> MaxTriggersPerRun"
      "rnTriggers x = (if batch = [] then None else Some (map ptPayload batch))"
    and d': "d' = d\<lparr>dbSessions := map (\<lambda>t. if ssID t = i then g t else t) (dbSessions d), dbRuns := dbRuns d @ [x],
      dbPending := filter (\<lambda>p. ptID p \<notin> ptID ` set batch) (dbPending d),
      dbDelivered := dbDelivered d @ map (\<lambda>p. (i, ToRun (rnID x), ptPayload p)) batch\<rparr>"
  shows "dbOK d'" "runningKeys d' = insert (runKey x) (runningKeys d)" "waiting d' \<subseteq> waiting d"
proof -
  have only: "t = s" if "t \<in> set (dbSessions d)" "ssID t = i" for t
    using that ok s by (metis dbOK_def agentKeysOK_def distinct_map inj_onD)
  have ids: "map ssID (dbSessions d') = map ssID (dbSessions d)" by (simp add: d' g(1))
  have fresh: "runKey x \<notin> runKey ` set (dbRuns d)"
  proof
    assume "runKey x \<in> runKey ` set (dbRuns d)"
    then obtain y where y: "y \<in> set (dbRuns d)" "runKey y = runKey x" by (metis imageE)
    then have "runOK (dbSessions d) y" using ok by (simp add: dbOK_def)
    then show False using y(2) x(1) only by (auto simp: runOK_def runKey_def)
  qed
  have sessions: "t \<in> set (dbSessions d') \<Longrightarrow> t = g s \<or> t \<in> set (dbSessions d) \<and> ssID t \<noteq> i" for t
    using only by (auto simp: d' split: if_splits)
  have gs: "g s \<in> set (dbSessions d')" using s by (auto simp: d')
  have running: "runningIn (dbSessions d') j" if "runningIn (dbSessions d) j" for j
    unfolding d' using that g only by (auto intro!: runningIn_map)
  have runs: "runOK (dbSessions d') y" if y: "y \<in> set (dbRuns d)" for y
  proof -
    obtain t where t: "t \<in> set (dbSessions d)" "ssID t = rnSession y" "1 \<le> rnID y" "rnID y \<le> ssCurrentRunID t"
      "rnStatus y = ''running'' \<Longrightarrow> ssStatus t = ''running'' \<and> rnID y = ssCurrentRunID t"
      using runOK_E [OF ok y] by metis
    show ?thesis
    proof (cases "ssID t = i")
      case True
      then have "t = s" using t only by simp
      moreover have "rnStatus y \<noteq> ''running''" using noRunIn y t(2) True by (auto simp: noRunIn_def runningKeys_def runKey_def)
      ultimately show ?thesis using gs t g by (auto simp: runOK_def intro!: bexI [of _ "g s"])
    next
      case False
      then have "t \<in> set (dbSessions d')" using t(1) by (force simp: d')
      then show ?thesis using t by (auto simp: runOK_def)
    qed
  qed
  have new: "runOK (dbSessions d') x"
    using gs g s x ok by (auto simp: runOK_def runKey_def dbOK_def sessionOK_def intro!: bexI [of _ "g s"])
  have "sessionOK (dbRuns d') t" if "t \<in> set (dbSessions d')" for t
    using sessions [OF that] ok x g s by (auto simp: dbOK_def sessionOK_def d')
  moreover have "eventsOK (dbSessions d') (dbEvents d')" using ok running by (auto simp: dbOK_def eventsOK_def d')
  moreover have "queueOK (dbSessions d') (dbPending d') (dbTriggerSeq d')"
    using ok running queueOK_filter by (fastforce simp: dbOK_def queueOK_def d' sorted_wrt_map sorted_wrt_filter)
  moreover have "fifoOK (dbQueued d') (dbDelivered d') (dbPending d')"
  proof -
    have dist: "distinct (map ptID (dbPending d))" using ok by (auto simp: dbOK_def queueOK_def strict_sorted_iff)
    have "pendingIn i (dbPending d) = map ptPayload batch @ map ptPayload (drop n (filter (\<lambda>p. ptSession p = i) (dbPending d)))"
      unfolding batch(1) pendingIn_def by (metis append_take_drop_id map_append)
    then show ?thesis using ok pendingIn_batch [OF dist batch(1)]
      by (auto simp: dbOK_def fifoOK_def d' deliveredOf_def comp_def filter_map)
  qed
  moreover have "batchOK (dbDelivered d') (dbRuns d')"
  proof -
    have old: "deliveredTo (rnSession y) (rnID y) (map (\<lambda>p. (i, ToRun (rnID x), ptPayload p)) batch) = []" if "y \<in> set (dbRuns d)" for y
      using fresh that x(1) by (auto simp: deliveredTo_def filter_empty_conv runKey_def image_iff)
    have "(i, rnID x) \<notin> runKey ` set (dbRuns d)" using fresh x(1) by (simp add: runKey_def)
    then have "(i, ToRun (rnID x), p) \<notin> set (dbDelivered d)" for p using ok delivered_run unfolding dbOK_def by blast
    then have none: "deliveredTo i (rnID x) (dbDelivered d) = []" by (auto simp: deliveredTo_def filter_empty_conv)
    have "deliveredTo i (rnID x) (map (\<lambda>p. (i, ToRun (rnID x), ptPayload p)) batch) = map ptPayload batch"
      by (simp add: deliveredTo_def comp_def filter_map)
    then have "deliveredTo (rnSession x) (rnID x) (dbDelivered d') = (case rnTriggers x of None \<Rightarrow> [] | Some ps \<Rightarrow> ps)"
      using none x(1) batch(3) by (auto simp: d' deliveredTo_append runKey_def)
    moreover have "deliveredTo (rnSession y) (rnID y) (dbDelivered d') = (case rnTriggers y of None \<Rightarrow> [] | Some ps \<Rightarrow> ps)"
      if "y \<in> set (dbRuns d)" for y
      using ok that old by (simp add: dbOK_def batchOK_def d' deliveredTo_append)
    moreover have "(j, k) \<in> runKey ` set (dbRuns d')" if "(j, ToRun k, p) \<in> set (dbDelivered d')" for j k p
    proof -
      have "(j, ToRun k, p) \<in> set (dbDelivered d) \<or> (j, k) = runKey x"
        using that x(1) by (auto simp: d' runKey_def)
      moreover have "batchOK (dbDelivered d) (dbRuns d)" using ok by (simp add: dbOK_def)
      ultimately show ?thesis using delivered_run by (force simp: d')
    qed
    moreover have "ps \<noteq> [] \<and> length ps \<le> MaxTriggersPerRun" if "y \<in> set (dbRuns d')" "rnTriggers y = Some ps" for y ps
      using ok that batch(2,3) by (auto simp: dbOK_def batchOK_def d' split: if_splits)
    ultimately show ?thesis unfolding batchOK_def by (simp add: d')
  qed
  ultimately show "dbOK d'" using ok ids fresh runs new
    by (simp add: dbOK_def agentKeysOK_def) (simp add: d')
  show "runningKeys d' = insert (runKey x) (runningKeys d)" using x(2) by (auto simp: runningKeys_def d')
  show "waiting d' \<subseteq> waiting d" by (auto simp: waiting_def d')
qed

text \<open>Rows that change without starting to run.\<close>

lemma mapRuns_OK:
  assumes ok: "dbOK d" and f: "\<And>x. runKey (f x) = runKey x" "\<And>x. rnTriggers (f x) = rnTriggers x"
    "\<And>x. rnStatus (f x) = ''running'' \<Longrightarrow> rnStatus x = ''running''"
  shows "dbOK (d\<lparr>dbRuns := map f (dbRuns d)\<rparr>)"
    "runningKeys (d\<lparr>dbRuns := map f (dbRuns d)\<rparr>) = runKey ` {x \<in> set (dbRuns d). rnStatus (f x) = ''running''}"
proof -
  have keys: "map runKey (map f (dbRuns d)) = map runKey (dbRuns d)" using f(1) by simp
  have img: "runKey ` set (map f (dbRuns d)) = runKey ` set (dbRuns d)" by (simp add: image_image f(1))
  have id: "rnID (f x) = rnID x" "rnSession (f x) = rnSession x" for x using f(1) [of x] by (simp_all add: runKey_def)
  have "runOK (dbSessions d) (f x)" if "runOK (dbSessions d) x" for x
    using that f(3) [of x] by (auto simp: runOK_def id)
  moreover have "sessionOK (map f (dbRuns d)) s" if "sessionOK (dbRuns d) s" for s
    using that img by (simp add: sessionOK_def del: set_map)
  moreover have "batchOK (dbDelivered d) (map f (dbRuns d))" if "batchOK (dbDelivered d) (dbRuns d)"
    unfolding batchOK_def img using that by (simp add: batchOK_def id f(2))
  ultimately show "dbOK (d\<lparr>dbRuns := map f (dbRuns d)\<rparr>)" using ok keys by (simp add: dbOK_def agentKeysOK_def del: map_map)
  show "runningKeys (d\<lparr>dbRuns := map f (dbRuns d)\<rparr>) = runKey ` {x \<in> set (dbRuns d). rnStatus (f x) = ''running''}"
    by (force simp: runningKeys_def image_iff f(1))
qed

text \<open>Session rows that change without a new run, when what depends on their status is gone.\<close>

lemma mapSessions_OK:
  assumes ok: "dbOK d" and g: "\<And>t. ssID (g t) = ssID t" "\<And>t. ssCurrentRunID (g t) = ssCurrentRunID t" "\<And>t. ssStatus (g t) \<noteq> ''running''"
    and gone: "noRunIn d i" "\<forall>w \<in> set (dbEvents d). wuSession w \<noteq> i" "i \<notin> waiting d"
  shows "dbOK (d\<lparr>dbSessions := map (\<lambda>t. if ssID t = i then g t else t) (dbSessions d)\<rparr>)"
proof -
  let ?ss = "map (\<lambda>t. if ssID t = i then g t else t) (dbSessions d)"
  have ids: "map ssID ?ss = map ssID (dbSessions d)" by (simp add: g(1))
  have running: "runningIn ?ss j" if "runningIn (dbSessions d) j" "j \<noteq> i" for j
    using that by (force simp: runningIn_def)
  have "runOK ?ss x" if "x \<in> set (dbRuns d)" for x
  proof -
    obtain t where t: "t \<in> set (dbSessions d)" "ssID t = rnSession x" "1 \<le> rnID x" "rnID x \<le> ssCurrentRunID t"
      "rnStatus x = ''running'' \<Longrightarrow> ssStatus t = ''running'' \<and> rnID x = ssCurrentRunID t"
      using runOK_E [OF ok \<open>x \<in> set (dbRuns d)\<close>] by metis
    have "rnStatus x \<noteq> ''running''" if "ssID t = i"
      using gone(1) \<open>x \<in> set (dbRuns d)\<close> t(2) that by (auto simp: noRunIn_def runningKeys_def runKey_def)
    then show ?thesis unfolding runOK_def using t g by (intro bexI [of _ "if ssID t = i then g t else t"]) auto
  qed
  moreover have "\<forall>t \<in> set ?ss. sessionOK (dbRuns d) t" using ok g by (auto simp: dbOK_def sessionOK_def)
  moreover have "eventsOK ?ss (dbEvents d)" using ok running gone(2) by (auto simp: dbOK_def eventsOK_def)
  moreover have "ptSession p \<noteq> i" if "p \<in> set (dbPending d)" for p using gone(3) that by (auto simp: waiting_def)
  then have "queueOK ?ss (dbPending d) (dbTriggerSeq d)" using ok running by (auto simp: dbOK_def queueOK_def)
  ultimately show ?thesis using ok ids by (simp add: dbOK_def agentKeysOK_def del: map_map)
qed

lemma insertSession_OK:
  assumes ok: "dbOK d" and s: "ssID s \<notin> ssID ` set (dbSessions d)" "ssStatus s \<noteq> ''running''" "ssCurrentRunID s = 0"
  shows "dbOK (d\<lparr>dbSessions := dbSessions d @ [s]\<rparr>)"
proof -
  have mono: "runningIn (dbSessions d @ [s]) j" if "runningIn (dbSessions d) j" for j using that by (auto simp: runningIn_def)
  have "runOK (dbSessions d @ [s]) x" if "runOK (dbSessions d) x" for x using that by (auto simp: runOK_def)
  then show ?thesis using ok s mono by (auto simp: dbOK_def agentKeysOK_def sessionOK_def eventsOK_def queueOK_def)
qed

section \<open>Clearing a session\<close>

lemma removeAll_events:
  assumes "foldD (\<lambda>record _. RemoveRecordTx record outcome None None now) ws () flt (d, n) = (Inr u, d', n')" "dbOK d"
  shows "dbOK d'" "sameRuns d d'" "dbPending d' = dbPending d" "dbEvents d' = filter (\<lambda>w. wuID w \<notin> wuID ` set ws) (dbEvents d)"
    "dbLog d' = dbLog d @ map (\<lambda>w. logEntry w outcome None None now) ws"
proof -
  have "dbOK d' \<and> sameRuns d d' \<and> dbPending d' = dbPending d \<and> dbEvents d' = filter (\<lambda>w. wuID w \<notin> wuID ` set ws) (dbEvents d) \<and>
    dbLog d' = dbLog d @ map (\<lambda>w. logEntry w outcome None None now) ws"
    using assms
  proof (induction ws arbitrary: d n)
    case Nil
    then show ?case by (simp add: asql_success)
  next
    case (Cons w ws)
    then obtain d1 n1 where r: "RemoveRecordTx w outcome None None now flt (d, n) = (Inr (), d1, n1)"
      and rest: "foldD (\<lambda>record _. RemoveRecordTx record outcome None None now) ws () flt (d1, n1) = (Inr u, d', n')"
      by (auto simp: andThenD_Inr)
    note k = RemoveRecordTx_OK [OF r Cons.prems(2)]
    show ?case using Cons.IH [OF rest k(1)] k by (auto simp: filter_filter conj_commute intro: sameRuns_trans)
  qed
  then show "dbOK d'" "sameRuns d d'" "dbPending d' = dbPending d" "dbEvents d' = filter (\<lambda>w. wuID w \<notin> wuID ` set ws) (dbEvents d)"
    "dbLog d' = dbLog d @ map (\<lambda>w. logEntry w outcome None None now) ws" by blast+
qed

lemma pendingOf_payloads: "dbOK d \<Longrightarrow> map ptPayload (pendingOf i d) = pendingIn i (dbPending d)"
  by (auto simp: dbOK_def pendingIn_def pendingOf_filter)

lemma ClearSessionTx_OK:
  assumes "ClearSessionTx i now outcome flt (d, n) = (Inr (ws, ps), d', n')" "dbOK d"
  shows "dbOK d'" "dbSessions d' = dbSessions d" "dbRuns d' = dbRuns d" "\<forall>w \<in> set (dbEvents d'). wuSession w \<noteq> i" "i \<notin> waiting d'"
    "waiting d' \<subseteq> waiting d" "ws = inOrder (filter (\<lambda>w. wuSession w = i) (dbEvents d))" "ps = pendingIn i (dbPending d)"
    "dbEvents d' = filter (\<lambda>w. wuSession w \<noteq> i) (dbEvents d)" "dbLog d' = dbLog d @ map (\<lambda>w. logEntry w outcome None None now) ws"
proof -
  obtain d1 n1 where ws: "ws = inOrder (filter (\<lambda>w. wuSession w = i) (dbEvents d))"
    and loop: "foldD (\<lambda>record _. RemoveRecordTx record outcome None None now) ws () flt (d, Suc n) = (Inr (), d1, n1)"
    and ps: "ps = map ptPayload (pendingOf i d1)"
    and d': "d' = d1\<lparr>dbPending := filter (\<lambda>p. ptSession p \<noteq> i) (dbPending d1), dbDelivered := dbDelivered d1 @ map (\<lambda>p. (i, ToRestart, p)) ps\<rparr>"
    using assms(1) by (auto simp: ClearSessionTx_def queryEvents_def PendingPayloadsTx_def asql_success)
  note k = removeAll_events [OF loop assms(2)]
  show "ws = inOrder (filter (\<lambda>w. wuSession w = i) (dbEvents d))" by fact
  show "ps = pendingIn i (dbPending d)" using ps k(1,3) pendingOf_payloads by simp
  show "dbSessions d' = dbSessions d" "dbRuns d' = dbRuns d" using k(2) by (simp_all add: d' sameRuns_def)
  have inj: "w \<in> set (dbEvents d) \<Longrightarrow> v \<in> set (dbEvents d) \<Longrightarrow> wuID w = wuID v \<Longrightarrow> w = v" for w v
    using assms(2) by (metis dbOK_def agentKeysOK_def distinct_map inj_onD)
  then show ev: "dbEvents d' = filter (\<lambda>w. wuSession w \<noteq> i) (dbEvents d)"
    by (auto simp: d' k(4) ws inOrder_def intro!: filter_cong)
  then show "\<forall>w \<in> set (dbEvents d'). wuSession w \<noteq> i" by simp
  show "i \<notin> waiting d'" "waiting d' \<subseteq> waiting d" using k(3) by (auto simp: d' waiting_def)
  show "dbLog d' = dbLog d @ map (\<lambda>w. logEntry w outcome None None now) ws" using k(5) by (simp add: d')
  have "fifoOK (dbQueued d1) (dbDelivered d1 @ map (\<lambda>p. (i, ToRestart, p)) ps) (filter (\<lambda>p. ptSession p \<noteq> i) (dbPending d1))"
    unfolding fifoOK_def
  proof
    fix j
    have "queuedFor j (dbQueued d1) = deliveredOf j (dbDelivered d1) @ pendingIn j (dbPending d1)"
      using k(1) by (simp add: dbOK_def fifoOK_def)
    moreover have "deliveredOf j (map (\<lambda>p. (i, ToRestart, p)) ps) = (if j = i then pendingIn j (dbPending d1) else [])"
      using pendingOf_payloads [OF k(1), of i] by (simp add: deliveredOf_def ps filter_map comp_def)
    moreover have "pendingIn j (filter (\<lambda>p. ptSession p \<noteq> i) (dbPending d1)) = (if j = i then [] else pendingIn j (dbPending d1))"
      by (auto simp: pendingIn_def filter_empty_conv intro!: arg_cong [of _ _ "map ptPayload"] filter_cong)
    ultimately show "queuedFor j (dbQueued d1) = deliveredOf j (dbDelivered d1 @ map (\<lambda>p. (i, ToRestart, p)) ps) @
        pendingIn j (filter (\<lambda>p. ptSession p \<noteq> i) (dbPending d1))"
      by (simp add: deliveredOf_def)
  qed
  moreover have "batchOK (dbDelivered d1 @ map (\<lambda>p. (i, ToRestart, p)) ps) (dbRuns d1)"
  proof -
    have "deliveredTo j k (map (\<lambda>p. (i, ToRestart, p)) ps) = []" for j k by (simp add: deliveredTo_def filter_empty_conv)
    moreover have "(j, k) \<in> runKey ` set (dbRuns d1)" if "(j, ToRun k, p) \<in> set (dbDelivered d1 @ map (\<lambda>p. (i, ToRestart, p)) ps)" for j k p
    proof -
      have "(j, ToRun k, p) \<in> set (dbDelivered d1)" using that by auto
      then show ?thesis using k(1) delivered_run unfolding dbOK_def by blast
    qed
    moreover have "batchOK (dbDelivered d1) (dbRuns d1)" using k(1) by (simp add: dbOK_def)
    ultimately show ?thesis unfolding batchOK_def deliveredTo_append by simp
  qed
  ultimately show "dbOK d'" using k(1) queueOK_filter by (simp add: d' dbOK_def agentKeysOK_def)
qed

lemma CreateForRun_OK:
  assumes "CreateForRun w flt (d, n) = (Inr res, d', n')" "dbOK d" "runningIn (dbSessions d) (wuSession w)"
  shows "dbOK d'" "sameRuns d d'" "dbPending d' = dbPending d"
    "res = EventDone (wuID w) (wuType w) ''created'' \<and> dbEvents d' = dbEvents d @ [w\<lparr>wuState := NoState\<rparr>] \<or>
     res = EventError ''EVENT_LIMIT_EXCEEDED'' ''not_executed'' \<and> d' = d"
proof -
  consider "res = EventError ''EVENT_LIMIT_EXCEEDED'' ''not_executed''" "d' = d"
    | "length (filter (\<lambda>v. wuSession v = wuSession w) (dbEvents d)) < maxActiveEvents" "wuID w \<notin> wuID ` set (dbEvents d)"
      "res = EventDone (wuID w) (wuType w) ''created''" "d' = insertEvent w d"
    using assms(1) by (auto simp: CreateForRun_def asql_success not_le split: if_splits)
  then have "dbOK d' \<and> sameRuns d d' \<and> dbPending d' = dbPending d \<and>
    (res = EventDone (wuID w) (wuType w) ''created'' \<and> dbEvents d' = dbEvents d @ [w\<lparr>wuState := NoState\<rparr>] \<or>
     res = EventError ''EVENT_LIMIT_EXCEEDED'' ''not_executed'' \<and> d' = d)"
  proof cases
    case 1
    then show ?thesis using assms(2) by simp
  next
    case 2
    then have "eventsOK (dbSessions d) (dbEvents d')" using assms(2,3) by (auto simp: dbOK_def eventsOK_def insertEvent_def)
    then show ?thesis using assms(2) 2 by (auto simp: dbOK_def agentKeysOK_def onceOK_def insertEvent_def sameRuns_def)
  qed
  then show "dbOK d'" "sameRuns d d'" "dbPending d' = dbPending d"
    "res = EventDone (wuID w) (wuType w) ''created'' \<and> dbEvents d' = dbEvents d @ [w\<lparr>wuState := NoState\<rparr>] \<or>
     res = EventError ''EVENT_LIMIT_EXCEEDED'' ''not_executed'' \<and> d' = d" by blast+
qed

lemma DeleteForRun_OK:
  assumes "DeleteForRun i k ev now flt (d, n) = (Inr res, d', n')" "dbOK d"
  shows "dbOK d' \<and> sameRuns d d' \<and> dbPending d' = dbPending d"
  using assms by (auto simp: DeleteForRun_def asql_success split: option.splits dest: RemoveRecordTx_OK)

section \<open>Starting runs\<close>

lemma found_session: "find (\<lambda>s. ssID s = i) ss = Some s \<Longrightarrow> s \<in> set ss \<and> ssID s = i"
  by (auto simp: find_Some_iff)

lemma found_run: "find (\<lambda>x. rnSession x = i \<and> rnID x = k) xs = Some x \<Longrightarrow> x \<in> set xs \<and> runKey x = (i, k)"
  by (auto simp: find_Some_iff runKey_def)

lemma running_found:
  assumes "dbOK d" "runningIn (dbSessions d) i"
  shows "\<exists>s. find (\<lambda>s. ssID s = i) (dbSessions d) = Some s \<and> ssStatus s = ''running''"
proof -
  obtain s where "s \<in> set (dbSessions d)" "ssID s = i" "ssStatus s = ''running''" using assms(2) by (auto simp: runningIn_def)
  then show ?thesis using assms(1) find_session [of "dbSessions d" i s] by (auto simp: dbOK_def agentKeysOK_def)
qed

lemma waiting_running: "dbOK d \<Longrightarrow> i \<in> waiting d \<Longrightarrow> runningIn (dbSessions d) i"
  by (auto simp: dbOK_def queueOK_def waiting_def)

lemma waiting_pending: "dbOK d \<Longrightarrow> i \<in> waiting d \<longleftrightarrow> pendingOf i d \<noteq> []"
  by (auto simp: dbOK_def pendingOf_filter waiting_def filter_empty_conv)

lemma idle_not_running:
  assumes "dbOK d" "s \<in> set (dbSessions d)" "ssID s = i" "ssStatus s \<noteq> ''running''"
  shows "noRunIn d i"
proof (unfold noRunIn_def, intro allI notI)
  fix k assume "(i, k) \<in> runningKeys d"
  then obtain x where x: "x \<in> set (dbRuns d)" "rnSession x = i" "rnStatus x = ''running''" by (auto simp: runningKeys_def runKey_def)
  then obtain t where "t \<in> set (dbSessions d)" "ssID t = i" "ssStatus t = ''running''" using runOK_E [OF assms(1) x(1)] by metis
  then show False using assms by (metis dbOK_def agentKeysOK_def distinct_map inj_onD)
qed

lemma idle_current:
  assumes "dbOK d" "s \<in> set (dbSessions d)" "ssID s = i" "x \<in> set (dbRuns d)" "runKey x = (i, ssCurrentRunID s)" "rnStatus x \<noteq> ''running''"
  shows "noRunIn d i"
proof (unfold noRunIn_def, intro allI notI)
  fix k assume "(i, k) \<in> runningKeys d"
  then obtain y where y: "y \<in> set (dbRuns d)" "runKey y = (i, k)" "rnStatus y = ''running''" by (auto simp: runningKeys_def)
  then obtain t where "t \<in> set (dbSessions d)" "ssID t = i" "k = ssCurrentRunID t"
    using runOK_E [OF assms(1) y(1)] by (metis runKey_def prod.inject)
  then have "runKey y = runKey x" using assms y by (metis dbOK_def agentKeysOK_def distinct_map inj_onD)
  then have "y = x" using assms(1,4) y(1) by (metis dbOK_def agentKeysOK_def distinct_map inj_onD)
  then show False using y(3) assms(6) by simp
qed

text \<open>\<open>starts d i k d'\<close>: the step from \<open>d\<close> to \<open>d'\<close> adds the running run \<open>k\<close> of the session \<open>i\<close>.\<close>

definition starts :: "agentDB \<Rightarrow> string \<Rightarrow> int \<Rightarrow> agentDB \<Rightarrow> bool" where
  "starts d i k d' = (dbOK d' \<and> runningKeys d' = insert (i, k) (runningKeys d) \<and> waiting d' \<subseteq> waiting d \<and>
     dbEvents d' = dbEvents d \<and> dbLog d' = dbLog d \<and> dbQueued d' = dbQueued d)"

lemma empty_batch: "d\<lparr>dbPending := filter (\<lambda>p. ptID p \<notin> ptID ` set []) (dbPending d), dbDelivered := dbDelivered d @ map h []\<rparr> = d"
  by simp

lemma addRun_starts:
  assumes "dbOK d" "s \<in> set (dbSessions d)" "ssID s = i" "noRunIn d i" "runKey x = (i, ssCurrentRunID s + 1)" "rnStatus x = ''running''"
    "rnTriggers x = None" "\<And>t. ssID (g t) = ssID t" "ssStatus (g s) = ''running''" "ssCurrentRunID (g s) = ssCurrentRunID s + 1"
    "d' = d\<lparr>dbSessions := map (\<lambda>t. if ssID t = i then g t else t) (dbSessions d), dbRuns := dbRuns d @ [x]\<rparr>"
  shows "starts d i (ssCurrentRunID s + 1) d'"
proof -
  note a = addRun_OK [OF assms(1-6,8-10), where batch = "[]" and n = 0, OF _ _ _ refl]
  show ?thesis using a assms(5,7,11) by (simp add: starts_def)
qed

lemma startSessionTx_OK:
  assumes "startSessionTx now busy i flt (d, n) = (Inr (Inr (k, trigger)), d', n')" "dbOK d"
  shows "starts d i k d'" "\<not> busy"
proof -
  obtain s where s: "find (\<lambda>s. ssID s = i) (dbSessions d) = Some s" "ssStatus s = ''stopped''" and "\<not> busy" and k: "k = ssCurrentRunID s + 1"
    and d': "d' = d\<lparr>dbSessions := map (\<lambda>t. if ssID t = i then t\<lparr>ssStatus := ''running'', ssCurrentRunID := k, ssStartedAt := Some now,
      ssStoppedAt := None\<rparr> else t) (dbSessions d), dbRuns := dbRuns d @ [newRun i k trigger None now]\<rparr>"
    using assms(1) by (auto simp: startSessionTx_def sessionByID_def updateSession_def insertRun_def asql_success Let_def split: option.splits if_splits)
  show "\<not> busy" by fact
  have "s \<in> set (dbSessions d)" "ssID s = i" using found_session [OF s(1)] by simp_all
  then show "starts d i k d'" unfolding k
    using idle_not_running [OF assms(2)] s(2) assms(2)
    by (intro addRun_starts [OF _ _ _ _ _ _ _ _ _ _ d']) (auto simp: newRun_def runKey_def k)
qed

lemma retryRunTx_OK:
  assumes "retryRunTx now i k0 flt (d, n) = (Inr (Inr k), d', n')" "dbOK d"
  shows "starts d i k d'"
proof -
  obtain s x where s: "find (\<lambda>s. ssID s = i) (dbSessions d) = Some s" "ssStatus s = ''running''"
    and x: "find (\<lambda>x. rnSession x = i \<and> rnID x = k0) (dbRuns d) = Some x" "rnStatus x = ''failed''" "ssCurrentRunID s = rnID x"
    and k: "k = rnID x + 1"
    and d': "d' = d\<lparr>dbRuns := dbRuns d @ [retryRow x now],
      dbSessions := map (\<lambda>t. if ssID t = i then t\<lparr>ssCurrentRunID := k\<rparr> else t) (dbSessions d)\<rparr>"
    using assms(1)
    by (auto simp: retryRunTx_def sessionByID_def runByID_def updateSession_def insertRun_def asql_success split: option.splits if_splits)
  have mem: "s \<in> set (dbSessions d)" "ssID s = i" "x \<in> set (dbRuns d)" "runKey x = (i, k0)"
    using found_session [OF s(1)] found_run [OF x(1)] by simp_all
  then have id: "rnID x = k0" by (simp add: runKey_def)
  then have "noRunIn d i" using idle_current [OF assms(2) mem(1-3)] mem(4) x(2,3) by simp
  then have "starts d i (ssCurrentRunID s + 1) d'"
  proof (rule addRun_starts [OF assms(2) mem(1,2)])
    let ?x = "retryRow x now"
    show "runKey ?x = (i, ssCurrentRunID s + 1)" "rnStatus ?x = ''running''" "rnTriggers ?x = None"
      using mem(4) by (simp_all add: retryRow_def newRun_def runKey_def x(3))
    show "d' = d\<lparr>dbSessions := map (\<lambda>t. if ssID t = i then t\<lparr>ssCurrentRunID := k\<rparr> else t) (dbSessions d), dbRuns := dbRuns d @ [?x]\<rparr>"
      by (simp add: d')
  qed (simp_all add: s(2) k x(3))
  then show ?thesis by (simp add: k x(3))
qed

lemma startPendingRunTx_OK:
  assumes "startPendingRunTx now i flt (d, n) = (Inr res, d', n')" "dbOK d" "noRunIn d i"
  shows "case res of None \<Rightarrow> d' = d \<and> i \<notin> waiting d
    | Some (j, k, trigger) \<Rightarrow> j = i \<and> trigger = ''event'' \<and> starts d i k d'"
proof (cases res)
  case None
  have "d' = d \<and> (find (\<lambda>s. ssID s = i) (dbSessions d) = None \<or>
      (\<exists>s. find (\<lambda>s. ssID s = i) (dbSessions d) = Some s \<and> (ssStatus s \<noteq> ''running'' \<or> take MaxTriggersPerRun (pendingOf i d) = [])))"
    using assms(1) None
    by (auto simp: startPendingRunTx_def sessionByID_def PendingPayloadsTx_def asql_success Let_def MaxTriggersPerRun_def
        split: option.splits if_splits)
  moreover have "MaxTriggersPerRun \<noteq> 0" by (simp add: MaxTriggersPerRun_def)
  ultimately show ?thesis using None waiting_running [OF assms(2), of i] waiting_pending [OF assms(2), of i] running_found [OF assms(2), of i]
    by fastforce
next
  case (Some l)
  obtain s ps k where s: "find (\<lambda>s. ssID s = i) (dbSessions d) = Some s" "ssStatus s = ''running''"
    and ps: "ps = map ptPayload (take MaxTriggersPerRun (pendingOf i d))" "ps \<noteq> []" and k: "k = ssCurrentRunID s + 1" and l: "l = (i, k, ''event'')"
    and d': "d' = (let d1 = d\<lparr>dbRuns := dbRuns d @ [newRun i k ''event'' (Some ps) now],
          dbSessions := map (\<lambda>t. if ssID t = i then t\<lparr>ssCurrentRunID := k\<rparr> else t) (dbSessions d)\<rparr>; batch = take (length ps) (pendingOf i d1)
        in d1\<lparr>dbPending := filter (\<lambda>p. ptID p \<notin> ptID ` set batch) (dbPending d1),
             dbDelivered := dbDelivered d1 @ map (\<lambda>p. (i, ToRun k, ptPayload p)) batch\<rparr>)"
    using assms(1) Some
    by (auto simp: startPendingRunTx_def sessionByID_def updateSession_def insertRun_def takeBatch_def PendingPayloadsTx_def asql_success Let_def
        MaxTriggersPerRun_def split: option.splits if_splits)
  define batch where "batch = take MaxTriggersPerRun (filter (\<lambda>p. ptSession p = i) (dbPending d))"
  have pend: "pendingOf i d = filter (\<lambda>p. ptSession p = i) (dbPending d)"
    using assms(2) by (auto simp: dbOK_def intro: pendingOf_filter)
  then have pbatch: "ps = map ptPayload batch" "batch \<noteq> []" using ps by (auto simp: batch_def)
  have "take (length ps) (pendingOf i d) = batch" by (simp add: pbatch(1) pend) (simp add: batch_def min_def)
  then have d'': "d' = d\<lparr>dbSessions := map (\<lambda>t. if ssID t = i then t\<lparr>ssCurrentRunID := k\<rparr> else t) (dbSessions d),
      dbRuns := dbRuns d @ [newRun i k ''event'' (Some ps) now],
      dbPending := filter (\<lambda>p. ptID p \<notin> ptID ` set batch) (dbPending d),
      dbDelivered := dbDelivered d @ map (\<lambda>p. (i, ToRun (rnID (newRun i k ''event'' (Some ps) now)), ptPayload p)) batch\<rparr>"
    by (simp add: d' pendingOf_def Let_def newRun_def)
  have "s \<in> set (dbSessions d)" "ssID s = i" using found_session [OF s(1)] by simp_all
  note a = addRun_OK [OF assms(2) this assms(3), where x = "newRun i k ''event'' (Some ps) now" and g = "\<lambda>t. t\<lparr>ssCurrentRunID := k\<rparr>",
      OF _ _ _ _ _ batch_def _ _ d'']
  have "starts d i k d'" using a s(2) pbatch by (simp add: starts_def runKey_def newRun_def k d'') (simp add: batch_def)
  then show ?thesis using Some l by simp
qed

end
