(* ===== verification/AgentSafety.thy ===== *)
theory AgentSafety
  imports AgentInvariant
begin

text \<open>
  The invariant of the agent runtime for every interleaving, an instance of the locale \<open>event_invariant\<close>.  While the server is healthy,
  a running run has exactly its one goroutine, which is not cancelled, and a session with queued triggers has a goroutine that will look at
  the queue when it ends.
\<close>

section \<open>Transactions under the mutex\<close>

text \<open>A locked transaction leaves the old tables or those of its success; an unreported commit is the only failure that does not.\<close>

lemma lockedTx_cases:
  assumes "lockedTx staged e m d = (res, d')"
  obtains (old) "d' = d" "\<And>a. res \<noteq> TxDone a"
  | (unreported) a n where "res = TxFailed True" "teCommit e = CommitUnreported" "m (teFlt e) (d, 0) = (Inr (Inr a), d', n)"
  | (committed) a n where "res = TxDone a" "teCommit e = CommitOK" "m (teFlt e) (d, 0) = (Inr (Inr a), d', n)"
  using assms by (auto simp: lockedTx_def split: if_splits prod.splits sum.splits commitOutcome.splits)

text \<open>A success rule for a transaction: what it establishes when it commits, and that it keeps \<open>dbOK\<close>.\<close>

lemma lockedTx_keeps:
  assumes "lockedTx staged e m d = (res, d')" "dbOK d" "\<And>a n. m (teFlt e) (d, 0) = (Inr (Inr a), d', n) \<Longrightarrow> dbOK d'"
  shows "dbOK d'"
  using assms(1) by (cases rule: lockedTx_cases) (use assms in auto)

section \<open>Goroutines\<close>

text \<open>The registered goroutines are exactly the ones that have not returned, one for a session.\<close>

definition threadsOK :: "agentServer \<Rightarrow> bool" where
  "threadsOK r = ((\<forall>s i. arActive r s = Some i \<longrightarrow> i < length (arThreads r) \<and> thSession (arThreads r ! i) = s \<and> \<not> thDone (arThreads r ! i)) \<and>
     (\<forall>i < length (arThreads r). \<not> thDone (arThreads r ! i) \<longrightarrow> arActive r (thSession (arThreads r ! i)) = Some i))"

definition runsFor :: "agentServer \<Rightarrow> string \<Rightarrow> int \<Rightarrow> bool" where
  "runsFor r s k = (\<exists>i. arActive r s = Some i \<and> thRun (arThreads r ! i) = k \<and> \<not> thCanceled (arThreads r ! i))"

definition liveOK :: "agentServer \<Rightarrow> bool" where
  "liveOK r = ((\<forall>(s, k) \<in> runningKeys (arDB r). runsFor r s k) \<and> waiting (arDB r) \<subseteq> {s. isBusy r s})"

definition agentOK :: "agentServer \<Rightarrow> bool" where
  "agentOK r = (dbOK (arDB r) \<and> threadsOK r \<and> (\<not> refusing r \<longrightarrow> liveOK r))"

lemma cancelThread_simps [simp]:
  "arDB (cancelThread i r) = arDB r" "arActive (cancelThread i r) = arActive r" "arClosed (cancelThread i r) = arClosed r"
  "arFault (cancelThread i r) = arFault r" "length (arThreads (cancelThread i r)) = length (arThreads r)"
  "refusing (cancelThread i r) = refusing r"
  by (simp_all add: cancelThread_def refusing_def)

lemma cancelThread_nth:
  "j < length (arThreads r) \<Longrightarrow> thSession (arThreads (cancelThread i r) ! j) = thSession (arThreads r ! j)"
  "j < length (arThreads r) \<Longrightarrow> thRun (arThreads (cancelThread i r) ! j) = thRun (arThreads r ! j)"
  "j < length (arThreads r) \<Longrightarrow> thDone (arThreads (cancelThread i r) ! j) = thDone (arThreads r ! j)"
  "j < length (arThreads r) \<Longrightarrow> j \<noteq> i \<Longrightarrow> arThreads (cancelThread i r) ! j = arThreads r ! j"
  by (cases "j = i"; simp add: cancelThread_def)+

lemma latchLocked_simps [simp]:
  "arDB (latchLocked r) = arDB r" "arActive (latchLocked r) = arActive r" "arClosed (latchLocked r) = arClosed r"
  "arFault (latchLocked r)" "length (arThreads (latchLocked r)) = length (arThreads r)" "refusing (latchLocked r)"
  by (simp_all add: latchLocked_def cancelActive_def refusing_def)

lemma latchLocked_nth:
  assumes "j < length (arThreads r)"
  shows "thSession (arThreads (latchLocked r) ! j) = thSession (arThreads r ! j)" "thRun (arThreads (latchLocked r) ! j) = thRun (arThreads r ! j)"
    "thDone (arThreads (latchLocked r) ! j) = thDone (arThreads r ! j)"
  using assms by (simp_all add: latchLocked_def cancelActive_def nth_enumerate_eq)

lemma threadsOK_same:
  assumes "threadsOK r" "arActive r' = arActive r" "length (arThreads r') = length (arThreads r)"
    "\<And>j. j < length (arThreads r) \<Longrightarrow> thSession (arThreads r' ! j) = thSession (arThreads r ! j) \<and> thDone (arThreads r' ! j) = thDone (arThreads r ! j)"
  shows "threadsOK r'"
  using assms unfolding threadsOK_def by metis

lemma threadsOK_latch [simp]: "threadsOK r \<Longrightarrow> threadsOK (latchLocked r)"
  by (erule threadsOK_same) (simp_all add: latchLocked_nth)

lemma threadsOK_cancel [simp]: "threadsOK r \<Longrightarrow> threadsOK (cancelThread i r)"
  by (erule threadsOK_same) (simp_all add: cancelThread_nth)

lemma threadsOK_db [simp]: "threadsOK (r\<lparr>arDB := d\<rparr>) = threadsOK r" "threadsOK (r\<lparr>arClosed := b\<rparr>) = threadsOK r"
  by (simp_all add: threadsOK_def)

lemma refusing_db [simp]: "refusing (r\<lparr>arDB := d\<rparr>) = refusing r"
  by (simp add: refusing_def)

lemma isBusy_simps [simp]: "isBusy (latchLocked r) s = isBusy r s" "isBusy (cancelThread i r) s = isBusy r s"
  "isBusy (r\<lparr>arDB := d\<rparr>) s = isBusy r s"
  by (simp_all add: isBusy_def)

text \<open>A latched fault leaves only the tables to check.\<close>

lemma agentOK_latch: "dbOK d \<Longrightarrow> threadsOK r \<Longrightarrow> agentOK (latchLocked (r\<lparr>arDB := d\<rparr>))"
  by (simp add: agentOK_def)

lemma agentOK_mutationFailure:
  assumes "agentOK r" "dbOK d" "teCommit e \<noteq> CommitUnreported \<Longrightarrow> d = arDB r"
  shows "agentOK (snd (mutationFailure e (r\<lparr>arDB := d\<rparr>)))"
  using assms agentOK_latch [of d r] by (auto simp: mutationFailure_def requestCancellationCausedPersistenceError_def agentOK_def)

subsection \<open>Launching\<close>

lemma launch_simps [simp]:
  "arDB (launchRunLocked (s, k, t) r) = arDB r" "arClosed (launchRunLocked (s, k, t) r) = arClosed r" "arFault (launchRunLocked (s, k, t) r) = arFault r"
  "refusing (launchRunLocked (s, k, t) r) = refusing r" "isBusy (launchRunLocked (s, k, t) r) j \<longleftrightarrow> j = s \<or> isBusy r j"
  by (simp_all add: launchRunLocked_def refusing_def isBusy_def)

lemma launch_threads: "threadsOK r \<Longrightarrow> \<not> isBusy r s \<Longrightarrow> threadsOK (launchRunLocked (s, k, t) r)"
proof -
  assume ok: "threadsOK r" and s: "\<not> isBusy r s"
  let ?r = "launchRunLocked (s, k, t) r" and ?n = "length (arThreads r)"
  have len: "length (arThreads ?r) = Suc ?n" by (simp add: launchRunLocked_def)
  have old: "arThreads ?r ! i = arThreads r ! i" if "i < ?n" for i using that by (simp add: launchRunLocked_def nth_append)
  have new: "thSession (arThreads ?r ! ?n) = s" "\<not> thDone (arThreads ?r ! ?n)" by (simp_all add: launchRunLocked_def nth_append)
  have act: "arActive ?r j = (if j = s then Some ?n else arActive r j)" for j by (simp add: launchRunLocked_def)
  have "i < length (arThreads ?r) \<and> thSession (arThreads ?r ! i) = j \<and> \<not> thDone (arThreads ?r ! i)" if "arActive ?r j = Some i" for i j
    using that ok new by (cases "j = s") (auto simp: act len old threadsOK_def less_SucI)
  moreover have "arActive ?r (thSession (arThreads ?r ! i)) = Some i" if "i < length (arThreads ?r)" "\<not> thDone (arThreads ?r ! i)" for i
    using that ok new s by (cases "i = ?n") (auto simp: act len old threadsOK_def isBusy_def)
  ultimately show "threadsOK ?r" unfolding threadsOK_def by blast
qed

lemma launch_runsFor:
  assumes "threadsOK r" "\<not> isBusy r s"
  shows "runsFor (launchRunLocked (s, k, t) r) s k" "runsFor r j l \<Longrightarrow> runsFor (launchRunLocked (s, k, t) r) j l"
  using assms by (auto simp: runsFor_def launchRunLocked_def isBusy_def threadsOK_def nth_append)

text \<open>A list of launches for different sessions that are not busy.\<close>

lemma launches_OK:
  assumes "threadsOK r" "distinct (map fst ls)" "\<And>l. l \<in> set ls \<Longrightarrow> \<not> isBusy r (fst l)"
  shows "threadsOK (fold launchRunLocked ls r) \<and> arDB (fold launchRunLocked ls r) = arDB r \<and>
    arClosed (fold launchRunLocked ls r) = arClosed r \<and> arFault (fold launchRunLocked ls r) = arFault r \<and>
    (\<forall>j. isBusy (fold launchRunLocked ls r) j \<longleftrightarrow> isBusy r j \<or> j \<in> fst ` set ls) \<and>
    (\<forall>j l. runsFor r j l \<longrightarrow> runsFor (fold launchRunLocked ls r) j l) \<and>
    (\<forall>(s, k, t) \<in> set ls. runsFor (fold launchRunLocked ls r) s k)"
  using assms
proof (induction ls arbitrary: r)
  case Nil
  then show ?case by simp
next
  case (Cons x ls)
  obtain s k t where x: "x = (s, k, t)" by (cases x)
  have s: "\<not> isBusy r s" using Cons.prems(3) [of x] x by simp
  have "threadsOK (launchRunLocked (s, k, t) r)" using launch_threads [OF Cons.prems(1) s] .
  moreover have "\<not> isBusy (launchRunLocked (s, k, t) r) (fst l)" if "l \<in> set ls" for l
    using Cons.prems(2,3) that by (auto simp: x)
  ultimately have "threadsOK (fold launchRunLocked ls (launchRunLocked (s, k, t) r)) \<and>
    arDB (fold launchRunLocked ls (launchRunLocked (s, k, t) r)) = arDB (launchRunLocked (s, k, t) r) \<and>
    arClosed (fold launchRunLocked ls (launchRunLocked (s, k, t) r)) = arClosed (launchRunLocked (s, k, t) r) \<and>
    arFault (fold launchRunLocked ls (launchRunLocked (s, k, t) r)) = arFault (launchRunLocked (s, k, t) r) \<and>
    (\<forall>j. isBusy (fold launchRunLocked ls (launchRunLocked (s, k, t) r)) j \<longleftrightarrow> isBusy (launchRunLocked (s, k, t) r) j \<or> j \<in> fst ` set ls) \<and>
    (\<forall>j l. runsFor (launchRunLocked (s, k, t) r) j l \<longrightarrow> runsFor (fold launchRunLocked ls (launchRunLocked (s, k, t) r)) j l) \<and>
    (\<forall>(s', k', t') \<in> set ls. runsFor (fold launchRunLocked ls (launchRunLocked (s, k, t) r)) s' k')"
    using Cons.IH Cons.prems(2) by simp
  then show ?case using launch_runsFor [OF Cons.prems(1) s, where k = k and t = t] by (auto simp: x)
qed

section \<open>The batch loop\<close>

text \<open>
  \<open>launched d ls d'\<close>: from \<open>d\<close> to \<open>d'\<close> the runs \<open>ls\<close> of different sessions were added.
\<close>

definition launched :: "agentDB \<Rightarrow> (string \<times> int \<times> string) list \<Rightarrow> agentDB \<Rightarrow> bool" where
  "launched d ls d' = (dbOK d' \<and> distinct (map fst ls) \<and> runningKeys d' = runningKeys d \<union> (\<lambda>(s, k, _). (s, k)) ` set ls \<and> waiting d' \<subseteq> waiting d)"

lemma launched_refl: "dbOK d \<Longrightarrow> launched d [] d"
  by (simp add: launched_def)

lemma launched_snoc:
  assumes "launched d ls d1" "starts d1 s k d2" "s \<notin> fst ` set ls"
  shows "launched d (ls @ [(s, k, t)]) d2"
  using assms by (auto simp: launched_def starts_def)

lemma launched_idle:
  assumes "launched d ls d1" "noRunIn d s" "s \<notin> fst ` set ls"
  shows "noRunIn d1 s"
  using assms by (force simp: launched_def noRunIn_def)

lemma admit_loop:
  assumes "foldD (admitStep now r) ss ls flt (d1, n) = (Inr ls', d', n')" "launched d ls d1" "distinct ss"
    "\<And>s. s \<in> set ss \<Longrightarrow> s \<notin> fst ` set ls" "\<And>s. s \<in> set ss \<Longrightarrow> \<not> isBusy r s \<Longrightarrow> noRunIn d s"
    "\<And>l. l \<in> set ls \<Longrightarrow> \<not> isBusy r (fst l)"
  shows "launched d ls' d' \<and> (\<forall>l \<in> set ls'. \<not> isBusy r (fst l)) \<and> waiting d' \<subseteq> waiting d1 \<and>
    (\<forall>s \<in> set ss. isBusy r s \<or> s \<notin> waiting d' \<or> s \<in> fst ` set ls') \<and> set ls \<subseteq> set ls'"
  using assms
proof (induction ss arbitrary: ls d1 n)
  case Nil
  then show ?case by (auto simp: asql_success)
next
  case (Cons s ss)
  obtain ls1 d2 n2 where step: "admitStep now r s ls flt (d1, n) = (Inr ls1, d2, n2)"
    and rest: "foldD (admitStep now r) ss ls1 flt (d2, n2) = (Inr ls', d', n')"
    using Cons.prems(1) by (auto simp: andThenD_Inr)
  have "launched d ls1 d2 \<and> (\<forall>l \<in> set ls1. \<not> isBusy r (fst l)) \<and> waiting d2 \<subseteq> waiting d1 \<and>
      (isBusy r s \<or> s \<notin> waiting d2 \<or> s \<in> fst ` set ls1) \<and> set ls \<subseteq> set ls1 \<and> fst ` set ls1 \<subseteq> insert s (fst ` set ls)"
  proof (cases "isBusy r s")
    case True
    then show ?thesis using step Cons.prems by (auto simp: admitStep_def asql_success)
  next
    case False
    then obtain res where p: "startPendingRunTx now s flt (d1, n) = (Inr res, d2, n2)" and ls1: "ls1 = (case res of None \<Rightarrow> ls | Some x \<Rightarrow> ls @ [x])"
      using step by (auto simp: admitStep_def asql_success)
    have "dbOK d1" using Cons.prems(2) by (simp add: launched_def)
    moreover have "noRunIn d1 s" using launched_idle [OF Cons.prems(2)] Cons.prems(4,5) False by simp
    ultimately have k: "case res of None \<Rightarrow> d2 = d1 \<and> s \<notin> waiting d1 | Some (j, k, trigger) \<Rightarrow> j = s \<and> trigger = ''event'' \<and> starts d1 s k d2"
      by (rule startPendingRunTx_OK [OF p])
    show ?thesis
    proof (cases res)
      case None
      then show ?thesis using k ls1 Cons.prems by auto
    next
      case (Some l)
      then obtain k where "l = (s, k, ''event'')" "starts d1 s k d2" using k by (cases l) auto
      moreover have "s \<notin> fst ` set ls" using Cons.prems(4) by simp
      ultimately show ?thesis using launched_snoc [OF Cons.prems(2), of s k d2 "''event''"] Cons.prems(6) False Some ls1
        by (simp add: starts_def) blast
    qed
  qed
  moreover from this have "x \<notin> fst ` set ls1" if "x \<in> set ss" for x using Cons.prems(3) Cons.prems(4) [of x] that by auto
  moreover from calculation have "launched d ls' d' \<and> (\<forall>l \<in> set ls'. \<not> isBusy r (fst l)) \<and> waiting d' \<subseteq> waiting d2 \<and>
      (\<forall>s \<in> set ss. isBusy r s \<or> s \<notin> waiting d' \<or> s \<in> fst ` set ls') \<and> set ls1 \<subseteq> set ls'"
    using Cons.prems(3,4,5) by (intro Cons.IH [OF rest]) auto
  ultimately show ?case by auto
qed

lemma live_idle: "liveOK r \<Longrightarrow> \<not> isBusy r s \<Longrightarrow> noRunIn (arDB r) s"
  by (auto simp: liveOK_def noRunIn_def runsFor_def isBusy_def)

lemma roundTx_OK:
  assumes "roundTx fp now r c flt (arDB r, n) = (Inr (Inr ls), d', n')" "dbOK (arDB r)" "liveOK r"
  shows "dbOK d'" "distinct (map fst ls)" "\<And>l. l \<in> set ls \<Longrightarrow> \<not> isBusy r (fst l)"
    "runningKeys d' = runningKeys (arDB r) \<union> (\<lambda>(s, k, _). (s, k)) ` set ls" "waiting d' \<subseteq> {s. isBusy r s} \<union> fst ` set ls"
proof -
  obtain fired d1 n1 where claim: "claimTx fp now r c flt (arDB r, Suc n) = (Inr fired, d1, n1)"
    and loop: "foldD (admitStep now r) fired [] flt (d1, n1) = (Inr ls, d', n')"
    using assms(1) by (auto simp: roundTx_def LatestEventLogIDTx_def admitFiredSessionsTx_def asql_success)
  have c: "claimKeeps (arDB r) fired d1" using succD [OF claimTx_keeps _ claim] assms(2) by blast
  then have d1: "dbOK d1" "runningKeys d1 = runningKeys (arDB r)" using runningKeys_sameRuns by (auto simp: claimKeeps_def)
  have "noRunIn d1 s" if "\<not> isBusy r s" for s using live_idle [OF assms(3) that] d1(2) by (simp add: noRunIn_def)
  then have k: "launched d1 ls d' \<and> (\<forall>l \<in> set ls. \<not> isBusy r (fst l)) \<and> waiting d' \<subseteq> waiting d1 \<and>
    (\<forall>s \<in> set fired. isBusy r s \<or> s \<notin> waiting d' \<or> s \<in> fst ` set ls) \<and> set [] \<subseteq> set ls"
    using c launched_refl [OF d1(1)] by (intro admit_loop [OF loop]) (auto simp: claimKeeps_def)
  then show "dbOK d'" "distinct (map fst ls)" "\<And>l. l \<in> set ls \<Longrightarrow> \<not> isBusy r (fst l)"
    "runningKeys d' = runningKeys (arDB r) \<union> (\<lambda>(s, k, _). (s, k)) ` set ls" using d1(2) by (auto simp: launched_def)
  show "waiting d' \<subseteq> {s. isBusy r s} \<union> fst ` set ls"
  proof
    fix s assume s: "s \<in> waiting d'"
    then have "s \<in> waiting (arDB r) \<or> s \<in> set fired" using k c by (auto simp: claimKeeps_def)
    then show "s \<in> {s. isBusy r s} \<union> fst ` set ls" using k s assms(3) by (auto simp: liveOK_def)
  qed
qed

section \<open>Every operation keeps the invariant\<close>

lemma agentOK_launches:
  assumes "threadsOK r" "dbOK d" "distinct (map fst ls)" "\<And>l. l \<in> set ls \<Longrightarrow> \<not> isBusy r (fst l)"
    "\<And>s k. (s, k) \<in> runningKeys d \<Longrightarrow> runsFor r s k \<or> (s, k) \<in> (\<lambda>(s, k, _). (s, k)) ` set ls"
    "waiting d \<subseteq> {s. isBusy r s} \<union> fst ` set ls"
  shows "agentOK (fold launchRunLocked ls (r\<lparr>arDB := d\<rparr>))"
proof -
  let ?r = "r\<lparr>arDB := d\<rparr>"
  have same: "runsFor ?r s k = runsFor r s k" for s k by (simp add: runsFor_def)
  note l = launches_OK [of ?r ls, simplified, OF assms(1,3,4), simplified]
  then have "runsFor (fold launchRunLocked ls ?r) s k" if "(s, k) \<in> runningKeys d" for s k
    using assms(5) [OF that] same by fastforce
  then show ?thesis using l assms(2,6) by (auto simp: agentOK_def liveOK_def)
qed

text \<open>One launch.\<close>

lemma agentOK_start:
  assumes "agentOK r" "liveOK r" "\<not> isBusy r s" "starts (arDB r) s k d"
  shows "agentOK (launchRunLocked (s, k, t) (r\<lparr>arDB := d\<rparr>))"
  using agentOK_launches [of r d "[(s, k, t)]"] assms by (auto simp: agentOK_def liveOK_def starts_def)

lemma agentOK_plain:
  assumes "agentOK r" "dbOK d" "runningKeys d \<subseteq> runningKeys (arDB r)" "waiting d \<subseteq> waiting (arDB r)"
  shows "agentOK (r\<lparr>arDB := d\<rparr>)"
  using assms by (auto simp: agentOK_def liveOK_def runsFor_def)

lemma createSession_keeps: "agentOK r \<Longrightarrow> agentOK (snd (createSession ac dflt models account entropy e now input r))"
proof -
  assume ok: "agentOK r"
  have latch: "agentOK (latchLocked r)" using agentOK_latch [of "arDB r" r] ok by (simp add: agentOK_def)
  have "agentOK (snd (insertSession e s r))" if "ssStatus s \<noteq> ''running''" "ssCurrentRunID s = 0" for s
  proof -
    have "agentOK (r\<lparr>arDB := (arDB r)\<lparr>dbSessions := dbSessions (arDB r) @ [s]\<rparr>\<rparr>)" if "ssID s \<notin> ssID ` set (dbSessions (arDB r))"
      using ok insertSession_OK [of "arDB r" s] that \<open>ssStatus s \<noteq> ''running''\<close> \<open>ssCurrentRunID s = 0\<close>
      by (intro agentOK_plain) (auto simp: agentOK_def runningKeys_def waiting_def)
    then have stored: "agentOK (r\<lparr>arDB := (arDB r)\<lparr>dbSessions := dbSessions (arDB r) @ [s]\<rparr>\<rparr>)"
      if "ssID s \<notin> ssID ` set (dbSessions (arDB r))" using that .
    then have "agentOK (latchLocked (r\<lparr>arDB := (arDB r)\<lparr>dbSessions := dbSessions (arDB r) @ [s]\<rparr>\<rparr>))"
      if "ssID s \<notin> ssID ` set (dbSessions (arDB r))"
      using agentOK_latch [of "(arDB r)\<lparr>dbSessions := dbSessions (arDB r) @ [s]\<rparr>" r] that by (simp add: agentOK_def)
    then show ?thesis using ok latch stored by (auto simp: insertSession_def mutationFailure_def Let_def split: commitOutcome.splits)
  qed
  moreover have "ssStatus (row i t) \<noteq> ''running'' \<and> ssCurrentRunID (row i t) = 0" if "Option.bind input (newSession ac dflt) = Some row" for row i t
    using that by (auto simp: newSession_def bind_eq_Some_conv split: if_splits)
  ultimately show ?thesis using ok by (auto simp: createSession_def split: option.split sum.split prod.split)
qed

lemma startSession_keeps: "agentOK r \<Longrightarrow> agentOK (snd (startSession e now s r))"
proof (cases "refusing r")
  case True
  then show "agentOK r \<Longrightarrow> agentOK (snd (startSession e now s r))" by (simp add: startSession_def)
next
  case False
  assume ok: "agentOK r"
  then have live: "liveOK r" using False by (simp add: agentOK_def)
  obtain res d where tx: "lockedTx (\<lambda>_. False) e (startSessionTx now (isBusy r s) s) (arDB r) = (res, d)" by fastforce
  note start = startSessionTx_OK
  from tx show ?thesis
  proof (cases rule: lockedTx_cases)
    case old
    then show ?thesis using False tx ok agentOK_mutationFailure [OF ok, of "arDB r" e]
      by (auto simp: startSession_def agentOK_def split: txResult.splits)
  next
    case (unreported a n)
    then have "dbOK d" using start(1) [of now "isBusy r s" s] ok by (cases a) (auto simp: agentOK_def starts_def)
    then show ?thesis using False tx ok unreported agentOK_mutationFailure [OF ok, of d e] by (auto simp: startSession_def)
  next
    case (committed a n)
    obtain k t where a: "a = (k, t)" by (cases a)
    have "starts (arDB r) s k d" "\<not> isBusy r s" using start [OF committed(3) [unfolded a]] ok by (simp_all add: agentOK_def)
    then show ?thesis using False tx committed(1) agentOK_start [OF ok live] by (simp add: startSession_def a)
  qed
qed

lemma retryRun_keeps: "agentOK r \<Longrightarrow> agentOK (snd (retryRun e now s raw r))"
proof (cases "ParseInt raw = None \<or> the (ParseInt raw) \<le> 0 \<or> refusing r \<or> isBusy r s")
  case True
  then show "agentOK r \<Longrightarrow> agentOK (snd (retryRun e now s raw r))" by (auto simp: retryRun_def split: option.split)
next
  case False
  then obtain k0 where k0: "ParseInt raw = Some k0" "\<not> k0 \<le> 0" by auto
  assume ok: "agentOK r"
  then have live: "liveOK r" using False by (simp add: agentOK_def)
  obtain res d where tx: "lockedTx (\<lambda>_. False) e (retryRunTx now s k0) (arDB r) = (res, d)" by fastforce
  from tx show ?thesis
  proof (cases rule: lockedTx_cases)
    case old
    then show ?thesis using False tx ok k0 agentOK_mutationFailure [OF ok, of "arDB r" e]
      by (auto simp: retryRun_def agentOK_def split: txResult.splits)
  next
    case (unreported a n)
    then have "dbOK d" using retryRunTx_OK ok by (fastforce simp: agentOK_def starts_def)
    then show ?thesis using False tx ok k0 unreported agentOK_mutationFailure [OF ok, of d e] by (auto simp: retryRun_def)
  next
    case (committed k n)
    have "starts (arDB r) s k d" using retryRunTx_OK [OF committed(3)] ok by (simp add: agentOK_def)
    then show ?thesis using False tx k0 committed(1) agentOK_start [OF ok live] by (simp add: retryRun_def)
  qed
qed

text \<open>A session without a goroutine picks up what is queued for it.\<close>

lemma dispatchPendingLocked_keeps:
  assumes "threadsOK r" "dbOK (arDB r)" "\<not> refusing r \<Longrightarrow> \<forall>(j, k) \<in> runningKeys (arDB r). runsFor r j k"
    "\<not> refusing r \<Longrightarrow> waiting (arDB r) \<subseteq> {j. isBusy r j} \<union> {s}"
  shows "agentOK (dispatchPendingLocked e now s r)"
proof (cases "refusing r \<or> isBusy r s")
  case True
  then show ?thesis using assms by (auto simp: dispatchPendingLocked_def agentOK_def liveOK_def)
next
  case False
  let ?m = "andThenD (startPendingRunTx now s) (\<lambda>launch. pureD (case launch of None \<Rightarrow> Inl () | Some x \<Rightarrow> Inr x))"
  have noRunIn: "noRunIn (arDB r) s" using assms(3) False by (auto simp: noRunIn_def runsFor_def isBusy_def)
  have p: "?m flt (arDB r, n) = (Inr res, d, n') \<Longrightarrow> (\<exists>l. startPendingRunTx now s flt (arDB r, n) = (Inr l, d, n') \<and>
      res = (case l of None \<Rightarrow> Inl () | Some x \<Rightarrow> Inr x))" for flt n res d n'
    by (auto simp: asql_success)
  note start = startPendingRunTx_OK [OF _ assms(2) noRunIn]
  obtain res d where tx: "lockedTx (\<lambda>_. False) e ?m (arDB r) = (res, d)" by fastforce
  from tx show ?thesis
  proof (cases rule: lockedTx_cases)
    case old
    show ?thesis
    proof (cases res)
      case (TxFailed b)
      then show ?thesis using False tx old assms(1,2) agentOK_latch [of "arDB r" r] by (simp add: dispatchPendingLocked_def)
    next
      case (TxReply u)
      then obtain n d1 where "?m (teFlt e) (arDB r, 0) = (Inr (Inl ()), d1, n)"
        using tx by (auto simp: lockedTx_def split: if_splits prod.splits sum.splits commitOutcome.splits)
      then obtain l where l: "startPendingRunTx now s (teFlt e) (arDB r, 0) = (Inr l, d1, n)" "Inl () = (case l of None \<Rightarrow> Inl () | Some x \<Rightarrow> Inr x)"
        using p by blast
      then have "l = None" by (cases l) simp_all
      then have "s \<notin> waiting (arDB r)" using start [OF l(1)] by simp
      then show ?thesis using False tx TxReply assms by (auto simp: dispatchPendingLocked_def agentOK_def liveOK_def)
    qed (use old in simp)
  next
    case (unreported a n)
    obtain l where l: "startPendingRunTx now s (teFlt e) (arDB r, 0) = (Inr l, d, n)" "Inr a = (case l of None \<Rightarrow> Inl () | Some x \<Rightarrow> Inr x)"
      using p [OF unreported(3)] by blast
    then have "l = Some a" by (cases l) simp_all
    then have "dbOK d" using start [OF l(1)] by (cases a) (simp add: starts_def)
    then show ?thesis using False tx unreported assms(1) agentOK_latch by (simp add: dispatchPendingLocked_def)
  next
    case (committed a n)
    obtain l where l: "startPendingRunTx now s (teFlt e) (arDB r, 0) = (Inr l, d, n)" "Inr a = (case l of None \<Rightarrow> Inl () | Some x \<Rightarrow> Inr x)"
      using p [OF committed(3)] by blast
    then have "l = Some a" by (cases l) simp_all
    then obtain k where a: "a = (s, k, ''event'')" and st: "starts (arDB r) s k d" using start [OF l(1)] by (cases a) auto
    have "agentOK (fold launchRunLocked [a] (r\<lparr>arDB := d\<rparr>))"
      using False st assms by (intro agentOK_launches) (auto simp: a starts_def)
    then show ?thesis using False tx committed(1) by (simp add: dispatchPendingLocked_def)
  qed
qed

text \<open>A committed or failed change that starts nothing.\<close>

lemma agentOK_change:
  assumes "agentOK r" "lockedTx staged e m (arDB r) = (res, d)"
    "\<And>a n. m (teFlt e) (arDB r, 0) = (Inr (Inr a), d, n) \<Longrightarrow>
       dbOK d \<and> runningKeys d \<subseteq> runningKeys (arDB r) \<and> waiting d \<subseteq> waiting (arDB r)"
  shows "agentOK (r\<lparr>arDB := d\<rparr>)" "dbOK d" "(\<And>a. res \<noteq> TxDone a) \<Longrightarrow> teCommit e \<noteq> CommitUnreported \<Longrightarrow> d = arDB r"
proof -
  have "agentOK (r\<lparr>arDB := d\<rparr>) \<and> dbOK d \<and> ((\<forall>a. res \<noteq> TxDone a) \<longrightarrow> teCommit e \<noteq> CommitUnreported \<longrightarrow> d = arDB r)"
    using assms(2)
  proof (cases rule: lockedTx_cases)
    case old
    then show ?thesis using assms(1) by (auto simp: agentOK_def)
  next
    case (unreported a n)
    then show ?thesis using assms(1,3) agentOK_plain by blast
  next
    case (committed a n)
    then show ?thesis using assms(1,3) agentOK_plain by blast
  qed
  then show "agentOK (r\<lparr>arDB := d\<rparr>)" "dbOK d" "(\<And>a. res \<noteq> TxDone a) \<Longrightarrow> teCommit e \<noteq> CommitUnreported \<Longrightarrow> d = arDB r" by blast+
qed

subsection \<open>Stopping\<close>

lemma terminated_simps [simp]:
  "runKey (terminated st a b c now x) = runKey x" "rnTriggers (terminated st a b c now x) = rnTriggers x" "rnStatus (terminated st a b c now x) = st"
  by (simp_all add: terminated_def runKey_def)

lemma terminate_OK:
  assumes "dbOK d" "st \<noteq> ''running''"
    "d' = d\<lparr>dbRuns := map (\<lambda>x. if runningRow i k x then terminated st a b c now x else x) (dbRuns d)\<rparr>"
  shows "dbOK d'" "runningKeys d' = runningKeys d - {(i, k)}" "waiting d' = waiting d" "sameRuns d (d'\<lparr>dbRuns := dbRuns d\<rparr>)"
    "dbEvents d' = dbEvents d" "dbPending d' = dbPending d"
proof -
  let ?f = "\<lambda>x. if runningRow i k x then terminated st a b c now x else x"
  have "rnStatus (?f x) = ''running'' \<Longrightarrow> rnStatus x = ''running''" for x using assms(2) by (auto split: if_splits)
  note m = mapRuns_OK [OF assms(1), of ?f, OF _ _ this, simplified if_distrib [of runKey] if_distrib [of rnTriggers]]
  show "dbOK d'" using m(1) by (simp add: assms(3))
  have "runningKeys d' = runKey ` {x \<in> set (dbRuns d). rnStatus (?f x) = ''running''}" using m(2) by (simp add: assms(3))
  also have "\<dots> = runningKeys d - {(i, k)}" using assms(2) by (auto simp: runningKeys_def runningRow_def runKey_def)
  finally show "runningKeys d' = runningKeys d - {(i, k)}" .
  show "waiting d' = waiting d" "sameRuns d (d'\<lparr>dbRuns := dbRuns d\<rparr>)" "dbEvents d' = dbEvents d" "dbPending d' = dbPending d"
    by (simp_all add: assms(3) waiting_def sameRuns_def)
qed

lemma stopTx_Inr:
  assumes "stopTx now deleting s flt (d, n) = (Inr (s', clearance, live), d', n')"
  obtains ctx d1 n1 n2 where "s' = endedSession now deleting ctx s"
    "ClearSessionTx (ssID s) now (if deleting then ''cleared_by_delete'' else ''cleared_by_stop'') flt (d, n) = (Inr clearance, d1, n1)"
    "(if ssStatus s = ''running'' then restartContextFor (ssID s) (ssCurrentRunID s) True clearance else pureD (ssRestartContext s)) flt (d1, n1) = (Inr ctx, d1, n2)"
    "live \<longleftrightarrow> ssStatus s = ''running'' \<and> ssCurrentRunID s \<noteq> 0"
    "d' = d1\<lparr>dbRuns := (if live then map (\<lambda>x. if runningRow (ssID s) (ssCurrentRunID s) x then terminated ''interrupted'' None None (Some hardStop) now x else x)
        (dbRuns d1) else dbRuns d1),
      dbSessions := map (\<lambda>t. if ssID t = ssID s then endedSession now deleting ctx t else t) (dbSessions d1)\<rparr>"
proof -
  have ctx: "(if b then restartContextFor i k c cl else pureD y) flt (c1, m) = (Inr x, c', m') \<Longrightarrow> c' = c1" for b i k c cl y c1 m x c' m'
    by (auto simp: restartContextFor_def runByID_def asql_success split: if_splits option.splits)
  obtain cl ctx d1 n1 n2 where c: "ClearSessionTx (ssID s) now (if deleting then ''cleared_by_delete'' else ''cleared_by_stop'') flt (d, n) = (Inr cl, d1, n1)"
    and x: "(if ssStatus s = ''running'' then restartContextFor (ssID s) (ssCurrentRunID s) True cl else pureD (ssRestartContext s)) flt (d1, n1) = (Inr ctx, d1, n2)"
    and rest: "(let live = (ssStatus s = ''running'' \<and> ssCurrentRunID s \<noteq> 0)
     in andThenD (if live then updateRunning (ssID s) (ssCurrentRunID s) (terminated ''interrupted'' None None (Some hardStop) now) else pureD 0) (\<lambda>_.
        andThenD (updateSession (ssID s) (endedSession now deleting ctx)) (\<lambda>_.
        pureD (endedSession now deleting ctx s, cl, live)))) flt (d1, n2) = (Inr (s', clearance, live), d', n')"
    using assms ctx unfolding stopTx_def andThenD_Inr by (metis prod.collapse)
  show ?thesis
    using rest that [of ctx d1 n1 n2] c x
    by (auto simp: Let_def updateSession_def updateRunning_def asql_success split: if_splits)
qed

lemma endedSession_simps [simp]:
  "ssID (endedSession now b ctx s) = ssID s" "ssCurrentRunID (endedSession now b ctx s) = ssCurrentRunID s"
  "ssStatus (endedSession now b ctx s) = (if b then ''deleted'' else ''stopped'')" "ssRestartContext (endedSession now b ctx s) = ctx"
  by (simp_all add: endedSession_def)

lemma running_current:
  assumes "dbOK d" "s \<in> set (dbSessions d)" "(ssID s, k) \<in> runningKeys d"
  shows "ssStatus s = ''running'' \<and> k = ssCurrentRunID s \<and> k \<noteq> 0"
proof -
  obtain x where x: "x \<in> set (dbRuns d)" "runKey x = (ssID s, k)" "rnStatus x = ''running''" using assms(3) by (auto simp: runningKeys_def)
  then obtain t where t: "t \<in> set (dbSessions d)" "ssID t = ssID s" "1 \<le> k" "ssStatus t = ''running''" "k = ssCurrentRunID t"
    using runOK_E [OF assms(1) x(1)] by (metis runKey_def prod.inject)
  then have "t = s" using assms(1,2) by (metis dbOK_def agentKeysOK_def distinct_map inj_onD)
  then show ?thesis using t by simp
qed

lemma stopTx_OK:
  assumes "stopTx now deleting s flt (d, n) = (Inr (s', clearance, live), d', n')" "dbOK d" "s \<in> set (dbSessions d)"
  shows "dbOK d'" "noRunIn d' (ssID s)" "runningKeys d' \<subseteq> runningKeys d" "waiting d' \<subseteq> waiting d" "ssID s \<notin> waiting d'"
    "\<forall>w \<in> set (dbEvents d'). wuSession w \<noteq> ssID s" "s' \<in> set (dbSessions d')"
    "clearance = (inOrder (filter (\<lambda>w. wuSession w = ssID s) (dbEvents d)), pendingIn (ssID s) (dbPending d))"
    "ssStatus s = ''running'' \<Longrightarrow> \<exists>x \<in> set (dbRuns d). runKey x = (ssID s, ssCurrentRunID s) \<and> ssRestartContext s' = restartContextOf x True clearance"
proof -
  let ?i = "ssID s"
  let ?trm = "\<lambda>x. if runningRow ?i (ssCurrentRunID s) x then terminated ''interrupted'' None None (Some hardStop) now x else x"
  obtain ctx d1 n1 n2 where s': "s' = endedSession now deleting ctx s"
    and clear: "ClearSessionTx ?i now (if deleting then ''cleared_by_delete'' else ''cleared_by_stop'') flt (d, n) = (Inr clearance, d1, n1)"
    and ctx: "(if ssStatus s = ''running'' then restartContextFor ?i (ssCurrentRunID s) True clearance else pureD (ssRestartContext s)) flt (d1, n1) = (Inr ctx, d1, n2)"
    and live: "live \<longleftrightarrow> ssStatus s = ''running'' \<and> ssCurrentRunID s \<noteq> 0"
    and d': "d' = d1\<lparr>dbRuns := (if live then map ?trm (dbRuns d1) else dbRuns d1),
      dbSessions := map (\<lambda>t. if ssID t = ?i then endedSession now deleting ctx t else t) (dbSessions d1)\<rparr>"
    by (rule stopTx_Inr [OF assms(1)])
  obtain ws ps where cl: "clearance = (ws, ps)" by (cases clearance)
  note c = ClearSessionTx_OK [OF clear [unfolded cl] assms(2)]
  define d2 where "d2 = d1\<lparr>dbRuns := (if live then map ?trm (dbRuns d1) else dbRuns d1)\<rparr>"
  have keys: "runningKeys d1 = runningKeys d" by (simp add: runningKeys_def c(3))
  have d2: "dbOK d2 \<and> runningKeys d2 = runningKeys d1 - {(?i, ssCurrentRunID s)} \<and> dbEvents d2 = dbEvents d1 \<and> waiting d2 = waiting d1 \<and>
    dbSessions d2 = dbSessions d1"
  proof (cases live)
    case True
    then have "d2 = d1\<lparr>dbRuns := map ?trm (dbRuns d1)\<rparr>" by (simp add: d2_def)
    from terminate_OK [OF c(1) _ this] show ?thesis by (simp add: d2_def)
  next
    case False
    then have "(?i, ssCurrentRunID s) \<notin> runningKeys d1" using running_current [OF assms(2,3)] keys live by auto
    then show ?thesis using False c(1) by (simp add: d2_def)
  qed
  have mem: "s \<in> set (dbSessions d2)" using assms(3) c(2) d2 by simp
  have idle2: "noRunIn d2 ?i"
  proof (unfold noRunIn_def, intro allI notI)
    fix k assume k: "(?i, k) \<in> runningKeys d2"
    then show False using running_current [OF _ mem k] d2 by auto
  qed
  have d'2: "d' = d2\<lparr>dbSessions := map (\<lambda>t. if ssID t = ?i then endedSession now deleting ctx t else t) (dbSessions d2)\<rparr>"
    by (simp add: d' d2_def)
  show "dbOK d'" unfolding d'2
  proof (rule mapSessions_OK)
    show "dbOK d2" "noRunIn d2 ?i" "\<forall>w \<in> set (dbEvents d2). wuSession w \<noteq> ?i" "?i \<notin> waiting d2" using d2 idle2 c(4,5) by simp_all
  qed simp_all
  show "noRunIn d' ?i" using idle2 by (simp add: d'2 noRunIn_def runningKeys_def)
  show "runningKeys d' \<subseteq> runningKeys d" using d2 keys by (auto simp: d'2 runningKeys_def)
  show "waiting d' \<subseteq> waiting d" "?i \<notin> waiting d'" using c(5,6) d2 by (simp_all add: d'2 waiting_def)
  show "\<forall>w \<in> set (dbEvents d'). wuSession w \<noteq> ?i" using c(4) d2 by (simp add: d'2)
  show "s' \<in> set (dbSessions d')" using imageI [OF mem, of "\<lambda>t. if ssID t = ?i then endedSession now deleting ctx t else t"] by (simp add: d'2 s')
  show "clearance = (inOrder (filter (\<lambda>w. wuSession w = ?i) (dbEvents d)), pendingIn ?i (dbPending d))" using c(7,8) cl by simp
  show "\<exists>x \<in> set (dbRuns d). runKey x = (?i, ssCurrentRunID s) \<and> ssRestartContext s' = restartContextOf x True clearance"
    if run: "ssStatus s = ''running''"
  proof -
    have "ssCurrentRunID s \<noteq> 0" using assms(2,3) run by (auto simp: dbOK_def sessionOK_def)
    then obtain x where "find (\<lambda>x. rnSession x = ?i \<and> rnID x = ssCurrentRunID s) (dbRuns d1) = Some x" "ctx = restartContextOf x True clearance"
      using ctx run by (auto simp: restartContextFor_def runByID_def asql_success split: option.splits)
    then show ?thesis using found_run [of ?i "ssCurrentRunID s" "dbRuns d1" x] c(3) s' by (intro bexI [of _ x]) auto
  qed
qed

lemma changeSessionTx_OK:
  assumes "changeSessionTx now deleting i flt (d, n) = (Inr (Inr (s', clearance, live)), d', n')"
  obtains s n1 where "find (\<lambda>s. ssID s = i) (dbSessions d) = Some s" "stopTx now deleting s flt (d, n1) = (Inr (s', clearance, live), d', n')"
  using assms by (auto simp: changeSessionTx_def sessionByID_def asql_success split: option.splits if_splits)

lemma runsFor_cancel:
  assumes "runsFor r j k" "arActive r s = Some i" "threadsOK r" "j \<noteq> s"
  shows "runsFor (cancelThread i (r\<lparr>arDB := d\<rparr>)) j k"
proof -
  obtain i' where i': "arActive r j = Some i'" "thRun (arThreads r ! i') = k" "\<not> thCanceled (arThreads r ! i')"
    using assms(1) by (auto simp: runsFor_def)
  then have "i' < length (arThreads r)" "i' \<noteq> i" using assms(2-4) unfolding threadsOK_def by metis+
  then show ?thesis using i' cancelThread_nth(4) [of i' "r\<lparr>arDB := d\<rparr>" i] by (simp add: runsFor_def)
qed

lemma changeSessionState_keeps: "agentOK r \<Longrightarrow> agentOK (snd (changeSessionState e now deleting s r))"
proof (cases "refusing r")
  case True
  then show "agentOK r \<Longrightarrow> agentOK (snd (changeSessionState e now deleting s r))" by (simp add: changeSessionState_def)
next
  case False
  assume ok: "agentOK r"
  obtain res d where tx: "lockedTx (\<lambda>(_, _, live). live) e (changeSessionTx now deleting s) (arDB r) = (res, d)" by fastforce
  have stop: "dbOK d \<and> noRunIn d s \<and> runningKeys d \<subseteq> runningKeys (arDB r) \<and> waiting d \<subseteq> waiting (arDB r) \<and> s \<notin> waiting d"
    if "changeSessionTx now deleting s (teFlt e) (arDB r, 0) = (Inr (Inr a), d, n)" for a n
  proof -
    obtain s' cl live where a: "a = (s', cl, live)" by (cases a)
    note t = that [unfolded a]
    obtain row n1 where row: "find (\<lambda>x. ssID x = s) (dbSessions (arDB r)) = Some row"
      "stopTx now deleting row (teFlt e) (arDB r, n1) = (Inr (s', cl, live), d, n)"
      by (rule changeSessionTx_OK [OF t])
    show ?thesis using stopTx_OK [OF row(2)] found_session [OF row(1)] ok by (simp add: agentOK_def)
  qed
  then have change: "agentOK (r\<lparr>arDB := d\<rparr>)" "dbOK d" "(\<And>a. res \<noteq> TxDone a) \<Longrightarrow> teCommit e \<noteq> CommitUnreported \<Longrightarrow> d = arDB r"
    using agentOK_change [OF ok tx] by blast+
  show ?thesis
  proof (cases res)
    case (TxFailed b)
    then show ?thesis using False tx change(2,3) by (simp add: changeSessionState_def agentOK_mutationFailure [OF ok])
  next
    case (TxReply x)
    then show ?thesis using False tx ok by (cases x) (simp add: changeSessionState_def)
  next
    case (TxDone a)
    obtain n where n: "changeSessionTx now deleting s (teFlt e) (arDB r, 0) = (Inr (Inr a), d, n)"
      using tx TxDone by (cases rule: lockedTx_cases) auto
    have "liveOK (cancelThread i (r\<lparr>arDB := d\<rparr>))" if i: "arActive r s = Some i" for i
    proof -
      have "runsFor (cancelThread i (r\<lparr>arDB := d\<rparr>)) j k" if "(j, k) \<in> runningKeys d" for j k
        using stop [OF n] that ok False i by (intro runsFor_cancel) (auto simp: agentOK_def liveOK_def noRunIn_def)
      then show ?thesis using stop [OF n] ok False by (auto simp: liveOK_def agentOK_def)
    qed
    then have "agentOK (case arActive r s of Some i \<Rightarrow> cancelThread i (r\<lparr>arDB := d\<rparr>) | None \<Rightarrow> r\<lparr>arDB := d\<rparr>)"
      using change(1,2) ok by (auto simp: agentOK_def split: option.split)
    then show ?thesis using False tx TxDone by (cases a) (simp add: changeSessionState_def)
  qed
qed

subsection \<open>Rounds and event tools\<close>

lemma dispatchEventRound_keeps: "agentOK r \<Longrightarrow> agentOK (snd (dispatchEventRound e fp now c r))"
proof (cases "refusing r")
  case True
  then show "agentOK r \<Longrightarrow> agentOK (snd (dispatchEventRound e fp now c r))" by (simp add: dispatchEventRound_def)
next
  case False
  assume ok: "agentOK r"
  then have pre: "dbOK (arDB r)" "liveOK r" "threadsOK r" using False by (simp_all add: agentOK_def)
  obtain res d where tx: "lockedTx (\<lambda>_. True) e (roundTx fp now r c) (arDB r) = (res, d)" by fastforce
  have latch: "dbOK d \<Longrightarrow> agentOK (latchLocked (r\<lparr>arDB := d\<rparr>))" using agentOK_latch pre(3) by simp
  from tx show ?thesis
  proof (cases rule: lockedTx_cases)
    case old
    then show ?thesis using False tx ok latch pre(1) by (cases res) (auto simp: dispatchEventRound_def)
  next
    case (unreported a n)
    then have "dbOK d" using roundTx_OK(1) pre by blast
    then show ?thesis using False tx unreported latch by (simp add: dispatchEventRound_def requestCancellationCausedPersistenceError_def)
  next
    case (committed ls n)
    note k = roundTx_OK [OF committed(3) pre(1,2)]
    have "agentOK (fold launchRunLocked ls (r\<lparr>arDB := d\<rparr>))"
      using k pre by (intro agentOK_launches) (auto simp: liveOK_def)
    then show ?thesis using False tx committed(1) by (simp add: dispatchEventRound_def)
  qed
qed

lemma runIsRunning_session:
  assumes "runIsRunningTx s k flt (d, n) = (Inr True, d', n')" "dbOK d"
  shows "runningIn (dbSessions d) s"
proof -
  obtain x where f: "find (\<lambda>x. rnSession x = s \<and> rnID x = k) (dbRuns d) = Some x" "rnStatus x = ''running''"
    using assms(1) by (auto simp: runIsRunningTx_def aquery_Inr split: option.splits)
  then have x: "x \<in> set (dbRuns d)" "rnSession x = s" "rnStatus x = ''running''" using found_run [OF f(1)] by (simp_all add: runKey_def)
  then show ?thesis using runOK_E [OF assms(2) x(1)] unfolding runningIn_def by metis
qed

text \<open>What a mutation of the events has to do to be run by a tool.\<close>

definition toolMutation :: "string \<Rightarrow> eventResult asql \<Rightarrow> bool" where
  "toolMutation s m = (\<forall>d flt n res d' n'. dbOK d \<longrightarrow> runningIn (dbSessions d) s \<longrightarrow> m flt (d, n) = (Inr res, d', n') \<longrightarrow>
     dbOK d' \<and> sameRuns d d' \<and> dbPending d' = dbPending d)"

lemma toolMutation_create: "toolMutation (wuSession w) (CreateForRun w)"
proof (unfold toolMutation_def, intro allI impI)
  fix d flt n res d' n'
  assume "dbOK d" "runningIn (dbSessions d) (wuSession w)" "CreateForRun w flt (d, n) = (Inr res, d', n')"
  then show "dbOK d' \<and> sameRuns d d' \<and> dbPending d' = dbPending d" using CreateForRun_OK(1-3) by simp
qed

lemma toolMutation_delete: "toolMutation s (DeleteForRun s k ev now)"
  unfolding toolMutation_def using DeleteForRun_OK by blast

definition toolTx :: "string \<Rightarrow> int \<Rightarrow> eventResult asql \<Rightarrow> (eventResult + eventResult) asql" where
  "toolTx s k mutate = andThenD (runIsRunningTx s k) (\<lambda>running.
     if \<not> running then pureD (Inl (EventError ''RUN_NOT_RUNNING'' ''not_executed''))
     else andThenD LatestEventLogIDTx (\<lambda>_. andThenD mutate (\<lambda>result. pureD (Inr result))))"

lemma toolTx_Inr:
  assumes "toolTx s k mutate flt (d, 0) = (Inr (Inr a), d', n)" "dbOK d"
  obtains n1 where "runningIn (dbSessions d) s" "mutate flt (d, 2) = (Inr a, d', n1)"
proof -
  obtain d1 n1 where r: "runIsRunningTx s k flt (d, 0) = (Inr True, d1, n1)"
    and m: "andThenD LatestEventLogIDTx (\<lambda>_. andThenD mutate (\<lambda>result. pureD (Inr result))) flt (d1, n1) = (Inr (Inr a), d', n)"
    using assms(1) by (auto simp: toolTx_def andThenD_Inr pureD_Inr split: if_splits)
  have "d1 = d" "n1 = Suc 0" using r by (simp_all add: runIsRunningTx_def aquery_Inr)
  then show ?thesis using m that runIsRunning_session [OF r assms(2)]
    by (auto simp: LatestEventLogIDTx_def asql_success numeral_2_eq_2)
qed

lemma eventToolTransaction_keeps:
  assumes ok: "agentOK r" and m: "toolMutation s mutate"
  shows "agentOK (snd (eventToolTransaction e s k mutate r))"
proof (cases "refusing r")
  case True
  then show ?thesis using ok by (simp add: eventToolTransaction_def)
next
  case False
  obtain res d where tx: "lockedTx (\<lambda>_. True) e (toolTx s k mutate) (arDB r) = (res, d)" by fastforce
  have c: "dbOK d \<and> runningKeys d \<subseteq> runningKeys (arDB r) \<and> waiting d \<subseteq> waiting (arDB r)"
    if t: "toolTx s k mutate (teFlt e) (arDB r, 0) = (Inr (Inr a), d, n)" for a n
  proof -
    have db: "dbOK (arDB r)" using ok by (simp add: agentOK_def)
    obtain n1 where "runningIn (dbSessions (arDB r)) s" "mutate (teFlt e) (arDB r, 2) = (Inr a, d, n1)"
      by (rule toolTx_Inr [OF t db])
    then have "dbOK d \<and> sameRuns (arDB r) d \<and> dbPending d = dbPending (arDB r)" using m db unfolding toolMutation_def by blast
    then show ?thesis using runningKeys_sameRuns by (auto simp: waiting_def)
  qed
  have k: "agentOK (r\<lparr>arDB := d\<rparr>)" "dbOK d" using agentOK_change [OF ok tx] c by blast+
  have eq: "eventToolTransaction e s k mutate r = (case (res, d) of
      (TxFailed inCommit, d) \<Rightarrow> (EventError ''PERSISTENCE_UNAVAILABLE'' (if inCommit then ''unknown'' else ''not_executed''), latchLocked (r\<lparr>arDB := d\<rparr>))
    | (TxReply result, _) \<Rightarrow> (result, r) | (TxDone result, d) \<Rightarrow> (result, r\<lparr>arDB := d\<rparr>))"
    using False tx by (simp add: eventToolTransaction_def toolTx_def)
  show ?thesis using k ok agentOK_latch [of d r] by (cases res) (simp_all add: eq agentOK_def)
qed

lemma ParseCreateEvent_session:
  "ParseCreateEvent ac entropy arguments s k now = Some w \<Longrightarrow> wuSession w = s \<and> wuRun w = k \<and> wuState w = NoState"
  by (auto simp: ParseCreateEvent_def bind_eq_Some_conv split: if_splits prod.splits)

lemma executeEventTool_keeps: "agentOK r \<Longrightarrow> agentOK (snd (executeEventTool ac e entropy now s k name arguments r))"
proof -
  assume ok: "agentOK r"
  have "agentOK (snd (listEventsForRun flt s r))" for flt
    using ok agentOK_latch [of "arDB r" r] by (auto simp: listEventsForRun_def agentOK_def split: sum.split prod.split)
  moreover have "agentOK (snd (createEventForRun e w r))" if "ParseCreateEvent ac entropy arguments s k now = Some w" for w
    unfolding createEventForRun_def by (rule eventToolTransaction_keeps [OF ok toolMutation_create])
  moreover have "agentOK (snd (deleteEventForRun e s k ev now r))" for ev
    unfolding deleteEventForRun_def by (rule eventToolTransaction_keeps [OF ok toolMutation_delete])
  ultimately show ?thesis using ok by (auto simp: executeEventTool_def split: option.split)
qed

lemma deleteEventByUser_keeps: "agentOK r \<Longrightarrow> agentOK (snd (deleteEventByUser e now s ev r))"
proof (cases "refusing r")
  case True
  then show "agentOK r \<Longrightarrow> agentOK (snd (deleteEventByUser e now s ev r))" by (simp add: deleteEventByUser_def)
next
  case False
  assume ok: "agentOK r"
  obtain res d where tx: "lockedTx (\<lambda>_. True) e (deleteEventTx now s ev) (arDB r) = (res, d)" by fastforce
  have "dbOK d \<and> runningKeys d \<subseteq> runningKeys (arDB r) \<and> waiting d \<subseteq> waiting (arDB r)"
    if t: "deleteEventTx now s ev (teFlt e) (arDB r, 0) = (Inr (Inr a), d, n)" for a n
  proof -
    obtain n1 n2 where "RemoveRecordTx a ''deleted_by_user'' None None now (teFlt e) (arDB r, n1) = (Inr (), d, n2)"
      using t by (auto simp: deleteEventTx_def sessionByID_def LatestEventLogIDTx_def asql_success split: option.splits)
    from RemoveRecordTx_OK [OF this] show ?thesis using ok runningKeys_sameRuns by (auto simp: agentOK_def waiting_def)
  qed
  then have k: "agentOK (r\<lparr>arDB := d\<rparr>)" "dbOK d" "(\<And>a. res \<noteq> TxDone a) \<Longrightarrow> teCommit e \<noteq> CommitUnreported \<Longrightarrow> d = arDB r"
    using agentOK_change [OF ok tx] by blast+
  show ?thesis
  proof (cases res)
    case (TxFailed b)
    then show ?thesis using False tx k by (simp add: deleteEventByUser_def agentOK_mutationFailure [OF ok])
  qed (use False tx k ok in \<open>auto simp: deleteEventByUser_def\<close>)
qed

subsection \<open>Ends of runs\<close>

lemma terminalTx_Inr:
  assumes "terminalTx s k f flt (d, n) = (Inr (Inr u), d', n')"
  shows "d' = d\<lparr>dbRuns := map (\<lambda>x. if runningRow s k x then f x else x) (dbRuns d)\<rparr>"
  using assms by (auto simp: terminalTx_def updateRunning_def asql_success split: if_splits)

lemma filter_unique: "distinct xs \<Longrightarrow> x \<in> set xs \<Longrightarrow> P x \<Longrightarrow> (\<And>y. y \<in> set xs \<Longrightarrow> P y \<Longrightarrow> y = x) \<Longrightarrow> filter P xs = [x]"
proof (induction xs)
  case (Cons y ys)
  then show ?case
  proof (cases "y = x")
    case True
    then have "\<not> P z" if "z \<in> set ys" for z using Cons.prems(1) Cons.prems(4) [of z] that by auto
    then have "filter P ys = []" by (simp add: filter_empty_conv)
    then show ?thesis using True Cons.prems(3) by simp
  next
    case False
    then have "\<not> P y" using Cons.prems(4) [of y] by auto
    moreover have "filter P ys = [x]"
    proof (rule Cons.IH)
      show "distinct ys" "x \<in> set ys" "P x" using Cons.prems(1-3) False by simp_all
      show "z = x" if "z \<in> set ys" "P z" for z using Cons.prems(4) [of z] that by simp
    qed
    ultimately show ?thesis by simp
  qed
qed simp

lemma terminalTx_Inl:
  assumes "terminalTx s k f flt (d, n) = (Inr (Inl u), d', n')" "dbOK d"
  shows "(s, k) \<notin> runningKeys d"
proof
  assume "(s, k) \<in> runningKeys d"
  then obtain x where x: "x \<in> set (dbRuns d)" "runningRow s k x" by (auto simp: runningKeys_def runningRow_def runKey_def)
  have "filter (runningRow s k) (dbRuns d) = [x]"
  proof -
    have dist: "distinct (map runKey (dbRuns d))" using assms(2) by (simp add: dbOK_def agentKeysOK_def)
    show ?thesis
    proof (rule filter_unique)
      show "distinct (dbRuns d)" using dist by (simp add: distinct_map)
      show "x \<in> set (dbRuns d)" "runningRow s k x" by fact+
      fix y assume y: "y \<in> set (dbRuns d)" "runningRow s k y"
      have "runKey y = runKey x" using y(2) x(2) by (simp add: runningRow_def runKey_def)
      then show "y = x" using dist y(1) x(1) by (meson distinct_map inj_onD)
    qed
  qed
  then show False using assms(1) by (auto simp: terminalTx_def updateRunning_def asql_success split: if_splits)
qed

lemma persistTerminal_keeps:
  assumes ok: "agentOK r" and st: "st \<noteq> ''running''" and p: "persistTerminalRunLocked e now s k st a b c r = (res, r')"
  shows "agentOK r'" "arActive r' = arActive r" "arThreads r' = arThreads r" "arClosed r' = arClosed r" "arFault r' = arFault r"
    "res \<noteq> None \<Longrightarrow> (s, k) \<notin> runningKeys (arDB r')" "runningKeys (arDB r') \<subseteq> runningKeys (arDB r)" "waiting (arDB r') = waiting (arDB r)"
proof -
  let ?f = "terminated st a b c now"
  obtain tr d where tx: "lockedTx (\<lambda>_. True) e (terminalTx s k ?f) (arDB r) = (tr, d)" by fastforce
  have db: "dbOK (arDB r)" using ok by (simp add: agentOK_def)
  have t: "dbOK d \<and> runningKeys d = runningKeys (arDB r) - {(s, k)} \<and> waiting d = waiting (arDB r)"
    if "terminalTx s k ?f (teFlt e) (arDB r, 0) = (Inr (Inr u), d, n)" for u n
    using terminate_OK [OF db st terminalTx_Inr [OF that]] by simp
  then have k: "agentOK (r\<lparr>arDB := d\<rparr>)" using agentOK_change [OF ok tx] by blast
  have w: "waiting d = waiting (arDB r)" "runningKeys d \<subseteq> runningKeys (arDB r)" using tx by (cases rule: lockedTx_cases; use t in blast)+
  have eq: "(res, r') = (case tr of TxFailed x \<Rightarrow> (None, r\<lparr>arDB := d\<rparr>) | TxReply x \<Rightarrow> (Some False, r) | TxDone x \<Rightarrow> (Some True, r\<lparr>arDB := d\<rparr>))"
    using p tx by (cases tr) (simp_all add: persistTerminalRunLocked_def)
  show "agentOK r'" "arActive r' = arActive r" "arThreads r' = arThreads r" "arClosed r' = arClosed r" "arFault r' = arFault r"
    "runningKeys (arDB r') \<subseteq> runningKeys (arDB r)" "waiting (arDB r') = waiting (arDB r)"
    using eq k ok w by (cases tr; simp)+
  show "(s, k) \<notin> runningKeys (arDB r')" if "res \<noteq> None"
  proof (cases tr)
    case (TxReply u)
    then obtain d1 n where "terminalTx s k ?f (teFlt e) (arDB r, 0) = (Inr (Inl u), d1, n)"
      using tx by (auto simp: lockedTx_def split: if_splits prod.splits sum.splits commitOutcome.splits)
    then show ?thesis using terminalTx_Inl db eq TxReply by simp
  next
    case (TxDone u)
    then obtain n where "terminalTx s k ?f (teFlt e) (arDB r, 0) = (Inr (Inr u), d, n)"
      using tx by (auto simp: lockedTx_def split: if_splits prod.splits sum.splits commitOutcome.splits)
    then show ?thesis using t eq TxDone by simp
  qed (use eq that in simp)
qed

lemma agentOK_latched: "agentOK r \<Longrightarrow> agentOK (latchLocked r)"
  using agentOK_latch [of "arDB r" r] by (simp add: agentOK_def)

lemma persistRunFailure_keeps: "agentOK r \<Longrightarrow> agentOK (persistRunFailure e now s k reason r)"
  using persistTerminal_keeps(1) [of r "''failed''" e now s k] agentOK_latched
  by (auto simp: persistRunFailure_def split: prod.split option.split)

lemma completeRun_keeps: "agentOK r \<Longrightarrow> agentOK (completeRun e e2 now s k summary output r)"
proof -
  assume ok: "agentOK r"
  obtain res r' where c: "completeFinalizedRun e now s k summary output r = (res, r')" by fastforce
  then have "agentOK r'" using ok persistTerminal_keeps(1) [of r "''completed''" e now s k] by (auto simp: completeFinalizedRun_def split: if_splits)
  then show ?thesis using c persistRunFailure_keeps by (cases res) (simp_all add: completeRun_def handleRunPersistenceError_def)
qed

lemma updateRunProgress_keeps: "agentOK r \<Longrightarrow> agentOK (snd (updateRunProgress flt s k mc tc ts r))"
proof -
  assume ok: "agentOK r"
  let ?f = "\<lambda>x. if runningRow s k x then x\<lparr>rnModelCalls := mc, rnToolCalls := tc, rnProgress := ts\<rparr> else x"
  have f: "runKey (?f x) = runKey x" "rnTriggers (?f x) = rnTriggers x" "rnStatus (?f x) = rnStatus x" for x
    by (simp_all add: runKey_def)
  have "dbOK (arDB r)" using ok by (simp add: agentOK_def)
  note m = mapRuns_OK [OF this, of ?f, OF f(1,2), simplified f(3)]
  have "agentOK (r\<lparr>arDB := (arDB r)\<lparr>dbRuns := map ?f (dbRuns (arDB r))\<rparr>\<rparr>)"
    using ok m by (intro agentOK_plain) (auto simp: runningKeys_def waiting_def)
  then show ?thesis using ok by (auto simp: updateRunProgress_def updateRunning_def astmt_def stmtF_def split: sum.splits prod.splits)
qed

lemma mention_keeps: "agentOK r \<Longrightarrow> agentOK (r\<lparr>arDB := (arDB r)\<lparr>dbMentionCursors := c\<rparr>\<rparr>)"
  by (intro agentOK_plain) (auto simp: agentOK_def runningKeys_def waiting_def)

lemma finishActive_keeps:
  assumes ok: "agentOK r" and i: "acting r i" "mayReturn r i"
  shows "agentOK (finishActive e now i r)"
proof -
  let ?s = "thSession (arThreads r ! i)"
  have act: "arActive r ?s = Some i" using ok i(1) by (auto simp: agentOK_def threadsOK_def acting_def)
  define r2 where "r2 = r\<lparr>arActive := (arActive r)(?s := None), arThreads := (arThreads r)[i := (arThreads r ! i)\<lparr>thDone := True\<rparr>]\<rparr>"
  have eq: "finishActive e now i r = dispatchPendingLocked e now ?s r2"
    using act by (simp add: finishActive_def Let_def r2_def)
  have nth: "j < length (arThreads r) \<Longrightarrow> j \<noteq> i \<Longrightarrow> arThreads r2 ! j = arThreads r ! j" for j by (simp add: r2_def)
  have "threadsOK r2"
  proof -
    have "j < length (arThreads r2) \<and> thSession (arThreads r2 ! j) = s \<and> \<not> thDone (arThreads r2 ! j)" if "arActive r2 s = Some j" for s j
    proof -
      have "s \<noteq> ?s" "arActive r s = Some j" using that by (auto simp: r2_def split: if_splits)
      then have "j < length (arThreads r)" "thSession (arThreads r ! j) = s" "\<not> thDone (arThreads r ! j)" "j \<noteq> i"
        using ok unfolding agentOK_def threadsOK_def by blast+
      then show ?thesis using nth by (simp add: r2_def)
    qed
    moreover have "arActive r2 (thSession (arThreads r2 ! j)) = Some j" if "j < length (arThreads r2)" "\<not> thDone (arThreads r2 ! j)" for j
    proof (cases "j = i")
      case True
      then show ?thesis using that i(1) by (simp add: r2_def acting_def)
    next
      case False
      then have j: "arThreads r2 ! j = arThreads r ! j" "j < length (arThreads r)" using that(1) nth by (simp_all add: r2_def)
      then have "arActive r (thSession (arThreads r ! j)) = Some j" using ok that(2) by (simp add: agentOK_def threadsOK_def)
      then show ?thesis using False j act by (auto simp: r2_def)
    qed
    ultimately show ?thesis unfolding threadsOK_def by blast
  qed
  moreover have "dbOK (arDB r2)" using ok by (simp add: agentOK_def r2_def)
  moreover have "\<forall>(s, k) \<in> runningKeys (arDB r2). runsFor r2 s k" if "\<not> refusing r2"
  proof -
    have live: "liveOK r" "\<not> arFault r" using that ok by (auto simp: agentOK_def r2_def refusing_def)
    have "runsFor r2 s k" if k: "(s, k) \<in> runningKeys (arDB r)" for s k
    proof -
      have "runsFor r s k" using live(1) k by (auto simp: liveOK_def)
      then obtain j where j: "arActive r s = Some j" "thRun (arThreads r ! j) = k" "\<not> thCanceled (arThreads r ! j)" by (auto simp: runsFor_def)
      have tj: "j < length (arThreads r)" "thSession (arThreads r ! j) = s" using ok j(1) by (auto simp: agentOK_def threadsOK_def)
      have "j \<noteq> i"
      proof
        assume "j = i"
        then have "\<not> list_ex (runningRow s k) (dbRuns (arDB r))" using i(2) live(2) j tj by (auto simp: mayReturn_def)
        then show False using k by (auto simp: runningKeys_def runKey_def runningRow_def list_ex_iff)
      qed
      moreover have "s \<noteq> ?s" using calculation j(1) act by auto
      ultimately show ?thesis using j nth tj by (simp add: runsFor_def r2_def)
    qed
    then show ?thesis by (auto simp: r2_def)
  qed
  moreover have "waiting (arDB r2) \<subseteq> {j. isBusy r2 j} \<union> {?s}" if "\<not> refusing r2"
  proof -
    have "waiting (arDB r) \<subseteq> {j. isBusy r j}" using that ok by (simp add: agentOK_def liveOK_def r2_def refusing_def)
    then show ?thesis by (auto simp: r2_def isBusy_def)
  qed
  ultimately show ?thesis unfolding eq by (rule dispatchPendingLocked_keeps)
qed

subsection \<open>Shutdown and restart\<close>

lemma quiesceOne_keeps: "agentOK r \<Longrightarrow> refusing r \<Longrightarrow> agentOK (quiesceOne env now s r) \<and> refusing (quiesceOne env now s r)"
proof (cases "arActive r s")
  case None
  then show "agentOK r \<Longrightarrow> refusing r \<Longrightarrow> ?thesis" by (simp add: quiesceOne_def)
next
  case (Some i)
  assume ok: "agentOK r" and ref: "refusing r"
  obtain res r' where p: "persistTerminalRunLocked (env s) now s (thRun (arThreads r ! i)) ''interrupted'' None None (Some serverShutdownReason) r = (res, r')"
    by fastforce
  have k: "agentOK r'" "refusing r'" using persistTerminal_keeps [OF ok _ p] ref by (simp_all add: refusing_def)
  then have "agentOK (cancelThread i r')" by (simp add: agentOK_def)
  moreover have "agentOK (cancelThread i (latchLocked r'))" using agentOK_latched [OF k(1)] by (simp add: agentOK_def)
  ultimately show ?thesis using Some p k by (cases res) (simp_all add: quiesceOne_def)
qed

lemma Quiesce_keeps: "agentOK r \<Longrightarrow> agentOK (Quiesce env now ks r)"
proof -
  assume ok: "agentOK r"
  have "agentOK (fold (quiesceOne env now) ks r1) \<and> refusing (fold (quiesceOne env now) ks r1)" if "agentOK r1" "refusing r1" for r1
    using that quiesceOne_keeps by (induction ks arbitrary: r1) auto
  moreover have "agentOK (r\<lparr>arClosed := True\<rparr>)" using ok by (simp add: agentOK_def refusing_def)
  ultimately show ?thesis using ok by (simp add: Quiesce_def refusing_def)
qed

lemma recover_loop:
  assumes "foldD (recoverStep now) ss ls flt (d1, n) = (Inr ls', d', n')" "launched d ls d1" "distinct (map ssID ss)"
    "\<And>s. s \<in> set ss \<Longrightarrow> s \<in> set (dbSessions d1) \<and> ssStatus s = ''running'' \<and> noRunIn d1 (ssID s) \<and> ssID s \<notin> fst ` set ls"
  shows "launched d ls' d' \<and> fst ` set ls' = fst ` set ls \<union> ssID ` set ss"
  using assms
proof (induction ss arbitrary: ls d1 n)
  case Nil
  then show ?case by (auto simp: asql_success)
next
  case (Cons s ss)
  let ?i = "ssID s" and ?k = "ssCurrentRunID s + 1"
  let ?g = "\<lambda>t. if ssStatus t = ''running'' then t\<lparr>ssCurrentRunID := ?k\<rparr> else t"
  define d2 where "d2 = d1\<lparr>dbSessions := map (\<lambda>t. if ssID t = ?i then ?g t else t) (dbSessions d1),
    dbRuns := dbRuns d1 @ [newRun ?i ?k ''server_recovery'' None now]\<rparr>"
  obtain ls1 d3 n2 where step: "recoverStep now s ls flt (d1, n) = (Inr ls1, d3, n2)" and rest': "foldD (recoverStep now) ss ls1 flt (d3, n2) = (Inr ls', d', n')"
    using Cons.prems(1) by (auto simp: andThenD_Inr)
  have "ls1 = ls @ [(?i, ?k, ''server_recovery'')]" "d3 = d2"
    using step by (simp_all add: recoverStep_def insertRun_def updateSession_def asql_success Let_def d2_def)
  with rest' have rest: "foldD (recoverStep now) ss (ls @ [(?i, ?k, ''server_recovery'')]) flt (d2, n2) = (Inr ls', d', n')" by simp
  have s: "s \<in> set (dbSessions d1)" "ssStatus s = ''running''" "noRunIn d1 ?i" "?i \<notin> fst ` set ls" using Cons.prems(4) [of s] by simp_all
  have "dbOK d1" using Cons.prems(2) by (simp add: launched_def)
  from addRun_starts [OF this s(1) refl s(3), of "newRun ?i ?k ''server_recovery'' None now" ?g d2]
  have st: "starts d1 ?i ?k d2" using s(2) by (simp add: newRun_def runKey_def d2_def)
  have "launched d ls' d' \<and> fst ` set ls' = fst ` set (ls @ [(?i, ?k, ''server_recovery'')]) \<union> ssID ` set ss"
  proof (rule Cons.IH [OF rest])
    show "launched d (ls @ [(?i, ?k, ''server_recovery'')]) d2" by (rule launched_snoc [OF Cons.prems(2) st s(4)])
    show "distinct (map ssID ss)" using Cons.prems(3) by simp
    fix t assume t: "t \<in> set ss"
    then have other: "ssID t \<noteq> ?i" using Cons.prems(3) by (metis distinct.simps(2) image_eqI list.simps(9) set_map)
    have p: "t \<in> set (dbSessions d1)" "ssStatus t = ''running''" "noRunIn d1 (ssID t)" "ssID t \<notin> fst ` set ls"
      using Cons.prems(4) [of t] t by simp_all
    have "t \<in> set (dbSessions d2)" using imageI [OF p(1), of "\<lambda>t. if ssID t = ?i then ?g t else t"] other by (simp add: d2_def)
    moreover have "noRunIn d2 (ssID t)" using p(3) st other by (auto simp: noRunIn_def starts_def)
    ultimately show "t \<in> set (dbSessions d2) \<and> ssStatus t = ''running'' \<and> noRunIn d2 (ssID t) \<and> ssID t \<notin> fst ` set (ls @ [(?i, ?k, ''server_recovery'')])"
      using p other by simp
  qed
  then show ?case by auto
qed

lemma distinct_map_sort: "distinct (map f (sort_key g xs)) = distinct (map f xs)"
  by (rule mset_eq_imp_distinct_iff) simp

lemma recoveryTx_OK:
  assumes "recoveryTx now flt (d, n) = (Inr (Inr ls), d', n')" "dbOK d"
  shows "dbOK d'" "distinct (map fst ls)" "runningKeys d' = (\<lambda>(s, k, _). (s, k)) ` set ls" "waiting d' \<subseteq> fst ` set ls"
proof -
  let ?f = "\<lambda>x. if rnStatus x = ''running'' then terminated ''interrupted'' None None (Some crashRecoveryReason) now x else x"
  define d1 where "d1 = d\<lparr>dbRuns := map ?f (dbRuns d)\<rparr>"
  define ss where "ss = sort_key (\<lambda>s. (ssCreatedAt s, ssID s)) (filter (\<lambda>s. ssStatus s = ''running'') (dbSessions d))"
  obtain n1 where loop: "foldD (recoverStep now) ss [] flt (d1, n1) = (Inr ls, d', n')"
    using assms(1) by (auto simp: recoveryTx_def createRecoveryRunsTx_def asql_success d1_def ss_def)
  have f: "runKey (?f x) = runKey x" "rnTriggers (?f x) = rnTriggers x" "rnStatus (?f x) = ''running'' \<Longrightarrow> rnStatus x = ''running''" for x by (simp_all split: if_splits)
  note m = mapRuns_OK [OF assms(2), of ?f, OF f(1,2) f(3)]
  have "runningKeys d1 = runKey ` {x \<in> set (dbRuns d). rnStatus (?f x) = ''running''}" using m(2) by (simp add: d1_def)
  then have d1: "dbOK d1" "runningKeys d1 = {}" using m(1) by (simp_all add: d1_def)
  have "distinct (map ssID (dbSessions d))" using assms(2) by (simp add: dbOK_def agentKeysOK_def)
  then have "distinct (map ssID (filter (\<lambda>s. ssStatus s = ''running'') (dbSessions d)))" by (rule distinct_map_filter)
  then have "distinct (map ssID ss)" by (simp add: ss_def distinct_map_sort)
  moreover have "s \<in> set (dbSessions d1) \<and> ssStatus s = ''running'' \<and> noRunIn d1 (ssID s)" if "s \<in> set ss" for s
    using that d1(2) by (simp add: ss_def d1_def noRunIn_def)
  ultimately have l: "launched d1 ls d'" and img: "fst ` set ls = ssID ` set ss"
    using recover_loop [OF loop launched_refl [OF d1(1)]] by simp_all
  show "dbOK d'" "distinct (map fst ls)" "runningKeys d' = (\<lambda>(s, k, _). (s, k)) ` set ls" using l d1(2) by (simp_all add: launched_def)
  show "waiting d' \<subseteq> fst ` set ls"
  proof
    fix i assume "i \<in> waiting d'"
    then have "i \<in> waiting d1" using l by (auto simp: launched_def)
    then have "i \<in> waiting d" by (simp add: d1_def waiting_def)
    then have "runningIn (dbSessions d) i" by (rule waiting_running [OF assms(2)])
    then show "i \<in> fst ` set ls" unfolding img by (auto simp: runningIn_def ss_def)
  qed
qed

lemma recover_keeps: "dbOK d \<Longrightarrow> agentOK (recoverPersistedRuntime e now d)"
proof -
  assume ok: "dbOK d"
  define fresh where "fresh = \<lparr>arDB = d, arActive = Map.empty, arThreads = [], arClosed = False, arFault = False\<rparr>"
  obtain res d' where tx: "lockedTx (\<lambda>_. True) e (recoveryTx now) d = (res, d')" by fastforce
  have eq: "recoverPersistedRuntime e now d = (case (res, d') of (TxDone launches, d') \<Rightarrow> fold launchRunLocked launches (fresh\<lparr>arDB := d'\<rparr>)
      | (_, d') \<Rightarrow> fresh\<lparr>arDB := d', arClosed := True, arFault := True\<rparr>)"
    using tx by (cases res) (simp_all add: recoverPersistedRuntime_def Let_def fresh_def)
  have th: "threadsOK fresh" by (simp add: threadsOK_def fresh_def)
  have db: "dbOK d'" using lockedTx_keeps [OF tx ok] recoveryTx_OK(1) ok by blast
  show ?thesis
  proof (cases res)
    case (TxDone ls)
    obtain n where n: "recoveryTx now (teFlt e) (d, 0) = (Inr (Inr ls), d', n)"
      using tx TxDone by (cases rule: lockedTx_cases) auto
    note k = recoveryTx_OK [OF n ok]
    have "agentOK (fold launchRunLocked ls (fresh\<lparr>arDB := d'\<rparr>))"
      using k th by (intro agentOK_launches) (auto simp: isBusy_def fresh_def)
    then show ?thesis by (simp add: eq TxDone)
  qed (use eq db th in \<open>auto simp: agentOK_def threadsOK_def refusing_def fresh_def\<close>)
qed

section \<open>Interleavings\<close>

lemma restart_keeps: "agentOK r \<Longrightarrow> agentOK (recoverPersistedRuntime e now (arDB r))"
  by (rule recover_keeps) (simp add: agentOK_def)

lemmas operation_keeps = createSession_keeps startSession_keeps retryRun_keeps changeSessionState_keeps dispatchEventRound_keeps
  deleteEventByUser_keeps executeEventTool_keeps updateRunProgress_keeps mention_keeps persistRunFailure_keeps completeRun_keeps
  finishActive_keeps Quiesce_keeps restart_keeps

lemma agentFire_keeps: "agentOK r \<Longrightarrow> agentFire ev r = Next r' \<Longrightarrow> agentOK r'"
  by (cases ev) (auto simp only: agentFire_def agEvent.case outcome.inject outcome.distinct operation_keeps split: if_split_asm)

interpretation agent: event_invariant agentFire agentOK
  by unfold_locales (rule agentFire_keeps)

definition freshAgent :: agentServer where
  "freshAgent = \<lparr>arDB = emptyAgentDB, arActive = Map.empty, arThreads = [], arClosed = False, arFault = False\<rparr>"

lemma freshAgent_OK: "agentOK freshAgent"
  using emptyAgentDB_OK by (simp add: agentOK_def freshAgent_def threadsOK_def liveOK_def runningKeys_def waiting_def emptyAgentDB_def)

lemmas reachable_agent = agent.run_inv [OF freshAgent_OK]

end
