(* ===== verification/AgentProps.thy ===== *)
theory AgentProps
  imports AgentSafety
begin

text \<open>
  What the agent server guarantees in every state it can reach: wake-ups are neither lost nor repeated and arrive in order, an
  event ends exactly once, a session runs one goroutine at a time, a stop hands everything over to the next start, and the result of an event
  tool says what happened.
\<close>

definition healthy :: "agentServer \<Rightarrow> bool" where
  "healthy r = (\<not> arClosed r \<and> \<not> arFault r)"

lemma healthy_live: "agentOK r \<Longrightarrow> healthy r \<Longrightarrow> liveOK r"
  by (simp add: agentOK_def healthy_def refusing_def)

section \<open>A concrete run\<close>

text \<open>A session whose first run registers a timer, which fires while the run still works.\<close>

definition demoCodec :: argCodec where
  "demoCodec = \<lparr>acStrict = (\<lambda>names v. case v of JObj kvs \<Rightarrow> if list_all (\<lambda>kv. fst kv \<in> set names) kvs then Some (map_of kvs) else None | _ \<Rightarrow> None),
     acFloat = (\<lambda>_. None), acInt = (\<lambda>_. None), acRFC3339 = (\<lambda>_. Some 100), acLower = id, acUpper = id\<rparr>"

definition demoEnv :: txEnv where
  "demoEnv = \<lparr>teBegin = True, teFlt = (\<lambda>_. False), teStage = True, teCommit = CommitOK, teCanceled = False\<rparr>"

definition demoSession :: createSessionRequest where
  "demoSession = \<lparr>crName = ''n'', crAccountID = ''a'', crModelName = ''m'', crModelLevel = None, crPrompt = None, crMaxLoop = None,
     crMaxToolCall = None, crSkillsEnabled = False, crConversationMode = None\<rparr>"

definition demoTimer :: raw where
  "demoTimer = Some (JObj [(''type'', JStr ''timer''), (''params'', JObj [(''at'', JStr ''t'')])])"

definition demoStarted :: "agEvent list" where
  "demoStarted = [EvCreate demoCodec \<lparr>sdPrompt = ''p'', sdMaxLoop = 5, sdMaxToolCall = 5\<rparr>
       (Body [\<lparr>mmModelName = ''m'', mmProviderID = ''v'', mmModel = ''g'', mmLevels = [], mmContextWindow = 1, mmEnabled = True, mmAvailable = True\<rparr>])
       (Body \<lparr>baID = ''a'', baUserName = ''u'', baStatus = ''active'', baToken = ''t'', baChatRead = None, baChatReadSince = None\<rparr>)
       (Some []) demoEnv 1 (Some demoSession),
     EvStart demoEnv 2 ''s_'',
     EvTool 0 demoCodec demoEnv (Some []) 3 ''create_event'' demoTimer]"

definition demoFired :: "agEvent list" where
  "demoFired = demoStarted @ [EvRound demoEnv (\<lambda>_. []) 200 ClaimLocal]"

definition demoAgent :: "agEvent list \<Rightarrow> agentServer" where
  "demoAgent evs = (case run agentFire evs freshAgent of Next r \<Rightarrow> r | _ \<Rightarrow> freshAgent)"

definition demoAgentRuns :: "agEvent list \<Rightarrow> bool" where
  "demoAgentRuns evs = (case run agentFire evs freshAgent of Next r \<Rightarrow> True | _ \<Rightarrow> False)"

lemma demo_agent: "demoAgentRuns evs \<Longrightarrow> run agentFire evs freshAgent = Next (demoAgent evs)"
  by (simp add: demoAgentRuns_def demoAgent_def split: outcome.splits)

lemma demo_agent_started: "demoAgentRuns demoStarted" by code_simp
lemma demo_agent_fired: "demoAgentRuns demoFired" by code_simp

section \<open>Delivery\<close>

text \<open>
  (C15) Whatever happens, also failed transactions, stops, crashes and restarts: the triggers ever queued for a session are, in the order in
  which they were queued, those already handed over followed by those still pending; and the triggers stored with a run are exactly the ones
  handed over to it, at most ten.
\<close>

theorem wakeups_arrive_once_in_order:
  assumes "run agentFire evs freshAgent = Next r"
  shows "queuedFor s (dbQueued (arDB r)) = deliveredOf s (dbDelivered (arDB r)) @ pendingIn s (dbPending (arDB r)) \<and>
    (\<forall>x \<in> set (dbRuns (arDB r)). deliveredTo (rnSession x) (rnID x) (dbDelivered (arDB r)) = (case rnTriggers x of None \<Rightarrow> [] | Some ps \<Rightarrow> ps) \<and>
       (\<forall>ps. rnTriggers x = Some ps \<longrightarrow> ps \<noteq> [] \<and> length ps \<le> MaxTriggersPerRun))"
  using reachable_agent [OF assms] by (auto simp: agentOK_def dbOK_def fifoOK_def batchOK_def)

theorem wakeups_arrive_once_in_order_witness:
  "queuedFor ''s_'' (dbQueued (arDB (demoAgent demoFired))) = pendingIn ''s_'' (dbPending (arDB (demoAgent demoFired))) \<and>
   length (dbQueued (arDB (demoAgent demoFired))) = 1"
proof -
  have "deliveredOf ''s_'' (dbDelivered (arDB (demoAgent demoFired))) = []" "length (dbQueued (arDB (demoAgent demoFired))) = 1" by code_simp+
  then show ?thesis using wakeups_arrive_once_in_order [OF demo_agent [OF demo_agent_fired], of "''s_''"] by simp
qed

text \<open>(C17) While the server is healthy, a session with a pending trigger has a goroutine that has not returned, which looks at the queue when it does.\<close>

theorem no_wakeup_is_stranded:
  assumes "run agentFire evs freshAgent = Next r" "healthy r" "p \<in> set (dbPending (arDB r))"
  shows "\<exists>i. acting r i \<and> thSession (arThreads r ! i) = ptSession p"
proof -
  have ok: "agentOK r" using reachable_agent [OF assms(1)] .
  then have "isBusy r (ptSession p)" using healthy_live [OF ok assms(2)] assms(3) by (auto simp: liveOK_def waiting_def)
  then show ?thesis using ok by (auto simp: isBusy_def agentOK_def threadsOK_def acting_def)
qed

theorem no_wakeup_is_stranded_witness:
  "\<exists>i. acting (demoAgent demoFired) i \<and> thSession (arThreads (demoAgent demoFired) ! i) = ''s_''"
proof -
  have p: "map ptSession (dbPending (arDB (demoAgent demoFired))) = [''s_'']" "healthy (demoAgent demoFired)" by code_simp+
  then obtain p where "p \<in> set (dbPending (arDB (demoAgent demoFired)))" "ptSession p = ''s_''" by auto
  then show ?thesis using no_wakeup_is_stranded [OF demo_agent [OF demo_agent_fired] p(2), of p] by simp
qed

lemma running_thread:
  assumes ok: "agentOK r" and x: "healthy r" "x \<in> set (dbRuns (arDB r))" "rnStatus x = ''running''"
  shows "\<exists>i. acting r i \<and> thSession (arThreads r ! i) = rnSession x \<and> thRun (arThreads r ! i) = rnID x \<and> \<not> thCanceled (arThreads r ! i)"
proof -
  have "(rnSession x, rnID x) \<in> runningKeys (arDB r)" using x(2,3) by (auto simp: runningKeys_def runKey_def)
  then have "runsFor r (rnSession x) (rnID x)" using healthy_live [OF ok x(1)] by (auto simp: liveOK_def)
  then obtain i where "arActive r (rnSession x) = Some i" "thRun (arThreads r ! i) = rnID x" "\<not> thCanceled (arThreads r ! i)"
    by (auto simp: runsFor_def)
  then show ?thesis using ok by (intro exI [of _ i]) (auto simp: agentOK_def threadsOK_def acting_def)
qed

lemma same_session_same_thread:
  "agentOK r \<Longrightarrow> acting r i \<Longrightarrow> acting r j \<Longrightarrow> thSession (arThreads r ! i) = thSession (arThreads r ! j) \<Longrightarrow> i = j"
  by (simp add: agentOK_def threadsOK_def acting_def) (metis option.inject)

lemma idle_no_running:
  assumes "noRunIn d s" "x \<in> set (dbRuns d)" "rnSession x = s"
  shows "rnStatus x \<noteq> ''running''"
proof
  assume "rnStatus x = ''running''"
  then have "runKey x \<in> runningKeys d" using assms(2) by (auto simp: runningKeys_def)
  then show False using assms(1,3) by (auto simp: noRunIn_def runKey_def)
qed

text \<open>
  (C16) Two goroutines that have not returned belong to different sessions; a run that is stored as running is the latest run of a running
  session and, while the server is healthy, it has such a goroutine, which is not cancelled.
\<close>

theorem one_goroutine_per_session:
  assumes "run agentFire evs freshAgent = Next r"
  shows "(\<forall>i j. acting r i \<and> acting r j \<and> thSession (arThreads r ! i) = thSession (arThreads r ! j) \<longrightarrow> i = j) \<and>
    (\<forall>x \<in> set (dbRuns (arDB r)). rnStatus x = ''running'' \<longrightarrow>
      (\<exists>s \<in> set (dbSessions (arDB r)). ssID s = rnSession x \<and> ssStatus s = ''running'' \<and> ssCurrentRunID s = rnID x) \<and>
      (healthy r \<longrightarrow> (\<exists>i. acting r i \<and> thSession (arThreads r ! i) = rnSession x \<and> thRun (arThreads r ! i) = rnID x \<and>
         \<not> thCanceled (arThreads r ! i))))"
proof (intro conjI allI ballI impI)
  have ok: "agentOK r" using reachable_agent [OF assms] .
  then have db: "dbOK (arDB r)" by (simp add: agentOK_def)
  show "i = j" if "acting r i \<and> acting r j \<and> thSession (arThreads r ! i) = thSession (arThreads r ! j)" for i j
    using same_session_same_thread [OF ok] that by blast
  fix x assume x: "x \<in> set (dbRuns (arDB r))" "rnStatus x = ''running''"
  show "\<exists>s \<in> set (dbSessions (arDB r)). ssID s = rnSession x \<and> ssStatus s = ''running'' \<and> ssCurrentRunID s = rnID x"
    by (rule runOK_E [OF db x(1)]) (use x(2) in auto)
  show "\<exists>i. acting r i \<and> thSession (arThreads r ! i) = rnSession x \<and> thRun (arThreads r ! i) = rnID x \<and> \<not> thCanceled (arThreads r ! i)" if "healthy r"
    using running_thread [OF ok that x] .
qed

theorem one_goroutine_per_session_witness:
  "\<exists>i. acting (demoAgent demoStarted) i \<and> thSession (arThreads (demoAgent demoStarted) ! i) = ''s_'' \<and>
     thRun (arThreads (demoAgent demoStarted) ! i) = 1 \<and> \<not> thCanceled (arThreads (demoAgent demoStarted) ! i)"
proof -
  have p: "map (\<lambda>x. (rnSession x, rnID x, rnStatus x)) (dbRuns (arDB (demoAgent demoStarted))) = [(''s_'', 1, ''running'')]"
    "healthy (demoAgent demoStarted)" by code_simp+
  then obtain x where "x \<in> set (dbRuns (arDB (demoAgent demoStarted)))" "rnSession x = ''s_''" "rnID x = 1" "rnStatus x = ''running''" by auto
  then show ?thesis using one_goroutine_per_session [OF demo_agent [OF demo_agent_started]] p(2) by (metis (no_types, lifting))
qed

text \<open>A session without events, pending triggers and running runs.\<close>

definition quiet :: "agentDB \<Rightarrow> string \<Rightarrow> bool" where
  "quiet d s = (list_all (\<lambda>w. wuSession w \<noteq> s) (dbEvents d) \<and> list_all (\<lambda>p. ptSession p \<noteq> s) (dbPending d) \<and>
     list_all (\<lambda>x. rnSession x = s \<longrightarrow> rnStatus x \<noteq> ''running'') (dbRuns d))"

text \<open>
  (C18) Every event that was ever created is either active or has exactly one entry in the log; a session has at most ten active events, and
  a session that is not running has no event, no pending trigger and no running run.
\<close>

theorem events_end_once:
  assumes "run agentFire evs freshAgent = Next r"
  shows "mset (dbCreated (arDB r)) = mset (map wuID (dbEvents (arDB r))) + mset (map lgEvent (dbLog (arDB r))) \<and>
    length (filter (\<lambda>w. wuSession w = s) (dbEvents (arDB r))) \<le> maxActiveEvents \<and>
    (\<forall>row \<in> set (dbSessions (arDB r)). ssStatus row \<noteq> ''running'' \<longrightarrow> quiet (arDB r) (ssID row))"
proof (intro conjI ballI impI)
  have ok: "dbOK (arDB r)" using reachable_agent [OF assms] by (simp add: agentOK_def)
  then show "mset (dbCreated (arDB r)) = mset (map wuID (dbEvents (arDB r))) + mset (map lgEvent (dbLog (arDB r)))"
    "length (filter (\<lambda>w. wuSession w = s) (dbEvents (arDB r))) \<le> maxActiveEvents"
    by (simp_all add: dbOK_def onceOK_def eventsOK_def)
  fix row assume row: "row \<in> set (dbSessions (arDB r))" "ssStatus row \<noteq> ''running''"
  have one: "t = row" if "t \<in> set (dbSessions (arDB r))" "ssID t = ssID row" for t
    using ok that row(1) by (metis dbOK_def agentKeysOK_def distinct_map inj_onD)
  then have "\<not> runningIn (dbSessions (arDB r)) (ssID row)" using row(2) unfolding runningIn_def by blast
  moreover have "\<forall>w \<in> set (dbEvents (arDB r)). runningIn (dbSessions (arDB r)) (wuSession w)"
    "\<forall>p \<in> set (dbPending (arDB r)). runningIn (dbSessions (arDB r)) (ptSession p)"
    using ok by (simp_all add: dbOK_def eventsOK_def queueOK_def)
  moreover have "noRunIn (arDB r) (ssID row)" using idle_not_running [OF ok row(1) refl row(2)] .
  ultimately show "quiet (arDB r) (ssID row)" using idle_no_running by (fastforce simp: quiet_def list_all_iff)
qed

theorem events_end_once_witness:
  "mset (dbCreated (arDB (demoAgent demoFired))) = {#''ev_''#} \<and>
   length (filter (\<lambda>w. wuSession w = ''s_'') (dbEvents (arDB (demoAgent demoStarted)))) \<le> 10"
proof -
  have "dbEvents (arDB (demoAgent demoFired)) = []" "map lgEvent (dbLog (arDB (demoAgent demoFired))) = [''ev_'']" by code_simp+
  then show ?thesis
    using events_end_once [OF demo_agent [OF demo_agent_fired]] events_end_once [OF demo_agent [OF demo_agent_started], of "''s_''"]
    by (simp add: maxActiveEvents_def)
qed

text \<open>
  (C21) A stop or a deletion of a running session that answers 200 leaves it without events, pending triggers and running runs, and its
  saved context, which the next start hands to the model, is the one of the latest run with every cleared event and every pending trigger, in order.
\<close>

theorem stop_hands_over:
  assumes "run agentFire evs freshAgent = Next r"
    and "changeSessionState e now deleting s r = (Answered 200 row', r')"
    and "row \<in> set (dbSessions (arDB r))" "ssID row = s" "ssStatus row = ''running''"
  shows "quiet (arDB r') s \<and> row' \<in> set (dbSessions (arDB r')) \<and>
    (\<exists>x \<in> set (dbRuns (arDB r)). runKey x = (s, ssCurrentRunID row) \<and>
      ssRestartContext row' = restartContextOf x True (inOrder (filter (\<lambda>w. wuSession w = s) (dbEvents (arDB r))), pendingIn s (dbPending (arDB r))))"
proof (intro conjI)
  have ok: "dbOK (arDB r)" using reachable_agent [OF assms(1)] by (simp add: agentOK_def)
  obtain res d where tx: "lockedTx (\<lambda>(_, _, live). live) e (changeSessionTx now deleting s) (arDB r) = (res, d)" by fastforce
  obtain cl live where res: "res = TxDone (row', cl, live)" and db: "arDB r' = d"
    using assms(2) tx by (cases res) (auto simp: changeSessionState_def mutationFailure_def split: if_splits prod.splits option.splits)
  obtain n where n: "changeSessionTx now deleting s (teFlt e) (arDB r, 0) = (Inr (Inr (row', cl, live)), d, n)"
    using tx res by (cases rule: lockedTx_cases) auto
  obtain t n1 where t: "find (\<lambda>x. ssID x = s) (dbSessions (arDB r)) = Some t" "stopTx now deleting t (teFlt e) (arDB r, n1) = (Inr (row', cl, live), d, n)"
    by (rule changeSessionTx_OK [OF n])
  have "t = row" using found_session [OF t(1)] ok assms(3,4) by (metis dbOK_def agentKeysOK_def distinct_map inj_onD)
  note k = stopTx_OK [OF t(2) [unfolded this] ok assms(3)]
  have "noRunIn d s" "s \<notin> waiting d" "\<forall>w \<in> set (dbEvents d). wuSession w \<noteq> s" using k(2,5,6) assms(4) by simp_all
  then show "quiet (arDB r') s" using idle_no_running [of d s] unfolding quiet_def list_all_iff db waiting_def by blast
  show "row' \<in> set (dbSessions (arDB r'))" using k(7) by (simp add: db)
  show "\<exists>x \<in> set (dbRuns (arDB r)). runKey x = (s, ssCurrentRunID row) \<and>
      ssRestartContext row' = restartContextOf x True (inOrder (filter (\<lambda>w. wuSession w = s) (dbEvents (arDB r))), pendingIn s (dbPending (arDB r)))"
    using k(8) k(9) [OF assms(5)] assms(4) by simp
qed

theorem stop_hands_over_witness:
  "\<exists>row' r'. changeSessionState demoEnv 300 False ''s_'' (demoAgent demoFired) = (Answered 200 row', r') \<and> quiet (arDB r') ''s_'' \<and>
     (\<exists>x \<in> set (dbRuns (arDB (demoAgent demoFired))). runKey x = (''s_'', 1) \<and>
        ssRestartContext row' = restartContextOf x True (inOrder [], pendingIn ''s_'' (dbPending (arDB (demoAgent demoFired)))))"
proof -
  let ?r = "demoAgent demoFired"
  obtain a r' where ar: "changeSessionState demoEnv 300 False ''s_'' ?r = (a, r')" by fastforce
  have "case fst (changeSessionState demoEnv 300 False ''s_'' ?r) of Answered k _ \<Rightarrow> k = 200 | _ \<Rightarrow> False" by code_simp
  then obtain row' where a: "a = Answered 200 row'" using ar by (cases a) auto
  have "map (\<lambda>s. (ssID s, ssStatus s, ssCurrentRunID s)) (dbSessions (arDB ?r)) = [(''s_'', ''running'', 1)]" "dbEvents (arDB ?r) = []" by code_simp+
  then obtain row where row: "row \<in> set (dbSessions (arDB ?r))" "ssID row = ''s_''" "ssStatus row = ''running''" "ssCurrentRunID row = 1" by auto
  show ?thesis
    using stop_hands_over [OF demo_agent [OF demo_agent_fired] ar [unfolded a] row(1-3)] ar a row(4) \<open>dbEvents (arDB ?r) = []\<close> by auto
qed

end
