(* ===== verification/AgentOutcomes.thy ===== *)
theory AgentOutcomes
  imports AgentProps
begin

text \<open>
  What single operations of the agent server achieve: the result of an event tool says what happened to the tables, a cross event fires at the first
  crossing of its level, and a restart continues every running session with a recovery run.
\<close>

section \<open>Event tools\<close>

lemma toolTx_row:
  assumes "toolTx s k mutate flt (d, 0) = (Inr (Inr x), d', n)"
  shows "list_ex (runningRow s k) (dbRuns d) \<and> (\<exists>m. mutate flt (d, 2) = (Inr x, d', m))"
proof -
  obtain d1 n1 where r1: "runIsRunningTx s k flt (d, 0) = (Inr True, d1, n1)"
    and m: "andThenD LatestEventLogIDTx (\<lambda>_. andThenD mutate (\<lambda>result. pureD (Inr result))) flt (d1, n1) = (Inr (Inr x), d', n)"
    using assms by (auto simp: toolTx_def andThenD_Inr pureD_Inr split: if_splits)
  have eqs: "d1 = d" "n1 = Suc 0" using r1 by (simp_all add: runIsRunningTx_def aquery_Inr)
  obtain y where y: "find (\<lambda>x. rnSession x = s \<and> rnID x = k) (dbRuns d) = Some y" "rnStatus y = ''running''"
    using r1 by (auto simp: runIsRunningTx_def aquery_Inr split: option.splits)
  then have "list_ex (runningRow s k) (dbRuns d)" using found_run [OF y(1)] by (auto simp: list_ex_iff runningRow_def runKey_def)
  then show ?thesis using m by (auto simp: eqs LatestEventLogIDTx_def asql_success numeral_2_eq_2)
qed

lemma toolTransaction_outcome:
  assumes "eventToolTransaction e s k mutate r = (res, r')"
  obtains (refused) c where "res = EventError c ''not_executed''" "arDB r' = arDB r"
  | (unknown) c where "res = EventError c ''unknown''" "arFault r'"
  | (committed) d n where "list_ex (runningRow s k) (dbRuns (arDB r))" "mutate (teFlt e) (arDB r, 2) = (Inr res, d, n)" "r' = r\<lparr>arDB := d\<rparr>"
proof (cases "refusing r")
  case True
  then have "res = EventError ''PERSISTENCE_UNAVAILABLE'' ''not_executed''" "arDB r' = arDB r" using assms by (auto simp: eventToolTransaction_def)
  then show ?thesis by (rule refused)
next
  case False
  obtain t d where tx: "lockedTx (\<lambda>_. True) e (toolTx s k mutate) (arDB r) = (t, d)" by fastforce
  have eq: "(res, r') = (case (t, d) of
      (TxFailed inCommit, d) \<Rightarrow> (EventError ''PERSISTENCE_UNAVAILABLE'' (if inCommit then ''unknown'' else ''not_executed''), latchLocked (r\<lparr>arDB := d\<rparr>))
    | (TxReply result, _) \<Rightarrow> (result, r) | (TxDone result, d) \<Rightarrow> (result, r\<lparr>arDB := d\<rparr>))"
    using False tx assms by (simp add: eventToolTransaction_def toolTx_def)
  note run = toolTx_row [of s k mutate "teFlt e" "arDB r"]
  show ?thesis
  proof (cases t)
    case (TxFailed b)
    then show ?thesis using refused unknown eq tx by (cases b) (auto simp: lockedTx_def split: if_splits prod.splits sum.splits commitOutcome.splits)
  next
    case (TxReply x)
    then have "x = EventError ''RUN_NOT_RUNNING'' ''not_executed''"
      using tx by (auto simp: lockedTx_def toolTx_def andThenD_Inr pureD_Inr LatestEventLogIDTx_def split: if_splits prod.splits sum.splits commitOutcome.splits)
    then show ?thesis using refused eq TxReply by simp
  next
    case (TxDone x)
    obtain n where "toolTx s k mutate (teFlt e) (arDB r, 0) = (Inr (Inr x), d, n)"
      using tx [unfolded TxDone] by (cases rule: lockedTx_cases) auto
    then show ?thesis using committed run eq TxDone by fastforce
  qed
qed

lemma ParseCreateEvent_expiry: "ParseCreateEvent ac entropy arguments s k now = Some w \<Longrightarrow> wuCreatedAt w = now \<and> now < wuExpiresAt w"
  by (auto simp: ParseCreateEvent_def typeFields_def timerFields_def levelFields_def changeFields_def closeFields_def bind_eq_Some_conv
      split: if_splits prod.splits)

lemma CreateForRun_Inr:
  "CreateForRun w flt (d, n) = (Inr res, d', n') \<Longrightarrow>
    res = EventError ''EVENT_LIMIT_EXCEEDED'' ''not_executed'' \<and> d' = d \<or> res = EventDone (wuID w) (wuType w) ''created'' \<and> d' = insertEvent w d"
  by (auto simp: CreateForRun_def asql_success split: if_splits)

lemma DeleteForRun_Inr:
  "DeleteForRun s k i now flt (d, n) = (Inr res, d', n') \<Longrightarrow>
    res = EventError ''EVENT_NOT_FOUND'' ''not_executed'' \<and> d' = d \<or>
    (\<exists>w \<in> set (dbEvents d). wuID w = i \<and> wuSession w = s \<and> res = EventDone i (wuType w) ''deleted'' \<and>
       d' = d\<lparr>dbEvents := filter (\<lambda>v. wuID v \<noteq> i) (dbEvents d), dbLog := dbLog d @ [logEntry w ''deleted_by_agent'' (Some k) None now]\<rparr>)"
  by (auto simp: DeleteForRun_def RemoveRecordTx_def deleteEventRow_def asql_success find_Some_iff split: if_splits option.splits)

text \<open>What the result of an event tool claims about the tables before and after.\<close>

definition toolClaim :: "time \<Rightarrow> string \<Rightarrow> int \<Rightarrow> agentDB \<Rightarrow> eventResult \<Rightarrow> agentServer \<Rightarrow> bool" where
  "toolClaim now s k d res r' = (case res of
     EventError _ result \<Rightarrow> result = ''not_executed'' \<and> arDB r' = d \<or> result = ''unknown'' \<and> arFault r'
   | EventList ws \<Rightarrow> arDB r' = d \<and> ws = inOrder (filter (\<lambda>w. wuSession w = s) (dbEvents d))
   | EventDone i t status \<Rightarrow> list_ex (runningRow s k) (dbRuns d) \<and>
       (status = ''created'' \<and> (\<exists>w. wuID w = i \<and> wuSession w = s \<and> wuRun w = k \<and> wuType w = t \<and> wuCreatedAt w = now \<and> now < wuExpiresAt w \<and>
          arDB r' = insertEvent w d) \<or>
        status = ''deleted'' \<and> (\<exists>w \<in> set (dbEvents d). wuID w = i \<and> wuSession w = s \<and> wuType w = t \<and>
          arDB r' = d\<lparr>dbEvents := filter (\<lambda>v. wuID v \<noteq> i) (dbEvents d), dbLog := dbLog d @ [logEntry w ''deleted_by_agent'' (Some k) None now]\<rparr>)))"

text \<open>
  (C20) The answer of \<^verbatim>\<open>create_event\<close>, \<^verbatim>\<open>delete_event\<close> and \<^verbatim>\<open>list_events\<close> is true whatever fails: \<^verbatim>\<open>not_executed\<close> means that no table changed,
  \<^verbatim>\<open>unknown\<close> is only answered when the server stops serving for a fault, a created event is stored for the running run with an expiry in the future,
  and a deleted one was an event of the session and is logged.
\<close>

theorem event_tool_results_are_truthful:
  "case executeEventTool ac e entropy now s k name arguments r of (res, r') \<Rightarrow> toolClaim now s k (arDB r) res r'"
proof -
  have create: "toolClaim now s k (arDB r) res r'"
    if w: "ParseCreateEvent ac entropy arguments s k now = Some w" and t: "createEventForRun e w r = (res, r')" for w res r'
  proof -
    have s: "wuSession w = s" "wuRun w = k" "wuCreatedAt w = now" "now < wuExpiresAt w"
      using ParseCreateEvent_session [OF w] ParseCreateEvent_expiry [OF w] by simp_all
    show ?thesis using t unfolding createEventForRun_def s(1,2)
      by (cases rule: toolTransaction_outcome) (use s in \<open>auto simp: toolClaim_def dest!: CreateForRun_Inr\<close>)
  qed
  have delete: "toolClaim now s k (arDB r) res r'" if t: "deleteEventForRun e s k i now r = (res, r')" for i res r'
    using t unfolding deleteEventForRun_def
    by (cases rule: toolTransaction_outcome) (auto simp: toolClaim_def dest!: DeleteForRun_Inr)
  have list: "toolClaim now s k (arDB r) res r'" if "listEventsForRun flt s r = (res, r')" for flt res r'
    using that by (auto simp: toolClaim_def listEventsForRun_def SessionEvents_def queryEvents_def aquery_Inr split: if_splits sum.splits prod.splits)
  show ?thesis using create delete list
    by (auto simp: executeEventTool_def toolClaim_def split: option.splits prod.splits)
qed

section \<open>Cross events\<close>

text \<open>The samples one event sees, as \<^const>\<open>MatchPriceTx\<close> shows them to it one after the other: the match it fires with.\<close>

fun observe :: "(float64 \<Rightarrow> string) \<Rightarrow> wakeup \<Rightarrow> (float64 \<times> time) list \<Rightarrow> matched option" where
  "observe fp w [] = None"
| "observe fp w (x # xs) = (case evaluatePriceEvent fp w x of
     Inl _ \<Rightarrow> None
   | Inr (Some m, _) \<Rightarrow> Some m
   | Inr (None, Some s) \<Rightarrow> observe fp (w\<lparr>wuState := encodeSample s\<rparr>) xs
   | Inr (None, None) \<Rightarrow> observe fp w xs)"

text \<open>The samples that are newer than all before them.\<close>

fun newer :: "time \<Rightarrow> (float64 \<times> time) list \<Rightarrow> (float64 \<times> time) list" where
  "newer t [] = []"
| "newer t (x # xs) = (if snd x > t then x # newer (snd x) xs else newer t xs)"

definition crosses :: "bool \<Rightarrow> float64 \<Rightarrow> float64 \<Rightarrow> float64 \<Rightarrow> bool" where
  "crosses down level p q = (if down then p > level \<and> q \<le> level else p < level \<and> q \<ge> level)"

definition firstCross :: "bool \<Rightarrow> float64 \<Rightarrow> (float64 \<times> time) list \<Rightarrow> ((float64 \<times> time) \<times> float64 \<times> time) option" where
  "firstCross down level xs = find (\<lambda>(a, b). crosses down level (fst a) (fst b)) (zip xs (tl xs))"

definition crossMatch :: "(float64 \<Rightarrow> string) \<Rightarrow> bool \<Rightarrow> float64 \<Rightarrow> (float64 \<times> time) \<times> float64 \<times> time \<Rightarrow> matched" where
  "crossMatch fp down level = (\<lambda>((p, t), (q, u)).
     CrossMatch (if down then ''previous_price > '' @ fp level @ '' >= price'' else ''previous_price < '' @ fp level @ '' <= price'') p t q u)"

lemma firstCross_Cons:
  "firstCross down level [a] = None"
  "firstCross down level (a # b # xs) = (if crosses down level (fst a) (fst b) then Some (a, b) else firstCross down level (b # xs))"
  by (simp_all add: firstCross_def)

lemma evaluate_sampled:
  assumes "wuType w = (if down then ''price_cross_below'' else ''price_cross_above'')" "wuState w = SampleState p t"
  shows "evaluatePriceEvent fp w (q, u) = (if \<not> u > t then Inr (None, None)
    else if \<not> crosses down (levelPrice (wuParams w)) p q then Inr (None, Some (q, u))
    else Inr (Some (crossMatch fp down (levelPrice (wuParams w)) ((p, t), (q, u))), None))"
  using assms by (simp add: evaluatePriceEvent_def decodePriceSample_def Let_def crosses_def crossMatch_def)

lemma observe_sampled:
  assumes "wuType w = (if down then ''price_cross_below'' else ''price_cross_above'')" "wuState w = SampleState p t"
    and "\<forall>s \<in> set xs. finite64 (fst s)"
  shows "observe fp w xs = map_option (crossMatch fp down (levelPrice (wuParams w)))
    (firstCross down (levelPrice (wuParams w)) ((p, t) # newer t xs))"
  using assms
proof (induction xs arbitrary: w p t)
  case Nil
  then show ?case by (simp add: firstCross_Cons)
next
  case (Cons x xs)
  obtain q u where x: "x = (q, u)" by (cases x)
  note evaluate_sampled [OF Cons.prems(1,2), of fp q u]
  moreover note Cons.IH [OF Cons.prems(1,2)]
  moreover note Cons.IH [of "w\<lparr>wuState := SampleState q u\<rparr>" q u]
  ultimately show ?case using Cons.prems(1,3) by (cases "u > t") (simp_all add: x firstCross_Cons encodeSample_def)
qed

text \<open>
  (C22) Over finite prices a cross event fires exactly when, among the samples each newer than all before it, one lies on the other side of the level than its predecessor,
  with the first such pair as its facts: a sample that is not newer is never compared, and the first sample never fires.
\<close>

theorem cross_fires_at_first_crossing:
  assumes "wuType w = (if down then ''price_cross_below'' else ''price_cross_above'')" "wuState w = NoState"
    and "\<forall>s \<in> set (x # xs). finite64 (fst s)"
  shows "observe fp w (x # xs) = map_option (crossMatch fp down (levelPrice (wuParams w)))
    (firstCross down (levelPrice (wuParams w)) (x # newer (snd x) xs))"
proof -
  have "evaluatePriceEvent fp w x = Inr (None, Some x)"
    using assms by (simp add: evaluatePriceEvent_def decodePriceSample_def Let_def)
  then show ?thesis using observe_sampled [of "w\<lparr>wuState := SampleState (fst x) (snd x)\<rparr>" down "fst x" "snd x" xs fp] assms
    by (cases x) (simp add: encodeSample_def)
qed

definition demoCross :: wakeup where
  "demoCross = \<lparr>wuID = ''e'', wuSession = ''s'', wuRun = 1, wuType = ''price_cross_above'', wuParams = LevelParams ''crypto'' ''BTC'' (lit 10),
     wuMarket = ''crypto'', wuSymbol = ''BTC'', wuDue = None, wuState = NoState, wuCreatedAt = 0, wuExpiresAt = 99\<rparr>"

theorem cross_fires_at_first_crossing_witness:
  "observe (\<lambda>_. []) demoCross [(lit 9, 1), (lit 11, 1), (lit 8, 2), (lit 12, 3)] =
     Some (CrossMatch ''previous_price <  <= price'' (lit 8) 2 (lit 12) 3)"
proof -
  have "firstCross False (levelPrice (wuParams demoCross)) ((lit 9, 1) # newer 1 [(lit 11, 1), (lit 8, 2), (lit 12, 3)]) =
    Some ((lit 8, 2), (lit 12, 3))" "\<forall>s \<in> set [(lit 9, 1), (lit 11, 1), (lit 8, 2), (lit 12, 3 :: int)]. finite64 (fst s)" by code_simp+
  then show ?thesis
    using cross_fires_at_first_crossing [of demoCross False "(lit 9, 1)" "[(lit 11, 1), (lit 8, 2), (lit 12, 3)]" "\<lambda>_. []"]
    by (simp add: demoCross_def crossMatch_def)
qed

section \<open>Recovery\<close>

lemma recover_loop_tables:
  assumes "foldD (recoverStep now) ss ls flt (d, n) = (Inr ls', d', n')"
  shows "dbRuns d' = dbRuns d @ map (\<lambda>s. newRun (ssID s) (ssCurrentRunID s + 1) ''server_recovery'' None now) ss \<and>
    (\<forall>t \<in> set (dbSessions d). ssID t \<notin> ssID ` set ss \<longrightarrow> t \<in> set (dbSessions d')) \<and>
    (distinct (map ssID ss) \<and> (\<forall>s \<in> set ss. s \<in> set (dbSessions d) \<and> ssStatus s = ''running'') \<longrightarrow>
      (\<forall>s \<in> set ss. s\<lparr>ssCurrentRunID := ssCurrentRunID s + 1\<rparr> \<in> set (dbSessions d'))) \<and>
    dbEvents d' = dbEvents d \<and> dbPending d' = dbPending d \<and> dbLog d' = dbLog d"
  using assms
proof (induction ss arbitrary: ls d n)
  case Nil
  then show ?case by (simp add: asql_success)
next
  case (Cons s ss)
  let ?k = "ssCurrentRunID s + 1"
  let ?f = "\<lambda>t. if ssID t = ssID s then if ssStatus t = ''running'' then t\<lparr>ssCurrentRunID := ?k\<rparr> else t else t"
  define d2 where "d2 = d\<lparr>dbSessions := map ?f (dbSessions d), dbRuns := dbRuns d @ [newRun (ssID s) ?k ''server_recovery'' None now]\<rparr>"
  obtain ls1 d3 n2 where step: "recoverStep now s ls flt (d, n) = (Inr ls1, d3, n2)" and rest': "foldD (recoverStep now) ss ls1 flt (d3, n2) = (Inr ls', d', n')"
    using Cons.prems by (auto simp: andThenD_Inr)
  have "d3 = d2" using step by (simp add: recoverStep_def insertRun_def updateSession_def asql_success Let_def d2_def)
  with rest' have rest: "foldD (recoverStep now) ss ls1 flt (d2, n2) = (Inr ls', d', n')" by simp
  note IH = Cons.IH [OF rest]
  have other: "t \<in> set (dbSessions d2)" if "t \<in> set (dbSessions d)" "ssID t \<noteq> ssID s" for t
    using imageI [OF that(1), of ?f] that(2) by (simp add: d2_def)
  have "s\<lparr>ssCurrentRunID := ?k\<rparr> \<in> set (dbSessions d2)" if "s \<in> set (dbSessions d)" "ssStatus s = ''running''"
    using imageI [OF that(1), of ?f] that(2) by (simp add: d2_def)
  moreover have "t \<in> set (dbSessions d2)" if "distinct (map ssID (s # ss))" "t \<in> set ss" "t \<in> set (dbSessions d)" for t
    using other [OF that(3)] that(1,2) by (metis distinct.simps(2) image_eqI list.simps(9) set_map)
  ultimately have "\<forall>t \<in> set (s # ss). t\<lparr>ssCurrentRunID := ssCurrentRunID t + 1\<rparr> \<in> set (dbSessions d')"
    if "distinct (map ssID (s # ss))" "\<forall>t \<in> set (s # ss). t \<in> set (dbSessions d) \<and> ssStatus t = ''running''"
    using that IH by simp
  moreover have "t \<in> set (dbSessions d')" if "t \<in> set (dbSessions d)" "ssID t \<notin> ssID ` set (s # ss)" for t
    using that IH other by simp
  moreover have "dbRuns d2 = dbRuns d @ [newRun (ssID s) ?k ''server_recovery'' None now]" "dbEvents d2 = dbEvents d" "dbPending d2 = dbPending d"
    "dbLog d2 = dbLog d" by (simp_all add: d2_def)
  ultimately show ?case using IH by simp
qed

definition interruptedRow :: "time \<Rightarrow> runRow \<Rightarrow> runRow" where
  "interruptedRow now x = (if rnStatus x = ''running'' then terminated ''interrupted'' None None (Some crashRecoveryReason) now x else x)"

lemma recover_commits:
  assumes "healthy (recoverPersistedRuntime e now d)"
  shows "\<exists>ls d'. lockedTx (\<lambda>_. True) e (recoveryTx now) d = (TxDone ls, d') \<and> arDB (recoverPersistedRuntime e now d) = d'"
proof -
  obtain res d' where tx: "lockedTx (\<lambda>_. True) e (recoveryTx now) d = (res, d')" by fastforce
  have "arDB (fold launchRunLocked xs q) = arDB q" for xs q by (induction xs arbitrary: q) auto
  then show ?thesis using assms tx by (cases res) (simp_all add: recoverPersistedRuntime_def Let_def healthy_def)
qed

text \<open>
  (C19) A server that starts and serves has recovered everything: no run the old process left is still running, each is marked as interrupted by the
  crash and keeps its trace; every running session has moved on to a new recovery run, and events, their log and pending triggers are as they were.
\<close>

theorem restart_recovers:
  assumes "run agentFire evs freshAgent = Next r" and "agentFire (EvRestart e now) r = Next r'" and "healthy r'"
  shows "(\<exists>recovered. dbRuns (arDB r') = map (interruptedRow now) (dbRuns (arDB r)) @ recovered \<and>
      (\<forall>s \<in> set (dbSessions (arDB r)). ssStatus s = ''running'' \<longrightarrow>
        newRun (ssID s) (ssCurrentRunID s + 1) ''server_recovery'' None now \<in> set recovered \<and>
        s\<lparr>ssCurrentRunID := ssCurrentRunID s + 1\<rparr> \<in> set (dbSessions (arDB r')))) \<and>
    (\<forall>s \<in> set (dbSessions (arDB r)). ssStatus s \<noteq> ''running'' \<longrightarrow> s \<in> set (dbSessions (arDB r'))) \<and>
    dbEvents (arDB r') = dbEvents (arDB r) \<and> dbLog (arDB r') = dbLog (arDB r) \<and> dbPending (arDB r') = dbPending (arDB r)"
proof -
  have ok: "dbOK (arDB r)" using reachable_agent [OF assms(1)] by (simp add: agentOK_def)
  have r': "r' = recoverPersistedRuntime e now (arDB r)" using assms(2) by (simp add: agentFire_def)
  obtain ls d where tx: "lockedTx (\<lambda>_. True) e (recoveryTx now) (arDB r) = (TxDone ls, d)" and db: "arDB r' = d"
    using recover_commits [of e now "arDB r"] assms(3) unfolding r' by blast
  define d1 where "d1 = (arDB r)\<lparr>dbRuns := map (interruptedRow now) (dbRuns (arDB r))\<rparr>"
  define ss where "ss = sort_key (\<lambda>s. (ssCreatedAt s, ssID s)) (filter (\<lambda>s. ssStatus s = ''running'') (dbSessions (arDB r)))"
  obtain n where n: "recoveryTx now (teFlt e) (arDB r, 0) = (Inr (Inr ls), d, n)" using tx by (cases rule: lockedTx_cases) auto
  then obtain n1 where loop: "foldD (recoverStep now) ss [] (teFlt e) (d1, n1) = (Inr ls, d, n)"
    by (auto simp: recoveryTx_def createRecoveryRunsTx_def asql_success d1_def ss_def interruptedRow_def [abs_def])
  let ?new = "map (\<lambda>s. newRun (ssID s) (ssCurrentRunID s + 1) ''server_recovery'' None now) ss"
  have tables: "dbSessions d1 = dbSessions (arDB r)" "dbEvents d1 = dbEvents (arDB r)" "dbLog d1 = dbLog (arDB r)" "dbPending d1 = dbPending (arDB r)"
    "dbRuns d1 = map (interruptedRow now) (dbRuns (arDB r))" by (simp_all add: d1_def)
  have keys: "distinct (map ssID (dbSessions (arDB r)))" using ok by (simp add: dbOK_def agentKeysOK_def)
  then have dist: "distinct (map ssID ss)" by (simp add: ss_def distinct_map_sort distinct_map_filter)
  have mem: "s \<in> set ss \<longleftrightarrow> s \<in> set (dbSessions (arDB r)) \<and> ssStatus s = ''running''" for s by (auto simp: ss_def)
  have old: "ssID s \<notin> ssID ` set ss" if "s \<in> set (dbSessions (arDB r))" "ssStatus s \<noteq> ''running''" for s
  proof
    assume "ssID s \<in> ssID ` set ss"
    then obtain t where t: "t \<in> set ss" "ssID s = ssID t" by blast
    then have "s = t" using keys that(1) mem [of t] by (auto simp: distinct_map dest: inj_onD)
    then show False using t(1) that(2) mem by simp
  qed
  from recover_loop_tables [OF loop, unfolded tables]
  have k: "dbRuns d = map (interruptedRow now) (dbRuns (arDB r)) @ ?new" "dbEvents d = dbEvents (arDB r)" "dbLog d = dbLog (arDB r)"
    "dbPending d = dbPending (arDB r)"
    and keep: "\<And>t. t \<in> set (dbSessions (arDB r)) \<Longrightarrow> ssID t \<notin> ssID ` set ss \<Longrightarrow> t \<in> set (dbSessions d)"
    and bumped: "\<And>s. s \<in> set ss \<Longrightarrow> s\<lparr>ssCurrentRunID := ssCurrentRunID s + 1\<rparr> \<in> set (dbSessions d)"
    using dist mem by blast+
  show ?thesis unfolding db
  proof (intro conjI exI [of _ ?new] ballI impI)
    fix s assume s: "s \<in> set (dbSessions (arDB r))" "ssStatus s = ''running''"
    then have "s \<in> set ss" using mem by blast
    then show "newRun (ssID s) (ssCurrentRunID s + 1) ''server_recovery'' None now \<in> set ?new" by simp
    show "s\<lparr>ssCurrentRunID := ssCurrentRunID s + 1\<rparr> \<in> set (dbSessions d)" using \<open>s \<in> set ss\<close> by (rule bumped)
  next
    fix s assume "s \<in> set (dbSessions (arDB r))" "ssStatus s \<noteq> ''running''"
    then show "s \<in> set (dbSessions d)" using keep old by blast
  qed (rule k)+
qed

theorem restart_recovers_witness:
  "\<exists>r'. agentFire (EvRestart demoEnv 400) (demoAgent demoFired) = Next r' \<and> length (dbRuns (arDB r')) \<ge> 2"
proof -
  let ?r = "demoAgent demoFired" and ?r' = "recoverPersistedRuntime demoEnv 400 (arDB (demoAgent demoFired))"
  have f: "agentFire (EvRestart demoEnv 400) ?r = Next ?r'" by (simp add: agentFire_def)
  have "healthy ?r'" "map ssStatus (dbSessions (arDB ?r)) = [''running'']" "length (dbRuns (arDB ?r)) = 1" by code_simp+
  then obtain s where "s \<in> set (dbSessions (arDB ?r))" "ssStatus s = ''running''" by auto
  then have "\<exists>recovered. dbRuns (arDB ?r') = map (interruptedRow 400) (dbRuns (arDB ?r)) @ recovered \<and> recovered \<noteq> []"
    using restart_recovers [OF demo_agent [OF demo_agent_fired] f \<open>healthy ?r'\<close>] by fastforce
  then have "length (dbRuns (arDB ?r')) \<ge> 2" using \<open>length (dbRuns (arDB ?r)) = 1\<close> by (auto simp: Suc_le_eq)
  then show ?thesis using f by blast
qed

end
