(* ===== verification/Spec2Isabelle.thy ===== *)
theory Spec2Isabelle
  imports ApiSafety AccountEffects LedgerAudit MatchingCounts MarketProps MarketApi CabinetProps EventLoopProps AgentOutcomes
begin

text \<open>
  A verification library for the backend of Stock-Ai (\<^verbatim>\<open>src/backend\<close>): virtual trading accounts that
  agents and a human USER operate over HTTP; and for parts of the agent server (\<^verbatim>\<open>src/agent_server\<close>) that runs the agents.

  \<^bold>\<open>The program.\<close>  The HTTP interface (\<^verbatim>\<open>internal/api\<close>) authenticates a token (\<^verbatim>\<open>internal/auth\<close>), checks the request and
  calls one of three services: accounts (\<^verbatim>\<open>internal/account\<close>), trading (\<^verbatim>\<open>internal/trading\<close>) and the chat
  (\<^verbatim>\<open>internal/message\<close>).  The services keep all lasting state in SQL tables (\<^verbatim>\<open>internal/database\<close>) and change it in
  transactions; quotes come from the market runtime (\<^verbatim>\<open>internal/market\<close>).  Beside the requests a matching engine runs
  a round on every tick of a timer: it enforces the drawdown limits, fills limit orders, fires stops.  Chat
  changes are pushed to the browser through in-process channels.

  \<^bold>\<open>Theories.\<close>
  \<^item> \<open>Prelude\<close>: tables as lists of rows, lemma collections.  \<open>Float64\<close>: binary64 arithmetic with round-to-nearest-even, NaN
    and infinities; \<open>GoText\<close>: \<^verbatim>\<open>strings\<close>, \<^verbatim>\<open>unicode/utf8\<close> and \<^verbatim>\<open>encoding/hex\<close> as far as they are used, on byte strings.
  \<^item> \<open>Models\<close>: the row types of \<^verbatim>\<open>database/models.go\<close>, the error values, the database.
  \<^item> \<open>StoreMonad\<close>: a computation takes an environment and a world and returns an error or a value with the new
    world.  The environment answers the \<open>n\<close>-th outside interaction (a database failure, the clock, random
    bytes, a quote) arbitrarily; \<open>Tx\<close> rolls back on an error, except that a failing commit may have been carried out.  \<open>wp\<close> and its rules carry the proofs.
  \<^item> \<open>Store\<close>: \<^verbatim>\<open>database/account.go\<close> and \<^verbatim>\<open>database/trading.go\<close>, one definition for each method.
  \<^item> \<open>Position\<close>, \<open>Validate\<close>, \<open>Settle\<close>, \<open>Stops\<close>, \<open>Drawdown\<close>, \<open>Trading\<close>, \<open>Matching\<close>: the files of \<^verbatim>\<open>internal/trading\<close> with the
    same names (\<^verbatim>\<open>summary.go\<close> is in \<open>Trading\<close>).  The callback of a transaction is a definition of its own, named
    after the method with the suffix \<open>Tx\<close>.
  \<^item> \<open>Accounts\<close>: \<^verbatim>\<open>account/account.go\<close>.  \<open>Auth\<close>: \<^verbatim>\<open>auth/auth.go\<close>.  \<open>Streams\<close>: \<^verbatim>\<open>message/stream.go\<close>.  \<open>Messages\<close>:
    \<^verbatim>\<open>message/message.go\<close> and \<^verbatim>\<open>database/message.go\<close>.  \<open>Tokens\<close>: \<^verbatim>\<open>migrateAccountTokens\<close> and the life of a token.
  \<^item> \<open>Views\<close> and \<open>Api\<close>: \<^verbatim>\<open>internal/api\<close>; \<open>endpoint\<close>, \<open>guardOf\<close> and \<open>handle\<close> are the route table, \<open>serve\<close> answers a request.
  \<^item> \<open>EventSystem\<close>: event systems and the locales of their invariants, for the three concurrent components.
  \<^item> \<open>MarketRuntime\<close>: \<^verbatim>\<open>market/market.go\<close>, \<^verbatim>\<open>runtime.go\<close> and \<^verbatim>\<open>subscription.go\<close> as an event system: the critical sections under the
    mutex are functions of the state, \<open>fire\<close> lets callers, sources, the sweeper and \<^verbatim>\<open>Close\<close> interleave at them.
    \<open>MarketSafety\<close>: its invariant, an interpretation of the locale \<open>safe_event_system\<close>; \<open>MarketProps\<close>: what it gives.
    \<open>MarketRead\<close>: \<^verbatim>\<open>market/read.go\<close>; \<open>Binance\<close>: \<^verbatim>\<open>market/crypto\<close> and \<^verbatim>\<open>market/stock\<close>; \<open>MarketApi\<close>: the handlers of \<^verbatim>\<open>api/market.go\<close>.
  \<^item> \<open>EventLoop\<close>: the scheduler of the agent server (\<^verbatim>\<open>internal/eventloop\<close>) as an event system; \<open>EventLoopSafety\<close>: its invariant, the second
    instance of \<open>safe_event_system\<close>; \<open>EventLoopProps\<close>: what it gives.
  \<^item> \<open>Json\<close>: decoded JSON and the decoders of the tools.  \<open>SqlMonad\<close>: sequences of SQL statements of which any may fail, and rules for the
    successful ones.
  \<^item> \<open>Cabinet\<close>: the memory cabinet of the agent server (\<^verbatim>\<open>internal/memory/memory.go\<close>, \<^verbatim>\<open>internal/agent/memory.go\<close>) in that monad; \<open>CabinetProps\<close>: its invariant and what its tools report.
  \<^item> \<open>AgentStore\<close>: the tables of sessions, runs, events and queued triggers of the agent server.  \<open>AgentEvents\<close>: its wake-up events
    (\<^verbatim>\<open>internal/events\<close>).  \<open>AgentRuns\<close>: its runtime (\<^verbatim>\<open>internal/agent\<close>): what every critical section under \<^verbatim>\<open>r.mu\<close> does to the tables and the
    goroutines, and \<open>agentFire\<close>, which lets requests, rounds, goroutines, shutdown and restarts interleave.  \<open>AgentInvariant\<close>: the
    invariant \<open>dbOK\<close> of the tables and what each transaction does to them; \<open>AgentSafety\<close>: the invariant \<open>agentOK\<close> of the runtime, an
    instance of \<open>event_invariant\<close>; \<open>AgentProps\<close>, \<open>AgentOutcomes\<close>: what it gives, and what single operations achieve.
  \<^item> \<open>Steps\<close>: the abstract specification of the books, a transition system \<open>dbstep\<close> with one rule for every kind of
    committed change, its reachable states, and the locale \<open>store_invariant\<close> of its invariants.
    \<open>Invariants\<close>, \<open>Safety\<close>, \<open>LedgerAudit\<close>: the invariants, as interpretations of \<open>store_invariant\<close> and its
    extension \<open>keyed_invariant\<close>.  \<open>Liquidation\<close>, \<open>MatchingCounts\<close>, \<open>AccountEffects\<close>, \<open>Chat\<close>, \<open>ApiSafety\<close>: what the operations do to the books,
    the chat and the caller; the locale \<open>reply_property\<close> of \<open>ApiSafety\<close> collects what holds of every answer.

  \<^bold>\<open>What is shown.\<close>  Position bookkeeping: a fill refines exact rational bookkeeping where the arithmetic is exact, loses no
  value, closing realizes what was displayed, stops survive reductions and vanish on a flip.  Orders: admission is
  characterized exactly, a refusal changes nothing.  Books: every operation of every service, for every
  environment, follows \<open>dbstep\<close> (lemmas \<open>..._follows\<close>), hence every run of requests and rounds does; in reachable
  states keys are unique, trades and filled orders correspond, stopped accounts have no open orders, history
  is append-only and the ledger explains every balance.  Drawdown: limits are bounded, a stopped account cannot
  trade, liquidation closes every position that has a quote, release starts a new cycle; the counters of an
  engine round agree with the books.  Access: USER endpoints are closed, tokens stay
  secret, a token round-trips through its envelope, a reset revokes, migration is safe and idempotent.  Chat: rate
  limit, permissions, paging and cursors, no lost events and no panic of the hub.  Market: for every interleaving there is one
  subscription for a symbol, no lost wake-up, every quote is fresh and was sent by its source, idle subscriptions
  are cancelled, shutdown ends; candles are complete, ordered and inside their window.  Event loop: executions
  keep their schedule and do not overlap, no due event is overslept, stopping drains.  Memory cabinet: its
  limits hold after every sequence of operations and failures, a reported outcome is what happened, a saved memory is
  recalled.  Agent runs: whatever fails and however often the server restarts, every queued wake-up is handed over once
  and in order, an event ends once, a session has one working goroutine and none of its wake-ups is stranded, a stop hands
  everything over to the next start, and the event tools report what happened.  Errors: an error answer of a
  trading endpoint other than 500 means nothing was executed, with the one exception stated there; a 500 may follow a commit
  that was carried out although it was reported as failed.

  \<^bold>\<open>Bounds and termination.\<close>  All functions are total and no fuel is used: loops run over finite lists of rows, a round and
  a request always return.  Quantities are binary64 values, integers of the database are \<open>int\<close> (the bounds of
  \<^verbatim>\<open>strconv.Atoi\<close> and of the page offset are checked where the code checks them).

  \<^bold>\<open>Concurrency.\<close>  Transactions of one account are serialized by \<^verbatim>\<open>LockAccount\<close> (by the single connection on sqlite), and a
  service operation is a sequence of transactions and reads.  A transaction may start in any state, so the rules of
  \<open>dbstep\<close> and the invariants cover every interleaving of transactions; statements about a whole operation are
  about an operation that runs alone.

  \<^bold>\<open>Parameters.\<close>  AES-GCM, base64, HMAC-SHA256, the Unicode case tables beyond ASCII, the text of wrapped errors, the order
  of additions in a SQL \<^verbatim>\<open>SUM\<close> and the market's answers (\<open>GetPrice\<close>, for which \<open>MarketProps\<close> says what they may be) are fields of
  the environment; the network, the text level of JSON and \<^verbatim>\<open>strconv.ParseFloat\<close> are arguments of the exchange client.  \<open>cryptoOK\<close> (\<open>Tokens\<close>) is the
  documented behaviour of the cryptographic packages; \<open>plainEnv\<close> and \<open>keyedEnv\<close> satisfy it.

  \<^bold>\<open>Not modelled.\<close>  The socket loop of server-sent events (\<^verbatim>\<open>/v1/messages/stream\<close>) and the list of subscriptions
  (\<^verbatim>\<open>/v1/market/subscriptions\<close>), two endpoints of the USER that are not in \<open>endpoint\<close>; logging, configuration files, process start-up and shutdown,
  schema migrations; human-readable error texts; the columns \<^verbatim>\<open>UpdatedAt\<close>.  Of the agent server: the loop that alternates model
  requests and tool calls inside a run (a run is its claim, its tool calls and its end), the text of the requests to the
  language model and of the restart and recovery contexts, conversations and history files (a history file that cannot
  be written is a failing transaction), the clients of the backend interface and the exchange of samples with it, read-only listings and monitoring.
  The middleware gateway, the model provider server and the web front end are separate programs: proxies and adapters to
  external services, whose behaviour is that of the services behind them.
\<close>

section \<open>Runs of the backend\<close>

text \<open>
  What the process does after start-up (\<^verbatim>\<open>backend/cmd/server\<close>): it serves requests and, on every tick of the
  engine's timer, runs one round of the matching engine.
\<close>

datatype action = Request string params endpoint | Round

fun act :: "action \<Rightarrow> unit M" where
  "act (Request header ps ep) = andThen (serve header ps ep) (ret ())"
| "act Round = andThen Tick (ret ())"

definition runAll :: "action list \<Rightarrow> unit M" where
  "runAll acts = forM acts act"

lemma act_follows: "follows (act a)"
  by (cases a) (auto intro!: follows_andThen serve_follows Tick_follows follows_basic)

lemma runAll_follows: "follows (runAll acts)"
  unfolding runAll_def by (intro follows_forM act_follows)

lemma runAll_reachable: "reachable (wdb (snd (runAll acts e (worldOf emptyDB))))"
  using follows_reachable [OF runAll_follows] reachable_init by simp

lemma act_errorFree: "errorFree (act a)"
  by (cases a) (auto simp: andThen_def Tick_errorFree intro!: errorFree_intros serve_errorFree)

text \<open>
  (C1) Every run of the backend refines the state machine of the books: from empty tables, any sequence of
  requests and engine rounds, with any failures of the database, the clock, the random source and the quotes
  in between, ends in a reachable state, and no request or round stops the process.
\<close>

theorem backend_refines_steps:
  "fst (runAll acts e (worldOf emptyDB)) = Inr () \<and> reachable (wdb (snd (runAll acts e (worldOf emptyDB))))"
proof
  have "errorFree (forM as act)" for as
    by (induction as) (auto simp: andThen_def intro!: errorFree_intros act_errorFree)
  then show "fst (runAll acts e (worldOf emptyDB)) = Inr ()"
    unfolding runAll_def errorFree_def by (metis fst_conv old.unit.exhaust)
qed (rule runAll_reachable)

section \<open>A small history\<close>

definition sampleAccount :: account where
  "sampleAccount = demoAccount\<lparr>accInitialBalance := Fin 10000, accBalance := Fin 10000\<rparr>"

definition sampleStart :: db where
  "sampleStart = emptyDB\<lparr>accounts := [sampleAccount]\<rparr>"

definition sampleOrder :: placeOrderInput where
  "sampleOrder = \<lparr>inMarket = ''crypto'', inSymbol = ''BTCUSDT'', inProduct = ''spot'', inSide = ''buy'', inType = ''market'',
     inQuantity = Fin 2, inPrice = 0, inLeverage = 0, inStopLoss = 0, inTakeProfit = 0, inSource = noSource\<rparr>"

definition freeEnv :: env where
  "freeEnv = plainEnv\<lparr>takerFee := 0\<rparr>"

definition sampleDB :: db where
  "sampleDB = wdb (snd (PlaceOrder ''acc_1'' sampleOrder freeEnv (worldOf sampleStart)))"

lemma sample_create: "dbstep emptyDB sampleStart"
proof -
  have "newAccountOK sampleAccount" by code_simp
  from dbstep.create [OF this, of emptyDB] show ?thesis by (simp add: sampleStart_def emptyDB_def noClash_def)
qed

lemma sample_steps: "dbstep\<^sup>*\<^sup>* sampleStart sampleDB"
  using PlaceOrder_follows [of "''acc_1''" sampleOrder] by (simp add: follows_def keeps_def sampleDB_def)

lemma sample_reachable: "reachable sampleDB"
  using sample_steps sample_create by (simp add: reachable_def)

text \<open>The order was filled: one trade, one position, one ledger entry.\<close>

lemma sample_filled:
  "case PlaceOrder ''acc_1'' sampleOrder freeEnv (worldOf sampleStart) of
     (r, w') \<Rightarrow> map ordStatus (orders (wdb w')) = [OrderFilled] \<and> map trdQuantity (trades (wdb w')) = [Fin 2] \<and>
       map posQuantity (positions (wdb w')) = [Fin 2] \<and> map ledSeq (ledger (wdb w')) = [1]"
  by code_simp

lemma sample_rows: "length (trades sampleDB) = 1" "length (orders sampleDB) = 1" "length (positions sampleDB) = 1"
  "length (ledger sampleDB) = 1"
  using sample_filled by (auto simp: sampleDB_def dest: map_eq_imp_length_eq split: prod.splits)

section \<open>Invariants of every reachable state\<close>

text \<open>
  (C33) Identity of rows: in every reachable state account, order, position and trade identifiers, user names and
  stored tokens are unique, an account has at most one position per instrument and product, and the ledger
  is numbered strictly upwards.
\<close>

theorem rows_are_unique:
  assumes "reachable d"
  shows "distinct (map accID (accounts d)) \<and> distinct (map accUserName (accounts d)) \<and> distinct (map accToken (accounts d)) \<and>
    distinct (map ordID (orders d)) \<and> distinct (map posID (positions d)) \<and> distinct (map posKey (positions d)) \<and>
    distinct (map trdID (trades d)) \<and> sorted_wrt (<) (map ledSeq (ledger d))"
  using keys.of_reachable [OF assms] by (simp add: keysOK_def)

theorem rows_are_unique_witness: "distinct (map posKey (positions sampleDB)) \<and> length (positions sampleDB) = 1"
  using rows_are_unique [OF sample_reachable] sample_rows by simp

text \<open>
  (C3) Trades and filled orders correspond one to one: every trade belongs to exactly one filled order of the same
  account, instrument, side, quantity, price, fee, profit and source, and every filled order has its trade.
\<close>

theorem trades_match_orders:
  assumes "reachable d"
  shows "distinct (map trdOrderID (trades d)) \<and>
    (\<forall>t \<in> set (trades d). \<exists>x \<in> set (orders d). tradeOf x t) \<and>
    (\<forall>x \<in> set (orders d). ordStatus x = OrderFilled \<longrightarrow> (\<exists>t \<in> set (trades d). tradeOf x t))"
  using traded.holds [OF assms] by (simp add: tradesOK_def)

theorem trades_match_orders_witness:
  "\<exists>t \<in> set (trades sampleDB). \<exists>x \<in> set (orders sampleDB). tradeOf x t"
  using trades_match_orders [OF sample_reachable] sample_rows(1) by (metis length_0_conv list.set_sel(1) zero_neq_one)

text \<open>
  (C4) An account that is stopped by the drawdown limit has no open orders: the stop and the cancellations are one
  transaction, and nothing can open an order until the USER releases the account.
\<close>

theorem stopped_accounts_are_quiet:
  assumes "reachable d" "r \<in> set (accounts d)" "accMaxDDStoppedAt r \<noteq> None" "x \<in> set (orders d)" "ordAccountID x = accID r"
  shows "ordStatus x \<noteq> OrderOpen"
  using quiet.holds [OF assms(1)] assms(2-5) by (auto simp: stoppedQuiet_def openOrders_empty)

text \<open>An account with a very small limit: it has an open order, and the first check stops it.\<close>

definition tinyAccount :: account where
  "tinyAccount = sampleAccount\<lparr>accMaxDD := Some (Fin (1 / 2 ^ 40)), accMaxDDBaselineEquity := Some (Fin 10000)\<rparr>"

definition tinyOrder :: order where
  "tinyOrder = order0\<lparr>ordID := ''ord_1'', ordAccountID := ''acc_1'', ordMarket := Crypto, ordSymbol := ''BTCUSDT'',
     ordProduct := ProductSpot, ordSide := SideBuy, ordType := OrderLimit, ordQuantity := Fin 1, ordPrice := Fin 90,
     ordStatus := OrderOpen\<rparr>"

definition tinyDB :: db where
  "tinyDB = logged (emptyDB\<lparr>accounts := [tinyAccount], orders := [tinyOrder]\<rparr>) [(placedEntry tinyOrder, 1)]"

definition tinyHalted :: db where
  "tinyHalted = logged (tinyDB\<lparr>accounts := tbl_save accID (tinyAccount\<lparr>accMaxDDStoppedAt := Some 5\<rparr>) (accounts tinyDB),
     orders := cancelAll (openOrders ''acc_1'' tinyDB) (orders tinyDB)\<rparr>)
     (zip (map (\<lambda>x. canceledEntry ''acc_1'' x noSource) (openOrders ''acc_1'' tinyDB)) [6] @
      [(riskEntry ''acc_1'' LedgerMaxDDTriggered (Fin 10000), 7)])"

lemma tiny_steps: "dbstep (emptyDB\<lparr>accounts := [tinyAccount]\<rparr>) tinyDB" "dbstep emptyDB (emptyDB\<lparr>accounts := [tinyAccount]\<rparr>)"
proof -
  have "newAccountOK tinyAccount" by code_simp
  from dbstep.create [OF this, of emptyDB] show "dbstep emptyDB (emptyDB\<lparr>accounts := [tinyAccount]\<rparr>)"
    by (simp add: emptyDB_def noClash_def)
  have "limitOrderOK tinyOrder" by code_simp
  then show "dbstep (emptyDB\<lparr>accounts := [tinyAccount]\<rparr>) tinyDB"
    using dbstep.place [where d = "emptyDB\<lparr>accounts := [tinyAccount]\<rparr>" and x = tinyOrder and r = tinyAccount
        and t = zeroTime and t' = 1]
    by (simp add: emptyDB_def tinyDB_def tinyAccount_def sampleAccount_def demoAccount_def Active_def account0_def tinyOrder_def order0_def)
qed

lemma tiny_halts: "dbstep tinyDB tinyHalted"
proof (rule dbstep.stop)
  show "accountRow tinyDB ''acc_1'' = Some tinyAccount"
    by (simp add: tinyDB_def tinyAccount_def sampleAccount_def demoAccount_def)
  show "accMaxDDStoppedAt tinyAccount = None" by (simp add: tinyAccount_def sampleAccount_def demoAccount_def account0_def)
  have "\<not> Fin 10000 > EquityFloor (DrawdownLimits (Fin 10000) (Fin 10000) (Fin (1 / 2 ^ 40))) + maxDDStopTolerance" by code_simp
  then show "crossed Map.empty tinyDB tinyAccount (Fin 10000)"
    by (simp add: crossed_def tinyDB_def openPositions_def emptyDB_def tinyAccount_def sampleAccount_def)
  have "length (openOrders ''acc_1'' tinyDB) = 1" by (simp add: openOrders_def tinyDB_def tinyOrder_def)
  then show "stoppedNow ''acc_1'' tinyAccount (Fin 10000) tinyDB tinyHalted"
    unfolding stoppedNow_def
    by (intro exI [of _ 5] exI [of _ "accToken tinyAccount"] exI [of _ None] exI [of _ "[6]"] exI [of _ 7])
      (simp add: tinyHalted_def tinyDB_def tinyAccount_def sampleAccount_def demoAccount_def account0_def)
qed

theorem stopped_accounts_are_quiet_witness:
  "\<exists>r \<in> set (accounts tinyHalted). \<exists>x \<in> set (orders tinyHalted). accMaxDDStoppedAt r \<noteq> None \<and> ordStatus x \<noteq> OrderOpen"
proof -
  have d: "reachable tinyHalted"
    by (intro reachable_step [OF _ tiny_halts] reachable_step [OF _ tiny_steps(1)] reachable_step [OF reachable_init tiny_steps(2)])
  have r: "tinyAccount\<lparr>accMaxDDStoppedAt := Some 5\<rparr> \<in> set (accounts tinyHalted)"
    "accMaxDDStoppedAt (tinyAccount\<lparr>accMaxDDStoppedAt := Some 5\<rparr>) \<noteq> None"
    by (simp_all add: tinyHalted_def in_tbl_save)
  have x: "canceledRow tinyOrder \<in> set (orders tinyHalted)" "ordAccountID (canceledRow tinyOrder) = accID (tinyAccount\<lparr>accMaxDDStoppedAt := Some 5\<rparr>)"
    by (simp_all add: tinyHalted_def cancelAll_def openOrders_def tinyDB_def tinyOrder_def tbl_put_def canceledRow_def
        tinyAccount_def sampleAccount_def demoAccount_def)
  from stopped_accounts_are_quiet [OF d r x] r x(1) show ?thesis by blast
qed

text \<open>
  (C35) Nothing trades without an account: every position and every open order belongs to an existing account, and
  every open order is a limit order with a positive quantity and price that the rules admit.
\<close>

theorem open_orders_are_sound:
  assumes "reachable d"
  shows "(\<forall>p \<in> set (positions d). posAccountID p \<in> accID ` set (accounts d)) \<and>
    (\<forall>x \<in> set (orders d). ordStatus x = OrderOpen \<longrightarrow> ordAccountID x \<in> accID ` set (accounts d) \<and>
       ordType x = OrderLimit \<and> \<not> ordReduceOnly x \<and> \<not> ordQuantity x \<le> 0 \<and> \<not> ordPrice x \<le> 0 \<and>
       ordProduct x \<in> {ProductSpot, ProductFutures} \<and> ordSide x \<in> {SideBuy, SideSell})"
  using owned.holds [OF assms] limits.of_reachable [OF assms] by (auto simp: ownedOK_def openLimits_def limitOrderOK_def)

theorem open_orders_are_sound_witness: "\<exists>p \<in> set (positions sampleDB). posAccountID p \<in> accID ` set (accounts sampleDB)"
  using open_orders_are_sound [OF sample_reachable] sample_rows(3) by (metis length_0_conv list.set_sel(1) zero_neq_one)

text \<open>
  The risk configuration of every account is consistent: without a maximum drawdown there is no baseline and no
  stop mark, with one it is a percentage in \<open>(0, 100]\<close> and the baseline is set.
\<close>

theorem risk_configuration_valid:
  assumes "reachable d" "r \<in> set (accounts d)"
  shows "case accMaxDD r of
      None \<Rightarrow> accMaxDDBaselineEquity r = None \<and> accMaxDDStoppedAt r = None
    | Some m \<Rightarrow> 0 < m \<and> m \<le> Fin 100 \<and> accMaxDDBaselineEquity r \<noteq> None"
  using risk.of_reachable [OF assms(1)] assms(2) by (auto simp: riskOK_def maxDDValid_def split: option.splits)

theorem risk_configuration_valid_witness: "accMaxDDStoppedAt sampleAccount = None"
proof -
  have "reachable sampleStart" using reachable_step [OF reachable_init sample_create] .
  then have "case accMaxDD sampleAccount of None \<Rightarrow> accMaxDDBaselineEquity sampleAccount = None \<and> accMaxDDStoppedAt sampleAccount = None
    | Some m \<Rightarrow> 0 < m \<and> m \<le> Fin 100 \<and> accMaxDDBaselineEquity sampleAccount \<noteq> None"
    by (rule risk_configuration_valid) (simp add: sampleStart_def)
  then show ?thesis by (simp add: sampleAccount_def demoAccount_def account0_def)
qed

section \<open>History\<close>

lemma steps_history:
  assumes "dbstep\<^sup>*\<^sup>* d d'" "keysOK d"
  shows "(\<exists>ts. trades d' = trades d @ ts) \<and> (\<exists>ls. ledger d' = ledger d @ ls) \<and>
    (\<forall>x \<in> set (orders d). ordStatus x \<noteq> OrderOpen \<longrightarrow> x \<in> set (orders d'))"
  using assms(1)
proof (induction rule: rtranclp_induct)
  case (step b c)
  have "keysOK b" using keys.steps [OF step(1) assms(2)] .
  with step(3) step_history [OF step(2)] step_final_orders [OF step(2)] show ?case by (metis append.assoc)
qed auto

text \<open>
  (C34) History is append-only: whatever happens later, trades and ledger entries are only added behind the existing
  ones, and a filled, canceled or rejected order keeps every column for ever.
\<close>

theorem history_is_append_only:
  assumes "reachable d" "dbstep\<^sup>*\<^sup>* d d'"
  shows "(\<exists>ts. trades d' = trades d @ ts) \<and> (\<exists>ls. ledger d' = ledger d @ ls) \<and>
    (\<forall>x \<in> set (orders d). ordStatus x \<noteq> OrderOpen \<longrightarrow> x \<in> set (orders d'))"
  using steps_history [OF assms(2) keys.of_reachable [OF assms(1)]] .

text \<open>The sample history goes on with a second order.\<close>

definition sampleLater :: db where
  "sampleLater = wdb (snd (PlaceOrder ''acc_1'' sampleOrder freeEnv (worldOf sampleDB)))"

theorem history_is_append_only_witness:
  "\<exists>t l x. trades sampleDB = [t] \<and> take 1 (trades sampleLater) = [t] \<and> ledger sampleDB = [l] \<and> take 1 (ledger sampleLater) = [l] \<and>
     orders sampleDB = [x] \<and> ordStatus x = OrderFilled \<and> x \<in> set (orders sampleLater)"
proof -
  have later: "dbstep\<^sup>*\<^sup>* sampleDB sampleLater"
    using PlaceOrder_follows [of "''acc_1''" sampleOrder] by (simp add: follows_def keeps_def sampleLater_def)
  obtain t l x where rows: "trades sampleDB = [t]" "ledger sampleDB = [l]" "orders sampleDB = [x]"
    using sample_rows by (metis One_nat_def length_0_conv length_Suc_conv)
  have "ordStatus x = OrderFilled" using sample_filled rows(3) by (auto simp: sampleDB_def split: prod.splits)
  then show ?thesis using history_is_append_only [OF sample_reachable later] rows by auto
qed

text \<open>
  (C2) The ledger explains every balance: in every history in which a new account never reuses an identifier of the
  ledger, the balance of an account is its initial balance plus the recorded changes of its fills, added in
  the order of the ledger, and its drawdown events alternate and agree with its stop mark.
\<close>

theorem ledger_explains_balances:
  assumes "audited d" "r \<in> set (accounts d)"
  shows "accBalance r = foldl (+) (accInitialBalance r) (fillDeltas (accID r) (ledger d)) \<and>
    runRisk False (riskEvents (accID r) (ledger d)) = Some (accMaxDDStoppedAt r \<noteq> None)"
  using audited_OK [OF assms(1)] assms(2) by (simp add: auditOK_def)

theorem ledger_explains_balances_witness: "accBalance sampleAccount = foldl (+) (Fin 10000) (fillDeltas ''acc_1'' (ledger sampleStart))"
proof -
  have "freshIDs emptyDB sampleStart" by (simp add: freshIDs_def emptyDB_def)
  then have "audited sampleStart" by (rule audited.onward [OF audited.start sample_create])
  from ledger_explains_balances [OF this, of sampleAccount] show ?thesis
    by (simp add: sampleStart_def sampleAccount_def demoAccount_def)
qed

section \<open>A deviation\<close>

text \<open>
  Reduce-only orders are meant never to turn a position around.  The check compares with a tolerance that the fill does
  not have, so an order for a billionth more than is held leaves a short position of that size.
\<close>

definition heldOne :: position where
  "heldOne = position0\<lparr>posID := ''pos_1'', posAccountID := ''acc_1'', posSide := Long, posQuantity := Fin 1, posEntryPrice := Fin 100,
     posLeverage := Fin 1, posMargin := Fin 100\<rparr>"

definition dustQuantity :: float64 where
  "dustQuantity = Fin (281474976992131 / 281474976710656)"

lemma reduce_only_can_flip:
  "checkReduceOnly (Some heldOne) (closeOrder ''ord_1'' heldOne dustQuantity noSource []) = Inr () \<and>
   map_option posSide (fst (applyFill (Some heldOne) SideSell dustQuantity (Fin 100) (Fin 1))) = Some Short"
  by code_simp

end
